(* ===== verification/Prelude.thy ===== *)
theory Prelude
  imports Complex_Main "HOL-Library.Sublist"
begin

text \<open>
  Shared vocabulary of the development: Python exceptions and fallible
  computations, fields of raw JSON dictionaries, and the part of Python's
  string library the worker uses.

  Free text (program input and output, messages) is a list of Unicode code points,
  \<open>ptext\<close>; identifiers, keys, paths and verdicts are HOL strings, whose characters
  stand for the code points below 256. Messages of the source written in Chinese are given
  as the code points of the literal, with an English gloss in a comment.
\<close>

named_theorems res_simps \<open>rewrite rules for fallible computations\<close>
named_theorems str_simps \<open>rewrite rules for Python string functions\<close>

section \<open>Exceptions and fallible computations\<close>

type_synonym ptext = "nat list"

definition asc :: "string \<Rightarrow> ptext" where
  "asc s = map of_char s"

text \<open>
  The exceptions the modelled code raises itself or lets through. \<open>ExternalError\<close>
  stands for an exception of a package outside the repository (sandbox, storage SDK),
  with its message.
\<close>

datatype exn =
    KeyError string
  | TypeError ptext
  | AttributeError ptext
  | ValueError ptext
  | RuntimeError ptext
  | OSError ptext
  | OverflowError ptext
  | ExternalError ptext

type_synonym 'a res = "exn + 'a"

text \<open>A piece of text between single quotes, as Python's \<^verbatim>\<open>repr\<close> prints a simple string.\<close>

definition quoted :: "string \<Rightarrow> string" where
  "quoted s = CHR 0x27 # s @ [CHR 0x27]"

text \<open>Python's \<^verbatim>\<open>str(exc)\<close>: the message, except that a \<^verbatim>\<open>KeyError\<close> prints the \<^verbatim>\<open>repr\<close> of its key.\<close>

fun exn_str :: "exn \<Rightarrow> ptext" where
  "exn_str (KeyError k) = asc (quoted k)"
| "exn_str (TypeError m) = m"
| "exn_str (AttributeError m) = m"
| "exn_str (ValueError m) = m"
| "exn_str (RuntimeError m) = m"
| "exn_str (OSError m) = m"
| "exn_str (OverflowError m) = m"
| "exn_str (ExternalError m) = m"

definition rbind :: "'a res \<Rightarrow> ('a \<Rightarrow> 'b res) \<Rightarrow> 'b res" where
  "rbind m f = (case m of Inl e \<Rightarrow> Inl e | Inr x \<Rightarrow> f x)"

fun mapr :: "('a \<Rightarrow> 'b res) \<Rightarrow> 'a list \<Rightarrow> 'b list res" where
  "mapr f [] = Inr []"
| "mapr f (x # xs) = rbind (f x) (\<lambda>y. rbind (mapr f xs) (\<lambda>ys. Inr (y # ys)))"

section \<open>Fields of raw dictionaries\<close>

text \<open>
  A key of a JSON dictionary is absent, present with \<^verbatim>\<open>null\<close>, or present with a
  value. \<open>dget\<close> is \<^verbatim>\<open>d.get(k)\<close>, \<open>dindex\<close> is \<^verbatim>\<open>d[k]\<close>.
\<close>

datatype 'a field = Absent | JNull | Val 'a

fun dget :: "'a field \<Rightarrow> 'a option" where
  "dget Absent = None"
| "dget JNull = None"
| "dget (Val v) = Some v"

text \<open>\<^verbatim>\<open>d.get(k, default)\<close>: the default only replaces an absent key, not a null.\<close>

fun dget_default :: "'a \<Rightarrow> 'a field \<Rightarrow> 'a option" where
  "dget_default d Absent = Some d"
| "dget_default d JNull = None"
| "dget_default d (Val v) = Some v"

fun dindex :: "string \<Rightarrow> 'a field \<Rightarrow> 'a option res" where
  "dindex k Absent = Inl (KeyError k)"
| "dindex k JNull = Inr None"
| "dindex k (Val v) = Inr (Some v)"

text \<open>What Python raises when a \<^verbatim>\<open>None\<close> is indexed, called with \<^verbatim>\<open>.get\<close>, or used in arithmetic.\<close>

definition none_subscript :: exn where
  "none_subscript = TypeError (asc (quoted ''NoneType'' @ '' object is not subscriptable''))"

definition none_attr :: "string \<Rightarrow> exn" where
  "none_attr a = AttributeError (asc (quoted ''NoneType'' @ '' object has no attribute '' @ quoted a))"

definition none_operand :: "string \<Rightarrow> exn" where
  "none_operand op = TypeError (asc (''unsupported operand type(s) for '' @ op))"

definition need :: "exn \<Rightarrow> 'a option \<Rightarrow> 'a res" where
  "need e x = (case x of None \<Rightarrow> Inl e | Some v \<Rightarrow> Inr v)"

text \<open>Python's \<^verbatim>\<open>x or y\<close> on an optional integer and on an optional string: zero, empty and \<^verbatim>\<open>None\<close> are falsy.\<close>

definition int_or :: "int option \<Rightarrow> int \<Rightarrow> int" where
  "int_or x d = (case x of None \<Rightarrow> d | Some v \<Rightarrow> if v = 0 then d else v)"

definition str_or :: "string option \<Rightarrow> string \<Rightarrow> string" where
  "str_or x d = (case x of None \<Rightarrow> d | Some v \<Rightarrow> if v = [] then d else v)"

section \<open>Python strings\<close>

text \<open>\<^verbatim>\<open>str(n)\<close> for an integer.\<close>

definition digits :: string where
  "digits = ''0123456789''"

definition digit :: "nat \<Rightarrow> char" where
  "digit n = digits ! (n mod 10)"

fun str_nat :: "nat \<Rightarrow> string" where
  "str_nat n = (if n < 10 then [digit n] else str_nat (n div 10) @ [digit n])"

declare str_nat.simps [simp del]

definition str_int :: "int \<Rightarrow> string" where
  "str_int i = (if i < 0 then CHR ''-'' # str_nat (nat (- i)) else str_nat (nat i))"

definition lstrip_by :: "('a \<Rightarrow> bool) \<Rightarrow> 'a list \<Rightarrow> 'a list" where
  "lstrip_by P s = dropWhile P s"

definition rstrip_by :: "('a \<Rightarrow> bool) \<Rightarrow> 'a list \<Rightarrow> 'a list" where
  "rstrip_by P s = rev (dropWhile P (rev s))"

definition strip_by :: "('a \<Rightarrow> bool) \<Rightarrow> 'a list \<Rightarrow> 'a list" where
  "strip_by P s = rstrip_by P (lstrip_by P s)"

text \<open>The code points below 256 for which \<^verbatim>\<open>str.isspace()\<close> holds.\<close>

definition is_space :: "char \<Rightarrow> bool" where
  "is_space c = (let n = (of_char c :: nat) in
     (9 \<le> n \<and> n \<le> 13) \<or> (28 \<le> n \<and> n \<le> 32) \<or> n = 133 \<or> n = 160)"

definition py_strip :: "string \<Rightarrow> string" where
  "py_strip s = strip_by is_space s"

definition py_lower_char :: "char \<Rightarrow> char" where
  "py_lower_char c = (let n = (of_char c :: nat) in
     if (65 \<le> n \<and> n \<le> 90) \<or> (192 \<le> n \<and> n \<le> 222 \<and> n \<noteq> 215) then char_of (n + 32) else c)"

definition py_lower :: "string \<Rightarrow> string" where
  "py_lower s = map py_lower_char s"

text \<open>\<^verbatim>\<open>str.upper()\<close> on ASCII letters, for the names of HTTP methods and log levels.\<close>

definition py_upper :: "string \<Rightarrow> string" where
  "py_upper s = map (\<lambda>c. if 97 \<le> (of_char c :: nat) \<and> (of_char c :: nat) \<le> 122 then char_of ((of_char c :: nat) - 32) else c) s"

definition startswith :: "'a list \<Rightarrow> 'a list \<Rightarrow> bool" where
  "startswith s p = (take (length p) s = p)"

definition endswith :: "'a list \<Rightarrow> 'a list \<Rightarrow> bool" where
  "endswith s p = (length p \<le> length s \<and> drop (length s - length p) s = p)"

text \<open>\<^verbatim>\<open>s.split(sep)\<close> for a one-character separator: never the empty list.\<close>

fun split_on :: "'a \<Rightarrow> 'a list \<Rightarrow> 'a list list" where
  "split_on c [] = [[]]"
| "split_on c (x # xs) =
     (if x = c then [] # split_on c xs
      else (case split_on c xs of [] \<Rightarrow> [[x]] | w # ws \<Rightarrow> (x # w) # ws))"

text \<open>How \<^verbatim>\<open>pathlib\<close> splits a relative path: empty and \<^verbatim>\<open>.\<close> components disappear.\<close>

definition path_parts :: "string \<Rightarrow> string list" where
  "path_parts s = filter (\<lambda>w. w \<noteq> [] \<and> w \<noteq> ''.'') (split_on (CHR ''/'') s)"

text \<open>\<^verbatim>\<open>sep.join(parts)\<close>.\<close>

fun join_with :: "'a list \<Rightarrow> 'a list list \<Rightarrow> 'a list" where
  "join_with sep [] = []"
| "join_with sep [w] = w"
| "join_with sep (w # ws) = w @ sep @ join_with sep ws"

section \<open>Ordered sets of keys\<close>

text \<open>\<^verbatim>\<open>list(dict.fromkeys(xs))\<close>: the distinct elements in the order of first occurrence.\<close>

definition dedup_step :: "'a list \<Rightarrow> 'a \<Rightarrow> 'a list" where
  "dedup_step os x = (if x \<in> set os then os else os @ [x])"

definition dedup :: "'a list \<Rightarrow> 'a list" where
  "dedup xs = foldl dedup_step [] xs"

section \<open>Facts\<close>

lemma foldl_dedup_step:
  "distinct os \<Longrightarrow> distinct (foldl dedup_step os xs) \<and> set (foldl dedup_step os xs) = set os \<union> set xs"
  by (induction xs arbitrary: os) (auto simp: dedup_step_def)

lemma distinct_dedup [simp]: "distinct (dedup xs)"
  using foldl_dedup_step [of "[]" xs] by (simp add: dedup_def)

lemma set_dedup [simp]: "set (dedup xs) = set xs"
  using foldl_dedup_step [of "[]" xs] by (simp add: dedup_def)

lemma rbind_simps [simp, res_simps]:
  "rbind (Inl e) f = Inl e"
  "rbind (Inr x) f = f x"
  by (simp_all add: rbind_def)

lemma rbind_eq_Inr [res_simps]: "rbind m f = Inr y \<longleftrightarrow> (\<exists>x. m = Inr x \<and> f x = Inr y)"
  by (cases m) auto

lemma rbind_eq_Inl: "rbind m f = Inl e \<longleftrightarrow> m = Inl e \<or> (\<exists>x. m = Inr x \<and> f x = Inl e)"
  by (cases m) auto

lemma rbind_cong [fundef_cong]:
  "m = m' \<Longrightarrow> (\<And>x. m' = Inr x \<Longrightarrow> f x = g x) \<Longrightarrow> rbind m f = rbind m' g"
  by (cases m) auto

lemma rbind_split:
  "P (rbind m f) \<longleftrightarrow> (\<forall>e. m = Inl e \<longrightarrow> P (Inl e)) \<and> (\<forall>x. m = Inr x \<longrightarrow> P (f x))"
  by (cases m) auto

lemma mapr_eq_Inr: "mapr f xs = Inr ys \<longleftrightarrow> list_all2 (\<lambda>x y. f x = Inr y) xs ys"
proof (induction xs arbitrary: ys)
  case Nil
  then show ?case by auto
next
  case (Cons x xs)
  then show ?case by (cases ys) (auto simp: rbind_eq_Inr)
qed

lemma mapr_length: "mapr f xs = Inr ys \<Longrightarrow> length ys = length xs"
  by (auto simp: mapr_eq_Inr dest: list_all2_lengthD)

lemma mapr_nth: "mapr f xs = Inr ys \<Longrightarrow> i < length xs \<Longrightarrow> f (xs ! i) = Inr (ys ! i)"
  by (auto simp: mapr_eq_Inr list_all2_conv_all_nth)

lemma mapr_Inl: "mapr f xs = Inl e \<Longrightarrow> \<exists>x\<in>set xs. f x = Inl e"
  by (induction xs) (auto simp: rbind_eq_Inl)

lemma need_simps [simp, res_simps]:
  "need e None = Inl e"
  "need e (Some v) = Inr v"
  by (simp_all add: need_def)

lemma need_eq_Inr [res_simps]: "need e x = Inr v \<longleftrightarrow> x = Some v"
  by (cases x) auto

lemma dindex_eq_Inr [res_simps]: "dindex k f = Inr x \<longleftrightarrow> f \<noteq> Absent \<and> dget f = x"
  by (cases f) auto

lemma int_or_simps [simp]:
  "int_or None d = d"
  "int_or (Some v) d = (if v = 0 then d else v)"
  by (simp_all add: int_or_def)

lemma str_or_simps [simp]:
  "str_or None d = d"
  "str_or (Some v) d = (if v = [] then d else v)"
  by (simp_all add: str_or_def)

subsection \<open>Stripping\<close>

lemma dropWhile_idem [simp]: "dropWhile P (dropWhile P xs) = dropWhile P xs"
  by (induction xs) auto

lemma rstrip_by_Nil [simp]: "rstrip_by P [] = []"
  by (simp add: rstrip_by_def)

lemma rstrip_by_snoc: "rstrip_by P (xs @ [x]) = (if P x then rstrip_by P xs else xs @ [x])"
  by (simp add: rstrip_by_def)

lemma rstrip_by_prefix: "prefix (rstrip_by P xs) xs"
  by (metis rstrip_by_def rev_rev_ident suffix_dropWhile suffix_to_prefix)

lemma hd_rstrip_by: "rstrip_by P xs \<noteq> [] \<Longrightarrow> hd (rstrip_by P xs) = hd xs"
  by (metis hd_append2 prefix_def rstrip_by_prefix)

lemma strip_by_hd: "strip_by P s \<noteq> [] \<Longrightarrow> \<not> P (hd (strip_by P s))"
  unfolding strip_by_def lstrip_by_def
  by (metis hd_dropWhile hd_rstrip_by rstrip_by_Nil)

lemma strip_by_last: "strip_by P s \<noteq> [] \<Longrightarrow> \<not> P (last (strip_by P s))"
  unfolding strip_by_def rstrip_by_def
  by (metis hd_dropWhile hd_rev rev_is_Nil_conv rev_rev_ident)

lemma dropWhile_hd: "xs = [] \<or> \<not> P (hd xs) \<Longrightarrow> dropWhile P xs = xs"
  by (cases xs) auto

lemma strip_by_fixed:
  assumes "s = [] \<or> (\<not> P (hd s) \<and> \<not> P (last s))"
  shows "strip_by P s = s"
  using assms
  by (auto simp: strip_by_def lstrip_by_def rstrip_by_def dropWhile_hd hd_rev)

lemma strip_by_idem [simp]: "strip_by P (strip_by P s) = strip_by P s"
  by (rule strip_by_fixed) (auto dest: strip_by_hd strip_by_last)

subsection \<open>Splitting and joining\<close>

lemma split_on_not_Nil [simp]: "split_on c s \<noteq> []"
  by (induction s) (auto split: list.splits)

lemma split_on_no_sep: "c \<notin> set s \<Longrightarrow> split_on c s = [s]"
  by (induction s) auto

lemma split_on_parts: "w \<in> set (split_on c s) \<Longrightarrow> c \<notin> set w"
  by (induction s arbitrary: w) (auto split: list.splits if_splits)

lemma split_on_append_no_sep:
  "c \<notin> set t \<Longrightarrow> split_on c (s @ t) = butlast (split_on c s) @ [last (split_on c s) @ t]"
proof (induction s)
  case Nil
  then show ?case by (simp add: split_on_no_sep)
next
  case (Cons x s)
  then show ?case
    by (cases "split_on c s") (auto split: list.splits)
qed

lemma join_split_on: "join_with [c] (split_on c s) = s"
proof (induction s)
  case Nil
  then show ?case by simp
next
  case (Cons x s)
  then show ?case
  proof (cases "split_on c s")
    case (Cons w ws)
    with \<open>join_with [c] (split_on c s) = s\<close> show ?thesis
      by (cases ws) auto
  qed simp
qed

lemma endswith_append [simp]: "endswith (s @ p) p"
  by (simp add: endswith_def)

lemma startswith_append [simp]: "startswith (p @ s) p"
  by (simp add: startswith_def)

subsection \<open>Lists related position by position\<close>

lemma list_all2_zip_left:
  "list_all2 R xs ys \<Longrightarrow> list_all2 (\<lambda>p q. R (fst p) (fst q) \<and> snd p = snd q) (zip xs zs) (zip ys zs)"
proof (induction xs ys arbitrary: zs rule: list_all2_induct)
  case (Cons x xs y ys)
  then show ?case by (cases zs) auto
qed simp

lemma list_all2_filter:
  "list_all2 Q ps qs \<Longrightarrow> (\<And>p q. Q p q \<Longrightarrow> P p = P q) \<Longrightarrow> list_all2 Q (filter P ps) (filter P qs)"
  by (induction ps qs rule: list_all2_induct) auto

lemma list_all2_set1: "list_all2 R xs ys \<Longrightarrow> x \<in> set xs \<Longrightarrow> \<exists>y\<in>set ys. R x y"
  by (induction xs ys rule: list_all2_induct) auto

lemma list_all2_set2: "list_all2 R xs ys \<Longrightarrow> y \<in> set ys \<Longrightarrow> \<exists>x\<in>set xs. R x y"
  by (induction xs ys rule: list_all2_induct) auto

subsection \<open>Printed numbers\<close>

lemma digit_inj: "digit m = digit n \<Longrightarrow> m mod 10 = n mod 10"
proof -
  have "distinct digits" "length digits = 10" by (simp_all add: digits_def)
  then show "digit m = digit n \<Longrightarrow> ?thesis"
    unfolding digit_def by (subst (asm) nth_eq_iff_index_eq) auto
qed

lemma str_nat_not_Nil [simp]: "str_nat n \<noteq> []"
  by (subst str_nat.simps) simp

lemma str_nat_inj: "str_nat m = str_nat n \<Longrightarrow> m = n"
proof (induction m arbitrary: n rule: str_nat.induct)
  case (1 m)
  have small: "m = n" if "m < 10" "n < 10" using 1(2) that
    by (subst (asm) (1 2) str_nat.simps) (auto dest: digit_inj)
  have mixed: False if "\<not> a < 10" "b < 10" "str_nat a = str_nat b" for a b
    using that by (subst (asm) (1 2) str_nat.simps) simp
  have "m div 10 = n div 10 \<and> m mod 10 = n mod 10" if "\<not> m < 10" "\<not> n < 10"
  proof -
    have "str_nat (m div 10) @ [digit m] = str_nat (n div 10) @ [digit n]"
      using 1(2) that by (subst (asm) (1 2) str_nat.simps) simp
    then have "str_nat (m div 10) = str_nat (n div 10)" and d: "digit m = digit n" by simp_all
    with 1(1)[OF that(1)] digit_inj[OF d] show ?thesis by blast
  qed
  then have big: "m = n" if "\<not> m < 10" "\<not> n < 10"
    using that by (metis div_mult_mod_eq)
  show ?case using small big mixed[of m n] mixed[of n m] 1(2) by metis
qed

lemma str_nat_digits: "set (str_nat n) \<subseteq> set digits"
proof (induction n rule: str_nat.induct)
  case (1 n)
  have "digit n \<in> set digits" unfolding digit_def by (rule nth_mem) (simp add: digits_def)
  with 1 show ?case by (subst str_nat.simps) simp
qed

lemma str_int_inj: "str_int i = str_int j \<Longrightarrow> i = j"
proof -
  have minus: "CHR ''-'' # s \<noteq> str_nat n" for s n
  proof
    assume "CHR ''-'' # s = str_nat n"
    then have "CHR ''-'' \<in> set (str_nat n)" by (metis list.set_intros(1))
    with str_nat_digits[of n] show False by (auto simp: digits_def)
  qed
  show "str_int i = str_int j \<Longrightarrow> ?thesis"
    by (auto simp: str_int_def minus minus[symmetric] split: if_splits dest!: str_nat_inj)
qed

end
