(* ===== verification/PyFloat.thy ===== *)
theory PyFloat
  imports Prelude "HOL-Library.Log_Nat"
begin

text \<open>
  Python's \<^verbatim>\<open>float\<close>. A finite binary64 number is a rational; an arithmetic
  operation is the exact rational operation followed by \<open>fl\<close>, rounding to
  nearest with ties to even at 53 bits, gradual underflow included. Overflow to infinity
  (magnitudes from \<open>2 ^ 1024\<close> on) and NaN are not modelled: scores, times and sizes
  of the worker are far below. \<^verbatim>\<open>sum()\<close> over floats is the left-to-right sum of
  Python 3.11, the interpreter of the repository's image.
\<close>

section \<open>Rounding\<close>

definition ilog2 :: "rat \<Rightarrow> int" where
  "ilog2 x = (let (p, q) = quotient_of x;
                  d = int (floorlog 2 (nat p)) - int (floorlog 2 (nat q))
              in if power_int 2 d \<le> x then d else d - 1)"

text \<open>The same with bit lengths of integers, for evaluation.\<close>

lemma ilog2_code [code]:
  "ilog2 x = (let (p, q) = quotient_of x; d = bitlen p - bitlen q
              in if power_int 2 d \<le> x then d else d - 1)"
  by (simp add: ilog2_def bitlen_def)

text \<open>Nearest integer, ties to even.\<close>

definition rne :: "rat \<Rightarrow> int" where
  "rne r = (let f = floor r; d = r - of_int f in
     if d < 1 / 2 then f else if 1 / 2 < d then f + 1 else if even f then f else f + 1)"

definition fl_exp :: "rat \<Rightarrow> int" where
  "fl_exp x = max (ilog2 x) (- 1022) - 52"

definition fl_pos :: "rat \<Rightarrow> rat" where
  "fl_pos x = of_int (rne (x / power_int 2 (fl_exp x))) * power_int 2 (fl_exp x)"

definition fl :: "rat \<Rightarrow> rat" where
  "fl x = (if x = 0 then 0 else if 0 < x then fl_pos x else - fl_pos (- x))"

definition fadd :: "rat \<Rightarrow> rat \<Rightarrow> rat" where
  "fadd x y = fl (x + y)"

definition fsub :: "rat \<Rightarrow> rat \<Rightarrow> rat" where
  "fsub x y = fl (x - y)"

definition fmul :: "rat \<Rightarrow> rat \<Rightarrow> rat" where
  "fmul x y = fl (x * y)"

definition fdiv :: "rat \<Rightarrow> rat \<Rightarrow> rat" where
  "fdiv x y = fl (x / y)"

definition fsum :: "rat list \<Rightarrow> rat" where
  "fsum xs = foldl fadd 0 xs"

text \<open>A value that a binary64 variable can hold.\<close>

definition is_float :: "rat \<Rightarrow> bool" where
  "is_float x = (fl x = x)"

text \<open>\<^verbatim>\<open>int(x)\<close>: truncation towards zero.\<close>

definition py_trunc :: "rat \<Rightarrow> int" where
  "py_trunc x = (if 0 \<le> x then floor x else ceiling x)"

section \<open>The exponent\<close>

lemma floorlog_int_bounds:
  assumes "0 < p"
  shows "power_int 2 (int (floorlog 2 (nat p)) - 1) \<le> (of_int p :: rat)"
    and "(of_int p :: rat) < power_int 2 (int (floorlog 2 (nat p)))"
proof -
  let ?n = "nat p" and ?b = "floorlog 2 (nat p)"
  have n: "0 < ?n" using assms by simp
  from floorlog_bounds [OF n, of 2] have lo: "2 ^ (?b - 1) \<le> ?n" and hi: "?n < 2 ^ ?b" by auto
  have b: "1 \<le> ?b" using hi n by (cases ?b) auto
  have p: "(of_int p :: rat) = of_nat ?n" using assms by simp
  have "power_int 2 (int ?b - 1) = (2 :: rat) ^ (?b - 1)"
    using b by (simp add: power_int_def nat_diff_distrib')
  also have "\<dots> = of_nat (2 ^ (?b - 1))" by simp
  also have "\<dots> \<le> of_nat ?n" using lo by (simp only: of_nat_le_iff)
  finally show "power_int 2 (int ?b - 1) \<le> (of_int p :: rat)" unfolding p .
  have "(of_nat ?n :: rat) < of_nat (2 ^ ?b)" using hi by (simp only: of_nat_less_iff)
  then show "(of_int p :: rat) < power_int 2 (int ?b)" unfolding p by simp
qed

lemma ilog2_bounds:
  assumes "0 < x"
  shows "power_int 2 (ilog2 x) \<le> x" and "x < power_int 2 (ilog2 x + 1)"
proof -
  obtain p q where pq: "quotient_of x = (p, q)" by (cases "quotient_of x")
  have q: "0 < q" using quotient_of_denom_pos [OF pq] .
  have x: "x = of_int p / of_int q" using quotient_of_div [OF pq] .
  have p: "0 < p" using assms q unfolding x by (simp add: zero_less_divide_iff)
  define a where "a = int (floorlog 2 (nat p))"
  define b where "b = int (floorlog 2 (nat q))"
  note P = floorlog_int_bounds [OF p, folded a_def] and Q = floorlog_int_bounds [OF q, folded b_def]
  have e: "ilog2 x = (if power_int 2 (a - b) \<le> x then a - b else a - b - 1)"
    by (simp add: ilog2_def pq a_def b_def)
  have "x < power_int 2 a / power_int 2 (b - 1)"
    unfolding x using P Q p q by (intro frac_less) auto
  also have "\<dots> = power_int 2 (a - b + 1)"
    by (simp add: power_int_diff power_int_add)
  finally have up: "x < power_int 2 (a - b + 1)" .
  have "power_int 2 (a - b - 1) = power_int 2 (a - 1) / (power_int 2 b :: rat)"
    by (simp add: power_int_diff)
  also have "\<dots> \<le> x"
    unfolding x using P Q p q by (intro frac_le) auto
  finally have lo: "power_int 2 (a - b - 1) \<le> x" .
  show "power_int 2 (ilog2 x) \<le> x" using lo by (simp add: e)
  show "x < power_int 2 (ilog2 x + 1)" using up by (auto simp: e)
qed

lemma power_int2_le: "a \<le> b \<Longrightarrow> power_int 2 a \<le> (power_int 2 b :: rat)"
  by (simp add: power_int_increasing)

lemma power_int2_less: "power_int 2 a < (power_int 2 b :: rat) \<longleftrightarrow> a < b"
  by (meson linorder_not_less one_less_numeral_iff power_int2_le power_int_strict_increasing
      semiring_norm(76))

lemma ilog2_unique:
  assumes "0 < x" and "power_int 2 e \<le> x" and "x < power_int 2 (e + 1)"
  shows "ilog2 x = e"
proof -
  have "power_int 2 (ilog2 x) < (power_int 2 (e + 1) :: rat)"
    using ilog2_bounds(1) [OF assms(1)] assms(3) by simp
  moreover have "power_int 2 e < (power_int 2 (ilog2 x + 1) :: rat)"
    using ilog2_bounds(2) [OF assms(1)] assms(2) by simp
  ultimately show ?thesis unfolding power_int2_less by linarith
qed

lemma ilog2_mono:
  assumes "0 < x" and "x \<le> y"
  shows "ilog2 x \<le> ilog2 y"
proof -
  have "power_int 2 (ilog2 x) < (power_int 2 (ilog2 y + 1) :: rat)"
    using ilog2_bounds(1) [of x] ilog2_bounds(2) [of y] assms by simp
  then show ?thesis unfolding power_int2_less by linarith
qed

section \<open>Rounding to an integer\<close>

lemma rne_of_int [simp]: "rne (of_int k) = k"
  by (simp add: rne_def)

lemma rne_bounds: "floor r \<le> rne r" "rne r \<le> floor r + 1"
  by (auto simp: rne_def Let_def)

lemma rne_mono:
  assumes "r \<le> s"
  shows "rne r \<le> rne s"
proof (cases "floor r = floor s")
  case True
  then show ?thesis using assms by (simp add: rne_def Let_def)
next
  case False
  with floor_mono [OF assms] have "floor r + 1 \<le> floor s" by linarith
  then show ?thesis using rne_bounds(2) [of r] rne_bounds(1) [of s] by linarith
qed

lemma rne_ge: "of_int k \<le> r \<Longrightarrow> k \<le> rne r"
  using rne_mono [of "of_int k" r] by simp

lemma rne_le: "r \<le> of_int k \<Longrightarrow> rne r \<le> k"
  using rne_mono [of r "of_int k"] by simp

section \<open>Rounding to a float\<close>

lemma power_int2_pos [simp]: "0 < (power_int 2 e :: rat)"
  by simp

lemma fl_exp_mono: "0 < x \<Longrightarrow> x \<le> y \<Longrightarrow> fl_exp x \<le> fl_exp y"
  using ilog2_mono [of x y] by (auto simp: fl_exp_def)

lemma fl_pos_upper:
  assumes "0 < x"
  shows "rne (x / power_int 2 (fl_exp x)) \<le> 2 ^ 53" and "fl_pos x \<le> power_int 2 (fl_exp x + 53)"
proof -
  let ?e = "fl_exp x"
  have "x < power_int 2 (ilog2 x + 1)" using ilog2_bounds(2) [OF assms] .
  also have "\<dots> \<le> power_int 2 (?e + 53)" by (rule power_int2_le) (simp add: fl_exp_def)
  finally have "x < power_int 2 ?e * power_int 2 53" by (simp add: power_int_add)
  then have "x / power_int 2 ?e \<le> of_int (2 ^ 53)"
    by (simp add: pos_divide_le_eq mult.commute)
  then show r: "rne (x / power_int 2 ?e) \<le> 2 ^ 53" by (rule rne_le)
  then have "(of_int (rne (x / power_int 2 ?e)) :: rat) \<le> of_int (2 ^ 53)"
    by (simp only: of_int_le_iff)
  then have "fl_pos x \<le> of_int (2 ^ 53) * power_int 2 ?e"
    unfolding fl_pos_def by (intro mult_right_mono) auto
  then show "fl_pos x \<le> power_int 2 (?e + 53)" by (simp add: power_int_add mult.commute)
qed

lemma fl_pos_lower:
  assumes "0 < x" and "- 1022 \<le> ilog2 x"
  shows "power_int 2 (fl_exp x + 52) \<le> fl_pos x"
proof -
  let ?e = "fl_exp x"
  have "power_int 2 (?e + 52) \<le> x" using ilog2_bounds(1) [OF assms(1)] assms(2)
    by (simp add: fl_exp_def max_def)
  then have "of_int (2 ^ 52) \<le> x / power_int 2 ?e"
    by (simp add: pos_le_divide_eq power_int_add mult.commute)
  then have "2 ^ 52 \<le> rne (x / power_int 2 ?e)" by (rule rne_ge)
  then have "(of_int (2 ^ 52) :: rat) \<le> of_int (rne (x / power_int 2 ?e))"
    by (simp only: of_int_le_iff)
  then have "of_int (2 ^ 52) * power_int 2 ?e \<le> fl_pos x"
    unfolding fl_pos_def by (intro mult_right_mono) auto
  then show ?thesis by (simp add: power_int_add mult.commute)
qed

lemma fl_pos_nonneg: "0 < x \<Longrightarrow> 0 \<le> fl_pos x"
  using rne_ge [of 0 "x / power_int 2 (fl_exp x)"] by (simp add: fl_pos_def)

lemma fl_pos_mono:
  assumes "0 < x" and "x \<le> y"
  shows "fl_pos x \<le> fl_pos y"
proof (cases "fl_exp x = fl_exp y")
  case True
  have "x / power_int 2 (fl_exp x) \<le> y / power_int 2 (fl_exp x)"
    using assms(2) by (simp add: divide_right_mono)
  then show ?thesis using True rne_mono by (simp add: fl_pos_def)
next
  case False
  with fl_exp_mono [OF assms] have less: "fl_exp x + 1 \<le> fl_exp y" by linarith
  then have "- 1022 \<le> ilog2 y" by (simp add: fl_exp_def)
  then have "power_int 2 (fl_exp y + 52) \<le> fl_pos y" using fl_pos_lower assms by simp
  moreover have "power_int 2 (fl_exp x + 53) \<le> (power_int 2 (fl_exp y + 52) :: rat)"
    using less by (intro power_int2_le) simp
  ultimately show ?thesis using fl_pos_upper(2) [OF assms(1)] by linarith
qed

lemma fl_pos_exact:
  assumes "0 < z" and "z = of_int k * power_int 2 e" and "fl_exp z \<le> e"
  shows "fl_pos z = z"
proof -
  have "z / power_int 2 (fl_exp z) = of_int k * power_int 2 (e - fl_exp z)"
    by (simp add: assms(2) power_int_diff)
  also have "\<dots> = of_int (k * 2 ^ nat (e - fl_exp z))"
    using assms(3) by (simp add: power_int_def)
  finally have i: "z / power_int 2 (fl_exp z) = of_int (k * 2 ^ nat (e - fl_exp z))" .
  have "fl_pos z = z / power_int 2 (fl_exp z) * power_int 2 (fl_exp z)"
    by (simp only: fl_pos_def i rne_of_int)
  then show ?thesis by simp
qed

lemma fl_pos_idem:
  assumes "0 < x" and "fl_pos x \<noteq> 0"
  shows "fl_pos (fl_pos x) = fl_pos x"
proof -
  let ?e = "fl_exp x"
  define k where "k = rne (x / power_int 2 ?e)"
  have z: "fl_pos x = of_int k * power_int 2 ?e" by (simp add: fl_pos_def k_def)
  have pos: "0 < fl_pos x" using fl_pos_nonneg [OF assms(1)] assms(2) by simp
  show ?thesis
  proof (cases "k = 2 ^ 53")
    case True
    have z': "fl_pos x = of_int (2 ^ 52) * power_int 2 (?e + 1)"
      by (simp add: z True power_int_add)
    have "ilog2 (fl_pos x) = ?e + 53"
      by (rule ilog2_unique [OF pos]) (simp_all add: z True power_int_add)
    then have "fl_exp (fl_pos x) \<le> ?e + 1" by (simp add: fl_exp_def)
    from fl_pos_exact [OF pos z' this] show ?thesis .
  next
    case False
    with fl_pos_upper(1) [OF assms(1)] have "k < 2 ^ 53" by (simp add: k_def)
    then have "(of_int k :: rat) < of_int (2 ^ 53)" by (simp only: of_int_less_iff)
    then have "fl_pos x < power_int 2 (?e + 53)" by (simp add: z power_int_add)
    with ilog2_bounds(1) [OF pos] have "power_int 2 (ilog2 (fl_pos x)) < (power_int 2 (?e + 53) :: rat)"
      by linarith
    then have "ilog2 (fl_pos x) < ?e + 53" by (simp only: power_int2_less)
    then have "fl_exp (fl_pos x) \<le> ?e" by (auto simp: fl_exp_def)
    from fl_pos_exact [OF pos z this] show ?thesis .
  qed
qed

lemma fl_0 [simp]: "fl 0 = 0"
  by (simp add: fl_def)

lemma fl_uminus: "fl (- x) = - fl x"
  by (auto simp: fl_def)

lemma fl_nonneg [simp]: "0 \<le> x \<Longrightarrow> 0 \<le> fl x"
  by (auto simp: fl_def fl_pos_nonneg)

lemma fl_mono: "x \<le> y \<Longrightarrow> fl x \<le> fl y"
  using fl_pos_mono [of x y] fl_pos_mono [of "- y" "- x"] fl_pos_nonneg [of y]
    fl_pos_nonneg [of "- x"]
  by (auto simp: fl_def)

lemma fl_idem [simp]: "fl (fl x) = fl x"
proof -
  have pos: "fl (fl_pos y) = fl_pos y" if "0 < y" for y
    using fl_pos_idem [OF that] fl_pos_nonneg [OF that] by (auto simp: fl_def)
  show ?thesis
    by (cases "0 < x") (auto simp: fl_def [of x] pos fl_uminus)
qed

section \<open>Sums of floats\<close>

lemma is_float_fl [simp]: "is_float (fl x)"
  by (simp add: is_float_def)

lemma is_float_0 [simp]: "is_float 0"
  by (simp add: is_float_def)

lemma is_float_fadd [simp]: "is_float (fadd x y)"
  by (simp add: fadd_def)

lemma fadd_mono: "a \<le> b \<Longrightarrow> x \<le> y \<Longrightarrow> fadd a x \<le> fadd b y"
  unfolding fadd_def by (intro fl_mono add_mono)

lemma fadd_ge: "is_float a \<Longrightarrow> 0 \<le> x \<Longrightarrow> a \<le> fadd a x"
  using fl_mono [of a "a + x"] by (simp add: fadd_def is_float_def)

lemma fadd_0 [simp]: "is_float a \<Longrightarrow> fadd a 0 = a" "is_float a \<Longrightarrow> fadd 0 a = a"
  by (simp_all add: fadd_def is_float_def)

lemma foldl_fadd_float: "is_float a \<Longrightarrow> is_float (foldl fadd a xs)"
  by (induction xs arbitrary: a) auto

lemma foldl_fadd_ge: "is_float a \<Longrightarrow> list_all (\<lambda>x. 0 \<le> x) xs \<Longrightarrow> a \<le> foldl fadd a xs"
proof (induction xs arbitrary: a)
  case (Cons x xs)
  then have "a \<le> fadd a x" and "fadd a x \<le> foldl fadd (fadd a x) xs" by (auto intro: fadd_ge)
  then show ?case by simp
qed simp

lemma foldl_fadd_mono: "a \<le> b \<Longrightarrow> list_all2 (\<le>) xs ys \<Longrightarrow> foldl fadd a xs \<le> foldl fadd b ys"
proof (induction xs arbitrary: a b ys)
  case (Cons x xs)
  then show ?case by (cases ys) (auto intro: fadd_mono)
qed simp

lemma fsum_Nil [simp]: "fsum [] = 0"
  by (simp add: fsum_def)

lemma fsum_float [simp]: "is_float (fsum xs)"
  by (simp add: fsum_def foldl_fadd_float)

lemma fsum_nonneg: "list_all (\<lambda>x. 0 \<le> x) xs \<Longrightarrow> 0 \<le> fsum xs"
  unfolding fsum_def by (rule foldl_fadd_ge) auto

end
