(* ===== verification/Schemas.thy ===== *)
theory Schemas
  imports PyFloat
begin

text \<open>
  Data of the judge protocol (\<^verbatim>\<open>app/modules/judge/schemas.py\<close>). The judge modes
  read the raw request dictionary, not the validated model, so the request types keep
  for every key whether it is absent, null or has a value; \<open>payload_valid\<close> is what
  \<^verbatim>\<open>JudgePayload.model_validate\<close> accepts. Values are taken to have the JSON type the
  schema declares. \<open>output_limit_bytes\<close>, \<open>batch_dependencies\<close> and
  \<open>source_filename\<close> are keys the code reads although the schema does not declare them.
\<close>

section \<open>Request\<close>

record problem_config =
  pr_code :: "string field"
  pr_time_limit_ms :: "int field"
  pr_memory_limit_kb :: "int field"
  pr_points :: "rat field"
  pr_partial :: "bool field"
  pr_output_limit_bytes :: "int field"

record language_config =
  lg_key :: "string field"
  lg_name :: "string field"
  lg_extension :: "string field"
  lg_compile_command :: "string field"
  lg_run_command :: "string field"
  lg_source_filename :: "string field"

record test_case =
  tc_case_no :: "int field"
  tc_points :: "rat field"
  tc_time_limit_ms :: "int field"
  tc_memory_limit_kb :: "int field"
  tc_output_limit_bytes :: "int field"
  tc_input_inline :: "ptext field"
  tc_output_inline :: "ptext field"
  tc_input_file :: "string field"
  tc_output_file :: "string field"
  tc_input_sha256 :: "string field"
  tc_output_sha256 :: "string field"
  tc_batch_no :: "int field"
  tc_batch_depends :: "int list field"
  tc_batch_dependencies :: "int list field"

record spj_config =
  spj_source :: "ptext field"

record interactor_config =
  ia_language :: "language_config field"
  ia_source :: "ptext field"
  ia_time_limit_ms :: "int field"
  ia_memory_limit_kb :: "int field"

record judge_payload =
  jp_submission_id :: "string field"
  jp_judge_mode :: "string field"
  jp_problem :: "problem_config field"
  jp_language :: "language_config field"
  jp_source :: "ptext field"
  jp_test_cases :: "test_case list field"
  jp_spj :: "spj_config field"
  jp_interactor :: "interactor_config field"

section \<open>Response\<close>

record case_result =
  cr_case_no :: int
  cr_result :: string
  cr_time_ms :: int
  cr_memory_kb :: int
  cr_points :: rat
  cr_stdout_preview :: ptext
  cr_stderr_preview :: "ptext option"

record judge_result =
  jr_submission_id :: string
  jr_status :: string
  jr_result :: "string option"
  jr_score :: rat
  jr_time_ms :: int
  jr_memory_kb :: int
  jr_compile_time_ms :: int
  jr_compile_memory_kb :: int
  jr_compile_output :: "ptext option"
  jr_compile_error :: bool
  jr_cases :: "case_result list"
  jr_error :: "ptext option"
  jr_wall_time_ms :: int

text \<open>\<^verbatim>\<open>JudgeResultOut(submission_id=..., ...)\<close> with every other field at its default.\<close>

definition judge_result_default :: "string \<Rightarrow> judge_result" where
  "judge_result_default sid = \<lparr>
     jr_submission_id = sid, jr_status = ''COMPLETED'', jr_result = None, jr_score = 0,
     jr_time_ms = 0, jr_memory_kb = 0, jr_compile_time_ms = 0, jr_compile_memory_kb = 0,
     jr_compile_output = None, jr_compile_error = False, jr_cases = [], jr_error = None,
     jr_wall_time_ms = 0\<rparr>"

section \<open>Validation\<close>

text \<open>A declared field without default must be present; a field that is not declared optional may not be null.\<close>

fun required :: "'a field \<Rightarrow> bool" where
  "required (Val v) = True"
| "required _ = False"

fun not_null :: "'a field \<Rightarrow> bool" where
  "not_null JNull = False"
| "not_null _ = True"

fun field_all :: "('a \<Rightarrow> bool) \<Rightarrow> 'a field \<Rightarrow> bool" where
  "field_all P (Val v) = P v"
| "field_all P _ = True"

definition problem_valid :: "problem_config \<Rightarrow> bool" where
  "problem_valid p =
     (required (pr_code p) \<and> required (pr_time_limit_ms p) \<and> required (pr_memory_limit_kb p)
      \<and> not_null (pr_points p) \<and> not_null (pr_partial p))"

definition language_valid :: "language_config \<Rightarrow> bool" where
  "language_valid l = (required (lg_key l) \<and> not_null (lg_name l) \<and> not_null (lg_extension l))"

definition test_case_valid :: "test_case \<Rightarrow> bool" where
  "test_case_valid tc =
     (required (tc_case_no tc) \<and> not_null (tc_points tc) \<and> not_null (tc_input_inline tc)
      \<and> not_null (tc_input_sha256 tc) \<and> not_null (tc_output_sha256 tc)
      \<and> not_null (tc_batch_depends tc))"

definition payload_valid :: "judge_payload \<Rightarrow> bool" where
  "payload_valid p =
     (required (jp_submission_id p) \<and> not_null (jp_judge_mode p)
      \<and> required (jp_problem p) \<and> field_all problem_valid (jp_problem p)
      \<and> field_all language_valid (jp_language p)
      \<and> not_null (jp_source p)
      \<and> not_null (jp_test_cases p) \<and> field_all (list_all test_case_valid) (jp_test_cases p))"

lemma required_iff: "required f \<longleftrightarrow> (\<exists>v. f = Val v)"
  by (cases f) auto

lemma not_null_cases: "not_null f \<longleftrightarrow> f = Absent \<or> (\<exists>v. f = Val v)"
  by (cases f) auto

end
