(* ===== verification/ResultMapper.thy ===== *)
theory ResultMapper
  imports Schemas
begin

text \<open>
  Verdicts and resource figures: \<^verbatim>\<open>app/modules/judge/result_mapper.py\<close> and
  \<^verbatim>\<open>app/modules/judge/metrics.py\<close>, over the part of the sandbox package's results the
  worker reads.
\<close>

section \<open>Sandbox results\<close>

text \<open>
  The members of the sandbox package's \<^verbatim>\<open>Status\<close> enumeration the worker names;
  \<open>St_other\<close> is any other member.
\<close>

datatype status = St_AC | St_CE | St_RE | St_TLE | St_MLE | St_OLE | St_SE | St_IE | St_other string

text \<open>A \<^verbatim>\<open>ProcessResult\<close>; a missing or \<^verbatim>\<open>None\<close> attribute is \<open>None\<close>.\<close>

record process_result =
  ps_status :: "status option"
  ps_cpu_time_ms :: "int option"
  ps_real_time_ms :: "int option"
  ps_memory_bytes :: "int option"
  ps_exit_code :: int
  ps_message :: "ptext option"

section \<open>result_mapper.py\<close>

fun to_oj_result :: "status \<Rightarrow> string" where
  "to_oj_result St_AC = ''AC''"
| "to_oj_result St_CE = ''CE''"
| "to_oj_result St_RE = ''RE''"
| "to_oj_result St_TLE = ''TLE''"
| "to_oj_result St_MLE = ''MLE''"
| "to_oj_result St_OLE = ''OLE''"
| "to_oj_result St_SE = ''SE''"
| "to_oj_result St_IE = ''IE''"
| "to_oj_result (St_other _) = ''IE''"

fun first_failure :: "case_result list \<Rightarrow> string" where
  "first_failure [] = ''AC''"
| "first_failure (c # cs) =
     (if cr_result c \<noteq> ''AC'' \<and> cr_result c \<noteq> ''SKIPPED'' then cr_result c else first_failure cs)"

definition compute_overall_result :: "bool \<Rightarrow> case_result list \<Rightarrow> string" where
  "compute_overall_result has_compile_error case_results =
     (if has_compile_error then ''CE'' else first_failure case_results)"

definition compute_score :: "bool \<Rightarrow> case_result list \<Rightarrow> rat" where
  "compute_score has_compile_error case_results =
     (if has_compile_error then 0
      else foldl (\<lambda>total c. if cr_result c = ''AC'' then fadd total (cr_points c) else total)
             0 case_results)"

section \<open>metrics.py\<close>

definition run_metrics_from_cases :: "case_result list \<Rightarrow> int \<times> int" where
  "run_metrics_from_cases cases =
     (sum_list (map cr_time_ms cases),
      (case map cr_memory_kb cases of [] \<Rightarrow> 0 | m # ms \<Rightarrow> foldl max m ms))"

definition compile_metrics_from_process :: "process_result option \<Rightarrow> int \<times> int" where
  "compile_metrics_from_process compile_result =
     (case compile_result of
        None \<Rightarrow> (0, 0)
      | Some r \<Rightarrow> (int_or (ps_cpu_time_ms r) 0, int_or (ps_memory_bytes r) 0 div 1024))"

definition reported_run_time_ms :: "process_result option \<Rightarrow> int" where
  "reported_run_time_ms run =
     (case run of
        None \<Rightarrow> 0
      | Some r \<Rightarrow>
          (let cpu = int_or (ps_cpu_time_ms r) 0; real_ms = int_or (ps_real_time_ms r) 0 in
           if ps_status r = Some St_TLE \<or> ps_message r = Some (asc ''time limit exceeded'')
           then max cpu real_ms else cpu))"

section \<open>Facts\<close>

lemma to_oj_result_AC: "to_oj_result s = ''AC'' \<longleftrightarrow> s = St_AC"
  by (cases s) auto

lemma to_oj_result_not_internal:
  "to_oj_result s \<noteq> ''WA'' \<and> to_oj_result s \<noteq> ''SKIPPED''"
  by (cases s) auto

lemma first_failure_AC:
  "first_failure cs = ''AC'' \<longleftrightarrow> (\<forall>c\<in>set cs. cr_result c = ''AC'' \<or> cr_result c = ''SKIPPED'')"
  by (induction cs) auto

lemma first_failure_find:
  "first_failure cs =
     (case find (\<lambda>c. cr_result c \<notin> {''AC'', ''SKIPPED''}) cs of None \<Rightarrow> ''AC'' | Some c \<Rightarrow> cr_result c)"
  by (induction cs) auto

lemma first_failure_not_SKIPPED: "first_failure cs \<noteq> ''SKIPPED''"
  by (induction cs) auto

lemma foldl_if_filter:
  "foldl (\<lambda>t c. if P c then f t (g c) else t) a xs = foldl f a (map g (filter P xs))"
  by (induction xs arbitrary: a) auto

lemma compute_score_fsum:
  "compute_score False cs = fsum (map cr_points (filter (\<lambda>c. cr_result c = ''AC'') cs))"
  by (simp add: compute_score_def fsum_def foldl_if_filter [where f = fadd and g = cr_points])

lemma foldl_max: "foldl max (m :: int) ms = Max (insert m (set ms))"
proof (induction ms arbitrary: m)
  case (Cons x xs)
  then show ?case
    by (cases "xs = []") (auto simp: Max_insert insert_commute max.assoc)
qed simp

lemma run_metrics_memory_ge:
  "c \<in> set cs \<Longrightarrow> cr_memory_kb c \<le> snd (run_metrics_from_cases cs)"
  by (cases cs) (auto simp: run_metrics_from_cases_def foldl_max)

lemma run_metrics_memory_in:
  "cs \<noteq> [] \<Longrightarrow> \<exists>c\<in>set cs. snd (run_metrics_from_cases cs) = cr_memory_kb c"
proof (cases cs)
  case (Cons a as)
  have "Max (insert (cr_memory_kb a) (cr_memory_kb ` set as)) \<in> insert (cr_memory_kb a) (cr_memory_kb ` set as)"
    by (rule Max_in) auto
  then show ?thesis
    using Cons by (auto simp: run_metrics_from_cases_def foldl_max)
qed simp

end
