(* ===== verification/Scoring.thy ===== *)
theory Scoring
  imports ResultMapper "HOL-Library.Multiset"
begin

text \<open>
  Batch scoring, \<^verbatim>\<open>app/modules/judge/scoring.py\<close>. A case result and its test case are
  paired by position (\<^verbatim>\<open>zip\<close>); the dictionaries the Python updates in place are records
  returned updated. A batch is all-or-nothing; a batch that depends on a failed batch is skipped.
\<close>

section \<open>scoring.py\<close>

definition batch_of :: "test_case \<Rightarrow> int option" where
  "batch_of tc = dget (tc_batch_no tc)"

definition ac_step :: "(int \<rightharpoonup> bool) \<Rightarrow> test_case \<times> case_result \<Rightarrow> (int \<rightharpoonup> bool)" where
  "ac_step m p =
     (case batch_of (fst p) of
        None \<Rightarrow> m
      | Some bn \<Rightarrow>
          (let prev = (case m bn of None \<Rightarrow> True | Some b \<Rightarrow> b)
           in m(bn \<mapsto> (prev \<and> cr_result (snd p) = ''AC''))))"

definition compute_batch_ac_status :: "case_result list \<Rightarrow> test_case list \<Rightarrow> (int \<rightharpoonup> bool)" where
  "compute_batch_ac_status raw tcs = foldl ac_step Map.empty (zip tcs raw)"

text \<open>\<^verbatim>\<open>tc.get("batch_depends") or tc.get("batch_dependencies") or []\<close>\<close>

definition batch_deps :: "test_case \<Rightarrow> int list" where
  "batch_deps tc =
     (case dget (tc_batch_depends tc) of
        Some (d # ds) \<Rightarrow> d # ds
      | _ \<Rightarrow> (case dget (tc_batch_dependencies tc) of Some ds \<Rightarrow> ds | None \<Rightarrow> []))"

definition skip_case :: "case_result \<Rightarrow> case_result" where
  "skip_case c = c\<lparr>cr_result := ''SKIPPED'', cr_points := 0\<rparr>"

definition apply_deps_case :: "(int \<rightharpoonup> bool) \<Rightarrow> test_case \<Rightarrow> case_result \<Rightarrow> case_result" where
  "apply_deps_case batch_ac tc c =
     (case batch_of tc of
        None \<Rightarrow> c
      | Some bn \<Rightarrow>
          foldl (\<lambda>c dep. if batch_ac dep = Some False then skip_case c else c) c (batch_deps tc))"

fun apply_batch_dependencies ::
  "case_result list \<Rightarrow> test_case list \<Rightarrow> (int \<rightharpoonup> bool) \<Rightarrow> case_result list" where
  "apply_batch_dependencies (c # cs) (tc # tcs) batch_ac =
     apply_deps_case batch_ac tc c # apply_batch_dependencies cs tcs batch_ac"
| "apply_batch_dependencies cs [] batch_ac = cs"
| "apply_batch_dependencies [] tcs batch_ac = []"

type_synonym grouping = "(int option \<Rightarrow> case_result list) \<times> int option list \<times> int option set"

definition group_step :: "grouping \<Rightarrow> case_result \<times> test_case \<Rightarrow> grouping" where
  "group_step g p =
     (let (batches, batch_order, seen) = g; bn = batch_of (snd p);
          (order', seen') = (if bn \<in> seen then (batch_order, seen)
                             else (batch_order @ [bn], insert bn seen))
      in (batches(bn := batches bn @ [fst p]), order', seen'))"

definition group_batches :: "case_result list \<Rightarrow> test_case list \<Rightarrow> grouping" where
  "group_batches raw tcs = foldl group_step ((\<lambda>_. []), [], {}) (zip raw tcs)"

text \<open>Phase 4 for one batch: the case results appended and the score added.\<close>

definition score_batch ::
  "(int \<rightharpoonup> bool) \<Rightarrow> (int option \<Rightarrow> case_result list)
     \<Rightarrow> case_result list \<times> rat \<Rightarrow> int option \<Rightarrow> case_result list \<times> rat" where
  "score_batch batch_ac batches acc bn =
     (let (case_results, total_score) = acc; batch_cases = batches bn in
      case bn of
        None \<Rightarrow>
          (case_results @ batch_cases,
           foldl (\<lambda>t c. if cr_result c = ''AC'' then fadd t (cr_points c) else t) total_score batch_cases)
      | Some b \<Rightarrow>
          if (case batch_ac b of None \<Rightarrow> True | Some v \<Rightarrow> v)
          then (case_results @ batch_cases, fadd total_score (fsum (map cr_points batch_cases)))
          else (case_results @ map (\<lambda>c. c\<lparr>cr_points := 0\<rparr>) batch_cases, total_score))"

definition aggregate_batches ::
  "case_result list \<Rightarrow> test_case list \<Rightarrow> case_result list \<times> rat" where
  "aggregate_batches raw tcs =
     (let batch_ac0 = compute_batch_ac_status raw tcs;
          raw1 = apply_batch_dependencies raw tcs batch_ac0;
          batch_ac = compute_batch_ac_status raw1 tcs;
          (batches, batch_order, seen) = group_batches raw1 tcs
      in foldl (score_batch batch_ac batches) ([], 0) batch_order)"

definition error_verdict :: "string \<Rightarrow> ptext \<Rightarrow> judge_result" where
  "error_verdict sid msg = \<lparr>
     jr_submission_id = sid, jr_status = ''FAILED'', jr_result = None, jr_score = 0,
     jr_time_ms = 0, jr_memory_kb = 0, jr_compile_time_ms = 0, jr_compile_memory_kb = 0,
     jr_compile_output = Some msg, jr_compile_error = False, jr_cases = [], jr_error = Some msg,
     jr_wall_time_ms = 0\<rparr>"

section \<open>What the phases compute\<close>

text \<open>The results of one batch, in order.\<close>

definition in_batch :: "int option \<Rightarrow> case_result list \<Rightarrow> test_case list \<Rightarrow> case_result list" where
  "in_batch bn raw tcs = map fst (filter (\<lambda>p. batch_of (snd p) = bn) (zip raw tcs))"

definition all_ac :: "case_result list \<Rightarrow> bool" where
  "all_ac cs = list_all (\<lambda>c. cr_result c = ''AC'') cs"

lemma foldl_ac_step:
  "foldl ac_step m ps b =
     (let cs = map snd (filter (\<lambda>p. batch_of (fst p) = Some b) ps) in
      case m b of
        None \<Rightarrow> if cs = [] then None else Some (all_ac cs)
      | Some v \<Rightarrow> Some (v \<and> all_ac cs))"
proof (induction ps arbitrary: m)
  case Nil
  then show ?case by (simp add: all_ac_def split: option.splits)
next
  case (Cons p ps)
  show ?case
  proof (cases "batch_of (fst p) = Some b")
    case True
    then have "ac_step m p b =
        Some ((case m b of None \<Rightarrow> True | Some v \<Rightarrow> v) \<and> cr_result (snd p) = ''AC'')"
      by (simp add: ac_step_def Let_def)
    with True show ?thesis
      by (simp add: Cons.IH Let_def all_ac_def split: option.splits)
  next
    case False
    then have "ac_step m p b = m b" by (auto simp: ac_step_def Let_def split: option.splits)
    with False show ?thesis by (simp add: Cons.IH)
  qed
qed

lemma zip_swap: "zip ys xs = map (\<lambda>p. (snd p, fst p)) (zip xs ys)"
  by (induction xs ys rule: list_induct2') auto

lemma compute_batch_ac_status_eq:
  "compute_batch_ac_status raw tcs b =
     (if in_batch (Some b) raw tcs = [] then None else Some (all_ac (in_batch (Some b) raw tcs)))"
  unfolding compute_batch_ac_status_def foldl_ac_step in_batch_def zip_swap [of tcs raw]
  by (simp add: filter_map o_def Let_def)

lemma apply_deps_case_eq:
  "apply_deps_case m tc c =
     (if batch_of tc \<noteq> None \<and> (\<exists>d\<in>set (batch_deps tc). m d = Some False) then skip_case c else c)"
proof -
  have skip: "foldl (\<lambda>c dep. if m dep = Some False then skip_case c else c) c ds =
      (if \<exists>d\<in>set ds. m d = Some False then skip_case c else c)" for ds c
  proof (induction ds arbitrary: c)
    case (Cons d ds)
    then show ?case by (auto simp: skip_case_def)
  qed simp
  show ?thesis by (simp add: apply_deps_case_def skip split: option.splits)
qed

lemma apply_batch_dependencies_zip:
  "zip (apply_batch_dependencies raw tcs m) tcs =
     map (\<lambda>p. (apply_deps_case m (snd p) (fst p), snd p)) (zip raw tcs)"
  by (induction raw tcs m rule: apply_batch_dependencies.induct) auto

lemma in_batch_apply:
  "in_batch bn (apply_batch_dependencies raw tcs m) tcs =
     map (\<lambda>p. apply_deps_case m (snd p) (fst p)) (filter (\<lambda>p. batch_of (snd p) = bn) (zip raw tcs))"
  by (simp add: in_batch_def apply_batch_dependencies_zip filter_map o_def)

lemma foldl_group_step:
  "se = set os \<Longrightarrow>
     foldl group_step (bs, os, se) ps =
       ((\<lambda>bn. bs bn @ map fst (filter (\<lambda>p. batch_of (snd p) = bn) ps)),
        foldl dedup_step os (map (\<lambda>p. batch_of (snd p)) ps),
        set (foldl dedup_step os (map (\<lambda>p. batch_of (snd p)) ps)))"
proof (induction ps arbitrary: bs os se)
  case (Cons p ps)
  let ?bn = "batch_of (snd p)"
  let ?bs = "bs(?bn := bs ?bn @ [fst p])"
  have step: "group_step (bs, os, se) p = (?bs, dedup_step os ?bn, set (dedup_step os ?bn))"
    using Cons.prems by (auto simp: group_step_def Let_def dedup_step_def)
  have eq: "(\<lambda>bn. ?bs bn @ map fst (filter (\<lambda>p. batch_of (snd p) = bn) ps)) =
      (\<lambda>bn. bs bn @ map fst (filter (\<lambda>p. batch_of (snd p) = bn) (p # ps)))"
    by (auto simp: fun_eq_iff)
  show ?case
    by (simp only: foldl_Cons step list.map eq Cons.IH [OF refl, of ?bs "dedup_step os ?bn"])
qed simp

definition batch_order_of :: "case_result list \<Rightarrow> test_case list \<Rightarrow> int option list" where
  "batch_order_of raw tcs = dedup (map (\<lambda>p. batch_of (snd p)) (zip raw tcs))"

lemma group_batches_eq:
  "group_batches raw tcs =
     ((\<lambda>bn. in_batch bn raw tcs), batch_order_of raw tcs, set (batch_order_of raw tcs))"
  unfolding group_batches_def batch_order_of_def dedup_def in_batch_def
  by (simp add: foldl_group_step [of "{}" "[]"])

lemma batch_order_of_apply [simp]:
  "batch_order_of (apply_batch_dependencies raw tcs m) tcs = batch_order_of raw tcs"
  by (simp add: batch_order_of_def apply_batch_dependencies_zip o_def)

section \<open>The specification\<close>

text \<open>
  A batch has failed when one of its cases is not accepted. A case is blocked when its batch
  depends directly on a failed batch. A batch earns its points when all its cases are accepted
  and none is blocked.
\<close>

definition failed_batch :: "case_result list \<Rightarrow> test_case list \<Rightarrow> int \<Rightarrow> bool" where
  "failed_batch raw tcs d = (\<not> all_ac (in_batch (Some d) raw tcs))"

definition blocked :: "case_result list \<Rightarrow> test_case list \<Rightarrow> test_case \<Rightarrow> bool" where
  "blocked raw tcs tc =
     (batch_of tc \<noteq> None \<and> (\<exists>d\<in>set (batch_deps tc). failed_batch raw tcs d))"

definition batch_credited :: "case_result list \<Rightarrow> test_case list \<Rightarrow> int \<Rightarrow> bool" where
  "batch_credited raw tcs b =
     (\<forall>p\<in>set (zip raw tcs). batch_of (snd p) = Some b \<longrightarrow>
        cr_result (fst p) = ''AC'' \<and> \<not> blocked raw tcs (snd p))"

definition final_case :: "case_result list \<Rightarrow> test_case list \<Rightarrow> case_result \<times> test_case \<Rightarrow> case_result" where
  "final_case raw tcs p =
     (let c = (if blocked raw tcs (snd p) then skip_case (fst p) else fst p) in
      case batch_of (snd p) of
        None \<Rightarrow> c
      | Some b \<Rightarrow> if batch_credited raw tcs b then c else c\<lparr>cr_points := 0\<rparr>)"

definition batch_credit :: "case_result list \<Rightarrow> test_case list \<Rightarrow> rat \<Rightarrow> int option \<Rightarrow> rat" where
  "batch_credit raw tcs t bn =
     (case bn of
        None \<Rightarrow> foldl fadd t (map cr_points (filter (\<lambda>c. cr_result c = ''AC'') (in_batch None raw tcs)))
      | Some b \<Rightarrow> if batch_credited raw tcs b
                   then fadd t (fsum (map cr_points (in_batch (Some b) raw tcs))) else t)"

definition aggregate_spec :: "case_result list \<Rightarrow> test_case list \<Rightarrow> case_result list \<times> rat" where
  "aggregate_spec raw tcs =
     (concat (map (\<lambda>bn. map (final_case raw tcs) (filter (\<lambda>p. batch_of (snd p) = bn) (zip raw tcs)))
        (batch_order_of raw tcs)),
      foldl (batch_credit raw tcs) 0 (batch_order_of raw tcs))"

lemma status_failed: "compute_batch_ac_status raw tcs d = Some False \<longleftrightarrow> failed_batch raw tcs d"
  by (auto simp: compute_batch_ac_status_eq failed_batch_def all_ac_def)

lemma apply_deps_blocked:
  "apply_deps_case (compute_batch_ac_status raw tcs) tc c =
     (if blocked raw tcs tc then skip_case c else c)"
  by (simp add: apply_deps_case_eq blocked_def status_failed)

definition after_deps :: "case_result list \<Rightarrow> test_case list \<Rightarrow> case_result list" where
  "after_deps raw tcs = apply_batch_dependencies raw tcs (compute_batch_ac_status raw tcs)"

lemma in_batch_after_deps:
  "in_batch bn (after_deps raw tcs) tcs =
     map (\<lambda>p. if blocked raw tcs (snd p) then skip_case (fst p) else fst p)
       (filter (\<lambda>p. batch_of (snd p) = bn) (zip raw tcs))"
  by (simp add: after_deps_def in_batch_apply apply_deps_blocked)

lemma batch_order_after_deps [simp]:
  "batch_order_of (after_deps raw tcs) tcs = batch_order_of raw tcs"
  by (simp add: after_deps_def)

lemma in_batch_None_after_deps: "in_batch None (after_deps raw tcs) tcs = in_batch None raw tcs"
  unfolding in_batch_after_deps unfolding in_batch_def by (auto simp: blocked_def)

lemma all_ac_after_deps: "all_ac (in_batch (Some b) (after_deps raw tcs) tcs) \<longleftrightarrow> batch_credited raw tcs b"
  unfolding all_ac_def in_batch_after_deps list.pred_map
  unfolding list_all_iff batch_credited_def
  by (fastforce simp: skip_case_def split: if_splits)

lemma status_after_deps:
  "(case compute_batch_ac_status (after_deps raw tcs) tcs b of None \<Rightarrow> True | Some v \<Rightarrow> v)
     \<longleftrightarrow> batch_credited raw tcs b"
proof (cases "in_batch (Some b) (after_deps raw tcs) tcs = []")
  case True
  then have "all_ac (in_batch (Some b) (after_deps raw tcs) tcs)" by (simp add: all_ac_def)
  then have "batch_credited raw tcs b" by (simp only: all_ac_after_deps)
  then show ?thesis using True by (simp add: compute_batch_ac_status_eq)
next
  case False
  then show ?thesis by (simp add: compute_batch_ac_status_eq all_ac_after_deps)
qed

lemma credited_after_deps:
  assumes "batch_credited raw tcs b"
  shows "in_batch (Some b) (after_deps raw tcs) tcs = in_batch (Some b) raw tcs"
  using assms unfolding in_batch_after_deps unfolding in_batch_def
  by (auto simp: batch_credited_def)

lemma score_batch_eq:
  "score_batch (compute_batch_ac_status (after_deps raw tcs) tcs)
      (\<lambda>bn. in_batch bn (after_deps raw tcs) tcs) (cs, t) bn =
    (cs @ map (final_case raw tcs) (filter (\<lambda>p. batch_of (snd p) = bn) (zip raw tcs)),
     batch_credit raw tcs t bn)"
proof (cases bn)
  case None
  then show ?thesis
    unfolding score_batch_def batch_credit_def
    by (simp add: in_batch_None_after_deps foldl_if_filter [where f = fadd and g = cr_points])
      (simp add: in_batch_def final_case_def blocked_def cong: map_cong)
next
  case (Some b)
  have cases_eq: "in_batch (Some b) (after_deps raw tcs) tcs =
      map (final_case raw tcs) (filter (\<lambda>p. batch_of (snd p) = Some b) (zip raw tcs))"
    if "batch_credited raw tcs b"
    using that by (auto simp: in_batch_after_deps final_case_def Let_def)
  have zero_eq: "map (\<lambda>c. c\<lparr>cr_points := 0\<rparr>) (in_batch (Some b) (after_deps raw tcs) tcs) =
      map (final_case raw tcs) (filter (\<lambda>p. batch_of (snd p) = Some b) (zip raw tcs))"
    if "\<not> batch_credited raw tcs b"
    using that by (auto simp: in_batch_after_deps final_case_def Let_def)
  show ?thesis
  proof (cases "batch_credited raw tcs b")
    case True
    then show ?thesis
      by (simp add: Some score_batch_def batch_credit_def status_after_deps Let_def
          flip: cases_eq [OF True] credited_after_deps [OF True])
  next
    case False
    then show ?thesis
      by (simp add: Some score_batch_def batch_credit_def status_after_deps zero_eq)
  qed
qed

lemma foldl_score_batch:
  "foldl (score_batch (compute_batch_ac_status (after_deps raw tcs) tcs)
      (\<lambda>bn. in_batch bn (after_deps raw tcs) tcs)) (cs, t) os =
    (cs @ concat (map (\<lambda>bn. map (final_case raw tcs) (filter (\<lambda>p. batch_of (snd p) = bn) (zip raw tcs))) os),
     foldl (batch_credit raw tcs) t os)"
  by (induction os arbitrary: cs t) (simp_all add: score_batch_eq)

lemma aggregate_batches_after_deps:
  "aggregate_batches raw tcs =
     foldl (score_batch (compute_batch_ac_status (after_deps raw tcs) tcs)
       (\<lambda>bn. in_batch bn (after_deps raw tcs) tcs)) ([], 0) (batch_order_of raw tcs)"
  by (simp add: aggregate_batches_def Let_def group_batches_eq flip: after_deps_def)

lemma aggregate_batches_eq_spec: "aggregate_batches raw tcs = aggregate_spec raw tcs"
  unfolding aggregate_batches_after_deps foldl_score_batch aggregate_spec_def by simp

section \<open>Monotonicity of the score\<close>

text \<open>\<open>case_le c d\<close>: the same points, and \<open>d\<close> is accepted whenever \<open>c\<close> is.\<close>

definition case_le :: "case_result \<Rightarrow> case_result \<Rightarrow> bool" where
  "case_le c d = (cr_points c = cr_points d \<and> 0 \<le> cr_points c
                  \<and> (cr_result c = ''AC'' \<longrightarrow> cr_result d = ''AC''))"

lemma in_batch_rel: "list_all2 case_le raw raw' \<Longrightarrow> list_all2 case_le (in_batch bn raw tcs) (in_batch bn raw' tcs)"
  unfolding in_batch_def list.rel_map
  by (rule list_all2_mono [OF list_all2_filter [OF list_all2_zip_left]]) auto

lemma all_ac_rel: "list_all2 case_le cs ds \<Longrightarrow> all_ac cs \<Longrightarrow> all_ac ds"
  by (induction cs ds rule: list_all2_induct) (auto simp: all_ac_def case_le_def)

lemma blocked_rel: "list_all2 case_le raw raw' \<Longrightarrow> blocked raw' tcs tc \<Longrightarrow> blocked raw tcs tc"
  unfolding blocked_def failed_batch_def using all_ac_rel in_batch_rel by blast

lemma batch_credited_rel:
  assumes "list_all2 case_le raw raw'" and "batch_credited raw tcs b"
  shows "batch_credited raw' tcs b"
  unfolding batch_credited_def
proof (intro ballI impI)
  fix q assume q: "q \<in> set (zip raw' tcs)" and b: "batch_of (snd q) = Some b"
  from list_all2_set2 [OF list_all2_zip_left [OF assms(1)] q] obtain p where
    "p \<in> set (zip raw tcs)" and "case_le (fst p) (fst q)" and "snd p = snd q" by blast
  with assms(2) b show "cr_result (fst q) = ''AC'' \<and> \<not> blocked raw' tcs (snd q)"
    unfolding batch_credited_def case_le_def using blocked_rel [OF assms(1)] by metis
qed

lemma points_rel: "list_all2 case_le cs ds \<Longrightarrow> map cr_points cs = map cr_points ds"
  by (induction cs ds rule: list_all2_induct) (auto simp: case_le_def)

lemma points_nonneg: "list_all2 case_le cs ds \<Longrightarrow> list_all (\<lambda>x. 0 \<le> x) (map cr_points ds)"
  by (induction cs ds rule: list_all2_induct) (auto simp: case_le_def)

lemma ac_sum_rel:
  "list_all2 case_le cs ds \<Longrightarrow> t \<le> t' \<Longrightarrow> is_float t' \<Longrightarrow>
     foldl fadd t (map cr_points (filter (\<lambda>c. cr_result c = ''AC'') cs))
     \<le> foldl fadd t' (map cr_points (filter (\<lambda>c. cr_result c = ''AC'') ds))"
proof (induction cs ds arbitrary: t t' rule: list_all2_induct)
  case (Cons c cs d ds)
  have "t \<le> fadd t' (cr_points d)"
    using Cons.prems Cons.hyps fadd_ge [of t' "cr_points d"] by (auto simp: case_le_def)
  moreover have "fadd t (cr_points c) \<le> fadd t' (cr_points d)"
    using Cons.prems Cons.hyps by (intro fadd_mono) (auto simp: case_le_def)
  ultimately show ?case using Cons.prems Cons.hyps by (auto simp: case_le_def intro!: Cons.IH)
qed simp

lemma batch_credit_rel:
  assumes "list_all2 case_le raw raw'" and "t \<le> t'" and "is_float t'"
  shows "batch_credit raw tcs t bn \<le> batch_credit raw' tcs t' bn"
    and "is_float (batch_credit raw' tcs t' bn)"
proof -
  note cr = batch_credited_rel [OF assms(1), of tcs] and rel = in_batch_rel [OF assms(1), of _ tcs]
  show "is_float (batch_credit raw' tcs t' bn)"
    using assms(3) by (auto simp: batch_credit_def foldl_fadd_float split: option.splits)
  show "batch_credit raw tcs t bn \<le> batch_credit raw' tcs t' bn"
  proof (cases bn)
    case None
    then show ?thesis using ac_sum_rel [OF rel assms(2,3)] by (simp add: batch_credit_def)
  next
    case (Some b)
    have "0 \<le> fsum (map cr_points (in_batch (Some b) raw' tcs))"
      by (rule fsum_nonneg [OF points_nonneg [OF rel]])
    then have "t \<le> fadd t' (fsum (map cr_points (in_batch (Some b) raw' tcs)))"
      using fadd_ge [OF assms(3)] assms(2) by (meson order_trans)
    then show ?thesis
      using Some cr [of b] assms(2) fadd_mono [OF assms(2) order_refl]
      by (auto simp: batch_credit_def points_rel [OF rel])
  qed
qed

lemma foldl_batch_credit_rel:
  "list_all2 case_le raw raw' \<Longrightarrow> t \<le> t' \<Longrightarrow> is_float t' \<Longrightarrow>
     foldl (batch_credit raw tcs) t os \<le> foldl (batch_credit raw' tcs) t' os"
proof (induction os arbitrary: t t')
  case (Cons bn os)
  from batch_credit_rel [OF Cons.prems, of tcs bn] Cons.IH [OF Cons.prems(1)] show ?case by simp
qed simp

lemma batch_order_rel:
  assumes "length raw = length raw'"
  shows "batch_order_of raw tcs = batch_order_of raw' tcs"
proof -
  have "map (\<lambda>p. batch_of (snd p)) (zip raw tcs) = map batch_of (map snd (zip raw tcs))" for raw :: "case_result list"
    by simp
  then show ?thesis using assms by (simp add: batch_order_of_def map_snd_zip_take)
qed

section \<open>No case is lost\<close>

lemma concat_filter_mset:
  "distinct os \<Longrightarrow> key ` set xs \<subseteq> set os \<Longrightarrow>
     mset (concat (map (\<lambda>k. filter (\<lambda>x. key x = k) xs) os)) = mset xs"
proof (induction os arbitrary: xs)
  case (Cons k os)
  let ?ys = "filter (\<lambda>x. key x \<noteq> k) xs"
  have "filter (\<lambda>x. key x = j) ?ys = filter (\<lambda>x. key x = j) xs" if "j \<in> set os" for j
    using Cons.prems(1) that by (auto intro: filter_cong)
  then have eq: "map (\<lambda>j. filter (\<lambda>x. key x = j) ?ys) os = map (\<lambda>j. filter (\<lambda>x. key x = j) xs) os"
    by simp
  have "mset (concat (map (\<lambda>j. filter (\<lambda>x. key x = j) ?ys) os)) = mset ?ys"
    using Cons.prems by (intro Cons.IH) auto
  then show ?case unfolding eq by (simp add: mset_filter flip: mset_filter)
      (metis mset_filter multiset_partition)
qed simp

lemma final_case_no [simp]: "cr_case_no (final_case raw tcs p) = cr_case_no (fst p)"
  by (auto simp: final_case_def Let_def skip_case_def split: option.splits)

lemma aggregate_case_nos:
  "mset (map cr_case_no (fst (aggregate_batches raw tcs))) =
     mset (map cr_case_no (take (length tcs) raw))"
proof -
  let ?key = "\<lambda>p. batch_of (snd p)" and ?no = "\<lambda>p. cr_case_no (fst p)"
  let ?groups = "concat (map (\<lambda>bn. filter (\<lambda>p. ?key p = bn) (zip raw tcs)) (batch_order_of raw tcs))"
  have "map cr_case_no (fst (aggregate_batches raw tcs)) = map ?no ?groups"
    by (simp add: aggregate_batches_eq_spec aggregate_spec_def map_concat o_def)
  moreover have "mset ?groups = mset (zip raw tcs)"
    by (rule concat_filter_mset) (auto simp: batch_order_of_def)
  ultimately have "mset (map cr_case_no (fst (aggregate_batches raw tcs))) = mset (map ?no (zip raw tcs))"
    by (metis mset_map)
  also have "map ?no (zip raw tcs) = map cr_case_no (map fst (zip raw tcs))" by simp
  finally show ?thesis by (simp add: map_fst_zip_take)
      (metis min_def take_all_iff nat_le_linear)
qed

lemma aggregate_results:
  assumes "c \<in> set (fst (aggregate_batches raw tcs))"
  shows "cr_result c = ''SKIPPED'' \<or> (\<exists>r\<in>set raw. cr_result c = cr_result r)"
proof -
  obtain p where p: "p \<in> set (zip raw tcs)" "c = final_case raw tcs p"
    using assms by (auto simp: aggregate_batches_eq_spec aggregate_spec_def)
  then have "fst p \<in> set raw" by (metis prod.collapse set_zip_leftD)
  with p(2) show ?thesis by (auto simp: final_case_def Let_def skip_case_def split: option.splits)
qed

section \<open>Properties\<close>

text \<open>C3: Batch scoring in four mutating passes (batch status, dependency skipping, status again,
  grouping and scoring) computes the declarative specification: a case of a batch that depends on a failed
  batch is skipped, a batch pays its points only when all its cases are accepted and none is skipped, cases
  outside batches pay individually, and the cases come out grouped by batch in order of first appearance.\<close>

theorem aggregate_refines_spec: "aggregate_batches raw tcs = aggregate_spec raw tcs"
  by (rule aggregate_batches_eq_spec)

text \<open>The score never falls when results improve: if every case has the same non-negative points and
  stays accepted or becomes accepted, the total score is at least as high.\<close>

lemma aggregate_score_monotone:
  assumes "list_all2 case_le raw raw'"
  shows "snd (aggregate_batches raw tcs) \<le> snd (aggregate_batches raw' tcs)"
  using foldl_batch_credit_rel[OF assms, of 0 0 tcs] batch_order_rel[OF list_all2_lengthD[OF assms], of tcs]
  by (simp add: aggregate_batches_eq_spec aggregate_spec_def)

text \<open>Scoring reports every judged case exactly once, whatever the grouping.\<close>

lemma aggregate_keeps_cases:
  assumes "length raw \<le> length tcs"
  shows "mset (map cr_case_no (fst (aggregate_batches raw tcs))) = mset (map cr_case_no raw)"
  using aggregate_case_nos[of raw tcs] assms by simp

definition demo_result :: "int \<Rightarrow> string \<Rightarrow> case_result" where
  "demo_result no v = \<lparr>cr_case_no = no, cr_result = v, cr_time_ms = 1, cr_memory_kb = 1, cr_points = 10,
     cr_stdout_preview = [], cr_stderr_preview = Some []\<rparr>"

definition batch_case :: "int \<Rightarrow> int \<Rightarrow> int list \<Rightarrow> test_case" where
  "batch_case no b deps = \<lparr>tc_case_no = Val no, tc_points = Val 10, tc_time_limit_ms = Absent,
     tc_memory_limit_kb = Absent, tc_output_limit_bytes = Absent, tc_input_inline = Absent,
     tc_output_inline = Absent, tc_input_file = Absent, tc_output_file = Absent,
     tc_input_sha256 = Absent, tc_output_sha256 = Absent, tc_batch_no = Val b,
     tc_batch_depends = Val deps, tc_batch_dependencies = Absent\<rparr>"

lemma aggregate_score_monotone_witness:
  "snd (aggregate_batches [demo_result 1 ''WA'', demo_result 2 ''AC''] [batch_case 1 1 [], batch_case 2 2 [1]])
   \<le> snd (aggregate_batches [demo_result 1 ''AC'', demo_result 2 ''AC''] [batch_case 1 1 [], batch_case 2 2 [1]])"
  by (rule aggregate_score_monotone) (simp add: case_le_def demo_result_def)

lemma aggregate_keeps_cases_witness:
  "mset (map cr_case_no (fst (aggregate_batches [demo_result 1 ''WA'', demo_result 2 ''AC'']
      [batch_case 1 1 [], batch_case 2 2 [1]]))) = {#1, 2#}"
  using aggregate_keeps_cases[of "[demo_result 1 ''WA'', demo_result 2 ''AC'']" "[batch_case 1 1 [], batch_case 2 2 [1]]"]
  by (simp add: demo_result_def)

text \<open>Dependencies are not transitive: with batch 2 depending on a failed batch 1 and batch 3 depending
  on batch 2, the cases of batch 2 are skipped and worth nothing while batch 3 keeps its points.\<close>

lemma dependency_not_transitive:
  "map (\<lambda>c. (cr_case_no c, cr_result c, cr_points c))
     (fst (aggregate_batches [demo_result 1 ''WA'', demo_result 2 ''AC'', demo_result 3 ''AC'']
       [batch_case 1 1 [], batch_case 2 2 [1], batch_case 3 3 [2]]))
   = [(1, ''WA'', 0), (2, ''SKIPPED'', 0), (3, ''AC'', 10)]"
  by code_simp

end
