(* ===== verification/PyText.thy ===== *)
theory PyText
  imports Prelude
begin

text \<open>
  Text and its UTF-8 form, as Python has them: \<^verbatim>\<open>str.encode("utf-8")\<close>,
  \<^verbatim>\<open>bytes.decode("utf-8", errors="replace")\<close> (CPython's decoder: every maximal
  ill-formed prefix becomes one U+FFFD), \<^verbatim>\<open>str.strip()\<close> over the Unicode white space,
  and the newline translation of a file read in text mode. A byte is a \<^typ>\<open>nat\<close>; the
  decoder treats values from 245 on as invalid start bytes.
\<close>

type_synonym bytes = "nat list"

section \<open>UTF-8\<close>

text \<open>Unicode scalar values: code points that are not surrogates.\<close>

definition scalar :: "nat \<Rightarrow> bool" where
  "scalar c = (c < 0xD800 \<or> (0xE000 \<le> c \<and> c < 0x110000))"

definition encode1 :: "nat \<Rightarrow> bytes" where
  "encode1 c =
     (if c < 0x80 then [c]
      else if c < 0x800 then [0xC0 + c div 64, 0x80 + c mod 64]
      else if c < 0x10000 then [0xE0 + c div 4096, 0x80 + c div 64 mod 64, 0x80 + c mod 64]
      else [0xF0 + c div 262144, 0x80 + c div 4096 mod 64, 0x80 + c div 64 mod 64, 0x80 + c mod 64])"

text \<open>Encoding raises \<^verbatim>\<open>UnicodeEncodeError\<close>, a \<^verbatim>\<open>ValueError\<close>, on a surrogate.\<close>

definition utf8_encode :: "ptext \<Rightarrow> bytes res" where
  "utf8_encode t =
     (if list_all scalar t then Inr (concat (map encode1 t))
      else Inl (ValueError (asc ''surrogates not allowed'')))"

definition cont :: "nat \<Rightarrow> bool" where
  "cont b = (0x80 \<le> b \<and> b < 0xC0)"

definition second_ok :: "nat \<Rightarrow> nat \<Rightarrow> bool" where
  "second_ok ch b =
     (cont b \<and> \<not> (ch = 0xE0 \<and> b < 0xA0) \<and> \<not> (ch = 0xED \<and> 0xA0 \<le> b)
      \<and> \<not> (ch = 0xF0 \<and> b < 0x90) \<and> \<not> (ch = 0xF4 \<and> 0x90 \<le> b))"

text \<open>One code point from a start byte and the bytes after it, with the bytes left.\<close>

definition decode1 :: "nat \<Rightarrow> bytes \<Rightarrow> nat \<times> bytes" where
  "decode1 ch rest =
     (if ch < 0x80 then (ch, rest)
      else if ch < 0xC2 \<or> 0xF4 < ch then (0xFFFD, rest)
      else case rest of
        [] \<Rightarrow> (0xFFFD, [])
      | c2 # r2 \<Rightarrow>
          if \<not> second_ok ch c2 then (0xFFFD, rest)
          else if ch < 0xE0 then ((ch - 0xC0) * 64 + (c2 - 0x80), r2)
          else (case r2 of
            [] \<Rightarrow> (0xFFFD, [])
          | c3 # r3 \<Rightarrow>
              if \<not> cont c3 then (0xFFFD, r2)
              else if ch < 0xF0 then ((ch - 0xE0) * 4096 + (c2 - 0x80) * 64 + (c3 - 0x80), r3)
              else (case r3 of
                [] \<Rightarrow> (0xFFFD, [])
              | c4 # r4 \<Rightarrow>
                  if \<not> cont c4 then (0xFFFD, r3)
                  else ((ch - 0xF0) * 262144 + (c2 - 0x80) * 4096 + (c3 - 0x80) * 64 + (c4 - 0x80), r4))))"

lemma decode1_length: "length (snd (decode1 ch rest)) \<le> length rest"
  by (auto simp: decode1_def split: list.splits)

function utf8_decode :: "bytes \<Rightarrow> ptext" where
  "utf8_decode [] = []"
| "utf8_decode (ch # rest) = fst (decode1 ch rest) # utf8_decode (snd (decode1 ch rest))"
  by pat_completeness auto
termination
  by (relation "measure length") (auto simp: decode1_length less_Suc_eq_le)

text \<open>\<^verbatim>\<open>bytes.decode("utf-8")\<close>: strict, so text that does not encode to the same bytes is an error.\<close>

definition utf8_decode_strict :: "bytes \<Rightarrow> ptext res" where
  "utf8_decode_strict bs =
     (if utf8_encode (utf8_decode bs) = Inr bs then Inr (utf8_decode bs)
      else Inl (ValueError (asc ''invalid utf-8'')))"

section \<open>White space and newlines\<close>

definition uspace :: "nat \<Rightarrow> bool" where
  "uspace c = ((9 \<le> c \<and> c \<le> 13) \<or> (28 \<le> c \<and> c \<le> 32) \<or> c = 0x85 \<or> c = 0xA0 \<or> c = 0x1680
     \<or> (0x2000 \<le> c \<and> c \<le> 0x200A) \<or> c = 0x2028 \<or> c = 0x2029 \<or> c = 0x202F \<or> c = 0x205F \<or> c = 0x3000)"

definition ustrip :: "ptext \<Rightarrow> ptext" where
  "ustrip t = strip_by uspace t"

text \<open>Text mode turns \<^verbatim>\<open>\r\n\<close> and \<^verbatim>\<open>\r\<close> into \<^verbatim>\<open>\n\<close>.\<close>

fun universal_newlines :: "ptext \<Rightarrow> ptext" where
  "universal_newlines [] = []"
| "universal_newlines (c # cs) =
     (if c = 13 then 10 # (case cs of [] \<Rightarrow> [] | d # ds \<Rightarrow> if d = 10 then universal_newlines ds
                                                         else universal_newlines cs)
      else c # universal_newlines cs)"

section \<open>Facts\<close>

lemma div_mod_64: "c div 64 div 64 = c div (4096 :: nat)" "c div 4096 div 64 = c div (262144 :: nat)"
  by (simp_all flip: div_mult2_eq)

lemma split3: "c div 4096 * 4096 + c div 64 mod 64 * 64 + c mod 64 = (c :: nat)"
proof -
  have "c div 64 * 64 + c mod 64 = c" by (rule div_mult_mod_eq)
  moreover have "c div 4096 * 64 + c div 64 mod 64 = c div 64"
    using div_mult_mod_eq [of "c div 64" 64] by (simp only: div_mod_64)
  ultimately show ?thesis by linarith
qed

lemma split4:
  "c div 262144 * 262144 + c div 4096 mod 64 * 4096 + c div 64 mod 64 * 64 + c mod 64 = (c :: nat)"
proof -
  have "c div 262144 * 64 + c div 4096 mod 64 = c div 4096"
    using div_mult_mod_eq [of "c div 4096" 64] by (simp only: div_mod_64)
  then show ?thesis using split3 [of c] by linarith
qed

lemma decode1_three:
  assumes "a < 16" "b < 64" "d < 64" "a = 0 \<longrightarrow> 32 \<le> b" "a = 13 \<longrightarrow> b < 32"
  shows "decode1 (0xE0 + a) ((0x80 + b) # (0x80 + d) # rest) = (a * 4096 + b * 64 + d, rest)"
  using assms by (auto simp: decode1_def second_ok_def cont_def)

lemma decode1_four:
  assumes "a < 5" "b < 64" "d < 64" "e < 64" "a = 0 \<longrightarrow> 16 \<le> b" "a = 4 \<longrightarrow> b < 16"
  shows "decode1 (0xF0 + a) ((0x80 + b) # (0x80 + d) # (0x80 + e) # rest) =
    (a * 262144 + b * 4096 + d * 64 + e, rest)"
  using assms by (auto simp: decode1_def second_ok_def cont_def)

lemma decode1_encode1:
  assumes "scalar c"
  obtains b bs where "encode1 c = b # bs" and "\<And>rest. decode1 b (bs @ rest) = (c, rest)"
proof -
  consider "c < 0x80" | "0x80 \<le> c" "c < 0x800" | "0x800 \<le> c" "c < 0x10000" | "0x10000 \<le> c" "c < 0x110000"
    using assms by (cases "c < 0x80"; cases "c < 0x800"; cases "c < 0x10000") (auto simp: scalar_def)
  then show ?thesis
  proof cases
    case 1
    then show ?thesis by (intro that [of c "[]"]) (auto simp: encode1_def decode1_def)
  next
    case 2
    then have "2 \<le> c div 64" "c div 64 < 32" by auto
    then show ?thesis using 2
      by (intro that [of "0xC0 + c div 64" "[0x80 + c mod 64]"])
        (auto simp: encode1_def decode1_def second_ok_def cont_def)
  next
    case 3
    let ?a = "c div 4096" and ?b = "c div 64 mod 64" and ?d = "c mod 64"
    have bounds: "?a < 16" "?b < 64" "?d < 64" using 3 by auto
    note c = split3 [of c]
    have "?a = 0 \<longrightarrow> 32 \<le> ?b" using 3(1) bounds c by linarith
    moreover have "?a = 13 \<longrightarrow> ?b < 32" using assms bounds c unfolding scalar_def by linarith
    ultimately show ?thesis
      using decode1_three [OF bounds] 3
      by (intro that [of "0xE0 + ?a" "[0x80 + ?b, 0x80 + ?d]"]) (simp_all add: encode1_def c)
  next
    case 4
    let ?a = "c div 262144" and ?b = "c div 4096 mod 64" and ?d = "c div 64 mod 64" and ?e = "c mod 64"
    have bounds: "?a < 5" "?b < 64" "?d < 64" "?e < 64" using 4 by auto
    note c = split4 [of c]
    have "?a = 0 \<longrightarrow> 16 \<le> ?b" using 4(1) bounds c by linarith
    moreover have "?a = 4 \<longrightarrow> ?b < 16" using 4(2) bounds c by linarith
    ultimately show ?thesis
      using decode1_four [OF bounds] 4
      by (intro that [of "0xF0 + ?a" "[0x80 + ?b, 0x80 + ?d, 0x80 + ?e]"]) (simp_all add: encode1_def c)
  qed
qed

lemma utf8_decode_concat: "list_all scalar t \<Longrightarrow> utf8_decode (concat (map encode1 t)) = t"
proof (induction t)
  case (Cons c t)
  then obtain b bs where "encode1 c = b # bs" and "\<And>rest. decode1 b (bs @ rest) = (c, rest)"
    using decode1_encode1 [of c] by auto
  with Cons show ?case by simp
qed simp

lemma utf8_encode_inj: "utf8_encode s = Inr b \<Longrightarrow> utf8_encode t = Inr b \<Longrightarrow> s = t"
  by (auto simp: utf8_encode_def split: if_splits dest!: utf8_decode_concat)

lemma scalar3:
  fixes a b d :: nat
  assumes "a < 16" "b < 64" "d < 64" "a = 13 \<longrightarrow> b < 32"
  shows "scalar (a * 4096 + b * 64 + d)"
proof -
  consider "a \<le> 12" | "a = 13" | "14 \<le> a" by linarith
  then show ?thesis using assms by cases (auto simp: scalar_def)
qed

lemma scalar4:
  fixes a b d e :: nat
  assumes "a < 5" "b < 64" "d < 64" "e < 64" "a = 0 \<longrightarrow> 16 \<le> b" "a = 4 \<longrightarrow> b < 16"
  shows "scalar (a * 262144 + b * 4096 + d * 64 + e)"
proof -
  consider "a = 0" | "1 \<le> a" "a \<le> 3" | "a = 4" using assms(1) by linarith
  then show ?thesis using assms by cases (auto simp: scalar_def)
qed

lemma cont_sub: "cont b \<Longrightarrow> b - 0x80 < 64"
  by (auto simp: cont_def)

lemma decode1_scalar: "scalar (fst (decode1 ch rest))"
proof -
  have fffd: "scalar 0xFFFD" and ascii: "ch < 0x80 \<Longrightarrow> scalar ch"
    by (auto simp: scalar_def)
  have two: "scalar ((ch - 0xC0) * 64 + (c2 - 0x80))" if "ch < 0xE0" "second_ok ch c2" for c2
    using that cont_sub [of c2] by (auto simp: scalar_def second_ok_def)
  have three: "scalar ((ch - 0xE0) * 4096 + (c2 - 0x80) * 64 + (c3 - 0x80))"
    if "ch < 0xF0" "second_ok ch c2" "cont c3" for c2 c3
    using that cont_sub [of c2] cont_sub [of c3]
    by (intro scalar3) (auto simp: second_ok_def)
  have four: "scalar ((ch - 0xF0) * 262144 + (c2 - 0x80) * 4096 + (c3 - 0x80) * 64 + (c4 - 0x80))"
    if "\<not> ch < 0xF0" "\<not> 0xF4 < ch" "second_ok ch c2" "cont c3" "cont c4" for c2 c3 c4
    using that cont_sub [of c2] cont_sub [of c3] cont_sub [of c4]
    by (intro scalar4) (auto simp: second_ok_def cont_def)
  show ?thesis
    unfolding decode1_def using fffd ascii two three four by (auto split: list.split)
qed

lemma utf8_decode_scalar: "list_all scalar (utf8_decode b)"
  by (induction b rule: utf8_decode.induct) (auto simp: decode1_scalar)

lemma list_all_strip: "list_all P t \<Longrightarrow> list_all P (strip_by Q t)"
  unfolding strip_by_def rstrip_by_def lstrip_by_def list_all_iff
  by (metis set_dropWhileD set_rev)

lemma utf8_encode_asc: "utf8_encode (asc s) = Inr (concat (map encode1 (asc s)))"
proof -
  have "scalar (of_char c)" for c :: char
    using nat_of_char_less_256[of c] unfolding scalar_def by linarith
  then show ?thesis by (simp add: utf8_encode_def asc_def list_all_iff)
qed

lemma scalar_asc: "list_all scalar (asc s)"
  using utf8_encode_asc[of s] by (auto simp: utf8_encode_def split: if_splits)

lemma utf8_strict_encode: "utf8_encode t = Inr b \<Longrightarrow> utf8_decode_strict b = Inr t"
  by (auto simp: utf8_decode_strict_def utf8_encode_def utf8_decode_concat split: if_splits)

end
