(* ===== verification/Checker.thy ===== *)
theory Checker
  imports PyText
begin

text \<open>
  Output comparison, \<^verbatim>\<open>app/modules/judge/checker.py\<close>, over the attributes of the
  sandbox package's \<^verbatim>\<open>DataRef\<close> that the worker reads and over a file system given as a
  partial map from paths to file contents.
\<close>

type_synonym files = "string \<rightharpoonup> bytes"

datatype ref_data = RStr ptext | RBytes bytes

record data_ref =
  dr_path :: "string option"
  dr_data :: "ref_data option"
  dr_sha256 :: string
  dr_preview_text :: ptext

section \<open>checker.py\<close>

definition check_output :: "ptext \<Rightarrow> ptext option \<Rightarrow> bool" where
  "check_output actual_preview expected_text =
     (case expected_text of None \<Rightarrow> True | Some t \<Rightarrow> ustrip actual_preview = ustrip t)"

text \<open>The content of the file, if there is one.\<close>

definition existing_file :: "files \<Rightarrow> string option \<Rightarrow> bytes option" where
  "existing_file fs path = (case path of None \<Rightarrow> None | Some p \<Rightarrow> fs p)"

definition ref_full_text :: "files \<Rightarrow> data_ref option \<Rightarrow> ptext option" where
  "ref_full_text fs ref =
     (case ref of
        None \<Rightarrow> None
      | Some r \<Rightarrow>
          (case existing_file fs (dr_path r) of
             Some content \<Rightarrow> Some (universal_newlines (utf8_decode content))
           | None \<Rightarrow>
               (case dr_data r of
                  Some (RBytes b) \<Rightarrow> Some (utf8_decode b)
                | Some (RStr t) \<Rightarrow> Some t
                | None \<Rightarrow> None)))"

text \<open>The loop \<^verbatim>\<open>for i in range(0, len(ba), chunk_size)\<close>.\<close>

function chunks_match :: "nat \<Rightarrow> bytes \<Rightarrow> bytes \<Rightarrow> nat \<Rightarrow> bool" where
  "chunks_match n ba bb i =
     (if 0 < n \<and> i < length ba
      then if take n (drop i ba) \<noteq> take n (drop i bb) then False else chunks_match n ba bb (i + n)
      else True)"
  by pat_completeness auto
termination
  by (relation "measure (\<lambda>(n, ba, bb, i). length ba - i)") auto

declare chunks_match.simps [simp del]

definition chunk_size :: nat where
  "chunk_size = 1024 * 1024"

definition paths_match_stripped :: "bytes \<Rightarrow> bytes \<Rightarrow> bool res" where
  "paths_match_stripped data_a data_b =
     (let text_a = ustrip (utf8_decode data_a); text_b = ustrip (utf8_decode data_b) in
      if length text_a \<noteq> length text_b then Inr False
      else rbind (utf8_encode text_a) (\<lambda>ba. rbind (utf8_encode text_b) (\<lambda>bb.
        if length ba \<noteq> length bb then Inr False else Inr (chunks_match chunk_size ba bb 0))))"

definition outputs_match :: "files \<Rightarrow> data_ref option \<Rightarrow> data_ref option \<Rightarrow> bool res" where
  "outputs_match fs actual_ref expected_ref =
     (case expected_ref of
        None \<Rightarrow> Inr True
      | Some e \<Rightarrow>
          (case (existing_file fs (Option.bind actual_ref dr_path), existing_file fs (dr_path e)) of
             (Some a, Some b) \<Rightarrow> paths_match_stripped a b
           | _ \<Rightarrow>
               (case ref_full_text fs expected_ref of
                  None \<Rightarrow> Inr True
                | Some expected_text \<Rightarrow>
                    (let actual_text = (case ref_full_text fs actual_ref of None \<Rightarrow> [] | Some t \<Rightarrow> t)
                     in Inr (check_output actual_text (Some expected_text))))))"

section \<open>Facts\<close>

lemma chunks_match_eq:
  assumes "0 < n" and "length ba = length bb"
  shows "chunks_match n ba bb i \<longleftrightarrow> drop i ba = drop i bb"
  using assms
proof (induction n ba bb i rule: chunks_match.induct)
  case (1 n ba bb i)
  show ?case
  proof (cases "i < length ba")
    case True
    have "drop i ba = drop i bb \<longleftrightarrow>
        take n (drop i ba) = take n (drop i bb) \<and> drop (i + n) ba = drop (i + n) bb"
      by (metis append_take_drop_id drop_drop add.commute)
    then show ?thesis
      using 1 True by (auto simp: chunks_match.simps [of n ba bb i])
  next
    case False
    then show ?thesis using 1 by (simp add: chunks_match.simps [of n ba bb i])
  qed
qed

lemma paths_match_stripped_eq:
  "paths_match_stripped a b = Inr (ustrip (utf8_decode a) = ustrip (utf8_decode b))"
proof -
  let ?s = "ustrip (utf8_decode a)" and ?t = "ustrip (utf8_decode b)"
  have "list_all scalar ?s" "list_all scalar ?t"
    by (simp_all add: ustrip_def list_all_strip utf8_decode_scalar)
  then obtain ba bb where e: "utf8_encode ?s = Inr ba" "utf8_encode ?t = Inr bb"
    by (simp add: utf8_encode_def)
  have "ba = bb \<longleftrightarrow> ?s = ?t" using e utf8_encode_inj by auto
  moreover have "chunks_match chunk_size ba bb 0 \<longleftrightarrow> ba = bb" if "length ba = length bb"
    using that by (simp add: chunks_match_eq chunk_size_def)
  ultimately show ?thesis
    by (auto simp: paths_match_stripped_def Let_def e)
qed

section \<open>Properties\<close>

text \<open>C37: Comparing two output files in chunks of a mebibyte, after comparing the lengths, decides exactly whether the two
  decoded and stripped texts are equal; it never raises.\<close>

theorem outputs_match_files:
  assumes "dr_path e = Some pe" "dr_path a = Some pa" "fs pe = Some expected" "fs pa = Some actual"
  shows "outputs_match fs (Some a) (Some e) = Inr (ustrip (utf8_decode actual) = ustrip (utf8_decode expected))"
  using assms by (simp add: outputs_match_def existing_file_def paths_match_stripped_eq)

lemmas text_eval = decode1_def ustrip_def strip_by_def lstrip_by_def rstrip_by_def uspace_def

theorem outputs_match_files_witness:
  "outputs_match [''/o'' \<mapsto> [49, 10], ''/e'' \<mapsto> [49]] (Some \<lparr>dr_path = Some ''/o'', dr_data = None, dr_sha256 = [], dr_preview_text = []\<rparr>)
     (Some \<lparr>dr_path = Some ''/e'', dr_data = None, dr_sha256 = [], dr_preview_text = []\<rparr>) = Inr True"
proof -
  have "ustrip (utf8_decode [49, 10]) = ustrip (utf8_decode [49])" by (simp add: text_eval)
  then show ?thesis
    by (subst outputs_match_files[of _ "''/e''" _ "''/o''" _ "[49]" "[49, 10]"]) simp_all
qed

text \<open>The verdict depends on how the expected output is delivered: a program that prints the line ends of another
  system matches inline expected text (its output is read with newline translation), and does not match the same text
  delivered as a file (both files are compared without it).\<close>

lemma newline_translation_differs:
  "outputs_match [''/o'' \<mapsto> [49, 13, 10, 50], ''/e'' \<mapsto> [49, 10, 50]]
      (Some \<lparr>dr_path = Some ''/o'', dr_data = None, dr_sha256 = [], dr_preview_text = []\<rparr>)
      (Some \<lparr>dr_path = None, dr_data = Some (RStr [49, 10, 50]), dr_sha256 = [], dr_preview_text = []\<rparr>) = Inr True
   \<and> outputs_match [''/o'' \<mapsto> [49, 13, 10, 50], ''/e'' \<mapsto> [49, 10, 50]]
      (Some \<lparr>dr_path = Some ''/o'', dr_data = None, dr_sha256 = [], dr_preview_text = []\<rparr>)
      (Some \<lparr>dr_path = Some ''/e'', dr_data = None, dr_sha256 = [], dr_preview_text = []\<rparr>) = Inr False"
  by (simp add: outputs_match_def existing_file_def paths_match_stripped_eq ref_full_text_def check_output_def text_eval)

end
