(* ===== verification/JudgeConfig.thy ===== *)
theory JudgeConfig
  imports PyFloat
begin

text \<open>
  The judge module's settings, \<^verbatim>\<open>app/modules/judge/config.py\<close>: the fields of
  \<^verbatim>\<open>JudgeSettings\<close> with their defaults, and which instance is used
  (the one injected as module config, else the one built from the environment).
\<close>

record judge_settings =
  js_task_default_queue :: string
  js_task_default_routing_key :: string
  js_task_soft_time_limit :: int
  js_task_time_limit :: int
  js_task_acks_late :: bool
  js_task_reject_on_worker_lost :: bool
  js_worker_prefetch_multiplier :: int
  js_sandbox_worker_pool_size :: int
  js_sandbox_borrow_timeout_seconds :: rat
  js_sandbox_max_queue_wait_seconds :: rat
  js_sandbox_request_timeout_seconds :: rat
  js_sandbox_queue_wait_warn_seconds :: rat
  js_sandbox_health_check_timeout_seconds :: rat
  js_sandbox_standard_parallelism :: int
  js_sandbox_allow_emergency_worker :: bool
  js_sandbox_compilation_cache_enabled :: bool
  js_sandbox_compilation_cache_dir :: string
  js_sandbox_compilation_cache_max_mb :: int
  js_sandbox_compilation_cache_ttl_seconds :: int
  js_sandbox_enable_namespaces :: bool
  js_sandbox_rootfs_path :: string
  js_sandbox_bind_system_paths :: bool
  js_sandbox_isolate_network :: bool
  js_sandbox_isolate_ipc :: bool
  js_sandbox_isolate_uts :: bool
  js_sandbox_private_mounts :: bool
  js_sandbox_use_pivot_root :: bool
  js_sandbox_bind_workspace :: bool
  js_sandbox_enable_cgroup :: bool
  js_sandbox_cgroup_version :: string
  js_sandbox_cgroup_base_path :: string
  js_sandbox_cgroup_v1_memory_base_path :: string
  js_sandbox_cgroup_v1_pids_base_path :: string
  js_cache_enabled :: bool
  js_cache_dir :: string
  js_cache_max_mb :: int
  js_cache_ttl_seconds :: int

definition judge_settings_default :: judge_settings where
  "judge_settings_default = \<lparr>
     js_task_default_queue = ''judge'',
     js_task_default_routing_key = ''judge.default'',
     js_task_soft_time_limit = 300,
     js_task_time_limit = 600,
     js_task_acks_late = True,
     js_task_reject_on_worker_lost = True,
     js_worker_prefetch_multiplier = 1,
     js_sandbox_worker_pool_size = 32,
     js_sandbox_borrow_timeout_seconds = fl (5 / 100),
     js_sandbox_max_queue_wait_seconds = 0,
     js_sandbox_request_timeout_seconds = 120,
     js_sandbox_queue_wait_warn_seconds = 1 / 2,
     js_sandbox_health_check_timeout_seconds = 1,
     js_sandbox_standard_parallelism = 4,
     js_sandbox_allow_emergency_worker = False,
     js_sandbox_compilation_cache_enabled = True,
     js_sandbox_compilation_cache_dir = ''/tmp/acoj-ccache'',
     js_sandbox_compilation_cache_max_mb = 512,
     js_sandbox_compilation_cache_ttl_seconds = 3600,
     js_sandbox_enable_namespaces = False,
     js_sandbox_rootfs_path = '''',
     js_sandbox_bind_system_paths = True,
     js_sandbox_isolate_network = True,
     js_sandbox_isolate_ipc = True,
     js_sandbox_isolate_uts = True,
     js_sandbox_private_mounts = True,
     js_sandbox_use_pivot_root = True,
     js_sandbox_bind_workspace = True,
     js_sandbox_enable_cgroup = False,
     js_sandbox_cgroup_version = ''auto'',
     js_sandbox_cgroup_base_path = ''/sys/fs/cgroup/acoj-sandbox'',
     js_sandbox_cgroup_v1_memory_base_path = '''',
     js_sandbox_cgroup_v1_pids_base_path = '''',
     js_cache_enabled = True,
     js_cache_dir = ''storage/judge-cache'',
     js_cache_max_mb = 512,
     js_cache_ttl_seconds = 86400 * 7\<rparr>"

text \<open>
  \<^verbatim>\<open>settings.module_configs.get("judge")\<close> is used when it is a \<^verbatim>\<open>JudgeSettings\<close>;
  \<open>env\<close> is what \<^verbatim>\<open>JudgeSettings()\<close> reads from the environment.
\<close>

definition get_judge_settings :: "(string \<rightharpoonup> judge_settings) \<Rightarrow> judge_settings \<Rightarrow> judge_settings" where
  "get_judge_settings module_configs env =
     (case module_configs ''judge'' of Some cfg \<Rightarrow> cfg | None \<Rightarrow> env)"

end
