(* ===== verification/Shlex.thy ===== *)
theory Shlex
  imports Prelude
begin

text \<open>
  \<^verbatim>\<open>shlex.split(s)\<close> of Python's standard library (POSIX mode, no comments), the word
  splitter the worker applies to the compile and run commands of a language: the state machine
  of \<^verbatim>\<open>shlex.read_token\<close>, all tokens in one pass.
\<close>

datatype lex_state = LSpace | LWord | LQuote char | LEscape "char option"

definition shlex_space :: "char \<Rightarrow> bool" where
  "shlex_space c = (c \<in> {CHR '' '', CHR 0x09, CHR 0x0D, CHR 0x0A})"

definition dquote :: char where "dquote = CHR 0x22"

definition squote :: char where "squote = CHR 0x27"

definition backslash :: char where "backslash = CHR 0x5C"

definition shlex_quote_char :: "char \<Rightarrow> bool" where
  "shlex_quote_char c = (c = dquote \<or> c = squote)"

text \<open>The state after an escaped character: the word state, or back inside double quotes.\<close>

fun unescape_state :: "char option \<Rightarrow> lex_state" where
  "unescape_state None = LWord"
| "unescape_state (Some q) = LQuote q"

text \<open>
  \<open>shlex_go st tok q cs\<close>: in state \<open>st\<close> with the token \<open>tok\<close> collected so far, \<open>q\<close> telling
  whether a quote occurred in it. An escape inside double quotes keeps its backslash unless it
  escapes a quote or a backslash.
\<close>

fun shlex_go :: "lex_state \<Rightarrow> string \<Rightarrow> bool \<Rightarrow> string \<Rightarrow> string list res" where
  "shlex_go LSpace tok q [] = Inr []"
| "shlex_go LSpace tok q (c # cs) =
     (if shlex_space c then shlex_go LSpace [] False cs
      else if c = backslash then shlex_go (LEscape None) [] False cs
      else if shlex_quote_char c then shlex_go (LQuote c) [] False cs
      else shlex_go LWord [c] False cs)"
| "shlex_go LWord tok q [] = Inr (if tok \<noteq> [] \<or> q then [tok] else [])"
| "shlex_go LWord tok q (c # cs) =
     (if shlex_space c then
        (if tok \<noteq> [] \<or> q then rbind (shlex_go LSpace [] False cs) (\<lambda>ts. Inr (tok # ts))
         else shlex_go LSpace [] False cs)
      else if shlex_quote_char c then shlex_go (LQuote c) tok q cs
      else if c = backslash then shlex_go (LEscape None) tok q cs
      else shlex_go LWord (tok @ [c]) q cs)"
| "shlex_go (LQuote d) tok q [] = Inl (ValueError (asc ''No closing quotation''))"
| "shlex_go (LQuote d) tok q (c # cs) =
     (if c = d then shlex_go LWord tok True cs
      else if c = backslash \<and> d = dquote then shlex_go (LEscape (Some d)) tok True cs
      else shlex_go (LQuote d) (tok @ [c]) True cs)"
| "shlex_go (LEscape e) tok q [] = Inl (ValueError (asc ''No escaped character''))"
| "shlex_go (LEscape e) tok q (c # cs) =
     (if e \<noteq> None \<and> c \<noteq> backslash \<and> e \<noteq> Some c
      then shlex_go (unescape_state e) (tok @ [backslash, c]) q cs
      else shlex_go (unescape_state e) (tok @ [c]) q cs)"

definition shlex_split :: "string \<Rightarrow> string list res" where
  "shlex_split s = shlex_go LSpace [] False s"

section \<open>Words without special characters\<close>

definition plain_word :: "string \<Rightarrow> bool" where
  "plain_word w =
     (w \<noteq> [] \<and> list_all (\<lambda>c. \<not> shlex_space c \<and> \<not> shlex_quote_char c \<and> c \<noteq> backslash) w)"

lemma shlex_go_plain:
  assumes "list_all (\<lambda>c. \<not> shlex_space c \<and> \<not> shlex_quote_char c \<and> c \<noteq> backslash) w"
  shows "shlex_go LWord tok q (w @ rest) = shlex_go LWord (tok @ w) q rest"
  using assms by (induction w arbitrary: tok) auto

lemma shlex_go_word:
  assumes "plain_word w"
  shows "shlex_go LSpace tok q (w @ rest) = shlex_go LWord w False rest"
  using assms shlex_go_plain[of "tl w" "[hd w]" False rest] by (cases w) (auto simp: plain_word_def)

text \<open>Splitting inverts joining by one space, for words with no quote, backslash or white space.\<close>

lemma shlex_split_join:
  "list_all plain_word ws \<Longrightarrow> shlex_split (join_with '' '' ws) = Inr ws"
  unfolding shlex_split_def
proof (induction ws)
  case (Cons w ws)
  have sp: "shlex_space (CHR '' '')" by (simp add: shlex_space_def)
  from Cons.prems have w: "plain_word w" "w \<noteq> []" by (auto simp: plain_word_def)
  show ?case
  proof (cases ws)
    case Nil
    with w show ?thesis using shlex_go_word[of w "[]" False "[]"] by simp
  next
    case (Cons v vs)
    with w sp Cons.IH Cons.prems show ?thesis by (simp add: shlex_go_word rbind_def)
  qed
qed simp

text \<open>Only an unclosed quote or a trailing backslash makes it fail.\<close>

lemma shlex_go_total:
  assumes "shlex_go st tok q cs = Inl e"
  shows "e = ValueError (asc ''No closing quotation'') \<or> e = ValueError (asc ''No escaped character'')"
  using assms
  by (induction st tok q cs rule: shlex_go.induct) (auto simp: rbind_def split: if_splits sum.splits)

end
