(* ===== verification/LanguageConfig.thy ===== *)
theory LanguageConfig
  imports Schemas Shlex
begin

text \<open>
  \<^verbatim>\<open>app/modules/judge/language_config.py\<close>: the language description sent to the sandbox,
  built from the language dictionary of a request. The constructors of the sandbox package
  (\<^verbatim>\<open>LanguageSpec\<close>, \<^verbatim>\<open>compiled_language\<close>, \<^verbatim>\<open>script_language\<close>,
  \<^verbatim>\<open>testlib_checker_language\<close>) are kept as data with the arguments the worker passes.
\<close>

section \<open>Arguments of the sandbox package\<close>

record judge_limits =
  jl_cpu_time_ms :: int
  jl_real_time_ms :: int
  jl_memory_bytes :: int
  jl_processes :: int
  jl_output_bytes :: "int option"

record command_spec =
  cmd_argv :: "string list"
  cmd_env :: "string list"
  cmd_seccomp :: "string option"
  cmd_memory_limit_check_only :: bool
  cmd_limits :: "judge_limits option"

datatype language_spec =
    Language_spec (ls_id: "string option") (ls_source_filename: string) (ls_exe_filename: string)
      (ls_compile: command_spec) (ls_run: command_spec)
  | Compiled_language (ls_id: "string option") (ls_exe_filename: string)
      (ls_compile_argv: "string list") (ls_run_argv: "string list") (ls_compile_limits: judge_limits)
  | Script_language (ls_id: "string option") (ls_argv: "string list")
  | Testlib_checker_language

section \<open>language_config.py\<close>

definition norm_key :: "string option \<Rightarrow> string" where
  "norm_key language_key = py_lower (py_strip (str_or language_key []))"

definition is_java :: "string \<Rightarrow> bool" where
  "is_java key = startswith key ''java''"

definition is_go :: "string \<Rightarrow> bool" where
  "is_go key = (key \<in> {''go'', ''golang''})"

definition needs_virt_as :: "string option \<Rightarrow> bool" where
  "needs_virt_as language_key = (let key = norm_key language_key in is_java key \<or> is_go key)"

definition default_exe_filename :: "string option \<Rightarrow> string \<Rightarrow> string" where
  "default_exe_filename language_key exe_filename =
     (if is_java (norm_key language_key) then ''Main'' else exe_filename)"

definition lang_compile_limits :: judge_limits where
  "lang_compile_limits = \<lparr>jl_cpu_time_ms = 30000, jl_real_time_ms = 60000,
     jl_memory_bytes = 1024 * 1024 * 1024, jl_processes = 256, jl_output_bytes = Some (64 * 1024 * 1024)\<rparr>"

definition go_env :: "string list" where
  "go_env = [''GOCACHE=/tmp/go-cache'', ''GOPROXY=off'', ''GO111MODULE=off'', ''HOME=/tmp'']"

definition java_env :: "string list" where
  "java_env = [''JAVA_HOME=/usr/lib/jvm/java-17-openjdk-amd64'',
     ''LD_LIBRARY_PATH=/usr/lib/jvm/java-17-openjdk-amd64/lib'']"

text \<open>The branch of the JVM and Go languages: no seccomp, memory checked instead of limited.\<close>

definition virt_as_spec ::
  "language_config \<Rightarrow> string option \<Rightarrow> string \<Rightarrow> string list \<Rightarrow> string list \<Rightarrow> language_spec" where
  "virt_as_spec language language_key exe_name compile_argv run_argv =
     (let key_l = norm_key language_key;
          compile_env = (if is_go key_l then go_env else if is_java key_l then java_env else []);
          run_env = (if is_go key_l then [] else if is_java key_l then java_env else [])
      in Language_spec language_key
           (str_or (dget (lg_source_filename language)) (if is_java key_l then ''Main.java'' else ''main.go''))
           exe_name
           \<lparr>cmd_argv = compile_argv, cmd_env = compile_env, cmd_seccomp = Some ''none'',
             cmd_memory_limit_check_only = True, cmd_limits = Some lang_compile_limits\<rparr>
           \<lparr>cmd_argv = run_argv, cmd_env = run_env, cmd_seccomp = Some ''none'',
             cmd_memory_limit_check_only = True, cmd_limits = None\<rparr>)"

definition build_languages_config :: "language_config \<Rightarrow> string \<Rightarrow> language_spec list res" where
  "build_languages_config language exe_filename =
     rbind (dindex ''key'' (lg_key language)) (\<lambda>language_key.
       let compile_cmd = str_or (dget (lg_compile_command language)) [];
           exe_name = default_exe_filename language_key exe_filename
       in if py_strip compile_cmd \<noteq> [] then
            rbind (shlex_split compile_cmd) (\<lambda>compile_argv.
            rbind (shlex_split (str_or (dget (lg_run_command language)) ''{exe}'')) (\<lambda>run_argv.
              Inr [if needs_virt_as language_key
                   then virt_as_spec language language_key exe_name compile_argv run_argv
                   else Compiled_language language_key exe_name compile_argv run_argv lang_compile_limits]))
          else
            rbind (shlex_split (str_or (dget (lg_run_command language)) [])) (\<lambda>run_argv.
              Inr [Script_language language_key run_argv]))"

section \<open>Facts\<close>

lemma build_languages_config_single:
  "build_languages_config language exe = Inr specs \<Longrightarrow> \<exists>spec. specs = [spec] \<and> spec \<noteq> Testlib_checker_language"
  by (auto simp: build_languages_config_def virt_as_spec_def rbind_def Let_def split: sum.splits if_splits)

lemma build_languages_config_id:
  "build_languages_config language exe = Inr [spec] \<Longrightarrow> dindex ''key'' (lg_key language) = Inr (ls_id spec)"
  by (auto simp: build_languages_config_def virt_as_spec_def rbind_def Let_def split: sum.splits if_splits)

text \<open>The script branch is the only one without a compile step.\<close>

lemma build_languages_config_script:
  assumes "build_languages_config language exe = Inr [spec]"
  shows "(\<exists>k argv. spec = Script_language k argv)
           \<longleftrightarrow> py_strip (str_or (dget (lg_compile_command language)) []) = []"
  using assms
  by (auto simp: build_languages_config_def virt_as_spec_def rbind_def Let_def split: sum.splits if_splits)

section \<open>Properties\<close>

text \<open>A compiled language outside the JVM and Go families with commands of plain words (no quotes, backslashes or white
  space inside a word) is sent to the sandbox with exactly those words as arguments and the fixed compile limits.\<close>

lemma compiled_language_argv:
  assumes "lg_key language = Val key" "\<not> needs_virt_as (Some key)"
    and "lg_compile_command language = Val (join_with '' '' cws)" "py_strip (join_with '' '' cws) \<noteq> []"
    and "lg_run_command language = Val (join_with '' '' rws)" "join_with '' '' rws \<noteq> []"
    and "list_all plain_word cws" "list_all plain_word rws"
  shows "build_languages_config language exe
           = Inr [Compiled_language (Some key) (default_exe_filename (Some key) exe) cws rws lang_compile_limits]"
proof -
  have "join_with '' '' cws \<noteq> []" using assms(4) by (auto simp: py_strip_def strip_by_def lstrip_by_def rstrip_by_def)
  then show ?thesis
    using assms by (simp add: build_languages_config_def str_or_def shlex_split_join rbind_def Let_def)
qed

definition cpp_language :: language_config where
  "cpp_language = \<lparr>lg_key = Val ''cpp'', lg_name = Absent, lg_extension = Absent,
     lg_compile_command = Val ''g++ {src} -o {exe}'', lg_run_command = Val ''{exe}'', lg_source_filename = Absent\<rparr>"

lemma compiled_language_argv_witness:
  "build_languages_config cpp_language ''main''
     = Inr [Compiled_language (Some ''cpp'') ''main'' [''g++'', ''{src}'', ''-o'', ''{exe}''] [''{exe}''] lang_compile_limits]"
proof -
  have virt: "\<not> needs_virt_as (Some ''cpp'')" by code_simp
  have exe: "default_exe_filename (Some ''cpp'') ''main'' = ''main''" by code_simp
  have strip: "py_strip ''g++ {src} -o {exe}'' \<noteq> []" by code_simp
  have plain: "list_all plain_word [''g++'', ''{src}'', ''-o'', ''{exe}'']" by code_simp
  show ?thesis
    using compiled_language_argv[of cpp_language "''cpp''" "[''g++'', ''{src}'', ''-o'', ''{exe}'']" "[''{exe}'']" "''main''"]
      virt strip plain by (simp add: cpp_language_def exe)
qed

end
