(* ===== verification/SandboxConfig.thy ===== *)
theory SandboxConfig
  imports JudgeConfig LanguageConfig
begin

text \<open>
  \<^verbatim>\<open>app/modules/judge/sandbox_config.py\<close>: isolation, cgroup and client options from the
  judge settings. \<open>exists\<close> says which host paths exist. The module-level flags are a record
  threaded through \<^verbatim>\<open>create_sandbox_client\<close>; the calls into the sandbox package and the
  log become a list of effects.
\<close>

record bind_mount =
  bm_source :: string
  bm_target :: string
  bm_read_only :: bool
  bm_recursive :: bool

record isolation_config =
  is_enable_namespaces :: bool
  is_isolate_network :: bool
  is_isolate_ipc :: bool
  is_isolate_uts :: bool
  is_private_mounts :: bool
  is_rootfs_path :: string
  is_use_pivot_root :: bool
  is_bind_workspace :: bool
  is_bind_mounts :: "bind_mount list"

record cgroup_config =
  cg_enabled :: bool
  cg_version :: string
  cg_base_path :: string
  cg_v1_memory_base_path :: string
  cg_v1_pids_base_path :: string

definition system_bind_candidates :: "string list" where
  "system_bind_candidates = [''/usr'', ''/etc'', ''/proc'']"

definition system_bind_mounts :: "(string \<Rightarrow> bool) \<Rightarrow> bind_mount list" where
  "system_bind_mounts exists =
     map (\<lambda>path. \<lparr>bm_source = path, bm_target = path, bm_read_only = (path \<noteq> ''/proc''), bm_recursive = True\<rparr>)
       (filter exists system_bind_candidates)"

definition build_isolation_config :: "judge_settings \<Rightarrow> (string \<Rightarrow> bool) \<Rightarrow> isolation_config" where
  "build_isolation_config cfg exists =
     (let enable_ns = js_sandbox_enable_namespaces cfg in
      \<lparr>is_enable_namespaces = enable_ns,
       is_isolate_network = (if enable_ns then js_sandbox_isolate_network cfg else False),
       is_isolate_ipc = (if enable_ns then js_sandbox_isolate_ipc cfg else False),
       is_isolate_uts = (if enable_ns then js_sandbox_isolate_uts cfg else False),
       is_private_mounts = (if enable_ns then js_sandbox_private_mounts cfg else False),
       is_rootfs_path = js_sandbox_rootfs_path cfg,
       is_use_pivot_root = (if enable_ns then js_sandbox_use_pivot_root cfg else False),
       is_bind_workspace = js_sandbox_bind_workspace cfg,
       is_bind_mounts = (if js_sandbox_rootfs_path cfg \<noteq> [] \<and> js_sandbox_bind_system_paths cfg
                         then system_bind_mounts exists else [])\<rparr>)"

definition build_cgroup_config :: "judge_settings \<Rightarrow> cgroup_config" where
  "build_cgroup_config cfg = \<lparr>
     cg_enabled = js_sandbox_enable_cgroup cfg,
     cg_version = js_sandbox_cgroup_version cfg,
     cg_base_path = js_sandbox_cgroup_base_path cfg,
     cg_v1_memory_base_path = js_sandbox_cgroup_v1_memory_base_path cfg,
     cg_v1_pids_base_path = js_sandbox_cgroup_v1_pids_base_path cfg\<rparr>"

section \<open>create_sandbox_client\<close>

record sandbox_flags =
  sf_capacity_warning_logged :: bool
  sf_production_warning_logged :: bool
  sf_metrics_callback_registered :: bool

datatype client_effect =
    Warn_pool_capacity int int int int
  | Warn_not_hardened "string list"
  | Configure_compilation_cache string int int
  | Register_pool_created_callback

record client_options =
  co_languages :: "language_spec list"
  co_pool_size :: int
  co_borrow_timeout :: rat
  co_allow_emergency_worker :: bool
  co_max_queue_wait_seconds :: rat
  co_request_timeout :: rat
  co_queue_wait_warn_seconds :: rat
  co_health_check_timeout :: rat
  co_compilation_cache_enabled :: bool

definition warn_if_pool_capacity_is_lower_than_parallelism ::
  "judge_settings \<Rightarrow> int \<Rightarrow> sandbox_flags \<Rightarrow> client_effect list \<times> sandbox_flags" where
  "warn_if_pool_capacity_is_lower_than_parallelism cfg worker_concurrency fg =
     (if sf_capacity_warning_logged fg then ([], fg)
      else let expected_peak = worker_concurrency * max 1 (js_sandbox_standard_parallelism cfg) in
           if js_sandbox_worker_pool_size cfg < expected_peak
           then ([Warn_pool_capacity (js_sandbox_worker_pool_size cfg) worker_concurrency
                    (js_sandbox_standard_parallelism cfg) expected_peak],
                 fg\<lparr>sf_capacity_warning_logged := True\<rparr>)
           else ([], fg))"

definition hardening_warnings :: "judge_settings \<Rightarrow> string list" where
  "hardening_warnings cfg =
     (if \<not> js_sandbox_enable_namespaces cfg then [''namespaces disabled''] else [])
     @ (if js_sandbox_enable_namespaces cfg \<and> js_sandbox_rootfs_path cfg = []
        then [''namespaces enabled without rootfs_path''] else [])
     @ (if \<not> js_sandbox_enable_cgroup cfg then [''cgroup disabled''] else [])"

definition warn_if_runtime_config_is_not_production_hardened ::
  "judge_settings \<Rightarrow> bool \<Rightarrow> sandbox_flags \<Rightarrow> client_effect list \<times> sandbox_flags" where
  "warn_if_runtime_config_is_not_production_hardened cfg debug fg =
     (if sf_production_warning_logged fg \<or> debug then ([], fg)
      else ((if hardening_warnings cfg \<noteq> [] then [Warn_not_hardened (hardening_warnings cfg)] else []),
            fg\<lparr>sf_production_warning_logged := True\<rparr>))"

definition configure_compilation_cache :: "judge_settings \<Rightarrow> client_effect list" where
  "configure_compilation_cache cfg =
     (if \<not> js_sandbox_compilation_cache_enabled cfg then []
      else [Configure_compilation_cache (js_sandbox_compilation_cache_dir cfg)
              (js_sandbox_compilation_cache_max_mb cfg * 1024 * 1024)
              (js_sandbox_compilation_cache_ttl_seconds cfg)])"

text \<open>\<open>has_register\<close>: the client class has \<^verbatim>\<open>register_pool_created_callback\<close>.\<close>

definition register_pool_metrics_callback ::
  "bool \<Rightarrow> sandbox_flags \<Rightarrow> client_effect list \<times> sandbox_flags" where
  "register_pool_metrics_callback has_register fg =
     (if sf_metrics_callback_registered fg \<or> \<not> has_register then ([], fg)
      else ([Register_pool_created_callback], fg\<lparr>sf_metrics_callback_registered := True\<rparr>))"

definition client_options_of :: "judge_settings \<Rightarrow> language_spec list \<Rightarrow> client_options" where
  "client_options_of cfg languages = \<lparr>
     co_languages = languages,
     co_pool_size = js_sandbox_worker_pool_size cfg,
     co_borrow_timeout = js_sandbox_borrow_timeout_seconds cfg,
     co_allow_emergency_worker = js_sandbox_allow_emergency_worker cfg,
     co_max_queue_wait_seconds = js_sandbox_max_queue_wait_seconds cfg,
     co_request_timeout = js_sandbox_request_timeout_seconds cfg,
     co_queue_wait_warn_seconds = js_sandbox_queue_wait_warn_seconds cfg,
     co_health_check_timeout = js_sandbox_health_check_timeout_seconds cfg,
     co_compilation_cache_enabled = js_sandbox_compilation_cache_enabled cfg\<rparr>"

definition create_sandbox_client ::
  "judge_settings \<Rightarrow> int \<Rightarrow> bool \<Rightarrow> bool \<Rightarrow> language_spec list \<Rightarrow> sandbox_flags
     \<Rightarrow> client_options \<times> client_effect list \<times> sandbox_flags" where
  "create_sandbox_client cfg worker_concurrency debug has_register languages fg =
     (let (e1, fg1) = warn_if_pool_capacity_is_lower_than_parallelism cfg worker_concurrency fg;
          (e2, fg2) = warn_if_runtime_config_is_not_production_hardened cfg debug fg1;
          e3 = configure_compilation_cache cfg;
          (e4, fg3) = register_pool_metrics_callback has_register fg2
      in (client_options_of cfg languages, e1 @ e2 @ e3 @ e4, fg3))"

section \<open>Facts\<close>

lemma create_sandbox_client_options:
  "fst (create_sandbox_client cfg wc debug reg languages fg) = client_options_of cfg languages"
  by (simp add: create_sandbox_client_def Let_def split: prod.splits)

text \<open>Without namespaces no option that needs one is requested, and a bind mount of the host is
  read-only unless it is \<^verbatim>\<open>/proc\<close>; mounts appear only under a configured root file system.\<close>

lemma isolation_sound:
  "(\<not> js_sandbox_enable_namespaces cfg
      \<longrightarrow> \<not> is_isolate_network isol \<and> \<not> is_isolate_ipc isol \<and> \<not> is_isolate_uts isol
          \<and> \<not> is_private_mounts isol \<and> \<not> is_use_pivot_root isol)
   \<and> (\<forall>m\<in>set (is_bind_mounts isol). js_sandbox_rootfs_path cfg \<noteq> [] \<and> exists (bm_source m)
          \<and> bm_target m = bm_source m \<and> (bm_read_only m \<or> bm_source m = ''/proc''))"
  if "isol = build_isolation_config cfg exists"
  using that by (auto simp: build_isolation_config_def system_bind_mounts_def Let_def)

lemma isolation_sound_witness:
  "\<not> is_isolate_network (build_isolation_config judge_settings_default (\<lambda>_. True))"
  using isolation_sound[OF refl, of judge_settings_default "\<lambda>_. True"]
  by (simp add: judge_settings_default_def)

text \<open>Two clients created one after the other: the second repeats none of the one-time warnings
  and registrations of the first, and the flags it leaves are those the first left.\<close>

lemma create_client_warns_once:
  assumes "create_sandbox_client cfg wc debug reg languages fg = (opts, effects, fg1)"
    and "create_sandbox_client cfg wc debug reg languages' fg1 = (opts', effects', fg2)"
  shows "fg2 = fg1 \<and> effects' = configure_compilation_cache cfg"
  using assms
  by (auto simp: create_sandbox_client_def warn_if_pool_capacity_is_lower_than_parallelism_def
      warn_if_runtime_config_is_not_production_hardened_def register_pool_metrics_callback_def Let_def
      split: if_splits)

lemma create_client_warns_once_witness:
  "\<exists>opts effects fg1 opts' effects' fg2.
     create_sandbox_client judge_settings_default 16 False True []
       \<lparr>sf_capacity_warning_logged = False, sf_production_warning_logged = False,
         sf_metrics_callback_registered = False\<rparr> = (opts, effects, fg1) \<and> length effects = 4
     \<and> create_sandbox_client judge_settings_default 16 False True [] fg1 = (opts', effects', fg2)
     \<and> fg2 = fg1 \<and> effects' = configure_compilation_cache judge_settings_default"
proof -
  let ?fg = "\<lparr>sf_capacity_warning_logged = False, sf_production_warning_logged = False,
         sf_metrics_callback_registered = False\<rparr>"
  obtain opts effects fg1 where 1: "create_sandbox_client judge_settings_default 16 False True [] ?fg
      = (opts, effects, fg1)" by (metis prod_cases3)
  obtain opts' effects' fg2 where 2: "create_sandbox_client judge_settings_default 16 False True [] fg1
      = (opts', effects', fg2)" by (metis prod_cases3)
  have "length effects = 4"
    using 1 by (auto simp: create_sandbox_client_def warn_if_pool_capacity_is_lower_than_parallelism_def
      warn_if_runtime_config_is_not_production_hardened_def register_pool_metrics_callback_def Let_def
      judge_settings_default_def configure_compilation_cache_def hardening_warnings_def)
  with 1 2 create_client_warns_once[OF 1 2] show ?thesis by blast
qed

end
