(* ===== verification/Sha256.thy ===== *)
theory Sha256
  imports PyText "HOL-Library.Word"
begin

unbundle bit_operations_syntax

text \<open>
  The part of Python's \<^verbatim>\<open>hashlib\<close> the worker uses: \<^verbatim>\<open>sha256(data).hexdigest()\<close> as
  the function of FIPS 180-4 on 32 bit words, with the wrap-around of \<open>32 word\<close> addition.
  A digest is 64 characters among \<open>0-9a-f\<close>, which is what makes a cache key a single path
  component.
\<close>

section \<open>The compression function\<close>

type_synonym w32 = "32 word"

definition sha_k :: "w32 list" where
  "sha_k =
    [0x428A2F98, 0x71374491, 0xB5C0FBCF, 0xE9B5DBA5,
     0x3956C25B, 0x59F111F1, 0x923F82A4, 0xAB1C5ED5,
     0xD807AA98, 0x12835B01, 0x243185BE, 0x550C7DC3,
     0x72BE5D74, 0x80DEB1FE, 0x9BDC06A7, 0xC19BF174,
     0xE49B69C1, 0xEFBE4786, 0x0FC19DC6, 0x240CA1CC,
     0x2DE92C6F, 0x4A7484AA, 0x5CB0A9DC, 0x76F988DA,
     0x983E5152, 0xA831C66D, 0xB00327C8, 0xBF597FC7,
     0xC6E00BF3, 0xD5A79147, 0x06CA6351, 0x14292967,
     0x27B70A85, 0x2E1B2138, 0x4D2C6DFC, 0x53380D13,
     0x650A7354, 0x766A0ABB, 0x81C2C92E, 0x92722C85,
     0xA2BFE8A1, 0xA81A664B, 0xC24B8B70, 0xC76C51A3,
     0xD192E819, 0xD6990624, 0xF40E3585, 0x106AA070,
     0x19A4C116, 0x1E376C08, 0x2748774C, 0x34B0BCB5,
     0x391C0CB3, 0x4ED8AA4A, 0x5B9CCA4F, 0x682E6FF3,
     0x748F82EE, 0x78A5636F, 0x84C87814, 0x8CC70208,
     0x90BEFFFA, 0xA4506CEB, 0xBEF9A3F7, 0xC67178F2]"

definition sha_h0 :: "w32 list" where
  "sha_h0 =
    [0x6A09E667, 0xBB67AE85, 0x3C6EF372, 0xA54FF53A,
     0x510E527F, 0x9B05688C, 0x1F83D9AB, 0x5BE0CD19]"

definition rotr :: "nat \<Rightarrow> w32 \<Rightarrow> w32" where
  "rotr n x = drop_bit n x OR push_bit (32 - n) x"

definition big_sigma0 :: "w32 \<Rightarrow> w32" where
  "big_sigma0 x = rotr 2 x XOR rotr 13 x XOR rotr 22 x"

definition big_sigma1 :: "w32 \<Rightarrow> w32" where
  "big_sigma1 x = rotr 6 x XOR rotr 11 x XOR rotr 25 x"

definition small_sigma0 :: "w32 \<Rightarrow> w32" where
  "small_sigma0 x = rotr 7 x XOR rotr 18 x XOR drop_bit 3 x"

definition small_sigma1 :: "w32 \<Rightarrow> w32" where
  "small_sigma1 x = rotr 17 x XOR rotr 19 x XOR drop_bit 10 x"

definition sha_ch :: "w32 \<Rightarrow> w32 \<Rightarrow> w32 \<Rightarrow> w32" where
  "sha_ch e f g = (e AND f) XOR (NOT e AND g)"

definition sha_maj :: "w32 \<Rightarrow> w32 \<Rightarrow> w32 \<Rightarrow> w32" where
  "sha_maj a b c = (a AND b) XOR (a AND c) XOR (b AND c)"

text \<open>The message schedule, newest word first.\<close>

fun sha_extend :: "nat \<Rightarrow> w32 list \<Rightarrow> w32 list" where
  "sha_extend 0 ws = ws"
| "sha_extend (Suc n) ws =
     sha_extend n ((small_sigma1 (ws ! 1) + ws ! 6 + small_sigma0 (ws ! 14) + ws ! 15) # ws)"

fun sha_round :: "w32 list \<Rightarrow> w32 \<times> w32 \<Rightarrow> w32 list" where
  "sha_round [a, b, c, d, e, f, g, h] (k, w) =
     (let t1 = h + big_sigma1 e + sha_ch e f g + k + w;
          t2 = big_sigma0 a + sha_maj a b c
      in [t1 + t2, a, b, c, d + t1, e, f, g])"
| "sha_round s _ = s"

definition sha_block :: "w32 list \<Rightarrow> w32 list \<Rightarrow> w32 list" where
  "sha_block s block =
     map2 (+) s (foldl sha_round s (zip sha_k (rev (sha_extend 48 (rev block)))))"

section \<open>Padding and output\<close>

fun be_words :: "bytes \<Rightarrow> w32 list" where
  "be_words (a # b # c # d # rest) = (((of_nat a * 256 + of_nat b) * 256 + of_nat c) * 256 + of_nat d) # be_words rest"
| "be_words _ = []"

fun chunks_of_16 :: "nat \<Rightarrow> w32 list \<Rightarrow> w32 list list" where
  "chunks_of_16 0 ws = []"
| "chunks_of_16 (Suc n) ws = (if ws = [] then [] else take 16 ws # chunks_of_16 n (drop 16 ws))"

definition sha_pad :: "bytes \<Rightarrow> bytes" where
  "sha_pad data =
     data @ [128] @ replicate ((119 - length data mod 64) mod 64) 0
       @ map (\<lambda>i. unat (drop_bit (8 * i) (8 * of_nat (length data) :: 64 word) AND 255)) [7, 6, 5, 4, 3, 2, 1, 0]"

definition sha256_words :: "bytes \<Rightarrow> w32 list" where
  "sha256_words data =
     (let ws = be_words (sha_pad data) in foldl sha_block sha_h0 (chunks_of_16 (length ws) ws))"

definition hex_digits :: string where
  "hex_digits = ''0123456789abcdef''"

definition hex_digit :: "nat \<Rightarrow> char" where
  "hex_digit n = hex_digits ! (n mod 16)"

definition hex_word :: "w32 \<Rightarrow> string" where
  "hex_word w = map (\<lambda>i. hex_digit (unat (drop_bit (4 * i) w AND 15))) [7, 6, 5, 4, 3, 2, 1, 0]"

definition sha256_hexdigest :: "bytes \<Rightarrow> string" where
  "sha256_hexdigest data = concat (map hex_word (sha256_words data))"

section \<open>Shape of a digest\<close>

definition sha_shape :: "string \<Rightarrow> bool" where
  "sha_shape s = (length s = 64 \<and> set s \<subseteq> set hex_digits)"

lemma length_sha_round: "length (sha_round s p) = length s"
  by (induction s p rule: sha_round.induct) (simp_all add: Let_def)

lemma length_foldl_sha_round: "length (foldl sha_round s ps) = length s"
  by (induction ps arbitrary: s) (simp_all add: length_sha_round)

lemma length_sha_block: "length (sha_block s b) = length s"
  by (simp add: sha_block_def length_foldl_sha_round)

lemma length_foldl_sha_block: "length (foldl sha_block s bs) = length s"
  by (induction bs arbitrary: s) (simp_all add: length_sha_block)

lemma length_sha256_words: "length (sha256_words data) = 8"
  by (simp add: sha256_words_def Let_def length_foldl_sha_block sha_h0_def)

lemma hex_digit_in: "hex_digit n \<in> set hex_digits"
  unfolding hex_digit_def by (rule nth_mem) (simp add: hex_digits_def)

lemma hex_word_shape: "length (hex_word w) = 8" "set (hex_word w) \<subseteq> set hex_digits"
  using hex_digit_in by (simp_all add: hex_word_def)

lemma sha256_hexdigest_shape [simp, intro]: "sha_shape (sha256_hexdigest data)"
proof -
  have "length (concat (map hex_word ws)) = 8 * length ws" for ws
    by (induction ws) (simp_all add: hex_word_shape(1))
  moreover have "set (concat (map hex_word ws)) \<subseteq> set hex_digits" for ws
    using hex_word_shape(2) by (simp add: UN_subset_iff)
  ultimately show ?thesis
    unfolding sha_shape_def sha256_hexdigest_def by (simp add: length_sha256_words)
qed

end
