(* ===== verification/FileCache.thy ===== *)
theory FileCache
  imports Sha256 JudgeConfig "HOL-Library.AList"
begin

text \<open>
  The test-data cache, \<^verbatim>\<open>app/modules/judge/file_cache.py\<close>.

  The cache directory is an association list from paths below \<open>CACHE_ROOT\<close> (lists of
  components) to file contents; a temporary file followed by \<^verbatim>\<open>os.replace\<close> is one
  atomic write. A file holds raw data or the JSON of a meta record. Directories, I/O
  errors and symbolic links are not modelled. The listing of the meta files comes in the
  order of the association list, so a fact about every list covers every order of
  \<^verbatim>\<open>rglob\<close>. Data whose bytes happen to be the JSON of a meta record and \<^verbatim>\<open>..\<close>
  components (the operating system resolves them) are outside the model.

  An operation gets the time \<open>now\<close> as an argument (the clock does not advance within a call),
  the remote storage,
  and the set \<open>held\<close> of the keys whose lock another thread holds when a non-blocking
  acquisition is tried.
\<close>

section \<open>State\<close>

type_synonym cpath = "string list"

record meta =
  mt_etag :: string
  mt_sha256 :: string
  mt_size_bytes :: int
  mt_object_name :: string
  mt_cached_at :: rat
  mt_last_accessed_at :: rat
  mt_last_validated_at :: rat

datatype content = Raw bytes | MetaJson meta

type_synonym cfs = "(cpath \<times> content) list"

definition fs_read :: "cfs \<Rightarrow> cpath \<Rightarrow> content option" where
  "fs_read fs p = map_of fs p"

definition fs_exists :: "cfs \<Rightarrow> cpath \<Rightarrow> bool" where
  "fs_exists fs p = (fs_read fs p \<noteq> None)"

definition fs_write :: "cpath \<Rightarrow> content \<Rightarrow> cfs \<Rightarrow> cfs" where
  "fs_write p c fs = AList.update p c fs"

text \<open>\<^verbatim>\<open>_unlink\<close>: removes the file if it exists.\<close>

definition fs_unlink :: "cpath \<Rightarrow> cfs \<Rightarrow> cfs" where
  "fs_unlink p fs = AList.delete p fs"

record cache_cfg =
  cc_enabled :: bool
  cc_max_bytes :: int
  cc_ttl_seconds :: int

definition cache_cfg_of :: "judge_settings \<Rightarrow> cache_cfg" where
  "cache_cfg_of cfg = \<lparr>
     cc_enabled = js_cache_enabled cfg,
     cc_max_bytes = js_cache_max_mb cfg * 1024 * 1024,
     cc_ttl_seconds = js_cache_ttl_seconds cfg\<rparr>"

definition revalidate_interval :: rat where "revalidate_interval = 60"

definition touch_cooldown :: rat where "touch_cooldown = 60"

definition lru_grace_period :: rat where "lru_grace_period = 60"

definition evict_target_ratio :: rat where "evict_target_ratio = fl (8 / 10)"

text \<open>
  What the cache uses of a storage client: \<^verbatim>\<open>head_object\<close> and \<^verbatim>\<open>download_bytes\<close>,
  each possibly missing (\<^verbatim>\<open>hasattr\<close>), and the class name for messages.
\<close>

record object_head =
  oh_etag :: string
  oh_content_length :: int

record storage_client =
  sc_type_name :: string
  sc_head_object :: "(string \<Rightarrow> object_head option res) option"
  sc_download_bytes :: "(string \<Rightarrow> bytes res) option"

section \<open>Addressing\<close>

definition cache_key :: "string \<Rightarrow> string \<Rightarrow> string" where
  "cache_key sha256 object_name =
     (if sha256 \<noteq> [] then ''sha256:'' @ sha256 else ''name:'' @ object_name)"

definition meta_suffix :: string where
  "meta_suffix = ''.meta.json''"

definition data_path :: "string \<Rightarrow> cpath" where
  "data_path key = path_parts (take 2 key) @ path_parts key"

definition meta_path :: "string \<Rightarrow> cpath" where
  "meta_path key = path_parts (take 2 key) @ path_parts (key @ meta_suffix)"

definition key_from_meta_path :: "cpath \<Rightarrow> string option" where
  "key_from_meta_path meta_file =
     (case meta_file of
        [] \<Rightarrow> None
      | _ \<Rightarrow> (let name = last meta_file in
              if endswith name meta_suffix then Some (take (length name - length meta_suffix) name)
              else None))"

section \<open>Meta files\<close>

definition read_meta :: "cfs \<Rightarrow> cpath \<Rightarrow> meta option" where
  "read_meta fs mpath = (case fs_read fs mpath of Some (MetaJson m) \<Rightarrow> Some m | _ \<Rightarrow> None)"

definition update_meta :: "cpath \<Rightarrow> (meta \<Rightarrow> meta) \<Rightarrow> cfs \<Rightarrow> cfs" where
  "update_meta mpath upd fs =
     (case read_meta fs mpath of None \<Rightarrow> fs | Some m \<Rightarrow> fs_write mpath (MetaJson (upd m)) fs)"

definition touch_meta :: "rat \<Rightarrow> cpath \<Rightarrow> cfs \<Rightarrow> cfs" where
  "touch_meta now mpath fs =
     (case read_meta fs mpath of
        None \<Rightarrow> fs
      | Some m \<Rightarrow>
          if fsub now (mt_last_accessed_at m) < touch_cooldown then fs
          else fs_write mpath (MetaJson (m\<lparr>mt_last_accessed_at := now\<rparr>)) fs)"

definition remove_entry :: "string \<Rightarrow> cfs \<Rightarrow> cfs" where
  "remove_entry key fs = fs_unlink (meta_path key) (fs_unlink (data_path key) fs)"

text \<open>\<^verbatim>\<open>CACHE_ROOT.rglob("*.meta.json")\<close>\<close>

definition meta_files :: "cfs \<Rightarrow> cpath list" where
  "meta_files fs = filter (\<lambda>p. p \<noteq> [] \<and> endswith (last p) meta_suffix) (map fst fs)"

section \<open>LRU eviction\<close>

record cache_stat =
  cs_key :: string
  cs_size :: int
  cs_last_accessed_at :: rat

definition stat_of :: "cfs \<Rightarrow> cpath \<Rightarrow> cache_stat list" where
  "stat_of fs p =
     (case (read_meta fs p, key_from_meta_path p) of
        (Some m, Some key) \<Rightarrow>
          if key \<noteq> [] then [\<lparr>cs_key = key, cs_size = mt_size_bytes m,
                               cs_last_accessed_at = mt_last_accessed_at m\<rparr>] else []
      | _ \<Rightarrow> [])"

definition collect_stats :: "cfs \<Rightarrow> cache_stat list" where
  "collect_stats fs = concat (map (stat_of fs) (meta_files fs))"

definition calculate_total_size :: "cfs \<Rightarrow> int" where
  "calculate_total_size fs =
     sum_list (map (\<lambda>p. case read_meta fs p of None \<Rightarrow> 0 | Some m \<Rightarrow> mt_size_bytes m) (meta_files fs))"

fun evict_loop :: "string set \<Rightarrow> int \<Rightarrow> int \<Rightarrow> cache_stat list \<Rightarrow> cfs \<Rightarrow> cfs" where
  "evict_loop held need_bytes freed [] fs = fs"
| "evict_loop held need_bytes freed (e # es) fs =
     (if need_bytes \<le> freed then fs
      else if cs_key e \<in> held then evict_loop held need_bytes freed es fs
      else evict_loop held need_bytes (freed + cs_size e) es (remove_entry (cs_key e) fs))"

definition evict_candidates :: "rat \<Rightarrow> cfs \<Rightarrow> cache_stat list" where
  "evict_candidates now fs =
     sort_key cs_last_accessed_at
       (filter (\<lambda>e. lru_grace_period < fsub now (cs_last_accessed_at e)) (collect_stats fs))"

definition evict_lru :: "string set \<Rightarrow> rat \<Rightarrow> int \<Rightarrow> cfs \<Rightarrow> cfs" where
  "evict_lru held now need_bytes fs = evict_loop held need_bytes 0 (evict_candidates now fs) fs"

definition evict_lru_if_needed :: "cache_cfg \<Rightarrow> string set \<Rightarrow> rat \<Rightarrow> int \<Rightarrow> cfs \<Rightarrow> cfs" where
  "evict_lru_if_needed cfg held now new_size fs =
     (let total = calculate_total_size fs in
      if total + new_size \<le> cc_max_bytes cfg then fs
      else evict_lru held now
             (py_trunc (fsub (fl (of_int (total + new_size)))
                             (fmul (fl (of_int (cc_max_bytes cfg))) evict_target_ratio))) fs)"

section \<open>Store, download, resolve\<close>

definition store_entry ::
  "cache_cfg \<Rightarrow> string set \<Rightarrow> rat \<Rightarrow> string \<Rightarrow> bytes \<Rightarrow> string \<Rightarrow> string \<Rightarrow> string \<Rightarrow> cfs \<Rightarrow> cfs" where
  "store_entry cfg held now key content sha256 etag object_name fs =
     (let m = \<lparr>mt_etag = etag, mt_sha256 = sha256, mt_size_bytes = int (length content),
               mt_object_name = object_name, mt_cached_at = now, mt_last_accessed_at = now,
               mt_last_validated_at = now\<rparr>
      in evict_lru_if_needed cfg held now 0
           (fs_write (meta_path key) (MetaJson m) (fs_write (data_path key) (Raw content) fs)))"

definition download :: "storage_client \<Rightarrow> string \<Rightarrow> bytes res" where
  "download storage object_name =
     (case sc_download_bytes storage of
        None \<Rightarrow> Inl (RuntimeError (asc (''Storage '' @ sc_type_name storage @ '' does not support download_bytes'')))
      | Some f \<Rightarrow> f object_name)"

definition head_or_none :: "storage_client \<Rightarrow> string \<Rightarrow> object_head option" where
  "head_or_none storage object_name =
     (case sc_head_object storage of
        None \<Rightarrow> None
      | Some f \<Rightarrow> (case f object_name of Inl _ \<Rightarrow> None | Inr h \<Rightarrow> h))"

text \<open>Step 3c: download, verify, store.\<close>

definition fetch_and_store ::
  "cache_cfg \<Rightarrow> string set \<Rightarrow> rat \<Rightarrow> storage_client \<Rightarrow> string \<Rightarrow> string \<Rightarrow> string
     \<Rightarrow> string \<Rightarrow> cfs \<Rightarrow> cpath option res \<times> cfs" where
  "fetch_and_store cfg held now storage object_name sha256 key etag fs =
     (case download storage object_name of
        Inl e \<Rightarrow> (Inl e, fs)
      | Inr content \<Rightarrow>
          if sha256 = [] then
            (Inr (Some (data_path key)),
             store_entry cfg held now key content (sha256_hexdigest content) etag object_name fs)
          else if sha256_hexdigest content \<noteq> sha256 then
            (Inl (RuntimeError (asc (''SHA256 mismatch for '' @ object_name @ '': expected='' @ sha256
                                       @ '', actual='' @ sha256_hexdigest content))), fs)
          else
            (Inr (Some (data_path key)),
             store_entry cfg held now key content sha256 etag object_name fs))"

definition is_fresh :: "rat \<Rightarrow> cfs \<Rightarrow> string \<Rightarrow> bool" where
  "is_fresh now fs key =
     (case read_meta fs (meta_path key) of
        None \<Rightarrow> False
      | Some m \<Rightarrow> fsub now (mt_last_validated_at m) < revalidate_interval)"

definition resolve_or_download_locked ::
  "cache_cfg \<Rightarrow> string set \<Rightarrow> rat \<Rightarrow> storage_client \<Rightarrow> string \<Rightarrow> string \<Rightarrow> string
     \<Rightarrow> cfs \<Rightarrow> cpath option res \<times> cfs" where
  "resolve_or_download_locked cfg held now storage object_name sha256 key fs =
     (let dpath = data_path key; mpath = meta_path key in
      if sha256 \<noteq> [] \<and> fs_exists fs dpath then (Inr (Some dpath), touch_meta now mpath fs)
      else if sha256 = [] \<and> fs_exists fs dpath \<and> is_fresh now fs key
      then (Inr (Some dpath), touch_meta now mpath fs)
      else (case head_or_none storage object_name of
        None \<Rightarrow>
          if sha256 \<noteq> [] \<and> fs_exists fs dpath then (Inr (Some dpath), touch_meta now mpath fs)
          else if fs_exists fs dpath then (Inr None, remove_entry key fs)
          else (Inr None, fs)
      | Some head \<Rightarrow>
          (let remote_etag = oh_etag head in
           if fs_exists fs dpath then
             (case read_meta fs mpath of
                Some m \<Rightarrow>
                  if mt_etag m = remote_etag then
                    (Inr (Some dpath),
                     update_meta mpath (\<lambda>m. m\<lparr>mt_last_validated_at := now, mt_last_accessed_at := now\<rparr>) fs)
                  else fetch_and_store cfg held now storage object_name sha256 key remote_etag
                         (remove_entry key fs)
              | None \<Rightarrow> fetch_and_store cfg held now storage object_name sha256 key remote_etag
                         (remove_entry key fs))
           else fetch_and_store cfg held now storage object_name sha256 key remote_etag fs)))"

text \<open>The degraded path with the cache disabled: one file per object name with \<^verbatim>\<open>/\<close> replaced.\<close>

definition direct_name :: "string \<Rightarrow> string" where
  "direct_name object_name = map (\<lambda>c. if c = CHR ''/'' then CHR ''_'' else c) object_name"

definition download_direct ::
  "storage_client \<Rightarrow> string \<Rightarrow> (string \<rightharpoonup> bytes) \<Rightarrow> string option res \<times> (string \<rightharpoonup> bytes)" where
  "download_direct storage object_name tmp_dir =
     (case sc_download_bytes storage of
        None \<Rightarrow> (Inr None, tmp_dir)
      | Some f \<Rightarrow>
          (case f object_name of
             Inl e \<Rightarrow> (Inl e, tmp_dir)
           | Inr content \<Rightarrow> (Inr (Some (direct_name object_name)),
                             tmp_dir(direct_name object_name \<mapsto> content))))"

text \<open>
  The public entry point. The result is a file of the cache directory or of the directory of
  the degraded path.
\<close>

datatype cached_file = InCache cpath | InDirect string

record cache_state =
  cw_root :: cfs
  cw_direct :: "string \<rightharpoonup> bytes"

definition resolve_or_download ::
  "cache_cfg \<Rightarrow> string set \<Rightarrow> rat \<Rightarrow> storage_client \<Rightarrow> string \<Rightarrow> string
     \<Rightarrow> cache_state \<Rightarrow> cached_file option res \<times> cache_state" where
  "resolve_or_download cfg held now storage object_name sha256 w =
     (if \<not> cc_enabled cfg then
        (case download_direct storage object_name (cw_direct w) of
           (r, d) \<Rightarrow> (map_sum id (map_option InDirect) r, w\<lparr>cw_direct := d\<rparr>))
      else
        (case resolve_or_download_locked cfg held now storage object_name sha256
                (cache_key sha256 object_name) (cw_root w) of
           (r, fs) \<Rightarrow> (map_sum id (map_option InCache) r, w\<lparr>cw_root := fs\<rparr>)))"

section \<open>Management operations\<close>

definition invalidate :: "cache_cfg \<Rightarrow> string \<Rightarrow> string \<Rightarrow> cfs \<Rightarrow> cfs" where
  "invalidate cfg object_name sha256 fs =
     (if \<not> cc_enabled cfg then fs else remove_entry (cache_key sha256 object_name) fs)"

definition purge_one :: "cache_cfg \<Rightarrow> string set \<Rightarrow> rat \<Rightarrow> cfs \<Rightarrow> cpath \<Rightarrow> cfs" where
  "purge_one cfg held now fs meta_file =
     (case read_meta fs meta_file of
        None \<Rightarrow> fs
      | Some m \<Rightarrow>
          if of_int (cc_ttl_seconds cfg) < fsub now (mt_last_accessed_at m) then
            (case key_from_meta_path meta_file of
               Some key \<Rightarrow> if key \<noteq> [] \<and> key \<notin> held then remove_entry key fs else fs
             | None \<Rightarrow> fs)
          else fs)"

definition purge_expired :: "cache_cfg \<Rightarrow> string set \<Rightarrow> rat \<Rightarrow> cfs \<Rightarrow> cfs" where
  "purge_expired cfg held now fs =
     (if \<not> cc_enabled cfg then fs else foldl (purge_one cfg held now) fs (meta_files fs))"

section \<open>File system laws\<close>

lemma fs_read_write [simp]: "fs_read (fs_write p c fs) q = (if q = p then Some c else fs_read fs q)"
  by (auto simp: fs_read_def fs_write_def update_conv')

lemma fs_read_unlink [simp]: "fs_read (fs_unlink p fs) q = (if q = p then None else fs_read fs q)"
  by (simp add: fs_read_def fs_unlink_def delete_conv')

lemma fs_read_remove_entry:
  "fs_read (remove_entry key fs) q =
     (if q = data_path key \<or> q = meta_path key then None else fs_read fs q)"
  by (auto simp: remove_entry_def)

end
