(* ===== verification/Storage.thy ===== *)
theory Storage
  imports FileCache
begin

text \<open>
  Object storage: the paths of \<^verbatim>\<open>app/platform/storage/local.py\<close>, the calls of
  \<^verbatim>\<open>s3.py\<close> and \<^verbatim>\<open>oss.py\<close> the judge makes, the choice of a configuration and the
  cache of clients in \<^verbatim>\<open>manager.py\<close> with the in-memory \<^verbatim>\<open>ConfigReader\<close>.

  A local path is the list of its components from the file system's root; \<^verbatim>\<open>Path.resolve\<close>
  is its lexical part (symbolic links are outside the model). The SDK clients are arguments.
\<close>

section \<open>local.py\<close>

type_synonym lpath = "string list"

record local_file =
  lf_content :: bytes
  lf_mtime_ns :: int

type_synonym local_files = "lpath \<rightharpoonup> local_file"

fun resolve_parts :: "lpath \<Rightarrow> string list \<Rightarrow> lpath" where
  "resolve_parts base [] = base"
| "resolve_parts base (p # ps) = resolve_parts (if p = ''..'' then butlast base else base @ [p]) ps"

text \<open>\<^verbatim>\<open>(base / object_name).resolve()\<close>: an absolute object name replaces the root.\<close>

definition join_resolve :: "lpath \<Rightarrow> string \<Rightarrow> lpath" where
  "join_resolve base object_name =
     (if startswith object_name ''/'' then resolve_parts [] (path_parts object_name)
      else resolve_parts base (path_parts object_name))"

definition in_parents :: "lpath \<Rightarrow> lpath \<Rightarrow> bool" where
  "in_parents base target = (length base < length target \<and> take (length base) target = base)"

definition get_path :: "lpath \<Rightarrow> string \<Rightarrow> lpath res" where
  "get_path base object_name =
     (let target = join_resolve base object_name in
      if target \<noteq> base \<and> \<not> in_parents base target then Inl (ValueError (asc ''Invalid object name''))
      else Inr target)"

section \<open>s3.py and oss.py: head and download\<close>

text \<open>What the SDK's \<^verbatim>\<open>head_object\<close> gives: a response, an error with a code, or another exception.\<close>

datatype s3_head_reply =
    S3_head "string option" "int option"
  | S3_client_error string exn
  | S3_other_error exn

definition strip_quotes :: "string \<Rightarrow> string" where
  "strip_quotes s = strip_by (\<lambda>c. c = CHR 0x22) s"

definition s3_head_object :: "(string \<Rightarrow> s3_head_reply) \<Rightarrow> string \<Rightarrow> object_head option res" where
  "s3_head_object client_head object_name =
     (case client_head object_name of
        S3_client_error code exc \<Rightarrow>
          if code \<in> {''404'', ''NoSuchKey'', ''NotFound''} then Inr None else Inl exc
      | S3_other_error exc \<Rightarrow> Inl exc
      | S3_head etag content_length \<Rightarrow>
          Inr (Some \<lparr>oh_etag = strip_quotes (str_or etag []), oh_content_length = int_or content_length 0\<rparr>))"

datatype oss_head_reply =
    Oss_head "string option" "int option"
  | Oss_no_such_key
  | Oss_error "int option" exn
  | Oss_other_error exn

definition oss_head_object :: "(string \<Rightarrow> oss_head_reply) \<Rightarrow> string \<Rightarrow> object_head option res" where
  "oss_head_object bucket_head object_name =
     (case bucket_head object_name of
        Oss_no_such_key \<Rightarrow> Inr None
      | Oss_error status exc \<Rightarrow> if status = Some 404 then Inr None else Inl exc
      | Oss_other_error exc \<Rightarrow> Inl exc
      | Oss_head etag content_length \<Rightarrow>
          Inr (Some \<lparr>oh_etag = strip_quotes (str_or etag []), oh_content_length = int_or content_length 0\<rparr>))"

text \<open>The endpoint URL of an S3-compatible client.\<close>

definition s3_endpoint_url :: "bool \<Rightarrow> string \<Rightarrow> string" where
  "s3_endpoint_url use_ssl config_endpoint =
     (let endpoint = rstrip_by (\<lambda>c. c = CHR ''/'') config_endpoint in
      if startswith endpoint ''http://'' \<or> startswith endpoint ''https://'' then endpoint
      else (if use_ssl then ''https'' else ''http'') @ ''://'' @ endpoint)"

text \<open>The remote clients as the test-data cache sees them.\<close>

definition s3_storage :: "(string \<Rightarrow> s3_head_reply) \<Rightarrow> (string \<Rightarrow> bytes res) \<Rightarrow> storage_client" where
  "s3_storage client_head client_get = \<lparr>sc_type_name = ''S3Storage'',
     sc_head_object = Some (s3_head_object client_head), sc_download_bytes = Some client_get\<rparr>"

definition oss_storage :: "(string \<Rightarrow> oss_head_reply) \<Rightarrow> (string \<Rightarrow> bytes res) \<Rightarrow> storage_client" where
  "oss_storage bucket_head bucket_get = \<lparr>sc_type_name = ''OSSStorage'',
     sc_head_object = Some (oss_head_object bucket_head), sc_download_bytes = Some bucket_get\<rparr>"

section \<open>Configurations\<close>

datatype storage_provider = Provider_local | Provider_minio | Provider_s3 | Provider_oss

fun parse_provider :: "string \<Rightarrow> storage_provider option" where
  "parse_provider s =
     (if s = ''local'' then Some Provider_local else if s = ''minio'' then Some Provider_minio
      else if s = ''s3'' then Some Provider_s3 else if s = ''oss'' then Some Provider_oss else None)"

record storage_config =
  sg_id :: string
  sg_name :: string
  sg_provider :: storage_provider
  sg_bucket :: string
  sg_endpoint :: string
  sg_access_key :: string
  sg_secret_key :: string
  sg_region :: string
  sg_use_ssl :: bool
  sg_base_url :: string
  sg_public_path :: string
  sg_local_root :: string
  sg_is_default :: bool
  sg_presign_expire_seconds :: int

text \<open>The storage section of the settings (\<^verbatim>\<open>STORAGE__*\<close>).\<close>

record storage_settings =
  se_provider :: string
  se_bucket :: string
  se_endpoint :: string
  se_access_key :: string
  se_secret_key :: string
  se_region :: string
  se_use_ssl :: bool
  se_presign_expire_seconds :: int
  se_base_url :: string
  se_public_path :: string
  se_local_root :: string

definition storage_settings_default :: storage_settings where
  "storage_settings_default = \<lparr>se_provider = ''local'', se_bucket = [], se_endpoint = [], se_access_key = [], se_secret_key = [],
     se_region = [], se_use_ssl = False, se_presign_expire_seconds = 3600, se_base_url = [], se_public_path = ''/api/v1/files'',
     se_local_root = ''storage''\<rparr>"

definition invalid_provider :: "string \<Rightarrow> exn" where
  "invalid_provider s = ValueError (asc (quoted s @ '' is not a valid StorageProvider''))"

text \<open>\<^verbatim>\<open>s or d\<close>; with an empty default it is \<^verbatim>\<open>s\<close>.\<close>

definition or_text :: "string \<Rightarrow> string \<Rightarrow> string" where
  "or_text s d = (if s = [] then d else s)"

definition fallback_storage_config :: "storage_settings \<Rightarrow> storage_config res" where
  "fallback_storage_config st =
     (case parse_provider (se_provider st) of
        None \<Rightarrow> Inl (invalid_provider (se_provider st))
      | Some prov \<Rightarrow> Inr \<lparr>
          sg_id = ''__settings__'', sg_name = ''settings'', sg_provider = prov,
          sg_bucket = se_bucket st, sg_endpoint = se_endpoint st,
          sg_access_key = se_access_key st, sg_secret_key = se_secret_key st,
          sg_region = se_region st, sg_use_ssl = se_use_ssl st,
          sg_base_url = se_base_url st,
          sg_public_path = or_text (se_public_path st) ''/api/v1/files'',
          sg_local_root = or_text (se_local_root st) ''storage'', sg_is_default = True,
          sg_presign_expire_seconds = se_presign_expire_seconds st\<rparr>)"

text \<open>\<^verbatim>\<open>ConfigReader\<close>: the raw values and the configurations in insertion order.\<close>

record config_reader =
  rd_cache :: "(string \<times> ptext) list"
  rd_storage_configs :: "(string \<times> storage_config) list"
  rd_default_storage_id :: "string option"
  rd_version :: int

definition get_default_storage :: "config_reader \<Rightarrow> storage_config option" where
  "get_default_storage r =
     (case rd_default_storage_id r of None \<Rightarrow> None | Some i \<Rightarrow> map_of (rd_storage_configs r) i)"

definition get_storage_config :: "config_reader \<Rightarrow> string option \<Rightarrow> storage_config option" where
  "get_storage_config r config_id =
     (case config_id of None \<Rightarrow> get_default_storage r | Some i \<Rightarrow> map_of (rd_storage_configs r) i)"

definition get_storage_config_by_provider ::
  "config_reader \<Rightarrow> storage_provider \<Rightarrow> storage_config option" where
  "get_storage_config_by_provider r prov =
     find (\<lambda>c. sg_provider c = prov) (map snd (rd_storage_configs r))"

section \<open>manager.py\<close>

text \<open>
  \<open>provider\<close> is the argument as a string; \<^verbatim>\<open>StorageProvider(config_id)\<close> turns an
  unknown configuration id that names a provider into that provider.
\<close>

definition resolve_storage_config ::
  "config_reader \<Rightarrow> storage_settings \<Rightarrow> string option \<Rightarrow> string option \<Rightarrow> bool \<Rightarrow> storage_config res" where
  "resolve_storage_config r st config_id provider allow_settings_fallback =
     (let given = (case config_id of Some i \<Rightarrow> i \<noteq> [] | None \<Rightarrow> False);
          config0 = (if given then get_storage_config r config_id else None);
          as_provider = (if given \<and> config0 = None then parse_provider (the config_id) else None);
          explicit = (given \<and> config_id \<noteq> Some ''__settings__'' \<and> as_provider = None);
          wanted = (case as_provider of
                      Some prov \<Rightarrow> Inr (Some prov)
                    | None \<Rightarrow> (case provider of
                        None \<Rightarrow> Inr None
                      | Some s \<Rightarrow> (if config0 \<noteq> None then Inr None
                          else case parse_provider s of None \<Rightarrow> Inl (invalid_provider s) | Some prov \<Rightarrow> Inr (Some prov))))
      in rbind wanted (\<lambda>wanted.
           let config1 = (case config0 of Some c \<Rightarrow> Some c
                 | None \<Rightarrow> (case wanted of None \<Rightarrow> None | Some prov \<Rightarrow> get_storage_config_by_provider r prov));
               config2 = (if config1 = None \<and> config_id = None \<and> provider = None
                          then get_default_storage r else config1)
           in case config2 of
                Some c \<Rightarrow> Inr c
              | None \<Rightarrow> if allow_settings_fallback \<and> \<not> explicit then fallback_storage_config st
                        else Inl (RuntimeError (asc ''Storage config is not available''))))"

datatype storage_impl =
    Local_storage storage_config | Minio_storage storage_config | S3_storage storage_config | Oss_storage storage_config

definition build_storage :: "(storage_impl \<Rightarrow> exn option) \<Rightarrow> storage_config \<Rightarrow> storage_impl res" where
  "build_storage construct_error config =
     (let impl = (case sg_provider config of
                    Provider_local \<Rightarrow> Local_storage config
                  | Provider_minio \<Rightarrow> Minio_storage config
                  | Provider_s3 \<Rightarrow> S3_storage config
                  | Provider_oss \<Rightarrow> Oss_storage config)
      in case construct_error impl of None \<Rightarrow> Inr impl | Some e \<Rightarrow> Inl e)"

type_synonym storage_cache = "(int \<times> storage_config) \<rightharpoonup> storage_impl"

definition get_storage ::
  "(storage_impl \<Rightarrow> exn option) \<Rightarrow> config_reader \<Rightarrow> storage_settings \<Rightarrow> string option \<Rightarrow> string option \<Rightarrow> bool
     \<Rightarrow> storage_cache \<Rightarrow> storage_impl res \<times> storage_cache" where
  "get_storage construct_error r st config_id provider allow_settings_fallback cache =
     (case resolve_storage_config r st config_id provider allow_settings_fallback of
        Inl e \<Rightarrow> (Inl e, cache)
      | Inr config \<Rightarrow>
          (case cache (rd_version r, config) of
             Some s \<Rightarrow> (Inr s, cache)
           | None \<Rightarrow>
               (case build_storage construct_error config of
                  Inl e \<Rightarrow> (Inl e, cache)
                | Inr s \<Rightarrow> (Inr s, cache((rd_version r, config) \<mapsto> s)))))"

definition clear_storage_cache :: "storage_cache \<Rightarrow> storage_cache" where
  "clear_storage_cache cache = Map.empty"

definition reader_load_all :: "config_reader \<Rightarrow> config_reader" where
  "reader_load_all r = r\<lparr>rd_version := rd_version r + 1\<rparr>"

section \<open>Facts\<close>

lemma get_path_inside: "get_path base object_name = Inr target \<Longrightarrow> prefix base target"
  by (auto simp: get_path_def Let_def in_parents_def prefix_def split: if_splits)
     (metis append_take_drop_id)

lemma resolve_parts_plain: "''..'' \<notin> set ps \<Longrightarrow> resolve_parts base ps = base @ ps"
  by (induction ps arbitrary: base) auto

lemma path_parts_no_dots: "\<forall>p\<in>set (split_on (CHR ''/'') s). p \<noteq> ''..'' \<Longrightarrow> ''..'' \<notin> set (path_parts s)"
  by (auto simp: path_parts_def)

lemma get_path_plain:
  assumes "\<not> startswith object_name ''/''" "\<forall>p\<in>set (split_on (CHR ''/'') object_name). p \<noteq> ''..''"
  shows "get_path base object_name = Inr (base @ path_parts object_name)"
  using assms by (auto simp: get_path_def join_resolve_def resolve_parts_plain path_parts_no_dots
      in_parents_def Let_def)

lemma build_storage_config:
  "build_storage ce config = Inr s \<Longrightarrow>
     s \<in> {Local_storage config, Minio_storage config, S3_storage config, Oss_storage config}"
  by (auto simp: build_storage_def Let_def split: storage_provider.splits option.splits)

definition cache_sound :: "(storage_impl \<Rightarrow> exn option) \<Rightarrow> storage_cache \<Rightarrow> bool" where
  "cache_sound ce cache = (\<forall>v config s. cache (v, config) = Some s \<longrightarrow> build_storage ce config = Inr s)"

lemma get_storage_sound: "cache_sound ce cache \<Longrightarrow> cache_sound ce (snd (get_storage ce r st cid prov fb cache))"
  by (auto simp: get_storage_def cache_sound_def split: sum.splits option.splits)

text \<open>The cache of storage clients is transparent: after any earlier calls with the same SDK
  behaviour, \<^verbatim>\<open>get_storage\<close> returns what resolving and building without a cache returns, and the cache stays
  so, also when it is cleared.\<close>

lemma get_storage_transparent:
  assumes "cache_sound ce cache"
  shows "fst (get_storage ce r st config_id provider fb cache)
           = rbind (resolve_storage_config r st config_id provider fb) (build_storage ce)
     \<and> cache_sound ce (snd (get_storage ce r st config_id provider fb cache))
     \<and> cache_sound ce (clear_storage_cache cache)"
proof (intro conjI)
  show "fst (get_storage ce r st config_id provider fb cache)
           = rbind (resolve_storage_config r st config_id provider fb) (build_storage ce)"
    using assms by (simp add: get_storage_def rbind_def cache_sound_def split: sum.split option.split)
  show "cache_sound ce (clear_storage_cache cache)"
    by (simp add: cache_sound_def clear_storage_cache_def)
qed (rule get_storage_sound[OF assms])

definition env_s3 :: storage_settings where
  "env_s3 = storage_settings_default\<lparr>se_provider := ''s3''\<rparr>"

definition empty_reader :: config_reader where
  "empty_reader = \<lparr>rd_cache = [], rd_storage_configs = [], rd_default_storage_id = None, rd_version = 0\<rparr>"

lemma get_storage_transparent_witness:
  "\<exists>config. fst (get_storage (\<lambda>_. None) empty_reader env_s3 None None True Map.empty) = Inr (S3_storage config)"
proof -
  have "cache_sound (\<lambda>_. None) Map.empty" by (simp add: cache_sound_def)
  from get_storage_transparent[OF this, of empty_reader env_s3 None None True]
  have "fst (get_storage (\<lambda>_. None) empty_reader env_s3 None None True Map.empty)
      = rbind (resolve_storage_config empty_reader env_s3 None None True) (build_storage (\<lambda>_. None))" by blast
  then show ?thesis
    by (simp add: resolve_storage_config_def empty_reader_def env_s3_def storage_settings_default_def rbind_def get_default_storage_def
        fallback_storage_config_def build_storage_def Let_def)
qed

end
