(* ===== verification/JudgeMonad.thy ===== *)
theory JudgeMonad
  imports Scoring Checker SandboxConfig Storage
begin

text \<open>
  The setting of a judge run. A computation of the worker passes a \<open>world\<close> (the test-data cache
  and the log of what happened so far, newest first) and ends with a value or an exception.

  The sandbox package \<^verbatim>\<open>acoj_sandbox\<close> and the operating system are a record of functions:
  a call is logged with its arguments and answered from the log, so the answer may depend on
  everything that happened before. \<open>Acquired\<close> and \<open>Released\<close> record clients, compiled programs,
  result handles, file descriptors and work directories.
\<close>

section \<open>Calls and their answers\<close>

datatype resource =
    User_client | Checker_client | Interactor_client
  | User_program | Checker_program | Interactor_program
  | Batch_handle | Work_dir | Fd_AB | Fd_BA

record judge_case =
  jc_case_id :: string
  jc_input :: data_ref
  jc_expected_output :: "data_ref option"
  jc_limits :: judge_limits

text \<open>The language named in a compile request: a key of the request, or the id of the package's testlib language.\<close>

datatype language_id = Key_id "string option" | Testlib_checker_id

datatype call =
    Create_client resource client_options
  | Run_cases "string option" "ptext option" "judge_case list" isolation_config cgroup_config bool int
  | Prepare_source resource language_id "ptext option" "judge_limits option" bool isolation_config cgroup_config
  | Run_program data_ref judge_limits isolation_config cgroup_config
  | Run_checker data_ref data_ref data_ref isolation_config cgroup_config
  | Run_with_paths resource judge_limits isolation_config cgroup_config
  | Data_from_path string bool
  | Data_from_data "ptext option"
  | Close resource
  | Make_work_dir
  | Copy_input "string"
  | Write_input "ref_data option"
  | Make_fifos
  | Open_fd resource
  | Wait_first rat
  | Wait_more rat

datatype event = Called call | Acquired resource | Released resource

type_synonym history = "event list"

record program =
  pg_compiled :: bool
  pg_compile :: "process_result option"
  pg_compiler_output :: "ptext option"
  pg_result_message :: "ptext option"
  pg_has_compile_result :: bool

record run_result =
  rr_status :: status
  rr_run :: process_result
  rr_stdout :: "ptext option"
  rr_stdout_path :: string
  rr_stderr_path :: string

record case_run =
  cb_status :: status
  cb_run :: process_result
  cb_actual_output :: data_ref
  cb_expected_output :: "data_ref option"
  cb_stderr :: data_ref

record batch_result =
  br_compile :: process_result
  br_message :: "ptext option"
  br_cases :: "case_run list"

text \<open>Outcome of waiting for the user program and the interactor: the futures done, with their results.\<close>

type_synonym future = "run_result option option"

record waited =
  wt_user :: future
  wt_interactor :: future

record sandbox =
  sb_unit :: "history \<Rightarrow> unit res"
  sb_run_cases :: "history \<Rightarrow> batch_result res"
  sb_prepare :: "history \<Rightarrow> program res"
  sb_run :: "history \<Rightarrow> run_result res"
  sb_check :: "history \<Rightarrow> bool res"
  sb_data_ref :: "history \<Rightarrow> data_ref res"
  sb_wait :: "history \<Rightarrow> waited"
  sb_work_dir :: "history \<Rightarrow> string res"
  sb_files :: "history \<Rightarrow> files"

text \<open>The storage the data loader uses: a local root, or a remote client behind the cache.\<close>

datatype data_storage = Local_data lpath local_files | Remote_data storage_client

record judge_env =
  je_cfg :: judge_settings
  je_worker_concurrency :: int
  je_debug :: bool
  je_host_path_exists :: "string \<Rightarrow> bool"
  je_storage :: data_storage
  je_cache_root :: string
  je_direct_root :: string
  je_now :: rat
  je_held :: "string set"
  je_sandbox :: sandbox

record world =
  wo_cache :: cache_state
  wo_log :: history

section \<open>State and exceptions\<close>

type_synonym 'a jm = "world \<Rightarrow> 'a res \<times> world"

definition jret :: "'a \<Rightarrow> 'a jm" where
  "jret x w = (Inr x, w)"

definition jres :: "'a res \<Rightarrow> 'a jm" where
  "jres r w = (r, w)"

definition jbind :: "'a jm \<Rightarrow> ('a \<Rightarrow> 'b jm) \<Rightarrow> 'b jm" where
  "jbind m f w = (case m w of (Inl e, w') \<Rightarrow> (Inl e, w') | (Inr x, w') \<Rightarrow> f x w')"

text \<open>\<^verbatim>\<open>try: m finally: cleanup\<close>: an exception of the cleanup replaces the outcome.\<close>

definition jfinally :: "'a jm \<Rightarrow> unit jm \<Rightarrow> 'a jm" where
  "jfinally m cleanup w =
     (case m w of (r, w') \<Rightarrow>
        (case cleanup w' of (Inl e, w'') \<Rightarrow> (Inl e, w'') | (Inr _, w'') \<Rightarrow> (r, w'')))"

definition jlog :: "event \<Rightarrow> unit jm" where
  "jlog e w = (Inr (), w\<lparr>wo_log := e # wo_log w\<rparr>)"

fun jmap :: "('a \<Rightarrow> 'b jm) \<Rightarrow> 'a list \<Rightarrow> 'b list jm" where
  "jmap f [] = jret []"
| "jmap f (x # xs) = jbind (f x) (\<lambda>y. jbind (jmap f xs) (\<lambda>ys. jret (y # ys)))"

fun jfold :: "('s \<Rightarrow> 'a \<Rightarrow> 's jm) \<Rightarrow> 's \<Rightarrow> 'a list \<Rightarrow> 's jm" where
  "jfold f s [] = jret s"
| "jfold f s (x # xs) = jbind (f s x) (\<lambda>s'. jfold f s' xs)"

text \<open>A call of the sandbox package: logged, then answered.\<close>

definition ask :: "(history \<Rightarrow> 'a res) \<Rightarrow> call \<Rightarrow> 'a jm" where
  "ask answer c w = (let h = Called c # wo_log w in (answer h, w\<lparr>wo_log := h\<rparr>))"

text \<open>A call that yields a resource, and the call that gives it back.\<close>

definition acquire :: "(history \<Rightarrow> 'a res) \<Rightarrow> call \<Rightarrow> resource \<Rightarrow> 'a jm" where
  "acquire answer c r = jbind (ask answer c) (\<lambda>x. jbind (jlog (Acquired r)) (\<lambda>_. jret x))"

definition release :: "sandbox \<Rightarrow> resource \<Rightarrow> unit jm" where
  "release sb r = jbind (ask (sb_unit sb) (Close r)) (\<lambda>_. jlog (Released r))"

text \<open>How many times a resource was acquired and not released.\<close>

fun open_count :: "resource \<Rightarrow> history \<Rightarrow> int" where
  "open_count r [] = 0"
| "open_count r (Acquired q # h) = (if q = r then 1 else 0) + open_count r h"
| "open_count r (Released q # h) = (if q = r then - 1 else 0) + open_count r h"
| "open_count r (Called c # h) = open_count r h"

text \<open>
  A local variable that holds a resource or \<^verbatim>\<open>None\<close> is read off the log: the resource was
  acquired since the function started with log \<open>h0\<close> and not given back.
\<close>

definition opened_since :: "history \<Rightarrow> resource \<Rightarrow> history \<Rightarrow> bool" where
  "opened_since h0 r h = (open_count r h0 < open_count r h)"

definition close_if :: "sandbox \<Rightarrow> history \<Rightarrow> resource \<Rightarrow> unit jm" where
  "close_if sb h0 r w = (if opened_since h0 r (wo_log w) then release sb r w else (Inr (), w))"

fun close_all :: "sandbox \<Rightarrow> history \<Rightarrow> resource list \<Rightarrow> unit jm" where
  "close_all sb h0 [] = jret ()"
| "close_all sb h0 (r # rs) = jbind (close_if sb h0 r) (\<lambda>_. close_all sb h0 rs)"

definition with_history :: "(history \<Rightarrow> 'a jm) \<Rightarrow> 'a jm" where
  "with_history f w = f (wo_log w) w"

text \<open>\<^verbatim>\<open>create_sandbox_client\<close> with the current settings; the flags only matter for warnings.\<close>

definition create_client :: "judge_env \<Rightarrow> resource \<Rightarrow> language_spec list \<Rightarrow> unit jm" where
  "create_client env r languages =
     acquire (sb_unit (je_sandbox env)) (Create_client r (client_options_of (je_cfg env) languages)) r"

section \<open>Laws\<close>

lemma jbind_assoc: "jbind (jbind m f) g = jbind m (\<lambda>x. jbind (f x) g)"
  by (rule ext) (simp add: jbind_def split: prod.splits sum.splits)

lemma jbind_jret [simp]: "jbind (jret x) f = f x" "jbind m jret = m"
  by (rule ext, simp add: jbind_def jret_def split: prod.splits sum.splits)+

lemma jbind_Inr:
  "jbind m f w = (Inr y, w') \<longleftrightarrow> (\<exists>x w1. m w = (Inr x, w1) \<and> f x w1 = (Inr y, w'))"
  by (auto simp: jbind_def split: prod.splits sum.splits)

lemma jret_Inr [simp]: "jret x w = (r, w') \<longleftrightarrow> r = Inr x \<and> w' = w"
  by (auto simp: jret_def)

lemma jres_Inr [simp]: "jres r w = (r', w') \<longleftrightarrow> r' = r \<and> w' = w"
  by (auto simp: jres_def)

lemma jfinally_Inr:
  "jfinally m c w = (Inr y, w') \<longleftrightarrow> (\<exists>w1 u. m w = (Inr y, w1) \<and> c w1 = (Inr u, w'))"
  by (auto simp: jfinally_def split: prod.splits sum.splits)

lemma jmap_Inr_length: "jmap f xs w = (Inr ys, w') \<Longrightarrow> length ys = length xs"
  by (induction xs arbitrary: w ys) (auto simp: jbind_Inr)

section \<open>Results\<close>

text \<open>Every value a computation returns satisfies a predicate.\<close>

definition yields :: "('a \<Rightarrow> bool) \<Rightarrow> 'a jm \<Rightarrow> bool" where
  "yields P m = (\<forall>w v w'. m w = (Inr v, w') \<longrightarrow> P v)"

named_theorems yields_intros

lemma yields_jres_bind: "(\<And>x. r = Inr x \<Longrightarrow> yields P (f x)) \<Longrightarrow> yields P (jbind (jres r) f)"
  by (auto simp: yields_def jbind_Inr)

lemma yields_bind: "(\<And>x. yields P (f x)) \<Longrightarrow> yields P (jbind m f)"
  by (auto simp: yields_def jbind_Inr)

lemma yieldsD: "yields P m \<Longrightarrow> m w = (Inr v, w') \<Longrightarrow> P v"
  by (auto simp: yields_def)

lemma yieldsI: "(\<And>w v w'. m w = (Inr v, w') \<Longrightarrow> P v) \<Longrightarrow> yields P m"
  by (auto simp: yields_def)

lemma yields_bind_pre:
  assumes "yields Q m" "\<And>x. Q x \<Longrightarrow> yields P (f x)"
  shows "yields P (jbind m f)"
proof (rule yieldsI)
  fix w v w' assume "jbind m f w = (Inr v, w')"
  then obtain x w1 where "m w = (Inr x, w1)" "f x w1 = (Inr v, w')" by (auto simp: jbind_Inr)
  with assms show "P v" by (metis yieldsD)
qed

lemma yields_jret [yields_intros]: "P x \<Longrightarrow> yields P (jret x)"
  by (auto simp: yields_def)

lemma yields_if [yields_intros]: "(b \<Longrightarrow> yields P m) \<Longrightarrow> (\<not> b \<Longrightarrow> yields P n) \<Longrightarrow> yields P (if b then m else n)"
  by simp

lemma yields_option [yields_intros]:
  "(v = None \<Longrightarrow> yields P m) \<Longrightarrow> (\<And>x. v = Some x \<Longrightarrow> yields P (f x))
     \<Longrightarrow> yields P (case v of None \<Rightarrow> m | Some x \<Rightarrow> f x)"
  by (cases v) auto

lemma yields_finally [yields_intros]: "yields P m \<Longrightarrow> yields P (jfinally m c)"
  by (auto simp: yields_def jfinally_Inr)

lemma yields_history [yields_intros]: "(\<And>h. yields P (f h)) \<Longrightarrow> yields P (with_history f)"
  by (auto simp: yields_def with_history_def)

lemma yields_jfold:
  assumes "\<And>s x. P s \<Longrightarrow> x \<in> set xs \<Longrightarrow> yields P (f s x)" "P s"
  shows "yields P (jfold f s xs)"
  using assms
proof (induction xs arbitrary: s)
  case (Cons x xs)
  show ?case
    unfolding jfold.simps using Cons by (intro yields_bind_pre[of P]) auto
qed (simp add: yields_jret)

lemma yields_jfold_prefix:
  assumes "\<And>s pre x. P pre s \<Longrightarrow> yields (P (pre @ [x])) (f s x)" "P pre s"
  shows "yields (P (pre @ xs)) (jfold f s xs)"
  using assms(2)
proof (induction xs arbitrary: s pre)
  case (Cons x xs)
  have "yields (P (pre @ [x] @ xs)) (jfold f s' xs)" if "P (pre @ [x]) s'" for s'
    using Cons.IH[OF that] by simp
  then show ?case
    unfolding jfold.simps using assms(1)[OF Cons.prems, of x] by (auto intro: yields_bind_pre)
qed (simp add: yields_jret)

lemmas yields_intros_all = yields_jres_bind yields_bind yields_intros

section \<open>Open resources\<close>

text \<open>
  \<open>confined h0 S h\<close>: since \<open>h0\<close> only resources of \<open>S\<close> may have been acquired and not given back, each
  at most once. A computation moves from one such set to another, whatever its outcome.
\<close>

definition confined :: "history \<Rightarrow> resource set \<Rightarrow> history \<Rightarrow> bool" where
  "confined h0 S h =
     (\<forall>r. if r \<in> S then open_count r h = open_count r h0 \<or> open_count r h = open_count r h0 + 1
          else open_count r h = open_count r h0)"

definition moves :: "history \<Rightarrow> resource set \<Rightarrow> resource set \<Rightarrow> 'a jm \<Rightarrow> bool" where
  "moves h0 S T m = (\<forall>w. confined h0 S (wo_log w) \<longrightarrow> confined h0 T (wo_log (snd (m w))))"

named_theorems moves_intros

lemma confined_mono: "confined h0 S h \<Longrightarrow> S \<subseteq> T \<Longrightarrow> confined h0 T h"
  by (simp add: confined_def) (metis in_mono)

lemma confined_refl [simp]: "confined h S h"
  by (simp add: confined_def)

lemma moves_jret [moves_intros]: "moves h0 S S (jret x)"
  by (simp add: moves_def jret_def)

lemma moves_jres [moves_intros]: "moves h0 S S (jres x)"
  by (simp add: moves_def jres_def)

lemma moves_if [moves_intros]: "moves h0 S T m \<Longrightarrow> moves h0 S T n \<Longrightarrow> moves h0 S T (if b then m else n)"
  by simp

lemma moves_option [moves_intros]:
  "moves h0 S T m \<Longrightarrow> (\<And>x. moves h0 S T (f x)) \<Longrightarrow> moves h0 S T (case v of None \<Rightarrow> m | Some x \<Rightarrow> f x)"
  by (cases v) auto

lemma moves_prod [moves_intros]:
  "(\<And>x y. moves h0 S T (f x y)) \<Longrightarrow> moves h0 S T (case v of (x, y) \<Rightarrow> f x y)"
  by (cases v) auto

lemma moves_guarded [moves_intros]:
  "(\<And>x. moves h0 S S (f x))
     \<Longrightarrow> moves h0 S S (\<lambda>w. case v of Some x \<Rightarrow> if Q w x then f x w else (e, w) | None \<Rightarrow> (e, w))"
  by (auto simp: moves_def split: option.split)

lemma moves_mono: "moves h0 S T m \<Longrightarrow> T \<subseteq> U \<Longrightarrow> moves h0 S U m"
  by (auto simp: moves_def intro: confined_mono)

lemma moves_pre: "S \<subseteq> S' \<Longrightarrow> moves h0 S' T m \<Longrightarrow> moves h0 S T m"
  by (auto simp: moves_def intro: confined_mono)

lemma moves_jbind:
  assumes "moves h0 S T m" "\<And>x. moves h0 T U (f x)" "T \<subseteq> U"
  shows "moves h0 S U (jbind m f)"
  unfolding moves_def
proof (intro allI impI)
  fix w :: world assume "confined h0 S (wo_log w)"
  then have "confined h0 T (wo_log (snd (m w)))" using assms(1) by (simp add: moves_def)
  then show "confined h0 U (wo_log (snd (jbind m f w)))"
    using assms(2,3) confined_mono[of h0 T] by (auto simp: jbind_def moves_def split: prod.splits sum.splits)
qed

text \<open>The common case: the set does not change.\<close>

lemma moves_same [moves_intros]: "moves h0 S S m \<Longrightarrow> (\<And>x. moves h0 S S (f x)) \<Longrightarrow> moves h0 S S (jbind m f)"
  by (rule moves_jbind) auto

lemma moves_ask [moves_intros]: "moves h0 S S (ask a c)"
  by (simp add: moves_def ask_def Let_def confined_def)

lemma moves_jmap [moves_intros]: "(\<And>x. moves h0 S S (f x)) \<Longrightarrow> moves h0 S S (jmap f xs)"
  by (induction xs) (auto intro: moves_intros)

lemma moves_jfold [moves_intros]: "(\<And>s x. moves h0 S S (f s x)) \<Longrightarrow> moves h0 S S (jfold f s xs)"
  by (induction xs arbitrary: s) (auto intro: moves_intros)

lemma moves_acquire:
  assumes "r \<notin> S"
  shows "moves h0 S (insert r S) (acquire a c r)"
  using assms
  by (auto simp: moves_def acquire_def jbind_def ask_def jlog_def jret_def Let_def confined_def split: sum.splits)

lemma moves_acquire_bind:
  assumes "r \<notin> S" "\<And>x. moves h0 (insert r S) U (f x)" "S \<subseteq> U"
  shows "moves h0 S U (jbind (acquire a c r) f)"
  unfolding moves_def
proof (intro allI impI)
  fix w :: world assume w: "confined h0 S (wo_log w)"
  have m: "confined h0 (insert r S) (wo_log (snd (acquire a c r w)))"
    using moves_acquire[OF assms(1), of h0 a c] w by (simp add: moves_def)
  have e: "confined h0 S (wo_log (snd (acquire a c r w)))" if "fst (acquire a c r w) = Inl x" for x
    using that w
    by (auto simp: acquire_def jbind_def ask_def jlog_def jret_def Let_def confined_def split: sum.splits)
  show "confined h0 U (wo_log (snd (jbind (acquire a c r) f w)))"
  proof (cases "acquire a c r w")
    case (Pair v w')
    then show ?thesis
      using m e assms(2,3) by (cases v) (auto simp: jbind_def moves_def intro: confined_mono)
  qed
qed

lemma moves_create_bind:
  "r \<notin> S \<Longrightarrow> (\<And>x. moves h0 (insert r S) U (f x)) \<Longrightarrow> S \<subseteq> U \<Longrightarrow> moves h0 S U (jbind (create_client env r ls) f)"
  unfolding create_client_def by (rule moves_acquire_bind)

lemma moves_create_client: "r \<notin> S \<Longrightarrow> moves h0 S (insert r S) (create_client env r ls)"
  unfolding create_client_def by (rule moves_acquire)

lemma confined_release:
  assumes "confined h0 S h" "opened_since h0 r h"
  shows "confined h0 (S - {r}) (Released r # h)"
  unfolding confined_def
proof (rule allI)
  fix q
  show "if q \<in> S - {r} then open_count q (Released r # h) = open_count q h0
            \<or> open_count q (Released r # h) = open_count q h0 + 1
        else open_count q (Released r # h) = open_count q h0"
    using assms(1)[unfolded confined_def, rule_format, of q] assms(2)
    by (auto simp: opened_since_def split: if_splits)
qed

lemma confined_closed: "confined h0 S h \<Longrightarrow> \<not> opened_since h0 r h \<Longrightarrow> confined h0 (S - {r}) h"
  by (simp add: confined_def opened_since_def) (metis less_add_one)

lemma confined_Called [simp]: "confined h0 S (Called c # h) = confined h0 S h"
  by (simp add: confined_def)

lemma moves_close_if [moves_intros]: "moves h0 S S (close_if sb h0 r)"
proof -
  have "confined h0 S (Released r # Called c # h)" if "confined h0 S h" "opened_since h0 r h" for h c
    using confined_release[of h0 S "Called c # h" r] that
    by (auto simp: opened_since_def intro: confined_mono)
  then show ?thesis
    by (auto simp: moves_def close_if_def release_def jbind_def ask_def jlog_def Let_def split: sum.splits)
qed

text \<open>The sandbox's and the system's \<^verbatim>\<open>close\<close> calls succeed.\<close>

definition closes_ok :: "sandbox \<Rightarrow> bool" where
  "closes_ok sb = (\<forall>h r. sb_unit sb (Called (Close r) # h) = Inr ())"

lemma close_if_ok:
  assumes "closes_ok sb" "confined h0 S (wo_log w)"
  shows "fst (close_if sb h0 r w) = Inr () \<and> confined h0 (S - {r}) (wo_log (snd (close_if sb h0 r w)))"
  using assms confined_release[of h0 S "Called (Close r) # wo_log w" r] confined_closed[of h0 S "wo_log w" r]
  by (auto simp: close_if_def release_def jbind_def ask_def jlog_def Let_def closes_ok_def opened_since_def)

lemma close_all_ok:
  assumes "closes_ok sb" "confined h0 S (wo_log w)"
  shows "fst (close_all sb h0 rs w) = Inr () \<and> confined h0 (S - set rs) (wo_log (snd (close_all sb h0 rs w)))"
  using assms(2)
proof (induction rs arbitrary: w S)
  case (Cons r rs)
  obtain w' where w': "close_if sb h0 r w = (Inr (), w')" "confined h0 (S - {r}) (wo_log w')"
    using close_if_ok[OF assms(1) Cons.prems, of r] by (cases "close_if sb h0 r w") auto
  have "S - {r} - set rs = S - set (r # rs)" by auto
  with Cons.IH[OF w'(2)] show ?case by (simp add: jbind_def w'(1))
qed (simp add: jret_def)

text \<open>The rule for \<^verbatim>\<open>try: body finally: close everything\<close>.\<close>

lemma moves_finally:
  assumes "closes_ok sb" "moves h0 S T body" "T \<subseteq> set rs \<union> U"
  shows "moves h0 S U (jfinally body (close_all sb h0 rs))"
  unfolding moves_def
proof (intro allI impI)
  fix w :: world assume "confined h0 S (wo_log w)"
  then have "confined h0 T (wo_log (snd (body w)))" using assms(2) by (simp add: moves_def)
  from close_all_ok[OF assms(1) this, of rs] assms(3)
  show "confined h0 U (wo_log (snd (jfinally body (close_all sb h0 rs) w)))"
    by (auto simp: jfinally_def split: prod.splits sum.splits intro: confined_mono)
qed

text \<open>A function that leaves every resource as it found it.\<close>

definition balanced :: "'a jm \<Rightarrow> bool" where
  "balanced m = (\<forall>w r. open_count r (wo_log (snd (m w))) = open_count r (wo_log w))"

lemma balancedI: "(\<And>h0. moves h0 {} {} m) \<Longrightarrow> balanced m"
  by (auto simp: balanced_def moves_def confined_def)

lemma balanced_moves: "(\<And>h0. moves h0 {} {} (f h0)) \<Longrightarrow> balanced (with_history f)"
  by (auto simp: balanced_def moves_def with_history_def confined_def)

lemma moves_balanced: "balanced m \<Longrightarrow> moves h0 S S m"
  by (simp add: balanced_def moves_def confined_def)

end
