(* ===== verification/DemoEnv.thy ===== *)
theory DemoEnv
  imports JudgeMonad
begin

text \<open>
  A concrete environment on which the theorems about the judge are instantiated: a sandbox whose
  programs compile and copy their input to their output, a checker and an interactor that
  accept, and a local storage with one file.
\<close>

definition ok_process :: process_result where
  "ok_process = \<lparr>ps_status = Some St_AC, ps_cpu_time_ms = Some 10, ps_real_time_ms = Some 12,
     ps_memory_bytes = Some 2048, ps_exit_code = 0, ps_message = None\<rparr>"

definition text_ref :: "ptext \<Rightarrow> data_ref" where
  "text_ref t = \<lparr>dr_path = None, dr_data = Some (RStr t), dr_sha256 = [], dr_preview_text = t\<rparr>"

definition path_ref :: "string \<Rightarrow> data_ref" where
  "path_ref p = \<lparr>dr_path = Some p, dr_data = None, dr_sha256 = [], dr_preview_text = []\<rparr>"

definition echo_case :: "judge_case \<Rightarrow> case_run" where
  "echo_case c = \<lparr>cb_status = St_AC, cb_run = ok_process, cb_actual_output = jc_input c,
     cb_expected_output = jc_expected_output c, cb_stderr = text_ref []\<rparr>"

definition ok_program :: program where
  "ok_program = \<lparr>pg_compiled = True, pg_compile = Some ok_process, pg_compiler_output = None,
     pg_result_message = None, pg_has_compile_result = True\<rparr>"

definition ok_run :: run_result where
  "ok_run = \<lparr>rr_status = St_AC, rr_run = ok_process, rr_stdout = None, rr_stdout_path = ''/w/out'',
     rr_stderr_path = ''/w/err''\<rparr>"

definition echo_sandbox :: sandbox where
  "echo_sandbox = \<lparr>
     sb_unit = (\<lambda>_. Inr ()),
     sb_run_cases = (\<lambda>h. case h of
         Called (Run_cases _ _ cs _ _ _ _) # _ \<Rightarrow>
           Inr \<lparr>br_compile = ok_process, br_message = None, br_cases = map echo_case cs\<rparr>
       | _ \<Rightarrow> Inl (ExternalError [])),
     sb_prepare = (\<lambda>_. Inr ok_program),
     sb_run = (\<lambda>_. Inr ok_run),
     sb_check = (\<lambda>_. Inr True),
     sb_data_ref = (\<lambda>h. case h of
         Called (Data_from_data t) # _ \<Rightarrow> Inr (text_ref (case t of Some s \<Rightarrow> s | None \<Rightarrow> []))
       | Called (Data_from_path p _) # _ \<Rightarrow> Inr (path_ref p)
       | _ \<Rightarrow> Inl (ExternalError [])),
     sb_wait = (\<lambda>_. \<lparr>wt_user = Some (Some ok_run), wt_interactor = Some (Some ok_run)\<rparr>),
     sb_work_dir = (\<lambda>_. Inr ''/w''),
     sb_files = (\<lambda>_. Map.empty)\<rparr>"

definition demo_env :: judge_env where
  "demo_env = \<lparr>je_cfg = judge_settings_default, je_worker_concurrency = 4, je_debug = False,
     je_host_path_exists = (\<lambda>_. True),
     je_storage = Local_data [''srv''] [[''srv'', ''1.in''] \<mapsto> \<lparr>lf_content = [49], lf_mtime_ns = 5\<rparr>],
     je_cache_root = ''/cache'', je_direct_root = ''/direct'', je_now = 100, je_held = {},
     je_sandbox = echo_sandbox\<rparr>"

definition demo_world :: world where
  "demo_world = \<lparr>wo_cache = \<lparr>cw_root = [], cw_direct = Map.empty\<rparr>, wo_log = []\<rparr>"

text \<open>A test case with inline data, and one with an input file.\<close>

definition inline_case :: "int \<Rightarrow> rat \<Rightarrow> ptext \<Rightarrow> ptext \<Rightarrow> test_case" where
  "inline_case no pts input expected = \<lparr>tc_case_no = Val no, tc_points = Val pts, tc_time_limit_ms = Absent,
     tc_memory_limit_kb = Absent, tc_output_limit_bytes = Absent, tc_input_inline = Val input,
     tc_output_inline = Val expected, tc_input_file = Absent, tc_output_file = Absent,
     tc_input_sha256 = Absent, tc_output_sha256 = Absent, tc_batch_no = Absent,
     tc_batch_depends = Absent, tc_batch_dependencies = Absent\<rparr>"

definition file_case :: "string \<Rightarrow> string \<Rightarrow> test_case" where
  "file_case f sha = (inline_case 1 10 [] [])\<lparr>tc_input_file := Val f, tc_input_sha256 := Val sha\<rparr>"

definition demo_problem :: "rat \<Rightarrow> bool \<Rightarrow> problem_config" where
  "demo_problem pts part = \<lparr>pr_code = Val ''P1'', pr_time_limit_ms = Val 1000, pr_memory_limit_kb = Val 65536,
     pr_points = Val pts, pr_partial = Val part, pr_output_limit_bytes = Absent\<rparr>"

definition demo_language :: language_config where
  "demo_language = \<lparr>lg_key = Val ''cpp'', lg_name = Val ''C++'', lg_extension = Val ''cpp'',
     lg_compile_command = Val ''g++ {src} -o {exe}'', lg_run_command = Val ''{exe}'', lg_source_filename = Absent\<rparr>"

definition demo_payload :: "string \<Rightarrow> problem_config \<Rightarrow> test_case list \<Rightarrow> judge_payload" where
  "demo_payload mode pr tcs = \<lparr>jp_submission_id = Val ''s1'', jp_judge_mode = Val mode, jp_problem = Val pr,
     jp_language = Val demo_language, jp_source = Val (asc ''int main(){}''), jp_test_cases = Val tcs,
     jp_spj = Val \<lparr>spj_source = Val (asc ''checker'')\<rparr>,
     jp_interactor = Val \<lparr>ia_language = Val demo_language, ia_source = Val (asc ''interactor''),
        ia_time_limit_ms = Absent, ia_memory_limit_kb = Absent\<rparr>\<rparr>"

lemma echo_closes_ok: "closes_ok echo_sandbox"
  by (simp add: closes_ok_def echo_sandbox_def)

lemmas demo_eval = demo_env_def demo_world_def echo_sandbox_def inline_case_def file_case_def demo_problem_def
  demo_language_def demo_payload_def ok_process_def text_ref_def path_ref_def echo_case_def ok_program_def
  ok_run_def

end
