(* ===== verification/DataLoader.thy ===== *)
theory DataLoader
  imports DemoEnv
begin

text \<open>
  \<^verbatim>\<open>app/modules/judge/data_loader.py\<close> and \<^verbatim>\<open>case_builder.py\<close>: the input and expected
  output of a test case, inline or as a file of the storage, and the limits of a run.
  A file comes from the local storage directly, else through the test-data cache.
\<close>

section \<open>data_loader.py\<close>

datatype located = Loc_local lpath | Loc_cached cached_file

definition resolve_file :: "judge_env \<Rightarrow> string \<Rightarrow> string \<Rightarrow> located option jm" where
  "resolve_file env object_name sha256 w =
     (case je_storage env of
        Local_data base fs \<Rightarrow>
          (case get_path base object_name of
             Inl _ \<Rightarrow> (Inr None, w)
           | Inr target \<Rightarrow> (Inr (Some (Loc_local target)), w))
      | Remote_data client \<Rightarrow>
          (case resolve_or_download (cache_cfg_of (je_cfg env)) (je_held env) (je_now env) client
                  object_name sha256 (wo_cache w) of
             (r, cache') \<Rightarrow> (map_sum id (map_option Loc_cached) r, w\<lparr>wo_cache := cache'\<rparr>)))"

definition path_text :: "judge_env \<Rightarrow> located \<Rightarrow> string" where
  "path_text env loc =
     (case loc of
        Loc_local p \<Rightarrow> ''/'' @ join_with ''/'' p
      | Loc_cached (InCache p) \<Rightarrow> je_cache_root env @ ''/'' @ join_with ''/'' p
      | Loc_cached (InDirect n) \<Rightarrow> je_direct_root env @ ''/'' @ n)"

definition loc_exists :: "judge_env \<Rightarrow> world \<Rightarrow> located \<Rightarrow> bool" where
  "loc_exists env w loc =
     (case loc of
        Loc_local p \<Rightarrow> (case je_storage env of Local_data _ fs \<Rightarrow> fs p \<noteq> None | Remote_data _ \<Rightarrow> False)
      | Loc_cached (InCache p) \<Rightarrow> fs_exists (cw_root (wo_cache w)) p
      | Loc_cached (InDirect n) \<Rightarrow> cw_direct (wo_cache w) n \<noteq> None)"

text \<open>``test data file hash mismatch: ''\<close>

definition msg_hash_mismatch :: "string \<Rightarrow> ptext" where
  "msg_hash_mismatch f = [27979, 35797, 25968, 25454, 25991, 20214, 32, 104, 97, 115, 104, 32, 19981, 21305, 37197, 58, 32] @ asc f"

text \<open>``test data input (output) file does not exist or cannot be downloaded: ''\<close>

definition msg_input_missing :: "string \<Rightarrow> ptext" where
  "msg_input_missing f = [27979, 35797, 25968, 25454, 36755, 20837, 25991, 20214, 19981, 23384, 22312, 25110, 26080, 27861, 19979, 36733, 58, 32] @ asc f"

definition msg_output_missing :: "string \<Rightarrow> ptext" where
  "msg_output_missing f = [27979, 35797, 25968, 25454, 36755, 20986, 25991, 20214, 19981, 23384, 22312, 25110, 26080, 27861, 19979, 36733, 58, 32] @ asc f"

text \<open>The shared part of the two functions: a file reference with its digest checked.\<close>

definition resolve_file_ref :: "judge_env \<Rightarrow> string \<Rightarrow> string \<Rightarrow> ptext \<Rightarrow> data_ref jm" where
  "resolve_file_ref env file expected_sha256 missing =
     jbind (resolve_file env file expected_sha256) (\<lambda>loc w.
       case loc of
         Some l \<Rightarrow>
           if loc_exists env w l then
             jbind (ask (sb_data_ref (je_sandbox env)) (Data_from_path (path_text env l) True)) (\<lambda>ref.
               if expected_sha256 \<noteq> [] \<and> dr_sha256 ref \<noteq> [] \<and> dr_sha256 ref \<noteq> expected_sha256
               then jres (Inl (RuntimeError (msg_hash_mismatch file)))
               else jret ref) w
           else (Inl (RuntimeError missing), w)
       | None \<Rightarrow> (Inl (RuntimeError missing), w))"

definition resolve_input_ref :: "judge_env \<Rightarrow> test_case \<Rightarrow> data_ref jm" where
  "resolve_input_ref env tc =
     (let input_file = str_or (dget (tc_input_file tc)) [];
          expected_sha256 = str_or (dget (tc_input_sha256 tc)) []
      in if input_file \<noteq> [] then resolve_file_ref env input_file expected_sha256 (msg_input_missing input_file)
         else ask (sb_data_ref (je_sandbox env)) (Data_from_data (dget_default [] (tc_input_inline tc))))"

definition resolve_output_ref :: "judge_env \<Rightarrow> test_case \<Rightarrow> data_ref option jm" where
  "resolve_output_ref env tc =
     (let output_file = str_or (dget (tc_output_file tc)) [];
          expected_sha256 = str_or (dget (tc_output_sha256 tc)) []
      in if output_file \<noteq> []
         then jbind (resolve_file_ref env output_file expected_sha256 (msg_output_missing output_file))
                (\<lambda>ref. jret (Some ref))
         else (case dget (tc_output_inline tc) of
                 Some t \<Rightarrow> jbind (ask (sb_data_ref (je_sandbox env)) (Data_from_data (Some t))) (\<lambda>ref. jret (Some ref))
               | None \<Rightarrow> jret None))"

section \<open>case_builder.py\<close>

definition default_output_bytes :: int where
  "default_output_bytes = 8 * 1024 * 1024"

definition none_times_int :: exn where
  "none_times_int = none_operand (''*: '' @ quoted ''NoneType'' @ '' and '' @ quoted ''int'')"

text \<open>\<^verbatim>\<open>tc.get(k) or problem[k]\<close>\<close>

definition or_index :: "int option \<Rightarrow> string \<Rightarrow> int field \<Rightarrow> int option res" where
  "or_index x k f = (case x of Some v \<Rightarrow> if v \<noteq> 0 then Inr (Some v) else dindex k f | None \<Rightarrow> dindex k f)"

definition output_limit :: "test_case \<Rightarrow> problem_config \<Rightarrow> int" where
  "output_limit tc pr =
     int_or (dget (tc_output_limit_bytes tc)) (int_or (dget (pr_output_limit_bytes pr)) default_output_bytes)"

text \<open>The limits of a case, with the factor between CPU and real time (3; interactive runs use 5).\<close>

definition case_limits :: "int \<Rightarrow> test_case \<Rightarrow> problem_config \<Rightarrow> judge_limits res" where
  "case_limits k tc pr =
     rbind (or_index (dget (tc_time_limit_ms tc)) ''time_limit_ms'' (pr_time_limit_ms pr)) (\<lambda>cpu.
     rbind (need none_times_int cpu) (\<lambda>cpu_ms.
     rbind (or_index (dget (tc_memory_limit_kb tc)) ''memory_limit_kb'' (pr_memory_limit_kb pr)) (\<lambda>mem.
     rbind (need none_times_int mem) (\<lambda>mem_kb.
       Inr \<lparr>jl_cpu_time_ms = cpu_ms, jl_real_time_ms = cpu_ms * k, jl_memory_bytes = mem_kb * 1024,
            jl_processes = 256, jl_output_bytes = Some (output_limit tc pr)\<rparr>))))"

definition build_judge_limits :: "test_case \<Rightarrow> problem_config \<Rightarrow> judge_limits res" where
  "build_judge_limits tc pr = case_limits 3 tc pr"

definition case_id_text :: "int option \<Rightarrow> string" where
  "case_id_text n = (case n of Some i \<Rightarrow> str_int i | None \<Rightarrow> ''None'')"

definition build_judge_case :: "judge_env \<Rightarrow> problem_config \<Rightarrow> test_case \<Rightarrow> judge_case jm" where
  "build_judge_case env pr tc =
     jbind (jres (dindex ''case_no'' (tc_case_no tc))) (\<lambda>no.
     jbind (resolve_input_ref env tc) (\<lambda>input.
     jbind (resolve_output_ref env tc) (\<lambda>expected.
     jbind (jres (build_judge_limits tc pr)) (\<lambda>lim.
       jret \<lparr>jc_case_id = case_id_text no, jc_input = input, jc_expected_output = expected, jc_limits = lim\<rparr>))))"

definition build_judge_cases :: "judge_env \<Rightarrow> test_case list \<Rightarrow> problem_config \<Rightarrow> judge_case list jm" where
  "build_judge_cases env tcs pr = jmap (build_judge_case env pr) tcs"

section \<open>Facts\<close>

lemma balanced_resolve_file: "balanced (resolve_file env f s)"
  by (auto simp: balanced_def resolve_file_def split: data_storage.splits sum.splits prod.splits)

lemma moves_resolve_file_ref [moves_intros]: "moves h0 S S (resolve_file_ref env f s m)"
  unfolding resolve_file_ref_def by (intro moves_intros moves_balanced[OF balanced_resolve_file])

lemma moves_resolve_input [moves_intros]: "moves h0 S S (resolve_input_ref env tc)"
  unfolding resolve_input_ref_def Let_def by (intro moves_intros)

lemma moves_resolve_output [moves_intros]: "moves h0 S S (resolve_output_ref env tc)"
  unfolding resolve_output_ref_def Let_def by (intro moves_intros)

lemma moves_build_judge_cases [moves_intros]: "moves h0 S S (build_judge_cases env tcs pr)"
  unfolding build_judge_cases_def build_judge_case_def by (intro moves_intros)

lemma build_judge_cases_length: "build_judge_cases env tcs pr w = (Inr cs, w') \<Longrightarrow> length cs = length tcs"
  unfolding build_judge_cases_def by (rule jmap_Inr_length)

lemma build_judge_limits_ok:
  "build_judge_limits tc pr = Inr l \<Longrightarrow>
     jl_real_time_ms l = 3 * jl_cpu_time_ms l \<and> jl_processes l = 256
     \<and> (\<forall>t. tc_time_limit_ms tc = Val t \<longrightarrow> t \<noteq> 0 \<longrightarrow> jl_cpu_time_ms l = t)
     \<and> (\<forall>t. dget (tc_time_limit_ms tc) = None \<longrightarrow> pr_time_limit_ms pr = Val t \<longrightarrow> jl_cpu_time_ms l = t)"
  by (auto simp: build_judge_limits_def case_limits_def or_index_def rbind_def need_def
      split: sum.splits option.splits if_splits)

section \<open>Properties\<close>

text \<open>A test data file whose digest the request gives is used only with that digest: the reference
  handed to the judge has it, or the sandbox package computed none; a missing file or another digest is an
  error that names the file. It never falls back to the inline data.\<close>

lemma input_file_digest_checked:
  assumes "tc_input_file tc = Val f" "f \<noteq> []" "tc_input_sha256 tc = Val sha" "sha \<noteq> []"
    and "resolve_input_ref env tc w = (Inr ref, w')"
  shows "(dr_sha256 ref = sha \<or> dr_sha256 ref = [])
     \<and> (\<exists>loc w1. resolve_file env f sha w = (Inr (Some loc), w1) \<and> loc_exists env w1 loc)"
  using assms
  by (auto simp: resolve_input_ref_def resolve_file_ref_def str_or_def jbind_Inr Let_def
      split: option.splits if_splits)

lemma input_file_digest_checked_witness:
  "\<exists>ref w'. resolve_input_ref demo_env (file_case ''1.in'' ''abc'') demo_world = (Inr ref, w')
     \<and> (dr_sha256 ref = ''abc'' \<or> dr_sha256 ref = [])"
proof -
  have "\<exists>ref w'. resolve_input_ref demo_env (file_case ''1.in'' ''abc'') demo_world = (Inr ref, w')"
    by (simp add: resolve_input_ref_def resolve_file_ref_def resolve_file_def demo_eval str_or_def jbind_def
        loc_exists_def get_path_def join_resolve_def in_parents_def startswith_def path_parts_def ask_def
        jret_def Let_def)
  then obtain ref w' where "resolve_input_ref demo_env (file_case ''1.in'' ''abc'') demo_world = (Inr ref, w')"
    by blast
  with input_file_digest_checked[OF _ _ _ _ this, of "''1.in''" "''abc''"] show ?thesis
    by (auto simp: file_case_def)
qed

end
