(* ===== verification/JudgeContract.thy ===== *)
theory JudgeContract
  imports DataLoader
begin

text \<open>
  What a judge mode promises (\<^verbatim>\<open>app/modules/judge/modes/base.py\<close>): a locale with the mode's
  \<^verbatim>\<open>judge\<close> method, the shape of every result it returns and that it gives back what it
  acquires. The orchestrator's facts are proved once from these promises.
\<close>

definition verdicts :: "string set" where
  "verdicts = {''AC'', ''WA'', ''CE'', ''RE'', ''TLE'', ''MLE'', ''OLE'', ''SE'', ''IE''}"

lemma verdicts_mem [simp]:
  "''AC'' \<in> verdicts" "''WA'' \<in> verdicts" "''CE'' \<in> verdicts" "''SE'' \<in> verdicts" "''IE'' \<in> verdicts"
  "''SKIPPED'' \<notin> verdicts"
  by (simp_all add: verdicts_def)

definition completed_result :: "judge_result \<Rightarrow> bool" where
  "completed_result r =
     (jr_status r = ''COMPLETED'' \<and> jr_error r = None \<and> (\<exists>v\<in>verdicts. jr_result r = Some v)
      \<and> (\<forall>c\<in>set (jr_cases r). cr_result c \<in> insert ''SKIPPED'' verdicts)
      \<and> (jr_time_ms r, jr_memory_kb r) = run_metrics_from_cases (jr_cases r))"

definition failed_result :: "judge_result \<Rightarrow> bool" where
  "failed_result r =
     (jr_status r = ''FAILED'' \<and> jr_result r = None \<and> jr_score r = 0 \<and> jr_cases r = []
      \<and> jr_error r \<noteq> None \<and> \<not> jr_compile_error r \<and> jr_time_ms r = 0 \<and> jr_memory_kb r = 0)"

definition well_formed :: "string \<Rightarrow> judge_result \<Rightarrow> bool" where
  "well_formed sid r = (jr_submission_id r = sid \<and> (completed_result r \<or> failed_result r))"

text \<open>The calls that only succeed or fail (creating and closing clients, files and pipes) succeed.\<close>

definition units_ok :: "sandbox \<Rightarrow> bool" where
  "units_ok sb = (\<forall>h. sb_unit sb h = Inr ())"

lemma units_closes_ok: "units_ok sb \<Longrightarrow> closes_ok sb"
  by (simp add: units_ok_def closes_ok_def)

lemma moves_unit_bind:
  assumes "units_ok sb" "r \<notin> S" "\<And>x. moves h0 (insert r S) U (f x)"
  shows "moves h0 S U (jbind (acquire (sb_unit sb) c r) f)"
  unfolding moves_def
proof (intro allI impI)
  fix w :: world assume "confined h0 S (wo_log w)"
  then have "confined h0 (insert r S) (Acquired r # Called c # wo_log w)"
    using assms(2) by (auto simp: confined_def)
  with assms(1,3) show "confined h0 U (wo_log (snd (jbind (acquire (sb_unit sb) c r) f w)))"
    by (simp add: moves_def jbind_def acquire_def ask_def jlog_def jret_def units_ok_def Let_def)
qed

lemma moves_unit_ask:
  "units_ok sb \<Longrightarrow> (\<And>x. moves h0 S U (f x)) \<Longrightarrow> moves h0 S U (jbind (ask (sb_unit sb) c) f)"
  by (simp add: moves_def jbind_def ask_def units_ok_def Let_def)

lemma moves_client_bind:
  "units_ok (je_sandbox env) \<Longrightarrow> r \<notin> S \<Longrightarrow> (\<And>x. moves h0 (insert r S) U (f x))
     \<Longrightarrow> moves h0 S U (jbind (create_client env r ls) f)"
  unfolding create_client_def by (rule moves_unit_bind)

locale judge_mode =
  fixes run :: "judge_env \<Rightarrow> judge_payload \<Rightarrow> judge_result jm"
  assumes shaped: "run env p w = (Inr r, w') \<Longrightarrow> \<exists>sid. jp_submission_id p = Val sid \<and> well_formed sid r"
    and tidy: "units_ok (je_sandbox env) \<Longrightarrow> balanced (run env p)"
begin

text \<open>Catching every exception of the mode gives a total function with well-formed results.\<close>

lemma caught_shaped:
  assumes "\<And>x. well_formed sid' (failed x)" "\<And>sid. jp_submission_id p = Val sid \<Longrightarrow> sid' = sid"
  shows "well_formed sid' (fst (case run env p w of (Inr r, w') \<Rightarrow> (r, w') | (Inl x, w') \<Rightarrow> (failed x, w')))"
proof (cases "run env p w")
  case (Pair v w')
  then show ?thesis
    using assms shaped[of env p w _ w'] by (cases v) auto
qed

lemma caught_tidy:
  assumes "units_ok (je_sandbox env)"
  shows "open_count q (wo_log (snd (case run env p w of (Inr r, w') \<Rightarrow> (r, w') | (Inl x, w') \<Rightarrow> (failed x, w'))))
           = open_count q (wo_log w)"
  using tidy[OF assms, of p] by (auto simp: balanced_def split: prod.split sum.split) (metis snd_conv)+

end

section \<open>Facts the modes share\<close>

lemma to_oj_result_verdicts: "to_oj_result s \<in> verdicts"
  by (cases s) (auto simp: verdicts_def)

lemma first_failure_verdicts:
  "\<forall>c\<in>set cs. cr_result c \<in> insert ''SKIPPED'' verdicts \<Longrightarrow> first_failure cs \<in> verdicts"
  by (induction cs) (auto simp: verdicts_def)

lemma error_verdict_well_formed [simp]: "well_formed sid (error_verdict sid msg)"
  by (simp add: well_formed_def failed_result_def error_verdict_def)

lemma payload_fieldE: "rbind (dindex k f) (need e) = Inr v \<longleftrightarrow> f = Val v"
  by (cases f) (simp_all add: rbind_def need_def)

end
