(* ===== verification/StandardMode.thy ===== *)
theory StandardMode
  imports JudgeContract
begin

text \<open>
  \<^verbatim>\<open>app/modules/judge/modes/standard.py\<close>: compile, run all cases, compare, score. What the
  mode computes from the sandbox's batch result is the pure function \<open>standard_outcome\<close>;
  \<open>standard_judge\<close> is the whole handler with its calls and its \<^verbatim>\<open>finally\<close> block.
  A null \<open>submission_id\<close> or \<open>points\<close>, which validation rejects, raises here as soon as it is read.
\<close>

section \<open>standard.py\<close>

definition skipped_result :: "int \<Rightarrow> case_result" where
  "skipped_result no = \<lparr>cr_case_no = no, cr_result = ''SKIPPED'', cr_time_ms = 0, cr_memory_kb = 0,
     cr_points = 0, cr_stdout_preview = [], cr_stderr_preview = Some []\<rparr>"

definition none_floordiv_int :: exn where
  "none_floordiv_int = none_operand (''//: '' @ quoted ''NoneType'' @ '' and '' @ quoted ''int'')"

text \<open>\<^verbatim>\<open>run.memory_bytes // 1024\<close>\<close>

definition memory_kb_of :: "process_result \<Rightarrow> int res" where
  "memory_kb_of run = rbind (need none_floordiv_int (ps_memory_bytes run)) (\<lambda>m. Inr (m div 1024))"

text \<open>\<^verbatim>\<open>int(tc_meta.get("case_no") or (i + 1))\<close> with \<^verbatim>\<open>tc_meta = {}\<close> past the end of the list\<close>

definition case_no_at :: "test_case list \<Rightarrow> nat \<Rightarrow> int" where
  "case_no_at tcs i = (if i < length tcs then int_or (dget (tc_case_no (tcs ! i))) (int i + 1) else int i + 1)"

definition none_plus_int :: exn where
  "none_plus_int = none_operand (''+: '' @ quoted ''int'' @ '' and '' @ quoted ''NoneType'')"

definition points_at :: "test_case list \<Rightarrow> nat \<Rightarrow> rat res" where
  "points_at tcs i =
     (if i < length tcs then need none_plus_int (dget_default 0 (tc_points (tcs ! i))) else Inr 0)"

definition case_verdict :: "files \<Rightarrow> case_run \<Rightarrow> string res" where
  "case_verdict fs c =
     (let run_ok = (cb_status c = St_AC) in
      rbind (if run_ok then outputs_match fs (Some (cb_actual_output c)) (cb_expected_output c) else Inr False)
        (\<lambda>output_match.
          Inr (if run_ok \<and> output_match then ''AC''
               else if \<not> run_ok then to_oj_result (cb_status c) else ''WA'')))"

fun standard_cases ::
  "files \<Rightarrow> bool \<Rightarrow> test_case list \<Rightarrow> nat \<Rightarrow> bool \<Rightarrow> case_run list \<Rightarrow> (case_result list \<times> bool) res" where
  "standard_cases fs stop_on_first tcs i had_failure [] = Inr ([], had_failure)"
| "standard_cases fs stop_on_first tcs i had_failure (c # cs) =
     (if stop_on_first \<and> had_failure then
        rbind (standard_cases fs stop_on_first tcs (Suc i) had_failure cs) (\<lambda>(rs, hf).
          Inr (skipped_result (case_no_at tcs i) # rs, hf))
      else
        rbind (case_verdict fs c) (\<lambda>oj_result.
        rbind (memory_kb_of (cb_run c)) (\<lambda>mem.
        rbind (points_at tcs i) (\<lambda>pts.
        rbind (standard_cases fs stop_on_first tcs (Suc i) (had_failure \<or> oj_result \<noteq> ''AC'') cs) (\<lambda>(rs, hf).
          Inr (\<lparr>cr_case_no = case_no_at tcs i, cr_result = oj_result,
                 cr_time_ms = reported_run_time_ms (Some (cb_run c)), cr_memory_kb = mem, cr_points = pts,
                 cr_stdout_preview = dr_preview_text (cb_actual_output c),
                 cr_stderr_preview = Some (dr_preview_text (cb_stderr c))\<rparr> # rs, hf))))))"

text \<open>The padding of a run the sandbox stopped early.\<close>

definition pad_skipped :: "bool \<Rightarrow> test_case list \<Rightarrow> bool \<Rightarrow> case_result list \<Rightarrow> case_result list" where
  "pad_skipped stop_on_first tcs had_failure rs =
     (if stop_on_first \<and> had_failure \<and> length rs < length tcs
      then rs @ map (\<lambda>j. skipped_result (case_no_at tcs j)) [length rs..<length tcs] else rs)"

definition none_compare :: exn where
  "none_compare = TypeError (asc (quoted ''>='' @ '' not supported between instances of '' @ quoted ''float''
     @ '' and '' @ quoted ''NoneType''))"

definition text_or :: "ptext option \<Rightarrow> ptext \<Rightarrow> ptext" where
  "text_or x d = (case x of None \<Rightarrow> d | Some t \<Rightarrow> if t = [] then d else t)"

definition standard_outcome ::
  "files \<Rightarrow> string \<Rightarrow> problem_config \<Rightarrow> test_case list \<Rightarrow> bool \<Rightarrow> bool \<Rightarrow> batch_result \<Rightarrow> judge_result res" where
  "standard_outcome fs sid pr tcs stop_on_first has_batch br =
     (let has_ce = (ps_status (br_compile br) \<noteq> Some St_AC) in
      rbind (standard_cases fs stop_on_first tcs 0 False (br_cases br)) (\<lambda>(rs, had_failure).
      let raw = pad_skipped stop_on_first tcs had_failure rs;
          (case_results, score) =
            (if has_batch then aggregate_batches raw tcs
             else (raw, if has_ce then 0
                        else fsum (map cr_points (filter (\<lambda>c. cr_result c = ''AC'') raw))))
      in rbind (if has_ce then Inr ''CE''
                else rbind (dindex ''points'' (pr_points pr)) (\<lambda>pts.
                     rbind (need none_compare pts) (\<lambda>full.
                       Inr (if full \<le> score then ''AC'' else compute_overall_result False case_results))))
           (\<lambda>overall_result.
             let (run_time_ms, run_memory_kb) = run_metrics_from_cases case_results;
                 (compile_time_ms, compile_memory_kb) = compile_metrics_from_process (Some (br_compile br))
             in Inr \<lparr>jr_submission_id = sid, jr_status = ''COMPLETED'', jr_result = Some overall_result,
                  jr_score = score, jr_time_ms = run_time_ms, jr_memory_kb = run_memory_kb,
                  jr_compile_time_ms = compile_time_ms, jr_compile_memory_kb = compile_memory_kb,
                  jr_compile_output = Some (text_or (br_message br) (text_or (ps_message (br_compile br)) [])),
                  jr_compile_error = has_ce, jr_cases = case_results, jr_error = None, jr_wall_time_ms = 0\<rparr>)))"

text \<open>\<^verbatim>\<open>any(tc.get("batch_no") for tc in test_cases)\<close>: a batch number zero does not count.\<close>

definition has_batch_of :: "test_case list \<Rightarrow> bool" where
  "has_batch_of tcs = list_ex (\<lambda>tc. int_or (dget (tc_batch_no tc)) 0 \<noteq> 0) tcs"

text \<open>A required key of the request, and the value it must not be null.\<close>

definition payload_field :: "string \<Rightarrow> exn \<Rightarrow> 'a field \<Rightarrow> 'a jm" where
  "payload_field k e f = jres (rbind (dindex k f) (need e))"

text \<open>``no test case data''\<close>

definition msg_no_cases :: ptext where
  "msg_no_cases = [27809, 26377, 27979, 35797, 28857, 25968, 25454]"

definition not_iterable :: exn where
  "not_iterable = TypeError (asc (quoted ''NoneType'' @ '' object is not iterable''))"

definition standard_judge :: "judge_env \<Rightarrow> judge_payload \<Rightarrow> judge_result jm" where
  "standard_judge env p =
     jbind (payload_field ''submission_id'' none_subscript (jp_submission_id p)) (\<lambda>sid.
     jbind (payload_field ''problem'' (none_attr ''get'') (jp_problem p)) (\<lambda>pr.
     jbind (jres (dindex ''language'' (jp_language p))) (\<lambda>language_cfg.
     jbind (jres (dindex ''source'' (jp_source p))) (\<lambda>source.
     jbind (jres (dindex ''test_cases'' (jp_test_cases p))) (\<lambda>test_cases.
     let partial_flag = (dget_default False (pr_partial pr) = Some True) in
     jbind (jres (need none_subscript language_cfg)) (\<lambda>language.
     jbind (jres (build_languages_config language ''main'')) (\<lambda>languages_config.
     jbind (jres (dindex ''key'' (lg_key language))) (\<lambda>language_key.
     jbind (jres (need not_iterable test_cases)) (\<lambda>tcs.
     jbind (build_judge_cases env tcs pr) (\<lambda>cases.
     if cases = [] then jret (error_verdict sid msg_no_cases)
     else
       let has_batch = has_batch_of tcs;
           stop_on_first = (\<not> partial_flag \<and> \<not> has_batch);
           cfg = je_cfg env;
           parallelism = max 1 (js_sandbox_standard_parallelism cfg);
           sb = je_sandbox env
       in with_history (\<lambda>h0.
            jbind (create_client env User_client languages_config) (\<lambda>_.
            jfinally
              (jbind (acquire (sb_run_cases sb)
                        (Run_cases language_key source cases
                           (build_isolation_config cfg (je_host_path_exists env)) (build_cgroup_config cfg)
                           stop_on_first (if stop_on_first then 1 else min parallelism (int (length cases))))
                        Batch_handle) (\<lambda>br w.
                (standard_outcome (sb_files sb (wo_log w)) sid pr tcs stop_on_first has_batch br, w)))
              (close_all sb h0 [Batch_handle, User_client])))))))))))))"

section \<open>Facts\<close>

lemma case_verdict_verdicts: "case_verdict fs c = Inr v \<Longrightarrow> v \<in> verdicts"
  using to_oj_result_verdicts[of "cb_status c"]
  by (auto simp: case_verdict_def Let_def rbind_def verdicts_def split: if_splits sum.splits)

lemma case_verdict_AC:
  "case_verdict fs c = Inr ''AC'' \<longleftrightarrow>
     cb_status c = St_AC \<and> outputs_match fs (Some (cb_actual_output c)) (cb_expected_output c) = Inr True"
  using to_oj_result_AC[of "cb_status c"]
  by (auto simp: case_verdict_def Let_def rbind_def split: if_splits sum.splits)

text \<open>The results the loop produces: one per case the sandbox ran, numbered by position.\<close>

lemma standard_cases_nos:
  "standard_cases fs stop tcs i hf cs = Inr (rs, hf') \<Longrightarrow>
     map cr_case_no rs = map (case_no_at tcs) [i..<i + length cs]"
proof (induction cs arbitrary: i hf rs hf')
  case (Cons c cs)
  then show ?case
    by (auto simp: rbind_def skipped_result_def upt_conv_Cons simp del: upt_Suc split: sum.splits if_splits)
qed simp

lemma standard_cases_length:
  "standard_cases fs stop tcs i hf cs = Inr (rs, hf') \<Longrightarrow> length rs = length cs"
  using standard_cases_nos[of fs stop tcs i hf cs rs hf'] by (metis length_map length_upt add_diff_cancel_left')

lemma standard_cases_results:
  "standard_cases fs stop tcs i hf cs = Inr (rs, hf') \<Longrightarrow> r \<in> set rs \<Longrightarrow> cr_result r \<in> insert ''SKIPPED'' verdicts"
proof (induction cs arbitrary: i hf rs hf')
  case (Cons c cs)
  have "cr_result r \<in> insert ''SKIPPED'' verdicts"
    if "r \<in> set rs'" "standard_cases fs stop tcs (Suc i) h cs = Inr (rs', hf')" for rs' h
    using Cons.IH that by blast
  with Cons.prems case_verdict_verdicts[of fs c] show ?case
    by (auto simp: rbind_def skipped_result_def split: sum.splits if_splits)
qed simp

text \<open>After a failure a run that stops on the first one only skips.\<close>

lemma standard_cases_after_failure:
  "standard_cases fs True tcs i True cs =
     Inr (map (\<lambda>j. skipped_result (case_no_at tcs j)) [i..<i + length cs], True)"
proof (induction cs arbitrary: i)
  case (Cons c cs)
  then show ?case by (simp add: rbind_def upt_conv_Cons del: upt_Suc)
qed simp

text \<open>The shape of a contest run: accepted cases, then possibly a failure and skipped cases.\<close>

definition acm_shape :: "test_case list \<Rightarrow> nat \<Rightarrow> case_result list \<Rightarrow> bool \<Rightarrow> bool" where
  "acm_shape tcs i rs failed =
     (if failed
      then \<exists>ok f. list_all (\<lambda>r. cr_result r = ''AC'') ok \<and> cr_result f \<in> verdicts - {''AC''}
             \<and> rs = ok @ f # map (\<lambda>j. skipped_result (case_no_at tcs j)) [i + Suc (length ok)..<i + length rs]
      else list_all (\<lambda>r. cr_result r = ''AC'') rs)"

lemma acm_shape_Cons_AC:
  assumes "cr_result r = ''AC''" "acm_shape tcs (Suc i) rs failed"
  shows "acm_shape tcs i (r # rs) failed"
proof (cases failed)
  case True
  then obtain ok f where "list_all (\<lambda>r. cr_result r = ''AC'') ok" "cr_result f \<in> verdicts - {''AC''}"
      "rs = ok @ f # map (\<lambda>j. skipped_result (case_no_at tcs j)) [Suc i + Suc (length ok)..<Suc i + length rs]"
    using assms(2) by (auto simp: acm_shape_def)
  with True assms(1) show ?thesis
    unfolding acm_shape_def by (auto intro!: exI[of _ "r # ok"] exI[of _ f])
qed (use assms in \<open>simp add: acm_shape_def\<close>)

lemma standard_cases_acm:
  "standard_cases fs True tcs i False cs = Inr (rs, hf) \<Longrightarrow> acm_shape tcs i rs hf"
proof (induction cs arbitrary: i rs)
  case (Cons c cs)
  obtain v mem pts rs' where *: "case_verdict fs c = Inr v" "standard_cases fs True tcs (Suc i) (v \<noteq> ''AC'') cs = Inr (rs', hf)"
      "rs = \<lparr>cr_case_no = case_no_at tcs i, cr_result = v,
                 cr_time_ms = reported_run_time_ms (Some (cb_run c)), cr_memory_kb = mem, cr_points = pts,
                 cr_stdout_preview = dr_preview_text (cb_actual_output c),
                 cr_stderr_preview = Some (dr_preview_text (cb_stderr c))\<rparr> # rs'"
    using Cons.prems by (auto simp: rbind_def split: sum.splits)
  show ?case
  proof (cases "v = ''AC''")
    case True
    with * Cons.IH[of "Suc i" rs'] show ?thesis by (auto intro: acm_shape_Cons_AC)
  next
    case False
    then have "hf" "rs' = map (\<lambda>j. skipped_result (case_no_at tcs j)) [Suc i..<Suc i + length cs]"
      using *(2) by (simp_all add: standard_cases_after_failure del: upt_Suc)
    with False * case_verdict_verdicts[OF *(1)] show ?thesis
      unfolding acm_shape_def by (auto intro!: exI[of _ "[]"] simp del: upt_Suc)
  qed
qed (simp add: acm_shape_def)

lemma pad_skipped_shape:
  assumes "acm_shape tcs 0 rs hf"
  shows "acm_shape tcs 0 (pad_skipped True tcs hf rs) hf"
proof (cases "hf \<and> length rs < length tcs")
  case True
  then obtain ok f where ok: "list_all (\<lambda>r. cr_result r = ''AC'') ok" "cr_result f \<in> verdicts - {''AC''}"
      "rs = ok @ f # map (\<lambda>j. skipped_result (case_no_at tcs j)) [Suc (length ok)..<length rs]"
    using assms by (auto simp: acm_shape_def)
  then have len: "Suc (length ok) \<le> length rs" by (metis add_Suc_right le_add1 length_Cons length_append list.size(4) plus_1_eq_Suc add.commute)
  have "[Suc (length ok)..<length tcs] = [Suc (length ok)..<length rs] @ [length rs..<length tcs]"
    using len True by (metis le_Suc_ex less_imp_le upt_add_eq_append)
  with True ok show ?thesis
    unfolding acm_shape_def pad_skipped_def by (auto intro!: exI[of _ ok] exI[of _ f] simp del: upt_Suc)
qed (use assms in \<open>auto simp: pad_skipped_def\<close>)

lemma standard_cases_nth:
  assumes "standard_cases fs False tcs i hf cs = Inr (rs, hf')" "j < length cs"
  shows "(cr_result (rs ! j) = ''AC'' \<longleftrightarrow> cb_status (cs ! j) = St_AC
            \<and> outputs_match fs (Some (cb_actual_output (cs ! j))) (cb_expected_output (cs ! j)) = Inr True)
     \<and> points_at tcs (i + j) = Inr (cr_points (rs ! j))"
  using assms
proof (induction cs arbitrary: i hf rs j)
  case (Cons c cs)
  obtain v mem pts rs' where *: "case_verdict fs c = Inr v" "points_at tcs i = Inr pts"
      "standard_cases fs False tcs (Suc i) (hf \<or> v \<noteq> ''AC'') cs = Inr (rs', hf')"
      "rs = \<lparr>cr_case_no = case_no_at tcs i, cr_result = v,
                 cr_time_ms = reported_run_time_ms (Some (cb_run c)), cr_memory_kb = mem, cr_points = pts,
                 cr_stdout_preview = dr_preview_text (cb_actual_output c),
                 cr_stderr_preview = Some (dr_preview_text (cb_stderr c))\<rparr> # rs'"
    using Cons.prems(1) by (auto simp: rbind_def split: sum.splits)
  show ?case
  proof (cases j)
    case 0
    with * case_verdict_AC[of fs c] show ?thesis by auto
  next
    case (Suc k)
    with Cons.IH[OF *(3), of k] Cons.prems(2) *(4) show ?thesis by simp
  qed
qed simp

lemma standard_outcome_parts:
  assumes "standard_outcome fs sid pr tcs stop has_batch br = Inr r"
  obtains rs hf where "standard_cases fs stop tcs 0 False (br_cases br) = Inr (rs, hf)"
    and "(jr_cases r, jr_score r) =
           (if has_batch then aggregate_batches (pad_skipped stop tcs hf rs) tcs
            else (pad_skipped stop tcs hf rs,
                  if jr_compile_error r then 0
                  else fsum (map cr_points (filter (\<lambda>c. cr_result c = ''AC'') (pad_skipped stop tcs hf rs)))))"
    and "jr_compile_error r = (ps_status (br_compile br) \<noteq> Some St_AC)"
    and "jr_compile_error r \<Longrightarrow> jr_result r = Some ''CE''"
    and "\<not> jr_compile_error r \<Longrightarrow> \<exists>full. pr_points pr = Val full \<and>
           jr_result r = Some (if full \<le> jr_score r then ''AC'' else first_failure (jr_cases r))"
    and "jr_submission_id r = sid" "jr_status r = ''COMPLETED''" "jr_error r = None"
    and "(jr_time_ms r, jr_memory_kb r) = run_metrics_from_cases (jr_cases r)"
proof -
  obtain rs hf where rs: "standard_cases fs stop tcs 0 False (br_cases br) = Inr (rs, hf)"
    using assms by (cases "standard_cases fs stop tcs 0 False (br_cases br)")
      (auto simp: standard_outcome_def rbind_def Let_def)
  show thesis
    using assms
    by (intro that[OF rs])
      (auto simp: standard_outcome_def rs rbind_def Let_def compute_overall_result_def need_def
        split: sum.splits option.splits if_splits prod.splits elim!: dindex.elims)
qed

lemma pad_skipped_results:
  "c \<in> set (pad_skipped stop tcs hf rs) \<Longrightarrow> c \<in> set rs \<or> cr_result c = ''SKIPPED''"
  by (auto simp: pad_skipped_def skipped_result_def split: if_splits)

lemma standard_outcome_well_formed:
  assumes "standard_outcome fs sid pr tcs stop has_batch br = Inr r"
  shows "well_formed sid r"
  using assms
proof (rule standard_outcome_parts, goal_cases)
  case (1 rs hf)
  let ?raw = "pad_skipped stop tcs hf rs"
  have raw: "cr_result c \<in> insert ''SKIPPED'' verdicts" if "c \<in> set ?raw" for c
    using pad_skipped_results[OF that] standard_cases_results[OF 1(1)] by blast
  have cases: "cr_result c \<in> insert ''SKIPPED'' verdicts" if "c \<in> set (jr_cases r)" for c
  proof (cases has_batch)
    case True
    with 1(2) have "jr_cases r = fst (aggregate_batches ?raw tcs)" by (metis fst_conv)
    then show ?thesis using aggregate_results[of c ?raw tcs] that raw by force
  qed (use 1(2) that raw in auto)
  have "\<exists>v\<in>verdicts. jr_result r = Some v"
    using 1(4,5) first_failure_verdicts[of "jr_cases r"] cases
    by (cases "jr_compile_error r") auto
  with 1 cases show ?case by (simp add: well_formed_def completed_result_def)
qed

lemma standard_tidy:
  assumes "closes_ok (je_sandbox env)"
  shows "balanced (standard_judge env p)"
proof -
  have run: "moves h0 S S (with_history (\<lambda>h0.
      jbind (create_client env User_client ls) (\<lambda>_.
        jfinally (jbind (acquire a c Batch_handle) (\<lambda>br w. (out br w, w)))
          (close_all (je_sandbox env) h0 [Batch_handle, User_client]))))"
    for h0 S ls a c and out :: "batch_result \<Rightarrow> world \<Rightarrow> judge_result res"
  proof (rule moves_balanced, rule balanced_moves, rule moves_create_bind)
    fix h0
    have "moves h0 {User_client} {Batch_handle, User_client}
            (jbind (acquire a c Batch_handle) (\<lambda>br w. (out br w, w)))"
      by (rule moves_acquire_bind) (auto simp: moves_def)
    then show "moves h0 {User_client} {} (jfinally (jbind (acquire a c Batch_handle) (\<lambda>br w. (out br w, w)))
          (close_all (je_sandbox env) h0 [Batch_handle, User_client]))"
      by (rule moves_finally[OF assms]) simp
  qed auto
  show ?thesis
    unfolding standard_judge_def Let_def payload_field_def
    by (intro balancedI moves_intros run)
qed

lemma standard_yields:
  "yields (\<lambda>r. \<exists>sid. jp_submission_id p = Val sid \<and> well_formed sid r) (standard_judge env p)"
proof -
  have out: "yields (\<lambda>r. \<exists>sid. jp_submission_id p = Val sid \<and> well_formed sid r)
      (\<lambda>w. (standard_outcome (fs w) sid pr tcs stop hb br, w))" if "jp_submission_id p = Val sid"
    for fs sid pr tcs stop hb br
    using that standard_outcome_well_formed by (auto simp: yields_def)
  show ?thesis
    unfolding standard_judge_def Let_def payload_field_def
    by (intro yields_intros_all out) (auto simp: payload_fieldE)
qed

interpretation standard: judge_mode standard_judge
proof
  show "standard_judge env p w = (Inr r, w') \<Longrightarrow> \<exists>sid. jp_submission_id p = Val sid \<and> well_formed sid r"
    for env p w r w'
    by (rule yieldsD[OF standard_yields])
qed (rule standard_tidy[OF units_closes_ok])

section \<open>Properties\<close>

text \<open>C6: A contest run (no partial credit, no batches) stops at the first failure: the reported cases are
  accepted ones, then at most one failing case with its verdict, then only skipped cases worth nothing; they
  are numbered like the test cases, and after a failure there is one result for every test case.\<close>

theorem acm_stops_at_first_failure:
  assumes "standard_outcome fs sid pr tcs True False br = Inr r"
  shows "\<exists>failed. acm_shape tcs 0 (jr_cases r) failed
     \<and> map cr_case_no (jr_cases r) = map (case_no_at tcs) [0..<length (jr_cases r)]
     \<and> (if failed then length (br_cases br) \<le> length tcs \<longrightarrow> length (jr_cases r) = length tcs
        else length (jr_cases r) = length (br_cases br))"
  using assms
proof (rule standard_outcome_parts, goal_cases)
  case (1 rs hf)
  have cases: "jr_cases r = pad_skipped True tcs hf rs" using 1(2) by simp
  have nos: "map cr_case_no rs = map (case_no_at tcs) [0..<length rs]"
    using standard_cases_nos[OF 1(1)] standard_cases_length[OF 1(1)] by simp
  have "map cr_case_no (jr_cases r) = map (case_no_at tcs) [0..<length (jr_cases r)]"
  proof (cases "hf \<and> length rs < length tcs")
    case True
    then have "[0..<length tcs] = [0..<length rs] @ [length rs..<length tcs]"
      by (metis le_add_diff_inverse less_imp_le upt_add_eq_append zero_le)
    with True nos show ?thesis by (simp add: cases pad_skipped_def skipped_result_def o_def)
  qed (use nos in \<open>auto simp: cases pad_skipped_def\<close>)
  with pad_skipped_shape[OF standard_cases_acm[OF 1(1)]] standard_cases_length[OF 1(1)]
  show ?case by (intro exI[of _ hf]) (auto simp: cases pad_skipped_def)
qed

text \<open>C11: With partial credit and no batches every case is judged: there is one result per case the sandbox
  ran, accepted exactly when the program ended normally and its output matches, with the points of its test case,
  and the score is the sum over the accepted cases, zero after a compile error.\<close>

theorem partial_judges_every_case:
  assumes "standard_outcome fs sid pr tcs False False br = Inr r"
  shows "length (jr_cases r) = length (br_cases br)
     \<and> (\<forall>i<length (br_cases br). (cr_result (jr_cases r ! i) = ''AC'' \<longleftrightarrow> cb_status (br_cases br ! i) = St_AC
            \<and> outputs_match fs (Some (cb_actual_output (br_cases br ! i))) (cb_expected_output (br_cases br ! i)) = Inr True)
          \<and> points_at tcs i = Inr (cr_points (jr_cases r ! i)))
     \<and> jr_score r = (if jr_compile_error r then 0
          else fsum (map cr_points (filter (\<lambda>c. cr_result c = ''AC'') (jr_cases r))))"
  using assms
proof (rule standard_outcome_parts, goal_cases)
  case (1 rs hf)
  then have "jr_cases r = rs" by (simp add: pad_skipped_def)
  with 1 standard_cases_length[OF 1(1)] standard_cases_nth[OF 1(1)] show ?case
    by (simp add: pad_skipped_def)
qed

text \<open>C9: The verdict of a completed run: a compile error is CE and nothing else is; otherwise AC is given
  when the score reaches the points of the problem or no case failed, and else the verdict is that of the first
  case that is neither accepted nor skipped.\<close>

theorem standard_verdict:
  assumes "standard_outcome fs sid pr tcs stop has_batch br = Inr r"
  shows "(jr_compile_error r \<longleftrightarrow> ps_status (br_compile br) \<noteq> Some St_AC)
     \<and> (jr_compile_error r \<longrightarrow> jr_result r = Some ''CE'')
     \<and> (\<not> jr_compile_error r \<longrightarrow> (\<exists>full. pr_points pr = Val full
          \<and> (jr_result r = Some ''AC'' \<longleftrightarrow> full \<le> jr_score r \<or> (\<forall>c\<in>set (jr_cases r). cr_result c \<in> {''AC'', ''SKIPPED''}))
          \<and> (jr_result r \<noteq> Some ''AC'' \<longrightarrow>
               (\<exists>c. find (\<lambda>c. cr_result c \<notin> {''AC'', ''SKIPPED''}) (jr_cases r) = Some c \<and> jr_result r = Some (cr_result c)))))"
  using assms
proof (rule standard_outcome_parts, goal_cases)
  case (1 rs hf)
  show ?case
  proof (cases "jr_compile_error r")
    case False
    then obtain full where full: "pr_points pr = Val full"
        "jr_result r = Some (if full \<le> jr_score r then ''AC'' else first_failure (jr_cases r))"
      using 1(5) by blast
    have "jr_result r = Some ''AC'' \<longleftrightarrow> full \<le> jr_score r \<or> (\<forall>c\<in>set (jr_cases r). cr_result c \<in> {''AC'', ''SKIPPED''})"
      by (simp add: full(2) first_failure_AC)
    moreover have "\<exists>c. find (\<lambda>c. cr_result c \<notin> {''AC'', ''SKIPPED''}) (jr_cases r) = Some c \<and> jr_result r = Some (cr_result c)"
      if "jr_result r \<noteq> Some ''AC''"
      using that full(2) by (auto simp: first_failure_find split: option.splits if_splits)
    ultimately show ?thesis using False 1(3) full(1) by blast
  qed (use 1 in simp)
qed

definition demo_batch :: "judge_case list \<Rightarrow> batch_result" where
  "demo_batch cs = \<lparr>br_compile = ok_process, br_message = None, br_cases = map echo_case cs\<rparr>"

definition demo_case :: "int \<Rightarrow> ptext \<Rightarrow> ptext \<Rightarrow> judge_case" where
  "demo_case no input expected = \<lparr>jc_case_id = str_int no, jc_input = text_ref input,
     jc_expected_output = Some (text_ref expected),
     jc_limits = \<lparr>jl_cpu_time_ms = 1000, jl_real_time_ms = 3000, jl_memory_bytes = 1024, jl_processes = 256,
       jl_output_bytes = None\<rparr>\<rparr>"

text \<open>Three cases; the program copies its input, so the second fails.\<close>

definition demo_tcs :: "test_case list" where
  "demo_tcs = [inline_case 1 10 [49] [49], inline_case 2 10 [50] [51], inline_case 3 10 [52] [52]]"

definition demo_outcome :: "bool \<Rightarrow> rat \<Rightarrow> judge_result res" where
  "demo_outcome stop pts = standard_outcome Map.empty ''s1'' (demo_problem pts (\<not> stop)) demo_tcs stop False
     (demo_batch [demo_case 1 [49] [49], demo_case 2 [50] [51], demo_case 3 [52] [52]])"

lemma demo_outcome_ok: "\<exists>r. demo_outcome stop pts = Inr r"
  by (cases stop) (simp_all add: demo_outcome_def standard_outcome_def demo_batch_def demo_case_def demo_tcs_def
      demo_eval rbind_def Let_def memory_kb_of_def need_def points_at_def case_verdict_def outputs_match_def
      existing_file_def ref_full_text_def check_output_def ustrip_def strip_by_def lstrip_by_def rstrip_by_def
      uspace_def run_metrics_from_cases_def compile_metrics_from_process_def split: prod.splits)

theorem acm_stops_at_first_failure_witness:
  "\<exists>r failed. demo_outcome True 30 = Inr r \<and> acm_shape demo_tcs 0 (jr_cases r) failed"
proof -
  obtain r where "demo_outcome True 30 = Inr r" using demo_outcome_ok by blast
  with acm_stops_at_first_failure[OF this[unfolded demo_outcome_def]] show ?thesis by blast
qed

theorem partial_judges_every_case_witness:
  "\<exists>r. demo_outcome False 30 = Inr r \<and> length (jr_cases r) = 3"
proof -
  obtain r where "demo_outcome False 30 = Inr r" using demo_outcome_ok by blast
  with partial_judges_every_case[OF this[unfolded demo_outcome_def]] show ?thesis
    by (auto simp: demo_batch_def)
qed

theorem standard_verdict_witness:
  "\<exists>r. demo_outcome False 30 = Inr r \<and> \<not> jr_compile_error r"
proof -
  obtain r where "demo_outcome False 30 = Inr r" using demo_outcome_ok by blast
  with standard_verdict[OF this[unfolded demo_outcome_def]] show ?thesis
    by (auto simp: demo_batch_def ok_process_def)
qed

text \<open>A wrong answer does not prevent the verdict AC when the score reaches the points of the problem: with
  a problem worth 20 of its 30 case points, a run with a wrong case is reported as AC.\<close>

lemma accepted_despite_failure:
  "\<exists>r. demo_outcome False 20 = Inr r \<and> jr_result r = Some ''AC''
     \<and> map cr_result (jr_cases r) = [''AC'', ''WA'', ''AC''] \<and> jr_score r = 20"
proof -
  have f: "fadd 0 10 = 10" "fadd 10 10 = 20" by code_simp+
  show ?thesis
    by (simp add: demo_outcome_def standard_outcome_def demo_batch_def demo_case_def demo_tcs_def
      demo_eval rbind_def Let_def memory_kb_of_def need_def points_at_def case_verdict_def outputs_match_def
      existing_file_def ref_full_text_def check_output_def ustrip_def strip_by_def lstrip_by_def rstrip_by_def
      uspace_def run_metrics_from_cases_def compile_metrics_from_process_def pad_skipped_def fsum_def f)
qed

end
