(* ===== verification/SpjMode.thy ===== *)
theory SpjMode
  imports StandardMode
begin

text \<open>
  \<^verbatim>\<open>app/modules/judge/modes/spj.py\<close>: the user program and a checker are compiled once, then
  every case runs the program and asks the checker.
\<close>

section \<open>spj.py\<close>

text \<open>A \<^verbatim>\<open>return\<close> inside the \<^verbatim>\<open>try\<close> block, or the values the code after it uses.\<close>

datatype 'a flow = Return judge_result | Continue 'a

record tally =
  ty_cases :: "case_result list"
  ty_all_ac :: bool
  ty_total_score :: rat
  ty_compile_time_ms :: int
  ty_compile_memory_kb :: int

definition checker_compile_limits :: judge_limits where
  "checker_compile_limits = \<lparr>jl_cpu_time_ms = 60000, jl_real_time_ms = 120000,
     jl_memory_bytes = 1024 * 1024 * 1024, jl_processes = 256, jl_output_bytes = Some (64 * 1024 * 1024)\<rparr>"

definition compile_failure_text :: "program \<Rightarrow> ptext" where
  "compile_failure_text prog =
     (let detail = (if pg_has_compile_result prog
                    then ustrip (text_or (pg_compiler_output prog) (text_or (pg_result_message prog) [])) else [])
      in if detail \<noteq> [] then detail
         else text_or (case pg_compile prog of None \<Rightarrow> None | Some c \<Rightarrow> ps_message c) (asc ''compile failed''))"

text \<open>``user program failed to compile: '', ``SPJ checker failed to compile: '', ``SPJ checker source missing''\<close>

definition msg_user_compile :: ptext where "msg_user_compile = [29992, 25143, 31243, 24207, 32534, 35793, 22833, 36133, 58, 32]"

definition msg_checker_compile :: ptext where "msg_checker_compile = [83, 80, 74, 32, 99, 104, 101, 99, 107, 101, 114, 32, 32534, 35793, 22833, 36133, 58, 32]"

definition msg_no_checker :: ptext where "msg_no_checker = [32570, 23569, 32, 83, 80, 74, 32, 99, 104, 101, 99, 107, 101, 114, 32, 28304, 30721]"

text \<open>\<^verbatim>\<open>problem["points"] / max(len(test_cases), 1)\<close>\<close>

definition none_div_int :: exn where
  "none_div_int = none_operand (''/: '' @ quoted ''NoneType'' @ '' and '' @ quoted ''int'')"

definition none_len :: exn where
  "none_len = TypeError (asc (''object of type '' @ quoted ''NoneType'' @ '' has no len()''))"

definition per_case_points :: "problem_config option \<Rightarrow> test_case list option \<Rightarrow> rat res" where
  "per_case_points pr test_cases =
     rbind (need none_subscript pr) (\<lambda>pr. rbind (dindex ''points'' (pr_points pr)) (\<lambda>pts.
     rbind (need none_len test_cases) (\<lambda>tcs.
     rbind (need none_div_int pts) (\<lambda>v. Inr (fdiv v (of_nat (max (length tcs) 1)))))))"

text \<open>One iteration of the loop over the test cases.\<close>

definition spj_case ::
  "judge_env \<Rightarrow> problem_config \<Rightarrow> rat \<Rightarrow> tally \<Rightarrow> test_case \<Rightarrow> tally jm" where
  "spj_case env pr per_case st tc =
     (let sb = je_sandbox env; isolation = build_isolation_config (je_cfg env) (je_host_path_exists env);
          cgroup = build_cgroup_config (je_cfg env) in
      jbind (resolve_input_ref env tc) (\<lambda>input_ref.
      jbind (resolve_output_ref env tc) (\<lambda>expected_ref.
      jbind (jres (build_judge_limits tc pr)) (\<lambda>lim.
      jbind (ask (sb_run sb) (Run_program input_ref lim isolation cgroup)) (\<lambda>user_result.
      jbind (ask (sb_data_ref sb) (Data_from_path (rr_stdout_path user_result) False)) (\<lambda>actual.
      jbind (case expected_ref of Some e \<Rightarrow> jret e | None \<Rightarrow> ask (sb_data_ref sb) (Data_from_data (Some []))) (\<lambda>expected.
      jbind (ask (sb_check sb) (Run_checker input_ref actual expected isolation cgroup)) (\<lambda>accepted.
      let case_ac = (rr_status user_result = St_AC \<and> accepted);
          points = (if case_ac then per_case else 0) in
      jbind (jres (rbind (dindex ''case_no'' (tc_case_no tc)) (need none_subscript))) (\<lambda>no.
      jbind (jres (memory_kb_of (rr_run user_result))) (\<lambda>mem.
      jbind (ask (sb_data_ref sb) (Data_from_path (rr_stdout_path user_result) False)) (\<lambda>out.
      jbind (ask (sb_data_ref sb) (Data_from_path (rr_stderr_path user_result) False)) (\<lambda>err.
        jret (st\<lparr>ty_cases := ty_cases st @ [\<lparr>cr_case_no = no, cr_result = (if case_ac then ''AC'' else ''WA''),
                    cr_time_ms = reported_run_time_ms (Some (rr_run user_result)), cr_memory_kb = mem,
                    cr_points = points, cr_stdout_preview = dr_preview_text out,
                    cr_stderr_preview = Some (dr_preview_text err)\<rparr>],
                 ty_all_ac := (ty_all_ac st \<and> case_ac),
                 ty_total_score := (if case_ac then fadd (ty_total_score st) points else ty_total_score st)\<rparr>)))))))))))))"

definition spj_body ::
  "judge_env \<Rightarrow> string \<Rightarrow> problem_config option \<Rightarrow> string option \<Rightarrow> ptext option \<Rightarrow> ptext
     \<Rightarrow> test_case list option \<Rightarrow> tally flow jm" where
  "spj_body env sid pr language_key source checker_source test_cases =
     (let sb = je_sandbox env; isolation = build_isolation_config (je_cfg env) (je_host_path_exists env);
          cgroup = build_cgroup_config (je_cfg env) in
      jbind (acquire (sb_prepare sb) (Prepare_source User_program (Key_id language_key) source None False isolation cgroup)
               User_program) (\<lambda>prog.
      let (compile_time_ms, compile_memory_kb) = compile_metrics_from_process (pg_compile prog) in
      if \<not> pg_compiled prog
      then jret (Return (error_verdict sid (msg_user_compile @ compile_failure_text prog)))
      else
      jbind (acquire (sb_prepare sb) (Prepare_source Checker_program Testlib_checker_id (Some checker_source)
                                        (Some checker_compile_limits) True isolation cgroup) Checker_program) (\<lambda>checker.
      if \<not> pg_compiled checker
      then jret (Return (error_verdict sid (msg_checker_compile @ compile_failure_text checker)))
      else
      jbind (jres (per_case_points pr test_cases)) (\<lambda>per_case.
      jbind (jres (need none_subscript pr)) (\<lambda>pr'.
      jbind (jres (need not_iterable test_cases)) (\<lambda>tcs.
      jbind (jfold (spj_case env pr' per_case)
               \<lparr>ty_cases = [], ty_all_ac = True, ty_total_score = 0,
                 ty_compile_time_ms = compile_time_ms, ty_compile_memory_kb = compile_memory_kb\<rparr> tcs) (\<lambda>st.
        jret (Continue st))))))))"

definition tally_result :: "string \<Rightarrow> string \<Rightarrow> tally \<Rightarrow> judge_result" where
  "tally_result sid verdict st =
     (let (run_time_ms, run_memory_kb) = run_metrics_from_cases (ty_cases st) in
      \<lparr>jr_submission_id = sid, jr_status = ''COMPLETED'', jr_result = Some verdict,
        jr_score = ty_total_score st, jr_time_ms = run_time_ms, jr_memory_kb = run_memory_kb,
        jr_compile_time_ms = ty_compile_time_ms st, jr_compile_memory_kb = ty_compile_memory_kb st,
        jr_compile_output = None, jr_compile_error = False, jr_cases = ty_cases st, jr_error = None,
        jr_wall_time_ms = 0\<rparr>)"

definition spj_judge :: "judge_env \<Rightarrow> judge_payload \<Rightarrow> judge_result jm" where
  "spj_judge env p =
     jbind (payload_field ''submission_id'' none_subscript (jp_submission_id p)) (\<lambda>sid.
     jbind (jres (dindex ''problem'' (jp_problem p))) (\<lambda>pr.
     jbind (jres (dindex ''language'' (jp_language p))) (\<lambda>language_cfg.
     jbind (jres (dindex ''source'' (jp_source p))) (\<lambda>source.
     jbind (jres (need (none_attr ''get'') (dget_default \<lparr>spj_source = Absent\<rparr> (jp_spj p)))) (\<lambda>spj_cfg.
     jbind (jres (dindex ''test_cases'' (jp_test_cases p))) (\<lambda>test_cases.
     let checker_source = text_or (dget (spj_source spj_cfg)) [] in
     if checker_source = [] then jret (error_verdict sid msg_no_checker)
     else
       jbind (jres (need none_subscript language_cfg)) (\<lambda>language.
       jbind (jres (build_languages_config language ''main'')) (\<lambda>languages_config.
       jbind (jres (dindex ''key'' (lg_key language))) (\<lambda>language_key.
       with_history (\<lambda>h0.
         jbind (create_client env User_client languages_config) (\<lambda>_.
         jbind (create_client env Checker_client [Testlib_checker_language]) (\<lambda>_.
         jbind (jfinally (spj_body env sid pr language_key source checker_source test_cases)
                  (close_all (je_sandbox env) h0 [Checker_program, User_program, User_client, Checker_client]))
           (\<lambda>outcome. case outcome of
               Return r \<Rightarrow> jret r
             | Continue st \<Rightarrow> jret (tally_result sid (if ty_all_ac st then ''AC'' else ''WA'') st))))))))))))))"

section \<open>Facts\<close>

definition accepted_count :: "case_result list \<Rightarrow> nat" where
  "accepted_count cs = length (filter (\<lambda>c. cr_result c = ''AC'') cs)"

text \<open>The tally after the test cases \<open>pre\<close>, shared with the interactive mode.\<close>

definition tally_inv :: "string set \<Rightarrow> rat \<Rightarrow> test_case list \<Rightarrow> tally \<Rightarrow> bool" where
  "tally_inv vs per_case pre st =
     (list_all2 (\<lambda>tc c. tc_case_no tc = Val (cr_case_no c)) pre (ty_cases st)
      \<and> (\<forall>c\<in>set (ty_cases st). cr_result c \<in> vs \<and> cr_points c = (if cr_result c = ''AC'' then per_case else 0))
      \<and> ty_all_ac st = (\<forall>c\<in>set (ty_cases st). cr_result c = ''AC'')
      \<and> ty_total_score st = fsum (replicate (accepted_count (ty_cases st)) per_case))"

lemma fsum_replicate_Suc: "fsum (replicate (Suc n) x) = fadd (fsum (replicate n x)) x"
  by (simp only: replicate_Suc replicate_append_same[symmetric] fsum_def foldl_append) simp

lemma tally_inv_add:
  assumes "tally_inv vs per_case pre st" "tc_case_no tc = Val (cr_case_no c)" "cr_result c \<in> vs"
    and "cr_points c = (if cr_result c = ''AC'' then per_case else 0)"
    and "ty_cases st' = ty_cases st @ [c]" "ty_all_ac st' = (ty_all_ac st \<and> cr_result c = ''AC'')"
    and "ty_total_score st' = (if cr_result c = ''AC'' then fadd (ty_total_score st) (cr_points c) else ty_total_score st)"
  shows "tally_inv vs per_case (pre @ [tc]) st'"
  using assms
  by (auto simp: tally_inv_def accepted_count_def fsum_replicate_Suc list_all2_appendI simp del: replicate_Suc)

lemma spj_case_tally:
  assumes "tally_inv {''AC'', ''WA''} per_case pre st"
  shows "yields (tally_inv {''AC'', ''WA''} per_case (pre @ [tc])) (spj_case env pr per_case st tc)"
  unfolding spj_case_def Let_def
  by (intro yields_intros_all tally_inv_add[OF assms]) (auto simp: payload_fieldE split: if_splits)

text \<open>What a finished special judge run reports.\<close>

definition tallied_result :: "string set \<Rightarrow> judge_payload \<Rightarrow> judge_result \<Rightarrow> bool" where
  "tallied_result vs p r =
     (\<exists>tcs pr pts. jp_test_cases p = Val tcs \<and> jp_problem p = Val pr \<and> pr_points pr = Val pts
        \<and> list_all2 (\<lambda>tc c. tc_case_no tc = Val (cr_case_no c)) tcs (jr_cases r)
        \<and> (\<forall>c\<in>set (jr_cases r). cr_result c \<in> vs)
        \<and> (jr_result r = Some ''AC'' \<longleftrightarrow> (\<forall>c\<in>set (jr_cases r). cr_result c = ''AC''))
        \<and> jr_score r = fsum (replicate (accepted_count (jr_cases r)) (fdiv pts (of_nat (max (length tcs) 1)))))"

lemma per_case_points_Inr:
  "per_case_points pr test_cases = Inr v \<longleftrightarrow>
     (\<exists>q pts tcs. pr = Some q \<and> pr_points q = Val pts \<and> test_cases = Some tcs
        \<and> v = fdiv pts (of_nat (max (length tcs) 1)))"
proof (cases pr)
  case (Some q)
  then show ?thesis
    by (cases "pr_points q"; cases test_cases) (auto simp: per_case_points_def rbind_def need_def)
qed (simp add: per_case_points_def rbind_def need_def)

lemma dindex_Inr: "dindex k f = Inr v \<longleftrightarrow> (f = JNull \<and> v = None) \<or> (\<exists>x. f = Val x \<and> v = Some x)"
  by (cases f) auto

lemma need_Inr: "need e x = Inr v \<longleftrightarrow> x = Some v"
  by (cases x) (auto simp: need_def)

lemma spj_body_yields:
  "yields (\<lambda>fl. case fl of
       Return r \<Rightarrow> \<exists>msg. r = error_verdict sid msg
     | Continue st \<Rightarrow> \<exists>tcs q pts. test_cases = Some tcs \<and> pr = Some q \<and> pr_points q = Val pts
         \<and> tally_inv {''AC'', ''WA''} (fdiv pts (of_nat (max (length tcs) 1))) tcs st)
     (spj_body env sid pr key src chk test_cases)"
proof -
  have loop: "yields (\<lambda>fl. case fl of Return r \<Rightarrow> \<exists>msg. r = error_verdict sid msg
       | Continue st \<Rightarrow> \<exists>tcs q pts. test_cases = Some tcs \<and> pr = Some q \<and> pr_points q = Val pts
           \<and> tally_inv {''AC'', ''WA''} (fdiv pts (of_nat (max (length tcs) 1))) tcs st)
      (jbind (jfold (spj_case env q per_case)
         \<lparr>ty_cases = [], ty_all_ac = True, ty_total_score = 0, ty_compile_time_ms = ct, ty_compile_memory_kb = cm\<rparr> tcs)
         (\<lambda>st. jret (Continue st)))"
    if "per_case_points pr test_cases = Inr per_case" "need none_subscript pr = Inr q"
       "need not_iterable test_cases = Inr tcs" for per_case q tcs ct cm
  proof -
    have "yields (tally_inv {''AC'', ''WA''} per_case ([] @ tcs)) (jfold (spj_case env q per_case)
         \<lparr>ty_cases = [], ty_all_ac = True, ty_total_score = 0, ty_compile_time_ms = ct, ty_compile_memory_kb = cm\<rparr> tcs)"
      by (rule yields_jfold_prefix[of "tally_inv {''AC'', ''WA''} per_case", OF spj_case_tally])
         (auto simp: tally_inv_def accepted_count_def)
    then show ?thesis
      using that by (auto intro!: yields_bind_pre yields_jret simp: per_case_points_Inr need_Inr)
  qed
  show ?thesis
    unfolding spj_body_def Let_def case_prod_beta
    by (intro yields_intros_all loop) auto
qed

lemma tally_result_well_formed:
  assumes "tally_inv vs per_case tcs st" "vs \<subseteq> insert ''SKIPPED'' verdicts" "v \<in> verdicts"
  shows "well_formed sid (tally_result sid v st)"
proof -
  have "\<forall>c\<in>set (ty_cases st). cr_result c \<in> insert ''SKIPPED'' verdicts"
    using assms(1,2) by (auto simp: tally_inv_def)
  with assms(3) show ?thesis
    by (simp add: well_formed_def completed_result_def tally_result_def split: prod.splits)
qed

lemma tally_result_tallied:
  assumes "tally_inv vs (fdiv pts (of_nat (max (length tcs) 1))) tcs st" "v = ''AC'' \<longleftrightarrow> ty_all_ac st"
    and "jp_test_cases p = Val tcs" "jp_problem p = Val q" "pr_points q = Val pts"
  shows "tallied_result vs p (tally_result sid v st)"
  using assms by (auto simp: tallied_result_def tally_inv_def tally_result_def split: prod.splits)

text \<open>A result of the mode: an error verdict, or the tally of every test case.\<close>

lemma spj_yields:
  "yields (\<lambda>r. \<exists>sid. jp_submission_id p = Val sid \<and> well_formed sid r
       \<and> (jr_status r = ''FAILED'' \<or> tallied_result {''AC'', ''WA''} p r)) (spj_judge env p)"
proof -
  let ?P = "\<lambda>r. \<exists>sid. jp_submission_id p = Val sid \<and> well_formed sid r
       \<and> (jr_status r = ''FAILED'' \<or> tallied_result {''AC'', ''WA''} p r)"
  have after: "yields ?P (jbind (jfinally (spj_body env sid pr key src chk test_cases) cl)
      (\<lambda>outcome. case outcome of Return r \<Rightarrow> jret r
         | Continue st \<Rightarrow> jret (tally_result sid (if ty_all_ac st then ''AC'' else ''WA'') st)))"
    if "jp_submission_id p = Val sid" "dindex ''problem'' (jp_problem p) = Inr pr"
       "dindex ''test_cases'' (jp_test_cases p) = Inr test_cases" for sid pr key src chk test_cases cl
    using that
    by (intro yields_bind_pre[OF yields_finally[OF spj_body_yields]])
      (auto simp: dindex_Inr error_verdict_def[of sid, THEN arg_cong, of jr_status] intro!: yields_jret
        tally_result_well_formed tally_result_tallied split: flow.splits)
  show ?thesis
    unfolding spj_judge_def Let_def payload_field_def
    by (intro yields_jres_bind yields_intros yields_bind[where m = "create_client _ _ _"] after)
       (auto simp: payload_fieldE error_verdict_def well_formed_def failed_result_def)
qed

lemma moves_spj_case [moves_intros]: "moves h0 S S (spj_case env pr per_case st tc)"
  unfolding spj_case_def Let_def by (intro moves_intros)

lemma moves_spj_body:
  "moves h0 {Checker_client, User_client} {Checker_program, User_program, Checker_client, User_client}
     (spj_body env sid pr key src chk test_cases)"
proof -
  let ?all = "{Checker_program, User_program, Checker_client, User_client}"
  have step: "moves h0 {User_program, Checker_client, User_client} ?all
      (if b then jret x else jbind (acquire a c Checker_program) f)"
    if "\<And>y. moves h0 ?all ?all (f y)"
    for b a c and x :: "tally flow" and f :: "program \<Rightarrow> tally flow jm"
    using that by (intro moves_if moves_mono[OF moves_jret] moves_acquire_bind) auto
  show ?thesis
    unfolding spj_body_def Let_def case_prod_beta
    by (rule moves_acquire_bind, simp, rule step, intro moves_intros) auto
qed

lemma spj_tidy:
  assumes "units_ok (je_sandbox env)"
  shows "balanced (spj_judge env p)"
proof -
  note ok = units_closes_ok[OF assms]
  have run: "moves h S S (with_history (\<lambda>h0.
         jbind (create_client env User_client ls) (\<lambda>_.
         jbind (create_client env Checker_client cls) (\<lambda>_.
         jbind (jfinally (spj_body env sid pr key src chk tcs)
                  (close_all (je_sandbox env) h0 [Checker_program, User_program, User_client, Checker_client])) f))))"
    if f: "\<And>x h. moves h {} {} (f x)" for h S ls cls sid pr key src chk tcs and f :: "tally flow \<Rightarrow> judge_result jm"
  proof (rule moves_balanced, rule balanced_moves, rule moves_client_bind[OF assms], simp,
      rule moves_client_bind[OF assms], simp)
    fix h0
    have "moves h0 {Checker_client, User_client} {} (jfinally (spj_body env sid pr key src chk tcs)
        (close_all (je_sandbox env) h0 [Checker_program, User_program, User_client, Checker_client]))"
      by (rule moves_finally[OF ok moves_spj_body]) auto
    from moves_jbind[OF this f subset_refl]
    show "moves h0 {Checker_client, User_client} {} (jbind (jfinally (spj_body env sid pr key src chk tcs)
        (close_all (je_sandbox env) h0 [Checker_program, User_program, User_client, Checker_client])) f)" .
  qed
  have flow: "moves h {} {} (case x of Return r \<Rightarrow> jret r | Continue st \<Rightarrow> jret (g st))" for x h and g :: "tally \<Rightarrow> judge_result"
    by (cases x) (auto intro: moves_intros)
  show ?thesis
    unfolding spj_judge_def Let_def payload_field_def
    by (intro balancedI moves_intros run flow)
qed

interpretation spj: judge_mode spj_judge
proof
  show "spj_judge env p w = (Inr r, w') \<Longrightarrow> \<exists>sid. jp_submission_id p = Val sid \<and> well_formed sid r"
    for env p w r w'
    using yieldsD[OF spj_yields[of p env], of w r w'] by blast
qed (rule spj_tidy)

section \<open>Properties\<close>


text \<open>The shares of the points need not add up: all 7 cases of a problem worth 60 points accepted give a
  score below 60.\<close>

lemma spj_full_score_inexact:
  "\<exists>share. per_case_points (Some (demo_problem 60 True)) (Some (replicate 7 (inline_case 1 0 [] []))) = Inr share
     \<and> fsum (replicate 7 share) < 60"
proof -
  have share: "fdiv 60 7 = 4825285315039817 / 562949953421312" by code_simp
  have steps: "fadd 0 (4825285315039817 / 562949953421312) = 4825285315039817 / 562949953421312"
    "fadd (4825285315039817 / 562949953421312) (4825285315039817 / 562949953421312) = 4825285315039817 / 281474976710656"
    "fadd (4825285315039817 / 281474976710656) (4825285315039817 / 562949953421312) = 3618963986279863 / 140737488355328"
    "fadd (3618963986279863 / 140737488355328) (4825285315039817 / 562949953421312) = 4825285315039817 / 140737488355328"
    "fadd (4825285315039817 / 140737488355328) (4825285315039817 / 562949953421312) = 6031606643799771 / 140737488355328"
    "fadd (6031606643799771 / 140737488355328) (4825285315039817 / 562949953421312) = 7237927972559725 / 140737488355328"
    "fadd (7237927972559725 / 140737488355328) (4825285315039817 / 562949953421312) = 8444249301319679 / 140737488355328"
    by code_simp+
  have rep: "replicate 7 x = [x, x, x, x, x, x, x]" for x :: rat
    by (simp add: eval_nat_numeral)
  have "fsum (replicate 7 (fdiv 60 7)) < 60"
    unfolding fsum_def share rep foldl.simps steps by simp
  then show ?thesis by (simp add: per_case_points_def demo_problem_def rbind_def need_def)
qed

lemma demo_languages: "\<exists>ls. build_languages_config demo_language exe = Inr ls"
proof -
  have "shlex_split ''g++ {src} -o {exe}'' = Inr [''g++'', ''{src}'', ''-o'', ''{exe}'']" "shlex_split ''{exe}'' = Inr [''{exe}'']"
    by code_simp+
  then show ?thesis
    by (simp add: build_languages_config_def demo_language_def rbind_def Let_def str_or_def)
qed

definition spj_demo :: "test_case list \<Rightarrow> judge_payload" where
  "spj_demo tcs = demo_payload ''SPECIAL_JUDGE'' (demo_problem 60 True) tcs"

lemma spj_demo_eval:
  "case fst (spj_judge demo_env (spj_demo []) demo_world) of
     Inl _ \<Rightarrow> False
   | Inr r \<Rightarrow> jr_result r = Some ''AC'' \<and> jr_score r = 0 \<and> jr_status r = ''COMPLETED''"
  by code_simp

lemma spj_demo_run:
  "\<exists>r w'. spj_judge demo_env (spj_demo []) demo_world = (Inr r, w') \<and> jr_result r = Some ''AC'' \<and> jr_score r = 0
     \<and> jr_status r = ''COMPLETED''"
  using spj_demo_eval by (cases "spj_judge demo_env (spj_demo []) demo_world") (auto split: sum.splits)

text \<open>With no test cases a special judge run is reported as accepted, with score 0.\<close>

lemma spj_no_cases_accepted:
  "\<exists>r w'. spj_judge demo_env (demo_payload ''SPECIAL_JUDGE'' (demo_problem 60 True) []) demo_world = (Inr r, w')
     \<and> jr_status r = ''COMPLETED'' \<and> jr_result r = Some ''AC'' \<and> jr_cases r = [] \<and> jr_score r = 0"
proof -
  obtain r w' where r: "spj_judge demo_env (spj_demo []) demo_world = (Inr r, w')" "jr_result r = Some ''AC''"
      "jr_score r = 0" "jr_status r = ''COMPLETED''" using spj_demo_run by blast
  from yieldsD[OF spj_yields r(1)] r(4) have "jr_cases r = []"
    by (auto simp: tallied_result_def spj_demo_def demo_payload_def)
  with r show ?thesis by (auto simp: spj_demo_def)
qed


end
