(* ===== verification/InteractiveMode.thy ===== *)
theory InteractiveMode
  imports SpjMode
begin

text \<open>
  \<^verbatim>\<open>app/modules/judge/modes/interactive.py\<close>: for every case the user program and the interactor
  are compiled in a fresh work directory and run concurrently over two pipes. What the two threads do is the
  sandbox's \<open>sb_wait\<close>: which of the two futures is done after each wait, and with which result (\<open>None\<close>
  when the run raised, which the code logs and turns into \<^verbatim>\<open>None\<close>).
\<close>

section \<open>interactive.py\<close>

text \<open>``interactor source missing''\<close>

definition msg_no_interactor :: ptext where "msg_no_interactor = [32570, 23569, 20132, 20114, 22120, 28304, 30721]"

text \<open>The limits of the interactor, computed in its thread.\<close>

definition interactor_limits :: "interactor_config \<Rightarrow> problem_config \<Rightarrow> judge_limits res" where
  "interactor_limits ia pr =
     (let cpu = (case dget (ia_time_limit_ms ia) of
                   Some v \<Rightarrow> if v \<noteq> 0 then Inr v
                             else rbind (dindex ''time_limit_ms'' (pr_time_limit_ms pr)) (\<lambda>t. rbind (need none_times_int t) (\<lambda>t. Inr (t * 2)))
                 | None \<Rightarrow> rbind (dindex ''time_limit_ms'' (pr_time_limit_ms pr)) (\<lambda>t. rbind (need none_times_int t) (\<lambda>t. Inr (t * 2))))
      in rbind cpu (\<lambda>cpu_ms.
         rbind (or_index (dget (ia_memory_limit_kb ia)) ''memory_limit_kb'' (pr_memory_limit_kb pr)) (\<lambda>mem.
         rbind (need none_times_int mem) (\<lambda>mem_kb.
           Inr \<lparr>jl_cpu_time_ms = cpu_ms, jl_real_time_ms = cpu_ms * 2, jl_memory_bytes = mem_kb * 1024,
                jl_processes = 256, jl_output_bytes = None\<rparr>))))"

text \<open>Priority of the verdicts: user error, interactor error, wrong answer, accepted; a missing result is SE.\<close>

definition interactive_status :: "run_result option \<Rightarrow> run_result option \<Rightarrow> string" where
  "interactive_status user interactor =
     (case (user, interactor) of
        (Some u, Some i) \<Rightarrow>
          if rr_status u \<noteq> St_AC then to_oj_result (rr_status u)
          else if rr_status i \<noteq> St_AC then to_oj_result (rr_status i)
          else if ps_exit_code (rr_run i) \<noteq> 0 then ''WA''
          else ''AC''
      | _ \<Rightarrow> ''SE'')"

definition add_case :: "tally \<Rightarrow> case_result \<Rightarrow> tally" where
  "add_case st c = st\<lparr>ty_cases := ty_cases st @ [c], ty_all_ac := (ty_all_ac st \<and> cr_result c = ''AC''),
     ty_total_score := (if cr_result c = ''AC'' then fadd (ty_total_score st) (cr_points c) else ty_total_score st)\<rparr>"

text \<open>The result of a case whose program or interactor does not compile.\<close>

definition compile_failed_case :: "string \<Rightarrow> test_case \<Rightarrow> program \<Rightarrow> case_result res" where
  "compile_failed_case verdict tc prog =
     rbind (rbind (dindex ''case_no'' (tc_case_no tc)) (need none_subscript)) (\<lambda>no.
     rbind (need (none_attr ''message'') (pg_compile prog)) (\<lambda>c.
       Inr \<lparr>cr_case_no = no, cr_result = verdict, cr_time_ms = 0, cr_memory_kb = 0, cr_points = 0,
            cr_stdout_preview = [], cr_stderr_preview = ps_message c\<rparr>))"

text \<open>\<^verbatim>\<open>future.result()\<close> for the interactor raises what computing its limits raised.\<close>

definition future_value :: "judge_limits res \<Rightarrow> future \<Rightarrow> run_result option res" where
  "future_value lims f = (case f of None \<Rightarrow> Inr None | Some v \<Rightarrow> rbind lims (\<lambda>_. Inr v))"

text \<open>Both waits: the results of the two runs, with the pipes closed as the code closes them.\<close>

definition run_both ::
  "judge_env \<Rightarrow> history \<Rightarrow> problem_config \<Rightarrow> interactor_config \<Rightarrow> test_case \<Rightarrow> bool
     \<Rightarrow> (run_result option \<times> run_result option) jm" where
  "run_both env h0 pr ia tc has_user =
     (let sb = je_sandbox env; lims = interactor_limits ia pr;
          user_of = (\<lambda>wt. if has_user then wt_user wt else map_option (\<lambda>_. None) (wt_user wt));
          close_pipes = close_all sb h0 [Fd_AB, Fd_BA] in
      jbind (jres (rbind (dindex ''time_limit_ms'' (pr_time_limit_ms pr)) (need none_times_int))) (\<lambda>limit.
      let timeout_seconds = max (fdiv (fl (of_int (limit * 5))) 1000) 10 in
      jbind (ask (\<lambda>h. Inr (sb_wait sb h)) (Wait_first timeout_seconds)) (\<lambda>first.
      jbind (jres (future_value lims (wt_interactor first))) (\<lambda>interactor_first.
      let user_done = (user_of first \<noteq> None); interactor_done = (wt_interactor first \<noteq> None);
          user_first = (case user_of first of Some v \<Rightarrow> v | None \<Rightarrow> None);
          should_release = ((case user_first of Some u \<Rightarrow> rr_status u \<noteq> St_AC | None \<Rightarrow> False) \<or> interactor_done) in
      jbind (if should_release then close_pipes else jret ()) (\<lambda>_.
      if user_done \<and> interactor_done then jret (user_first, interactor_first)
      else
      jbind (ask (\<lambda>h. Inr (sb_wait sb h)) (Wait_more (if should_release then 1 else timeout_seconds))) (\<lambda>more.
      jbind (jres (if interactor_done then Inr interactor_first else future_value lims (wt_interactor more))) (\<lambda>interactor_result.
      let user_result = (if user_done then user_first else (case user_of more of Some v \<Rightarrow> v | None \<Rightarrow> None));
          pending = (\<not> (user_done \<or> user_of more \<noteq> None) \<or> \<not> (interactor_done \<or> wt_interactor more \<noteq> None)) in
      jbind (if pending then jbind (jres (dindex ''case_no'' (tc_case_no tc))) (\<lambda>_. close_pipes) else jret ()) (\<lambda>_.
        jret (user_result, interactor_result)))))))))"

text \<open>The result of a case both of whose programs ran (or failed to).\<close>

definition interactive_result ::
  "rat \<Rightarrow> test_case \<Rightarrow> ptext \<Rightarrow> run_result option \<Rightarrow> run_result option \<Rightarrow> case_result res" where
  "interactive_result per_case tc stderr_text user interactor =
     (let status_str = interactive_status user interactor in
      rbind (case user of Some u \<Rightarrow> memory_kb_of (rr_run u) | None \<Rightarrow> Inr 0) (\<lambda>mem.
      rbind (rbind (dindex ''case_no'' (tc_case_no tc)) (need none_subscript)) (\<lambda>no.
        Inr \<lparr>cr_case_no = no, cr_result = status_str,
             cr_time_ms = (case user of Some u \<Rightarrow> reported_run_time_ms (Some (rr_run u)) | None \<Rightarrow> 0),
             cr_memory_kb = mem, cr_points = (if status_str = ''AC'' then per_case else 0),
             cr_stdout_preview = (case user of Some u \<Rightarrow> (case rr_stdout u of Some s \<Rightarrow> take 2048 s | None \<Rightarrow> []) | None \<Rightarrow> []),
             cr_stderr_preview = Some stderr_text\<rparr>)))"

definition interactor_stderr :: "sandbox \<Rightarrow> string \<Rightarrow> history \<Rightarrow> ptext" where
  "interactor_stderr sb work_dir h =
     (case sb_files sb h (work_dir @ ''/interactor.stderr'') of
        None \<Rightarrow> [] | Some b \<Rightarrow> take 4096 (universal_newlines (utf8_decode b)))"

text \<open>The block between \<^verbatim>\<open>try\<close> and \<^verbatim>\<open>finally\<close>.\<close>

definition interactive_try ::
  "judge_env \<Rightarrow> history \<Rightarrow> string \<Rightarrow> problem_config \<Rightarrow> interactor_config \<Rightarrow> string option \<Rightarrow> bool \<Rightarrow> ptext
     \<Rightarrow> string option \<Rightarrow> ptext \<Rightarrow> rat \<Rightarrow> tally \<Rightarrow> test_case \<Rightarrow> tally jm" where
  "interactive_try env h0 work_dir pr ia language_key has_client source interactor_key interactor_source per_case st tc =
     (let sb = je_sandbox env; isolation = build_isolation_config (je_cfg env) (je_host_path_exists env);
          cgroup = build_cgroup_config (je_cfg env); has_user = (has_client \<and> source \<noteq> []) in
      jbind (if has_user
             then jbind (acquire (sb_prepare sb) (Prepare_source User_program (Key_id language_key) (Some source) None False isolation cgroup)
                           User_program) (\<lambda>prog. jret (Some prog))
             else jret None) (\<lambda>user_program.
      let (ct, cm) = (case user_program of Some prog \<Rightarrow> compile_metrics_from_process (pg_compile prog) | None \<Rightarrow> (0, 0));
          st' = st\<lparr>ty_compile_time_ms := max (ty_compile_time_ms st) ct,
                   ty_compile_memory_kb := max (ty_compile_memory_kb st) cm\<rparr> in
      if (case user_program of Some prog \<Rightarrow> \<not> pg_compiled prog | None \<Rightarrow> False)
      then jbind (jres (compile_failed_case ''CE'' tc (the user_program))) (\<lambda>c. jret (add_case st' c))
      else
      jbind (acquire (sb_prepare sb) (Prepare_source Interactor_program (Key_id interactor_key) (Some interactor_source) None False isolation cgroup)
               Interactor_program) (\<lambda>interactor_program.
      if \<not> pg_compiled interactor_program
      then jbind (jres (compile_failed_case ''IE'' tc interactor_program)) (\<lambda>c. jret (add_case st' c))
      else
      jbind (run_both env h0 pr ia tc has_user) (\<lambda>(user_result, interactor_result) w.
        jbind (jres (interactive_result per_case tc (interactor_stderr sb work_dir (wo_log w)) user_result interactor_result))
          (\<lambda>c. jret (add_case st' c)) w))))"

definition interactive_case ::
  "judge_env \<Rightarrow> problem_config \<Rightarrow> interactor_config \<Rightarrow> language_spec list option \<Rightarrow> string option \<Rightarrow> ptext
     \<Rightarrow> language_spec list \<Rightarrow> string option \<Rightarrow> ptext \<Rightarrow> rat \<Rightarrow> tally \<Rightarrow> test_case \<Rightarrow> tally jm" where
  "interactive_case env pr ia languages language_key source interactor_languages interactor_key interactor_source per_case st tc =
     (let sb = je_sandbox env in
      with_history (\<lambda>h0.
      jbind (resolve_input_ref env tc) (\<lambda>input_ref.
      jbind (jres (case_limits 5 tc pr)) (\<lambda>_.
      jbind (acquire (sb_work_dir sb) Make_work_dir Work_dir) (\<lambda>work_dir.
      jbind (ask (sb_unit sb) (case dr_path input_ref of
                                 Some (a # p) \<Rightarrow> Copy_input (a # p)
                               | _ \<Rightarrow> Write_input (dr_data input_ref))) (\<lambda>_.
      jbind (ask (sb_unit sb) Make_fifos) (\<lambda>_.
      jbind (acquire (sb_unit sb) (Open_fd Fd_AB) Fd_AB) (\<lambda>_.
      jbind (acquire (sb_unit sb) (Open_fd Fd_BA) Fd_BA) (\<lambda>_.
      jbind (case languages of Some ls \<Rightarrow> create_client env User_client ls | None \<Rightarrow> jret ()) (\<lambda>_.
      jbind (create_client env Interactor_client interactor_languages) (\<lambda>_.
        jfinally
          (interactive_try env h0 work_dir pr ia language_key (languages \<noteq> None) source interactor_key interactor_source per_case st tc)
          (close_all sb h0 [Fd_AB, Fd_BA, Interactor_program, User_program, User_client, Interactor_client, Work_dir])
      )))))))))))"

definition interactive_judge :: "judge_env \<Rightarrow> judge_payload \<Rightarrow> judge_result jm" where
  "interactive_judge env p =
     jbind (payload_field ''submission_id'' none_subscript (jp_submission_id p)) (\<lambda>sid.
     jbind (jres (dindex ''problem'' (jp_problem p))) (\<lambda>pr.
     jbind (jres (need (none_attr ''get'') (dget_default
             \<lparr>ia_language = Absent, ia_source = Absent, ia_time_limit_ms = Absent, ia_memory_limit_kb = Absent\<rparr>
             (jp_interactor p)))) (\<lambda>ia.
     jbind (jres (dindex ''source'' (jp_source p))) (\<lambda>source.
     jbind (jres (dindex ''test_cases'' (jp_test_cases p))) (\<lambda>test_cases.
     let interactor_source = text_or (dget (ia_source ia)) [] in
     if interactor_source = [] then jret (error_verdict sid msg_no_interactor)
     else
       jbind (case dget (jp_language p) of
                Some language \<Rightarrow>
                  jbind (jres (build_languages_config language ''main'')) (\<lambda>ls.
                  jbind (jres (dindex ''key'' (lg_key language))) (\<lambda>key. jret (Some ls, key)))
              | None \<Rightarrow> jret (None, None)) (\<lambda>(languages, language_key).
       jbind (jres (rbind (dindex ''language'' (ia_language ia)) (need none_subscript))) (\<lambda>il.
       jbind (jres (build_languages_config il ''interactor'')) (\<lambda>interactor_languages.
       jbind (jres (dindex ''key'' (lg_key il))) (\<lambda>interactor_key.
       jbind (jres (per_case_points pr test_cases)) (\<lambda>per_case.
       jbind (jres (need none_subscript pr)) (\<lambda>pr'.
       jbind (jres (need not_iterable test_cases)) (\<lambda>tcs.
       jbind (jfold (interactive_case env pr' ia languages language_key (text_or source []) interactor_languages interactor_key
                       interactor_source per_case)
                \<lparr>ty_cases = [], ty_all_ac = True, ty_total_score = 0, ty_compile_time_ms = 0, ty_compile_memory_kb = 0\<rparr> tcs) (\<lambda>st.
         let non_ac = filter (\<lambda>v. v \<noteq> ''AC'' \<and> v \<noteq> ''SKIPPED'') (map cr_result (ty_cases st)) in
         jret (tally_result sid (if ty_all_ac st then ''AC'' else case non_ac of v # _ \<Rightarrow> v | [] \<Rightarrow> ''WA'') st))))))))))))))"

section \<open>Facts\<close>

lemma interactive_status_verdicts: "interactive_status u i \<in> verdicts"
  using to_oj_result_verdicts by (auto simp: interactive_status_def split: option.splits)

lemma interactive_status_AC:
  "interactive_status user interactor = ''AC'' \<longleftrightarrow>
     (\<exists>u i. user = Some u \<and> interactor = Some i \<and> rr_status u = St_AC \<and> rr_status i = St_AC
        \<and> ps_exit_code (rr_run i) = 0)"
  by (auto simp: interactive_status_def to_oj_result_AC split: option.splits)

lemma tally_inv_metrics:
  "tally_inv vs per_case pre st
     \<Longrightarrow> tally_inv vs per_case pre (st\<lparr>ty_compile_time_ms := a, ty_compile_memory_kb := b\<rparr>)"
  by (simp add: tally_inv_def)

lemma tally_inv_add_case:
  assumes "tally_inv vs per_case pre st" "tc_case_no tc = Val (cr_case_no c)" "cr_result c \<in> vs"
    and "cr_points c = (if cr_result c = ''AC'' then per_case else 0)"
  shows "tally_inv vs per_case (pre @ [tc]) (add_case st c)"
  by (rule tally_inv_add[OF assms]) (simp_all add: add_case_def)

lemma compile_failed_case_Inr:
  "compile_failed_case v tc prog = Inr c
     \<Longrightarrow> tc_case_no tc = Val (cr_case_no c) \<and> cr_result c = v \<and> cr_points c = 0"
  by (auto simp: compile_failed_case_def rbind_def need_def dindex_Inr split: sum.splits option.splits)

lemma interactive_result_Inr:
  "interactive_result per_case tc err u i = Inr c
     \<Longrightarrow> tc_case_no tc = Val (cr_case_no c) \<and> cr_result c = interactive_status u i
         \<and> cr_points c = (if cr_result c = ''AC'' then per_case else 0)"
  by (auto simp: interactive_result_def Let_def rbind_def need_def dindex_Inr split: sum.splits option.splits)

lemma yields_read_log: "(\<And>h. yields P (f h)) \<Longrightarrow> yields P (\<lambda>w. f (g w) w)"
  by (auto simp: yields_def)

lemma interactive_try_tally:
  assumes "tally_inv verdicts per_case pre st"
  shows "yields (tally_inv verdicts per_case (pre @ [tc]))
     (interactive_try env h0 work_dir pr ia key hc src ikey isrc per_case st tc)"
proof -
  have failed: "yields (tally_inv verdicts per_case (pre @ [tc]))
      (jbind (jres (compile_failed_case v tc prog)) (\<lambda>c. jret (add_case (st\<lparr>ty_compile_time_ms := a, ty_compile_memory_kb := b\<rparr>) c)))"
    if "v \<in> verdicts" "v \<noteq> ''AC''" for v prog a b
    using that by (intro yields_jres_bind yields_jret tally_inv_add_case tally_inv_metrics assms)
      (auto dest: compile_failed_case_Inr)
  have ran: "yields (tally_inv verdicts per_case (pre @ [tc]))
      (jbind (run_both env h0 pr ia tc hu) (\<lambda>v w.
        jbind (jres (interactive_result per_case tc (interactor_stderr sb work_dir (wo_log w)) (fst v) (snd v)))
          (\<lambda>c. jret (add_case (st\<lparr>ty_compile_time_ms := a, ty_compile_memory_kb := b\<rparr>) c)) w))" for hu sb a b
  proof (rule yields_bind)
    fix v :: "run_result option \<times> run_result option"
    have "yields (tally_inv verdicts per_case (pre @ [tc]))
        (jbind (jres (interactive_result per_case tc (interactor_stderr sb work_dir h) (fst v) (snd v)))
          (\<lambda>c. jret (add_case (st\<lparr>ty_compile_time_ms := a, ty_compile_memory_kb := b\<rparr>) c)))" for h
      by (intro yields_jres_bind yields_jret tally_inv_add_case tally_inv_metrics assms)
         (auto dest!: interactive_result_Inr simp: interactive_status_verdicts)
    then show "yields (tally_inv verdicts per_case (pre @ [tc])) (\<lambda>w.
        jbind (jres (interactive_result per_case tc (interactor_stderr sb work_dir (wo_log w)) (fst v) (snd v)))
          (\<lambda>c. jret (add_case (st\<lparr>ty_compile_time_ms := a, ty_compile_memory_kb := b\<rparr>) c)) w)"
      by (rule yields_read_log)
  qed
  show ?thesis
    unfolding interactive_try_def Let_def case_prod_beta
    by (rule yields_bind, rule yields_if, rule failed, simp, simp, rule yields_bind, rule yields_if, rule failed, simp, simp)
       (rule ran)
qed

lemma interactive_case_tally:
  assumes "tally_inv verdicts per_case pre st"
  shows "yields (tally_inv verdicts per_case (pre @ [tc]))
     (interactive_case env pr ia ls key src ils ikey isrc per_case st tc)"
  unfolding interactive_case_def Let_def
  by (intro yields_history yields_bind yields_finally interactive_try_tally[OF assms])

text \<open>The verdict of the run: AC, or the first result that is not AC.\<close>

lemma interactive_overall:
  assumes "tally_inv verdicts per_case tcs st"
  defines "non_ac \<equiv> filter (\<lambda>v. v \<noteq> ''AC'' \<and> v \<noteq> ''SKIPPED'') (map cr_result (ty_cases st))"
  defines "v \<equiv> (if ty_all_ac st then ''AC'' else case non_ac of v # _ \<Rightarrow> v | [] \<Rightarrow> ''WA'')"
  shows "v \<in> verdicts" "v = ''AC'' \<longleftrightarrow> ty_all_ac st"
proof -
  have "set non_ac \<subseteq> verdicts - {''AC''}"
    using assms(1) by (auto simp: non_ac_def tally_inv_def)
  then show "v \<in> verdicts" "v = ''AC'' \<longleftrightarrow> ty_all_ac st"
    by (auto simp: v_def split: list.splits)
qed

lemma interactive_yields:
  "yields (\<lambda>r. \<exists>sid. jp_submission_id p = Val sid \<and> well_formed sid r
       \<and> (jr_status r = ''FAILED'' \<or> tallied_result verdicts p r)) (interactive_judge env p)"
proof -
  let ?P = "\<lambda>r. \<exists>sid. jp_submission_id p = Val sid \<and> well_formed sid r
       \<and> (jr_status r = ''FAILED'' \<or> tallied_result verdicts p r)"
  have loop: "yields ?P (jbind (jfold (interactive_case env q ia ls key src ils ikey isrc per_case)
        \<lparr>ty_cases = [], ty_all_ac = True, ty_total_score = 0, ty_compile_time_ms = 0, ty_compile_memory_kb = 0\<rparr> tcs)
      (\<lambda>st. jret (tally_result sid (if ty_all_ac st then ''AC'' else case filter (\<lambda>v. v \<noteq> ''AC'' \<and> v \<noteq> ''SKIPPED'') (map cr_result (ty_cases st))
             of v # _ \<Rightarrow> v | [] \<Rightarrow> ''WA'') st)))"
    if sid: "jp_submission_id p = Val sid" and pr: "dindex ''problem'' (jp_problem p) = Inr pr"
      and tcs: "dindex ''test_cases'' (jp_test_cases p) = Inr test_cases"
      and per: "per_case_points pr test_cases = Inr per_case" and q: "need none_subscript pr = Inr q"
      and n: "need not_iterable test_cases = Inr tcs"
    for sid pr test_cases per_case q tcs ia ls key src ils ikey isrc
  proof -
    obtain pts where pts: "jp_problem p = Val q" "pr_points q = Val pts" "jp_test_cases p = Val tcs"
        "per_case = fdiv pts (of_nat (max (length tcs) 1))"
      using pr tcs per q n by (auto simp: per_case_points_Inr need_Inr dindex_Inr)
    have "yields (tally_inv verdicts per_case ([] @ tcs)) (jfold (interactive_case env q ia ls key src ils ikey isrc per_case)
        \<lparr>ty_cases = [], ty_all_ac = True, ty_total_score = 0, ty_compile_time_ms = 0, ty_compile_memory_kb = 0\<rparr> tcs)"
      by (rule yields_jfold_prefix[of "tally_inv verdicts per_case", OF interactive_case_tally])
         (auto simp: tally_inv_def accepted_count_def)
    then show ?thesis
    proof (rule yields_bind_pre, intro yields_jret exI conjI disjI2)
      fix st assume inv: "tally_inv verdicts per_case ([] @ tcs) st"
      let ?v = "if ty_all_ac st then ''AC'' else case filter (\<lambda>v. v \<noteq> ''AC'' \<and> v \<noteq> ''SKIPPED'') (map cr_result (ty_cases st))
             of v # _ \<Rightarrow> v | [] \<Rightarrow> ''WA''"
      have inv': "tally_inv verdicts per_case tcs st" using inv by simp
      show "jp_submission_id p = Val sid" by (rule sid)
      show "well_formed sid (tally_result sid ?v st)"
        by (rule tally_result_well_formed[OF inv']) (auto simp: interactive_overall(1)[OF inv'])
      show "tallied_result verdicts p (tally_result sid ?v st)"
        by (rule tally_result_tallied[OF _ interactive_overall(2)[OF inv']]) (use inv' pts in simp_all)
    qed
  qed
  show ?thesis
    unfolding interactive_judge_def Let_def payload_field_def case_prod_beta
    by (intro yields_jres_bind yields_if yields_jret yields_bind[where m = "case_option _ _ _"] loop)
       (auto simp: payload_fieldE error_verdict_def well_formed_def failed_result_def)
qed

lemma moves_close_all [moves_intros]: "moves h0 S S (close_all sb h0 rs)"
  by (induction rs) (auto intro: moves_intros)

lemma moves_run_both [moves_intros]: "moves h0 S S (run_both env h0 pr ia tc hu)"
  unfolding run_both_def Let_def by (intro moves_intros)

lemma moves_read_log: "(\<And>h. moves h0 S T (f h)) \<Longrightarrow> moves h0 S T (\<lambda>w. f (g w) w)"
  by (auto simp: moves_def)

definition case_resources :: "resource set" where
  "case_resources = {Work_dir, Fd_AB, Fd_BA, User_client, Interactor_client}"

lemma moves_interactive_try:
  "moves h0 case_resources (insert Interactor_program (insert User_program case_resources))
     (interactive_try env h0 work_dir pr ia key hc src ikey isrc per_case st tc)"
proof -
  let ?U = "insert User_program case_resources" and ?A = "insert Interactor_program (insert User_program case_resources)"
  have last: "moves h0 ?A ?A (jbind (run_both env h0 pr ia tc hu) (\<lambda>v w.
        jbind (jres (interactive_result per_case tc (interactor_stderr sb work_dir (wo_log w)) (fst v) (snd v)))
          (\<lambda>c. jret (f c)) w))" for hu sb and f :: "case_result \<Rightarrow> tally"
  proof (rule moves_same[OF moves_run_both])
    fix v :: "run_result option \<times> run_result option"
    show "moves h0 ?A ?A (\<lambda>w.
        jbind (jres (interactive_result per_case tc (interactor_stderr sb work_dir (wo_log w)) (fst v) (snd v)))
          (\<lambda>c. jret (f c)) w)"
      by (rule moves_read_log[where f = "\<lambda>h. jbind (jres (interactive_result per_case tc (interactor_stderr sb work_dir h) (fst v) (snd v))) (\<lambda>c. jret (f c))"])
         (intro moves_intros)
  qed
  have user: "moves h0 case_resources ?U
      (if b then jbind (acquire a c User_program) (\<lambda>prog. jret (Some prog)) else jret None)" for b a c
    by (intro moves_if moves_acquire_bind moves_mono[OF moves_jret]) (auto simp: case_resources_def)
  have fin: "moves h0 ?U ?A (jbind (jres (r :: case_result res)) (\<lambda>c. jret (f c)))" for r and f :: "case_result \<Rightarrow> tally"
    by (rule moves_mono[where T = ?U]) (auto intro: moves_intros)
  show ?thesis
    unfolding interactive_try_def Let_def case_prod_beta
    by (rule moves_jbind[OF user], rule moves_if, rule fin, rule moves_acquire_bind, simp add: case_resources_def,
        intro moves_if last moves_intros) (auto simp: case_resources_def)
qed

lemma interactive_case_tidy:
  assumes "units_ok (je_sandbox env)"
  shows "balanced (interactive_case env pr ia ls key src ils ikey isrc per_case st tc)"
proof -
  note ok = units_closes_ok[OF assms]
  let ?rs = "[Fd_AB, Fd_BA, Interactor_program, User_program, User_client, Interactor_client, Work_dir]"
  have tried: "moves h0 case_resources {} (jfinally
      (interactive_try env h0 wd pr ia key hc src ikey isrc per_case st tc) (close_all (je_sandbox env) h0 ?rs))" for h0 wd hc
    by (rule moves_finally[OF ok moves_interactive_try]) (auto simp: case_resources_def)
  have users: "moves h0 {Fd_BA, Fd_AB, Work_dir} {}
      (jbind (case ls of Some l \<Rightarrow> create_client env User_client l | None \<Rightarrow> jret ()) (\<lambda>_.
       jbind (create_client env Interactor_client ils) (\<lambda>_. jfinally
         (interactive_try env h0 wd pr ia key hc src ikey isrc per_case st tc) (close_all (je_sandbox env) h0 ?rs))))" for h0 wd hc
  proof -
    have inner: "moves h0 S {} (jbind (create_client env Interactor_client ils) (\<lambda>_. jfinally
         (interactive_try env h0 wd pr ia key hc src ikey isrc per_case st tc) (close_all (je_sandbox env) h0 ?rs)))"
      if "insert Interactor_client S \<subseteq> case_resources" "Interactor_client \<notin> S" for S
    proof (rule moves_client_bind[OF assms that(2)])
      show "moves h0 (insert Interactor_client S) {} (jfinally
         (interactive_try env h0 wd pr ia key hc src ikey isrc per_case st tc) (close_all (je_sandbox env) h0 ?rs))"
        by (rule moves_pre[OF that(1) tried])
    qed
    show ?thesis
    proof (cases ls)
      case None
      then show ?thesis using inner[of "{Fd_BA, Fd_AB, Work_dir}"] by (simp add: case_resources_def)
    next
      case (Some l)
      have "moves h0 {User_client, Fd_BA, Fd_AB, Work_dir} {} (jbind (create_client env Interactor_client ils) (\<lambda>_. jfinally
         (interactive_try env h0 wd pr ia key hc src ikey isrc per_case st tc) (close_all (je_sandbox env) h0 ?rs)))"
        by (rule inner) (auto simp: case_resources_def)
      with Some show ?thesis by (simp add: moves_client_bind[OF assms])
    qed
  qed
  show ?thesis
    unfolding interactive_case_def Let_def
    by (rule balanced_moves, rule moves_same[OF moves_resolve_input], rule moves_same[OF moves_jres],
        rule moves_acquire_bind, simp, rule moves_unit_ask[OF assms], rule moves_unit_ask[OF assms],
        rule moves_unit_bind[OF assms], simp, rule moves_unit_bind[OF assms], simp, rule users) simp
qed

lemma interactive_tidy:
  assumes "units_ok (je_sandbox env)"
  shows "balanced (interactive_judge env p)"
  unfolding interactive_judge_def Let_def payload_field_def
  by (intro balancedI moves_intros moves_balanced[OF interactive_case_tidy[OF assms]])

interpretation interactive: judge_mode interactive_judge
proof
  show "interactive_judge env p w = (Inr r, w') \<Longrightarrow> \<exists>sid. jp_submission_id p = Val sid \<and> well_formed sid r"
    for env p w r w'
    using yieldsD[OF interactive_yields[of p env], of w r w'] by blast
qed (rule interactive_tidy)

section \<open>Properties\<close>

text \<open>The verdict of an interactive case: accepted exactly when both programs returned a result, neither failed and
  the interactor exited with 0; a failure of the user program takes precedence over one of the interactor, and a missing
  result is a system error.\<close>

lemma interactive_verdict:
  "(interactive_status user interactor = ''AC'' \<longleftrightarrow>
      (\<exists>u i. user = Some u \<and> interactor = Some i \<and> rr_status u = St_AC \<and> rr_status i = St_AC
         \<and> ps_exit_code (rr_run i) = 0))
   \<and> (user = None \<or> interactor = None \<longrightarrow> interactive_status user interactor = ''SE'')
   \<and> (\<forall>u i. user = Some u \<longrightarrow> interactor = Some i \<longrightarrow> rr_status u \<noteq> St_AC
        \<longrightarrow> interactive_status user interactor = to_oj_result (rr_status u))"
  by (auto simp: interactive_status_AC) (auto simp: interactive_status_def split: option.splits)

lemma interactive_verdict_witness:
  "interactive_status (Some ok_run) (Some (ok_run\<lparr>rr_run := ok_process\<lparr>ps_exit_code := 1\<rparr>\<rparr>)) = ''WA''
   \<and> interactive_status None (Some ok_run) = ''SE''"
  using interactive_verdict[of None "Some ok_run"]
  by (simp add: interactive_status_def ok_run_def ok_process_def)


definition interactive_demo :: judge_payload where
  "interactive_demo = demo_payload ''INTERACTIVE'' (demo_problem 60 True) []"

lemma interactive_demo_eval:
  "case fst (interactive_judge demo_env interactive_demo demo_world) of
     Inl _ \<Rightarrow> False | Inr r \<Rightarrow> jr_result r = Some ''AC'' \<and> jr_status r = ''COMPLETED''"
  by code_simp


definition no_client_env :: judge_env where
  "no_client_env = demo_env\<lparr>je_sandbox := echo_sandbox\<lparr>sb_unit := (\<lambda>h. case h of
     Called (Create_client _ _) # _ \<Rightarrow> Inl (ExternalError (asc ''pool'')) | _ \<Rightarrow> Inr ())\<rparr>\<rparr>"

text \<open>When creating the user's sandbox client fails, the work directory and both pipe ends of the case stay open: the
  clients are created before the \<^verbatim>\<open>try\<close> block.\<close>

lemma interactive_leaks_on_client_failure:
  assumes "interactive_case no_client_env (demo_problem 60 True) ia (Some ls) key src ils ikey isrc per_case st
             (inline_case 1 0 [] []) demo_world = (v, w')"
  shows "v = Inl (ExternalError (asc ''pool'')) \<and> open_count Work_dir (wo_log w') = 1
     \<and> open_count Fd_AB (wo_log w') = 1 \<and> open_count Fd_BA (wo_log w') = 1"
  using assms
  by (auto simp: interactive_case_def Let_def with_history_def jbind_def resolve_input_ref_def ask_def acquire_def
      create_client_def jres_def jret_def jlog_def case_limits_def or_index_def need_def rbind_def output_limit_def
      no_client_env_def demo_eval str_or_def)

lemma interactive_leaks_on_client_failure_witness:
  "\<exists>v w'. interactive_case no_client_env (demo_problem 60 True) \<lparr>ia_language = Absent, ia_source = Absent,
        ia_time_limit_ms = Absent, ia_memory_limit_kb = Absent\<rparr> (Some []) None [] [] None [] 60
        \<lparr>ty_cases = [], ty_all_ac = True, ty_total_score = 0, ty_compile_time_ms = 0, ty_compile_memory_kb = 0\<rparr>
        (inline_case 1 0 [] []) demo_world = (v, w') \<and> open_count Work_dir (wo_log w') = 1"
proof -
  let ?m = "interactive_case no_client_env (demo_problem 60 True) \<lparr>ia_language = Absent, ia_source = Absent,
        ia_time_limit_ms = Absent, ia_memory_limit_kb = Absent\<rparr> (Some []) None [] [] None [] 60
        \<lparr>ty_cases = [], ty_all_ac = True, ty_total_score = 0, ty_compile_time_ms = 0, ty_compile_memory_kb = 0\<rparr>
        (inline_case 1 0 [] []) demo_world"
  obtain v w' where "?m = (v, w')" by (cases ?m)
  with interactive_leaks_on_client_failure[OF this] show ?thesis by blast
qed

end
