(* ===== verification/Orchestrator.thy ===== *)
theory Orchestrator
  imports InteractiveMode
begin

text \<open>
  \<^verbatim>\<open>app/modules/judge/orchestrator.py\<close>, \<^verbatim>\<open>tasks.py\<close>, \<^verbatim>\<open>modes/__init__.py\<close> and
  \<^verbatim>\<open>celery_setup.py\<close>: the dispatch to a mode, the Celery task around it and the configuration of the
  queue. The two readings of the monotonic clock are arguments. Validation refuses a null \<open>submission_id\<close>;
  where the code would carry it further, the model uses the placeholder \<^verbatim>\<open>?\<close>.
\<close>

section \<open>modes/__init__.py and orchestrator.py\<close>

fun mode_registry :: "string option \<Rightarrow> (judge_env \<Rightarrow> judge_payload \<Rightarrow> judge_result jm) option" where
  "mode_registry m =
     (if m = Some ''STANDARD'' then Some standard_judge
      else if m = Some ''SPECIAL_JUDGE'' then Some spj_judge
      else if m = Some ''INTERACTIVE'' then Some interactive_judge
      else None)"

definition submission_id_of :: "judge_payload \<Rightarrow> string" where
  "submission_id_of p = (case jp_submission_id p of Val s \<Rightarrow> s | _ \<Rightarrow> ''?'')"

definition wall_ms :: "rat \<Rightarrow> rat \<Rightarrow> int" where
  "wall_ms t_start t_end = py_trunc (fmul (fsub t_end t_start) 1000)"

definition build_failed_result :: "judge_payload \<Rightarrow> exn \<Rightarrow> int \<Rightarrow> judge_result" where
  "build_failed_result p exc wall = \<lparr>
     jr_submission_id = submission_id_of p, jr_status = ''FAILED'', jr_result = None, jr_score = 0,
     jr_time_ms = 0, jr_memory_kb = 0, jr_compile_time_ms = 0, jr_compile_memory_kb = 0,
     jr_compile_output = None, jr_compile_error = False, jr_cases = [], jr_error = Some (exn_str exc),
     jr_wall_time_ms = wall\<rparr>"

definition run_mode :: "judge_env \<Rightarrow> judge_payload \<Rightarrow> judge_result jm" where
  "run_mode env p =
     (case mode_registry (dget_default ''STANDARD'' (jp_judge_mode p)) of
        Some run \<Rightarrow> run env p
      | None \<Rightarrow> standard_judge env p)"

definition judge :: "judge_env \<Rightarrow> rat \<Rightarrow> rat \<Rightarrow> judge_payload \<Rightarrow> world \<Rightarrow> judge_result \<times> world" where
  "judge env t_start t_end p w =
     (case (case run_mode env p w of
              (Inr r, w') \<Rightarrow> (r, w')
            | (Inl exc, w') \<Rightarrow> (build_failed_result p exc (wall_ms t_start t_end), w')) of
        (r, w') \<Rightarrow> (r\<lparr>jr_wall_time_ms := wall_ms t_start t_end\<rparr>, w'))"

section \<open>tasks.py\<close>

definition task_failed_result :: "string \<Rightarrow> ptext \<Rightarrow> judge_result" where
  "task_failed_result sid err =
     (judge_result_default (if sid = [] then ''?'' else sid))\<lparr>jr_status := ''FAILED'', jr_error := Some err\<rparr>"

text \<open>\<^verbatim>\<open>JudgeResultOut.model_validate\<close>: every field of the result has its declared type by construction, except
  the \<open>stderr_preview\<close> of a case, which may be \<^verbatim>\<open>None\<close>.\<close>

definition result_valid :: "judge_result \<Rightarrow> bool" where
  "result_valid r = list_all (\<lambda>c. cr_stderr_preview c \<noteq> None) (jr_cases r)"

definition execute_judge ::
  "judge_env \<Rightarrow> (judge_payload \<Rightarrow> ptext) \<Rightarrow> (judge_result \<Rightarrow> ptext) \<Rightarrow> rat \<Rightarrow> rat \<Rightarrow> judge_payload \<Rightarrow> judge_result jm" where
  "execute_judge env invalid_payload invalid_result t_start t_end p w =
     (let submission_id = (case dget (jp_submission_id p) of Some s \<Rightarrow> if s \<noteq> [] then s else ''?'' | None \<Rightarrow> ''?'') in
      if \<not> payload_valid p
      then (Inr (task_failed_result submission_id (asc ''invalid payload: '' @ invalid_payload p)), w)
      else (case judge env t_start t_end p w of
              (r, w') \<Rightarrow> if result_valid r then (Inr r, w') else (Inl (ValueError (invalid_result r)), w')))"

section \<open>celery_setup.py\<close>

record celery_conf =
  ce_task_default_queue :: string
  ce_task_default_routing_key :: string
  ce_task_queues :: "(string \<times> string) list"
  ce_task_soft_time_limit :: int
  ce_task_time_limit :: int
  ce_task_acks_late :: bool
  ce_task_reject_on_worker_lost :: bool
  ce_worker_prefetch_multiplier :: int
  ce_polling_interval :: "rat option"
  ce_task_ignore_result :: bool

text \<open>The module-level flag \<^verbatim>\<open>_configured\<close> is the first argument and result.\<close>

definition configure_celery_app ::
  "judge_settings \<Rightarrow> bool \<times> 'z celery_conf_scheme \<Rightarrow> bool \<times> 'z celery_conf_scheme" where
  "configure_celery_app cfg st =
     (case st of (configured, conf) \<Rightarrow>
        if configured then st
        else (True, conf\<lparr>
           ce_task_default_queue := js_task_default_queue cfg,
           ce_task_default_routing_key := js_task_default_routing_key cfg,
           ce_task_queues := [(js_task_default_queue cfg, js_task_default_queue cfg @ ''.#'')],
           ce_task_soft_time_limit := js_task_soft_time_limit cfg,
           ce_task_time_limit := js_task_time_limit cfg,
           ce_task_acks_late := js_task_acks_late cfg,
           ce_task_reject_on_worker_lost := js_task_reject_on_worker_lost cfg,
           ce_worker_prefetch_multiplier := js_worker_prefetch_multiplier cfg,
           ce_polling_interval := Some (fl (1 / 10)),
           ce_task_ignore_result := False\<rparr>))"

section \<open>Facts\<close>

lemma well_formed_wall [simp]: "well_formed sid (r\<lparr>jr_wall_time_ms := t\<rparr>) = well_formed sid r"
  by (simp add: well_formed_def completed_result_def failed_result_def)

lemma build_failed_well_formed: "well_formed (submission_id_of p) (build_failed_result p exc t)"
  by (simp add: well_formed_def failed_result_def build_failed_result_def)

text \<open>Whatever mode is chosen, it satisfies the contract.\<close>

lemma run_mode_cases:
  obtains run where "run_mode env p = run env p" "judge_mode run"
  using standard.judge_mode_axioms spj.judge_mode_axioms interactive.judge_mode_axioms
  by (auto simp: run_mode_def split: if_splits)

lemma judge_well_formed: "well_formed (submission_id_of p) (fst (judge env t0 t1 p w))"
proof -
  obtain run where run: "run_mode env p = run env p" "judge_mode run" by (rule run_mode_cases)
  have "well_formed (submission_id_of p)
     (fst (case run env p w of (Inr r, w') \<Rightarrow> (r, w') | (Inl x, w') \<Rightarrow> (build_failed_result p x (wall_ms t0 t1), w')))"
    by (rule judge_mode.caught_shaped[OF run(2) build_failed_well_formed]) (simp add: submission_id_of_def)
  then show ?thesis by (auto simp: judge_def run(1) split: prod.splits sum.splits)
qed

lemma judge_tidy:
  assumes "units_ok (je_sandbox env)"
  shows "open_count q (wo_log (snd (judge env t0 t1 p w))) = open_count q (wo_log w)"
proof -
  obtain run where run: "run_mode env p = run env p" "judge_mode run" by (rule run_mode_cases)
  show ?thesis
    using judge_mode.caught_tidy[OF run(2) assms, where failed = "\<lambda>x. build_failed_result p x (wall_ms t0 t1)"
        and q = q and p = p and w = w]
    by (auto simp: judge_def run(1) split: prod.splits sum.splits)
qed

section \<open>Properties\<close>

text \<open>C1: Judging always returns a result, and one of two shapes, whatever the request, the data, the storage and the sandbox
  do: COMPLETED with a verdict of the protocol, no error, case results of the protocol and the time and memory of the
  cases; or FAILED with an error message, no verdict, score 0 and no cases. It carries the submission's id.\<close>

theorem judge_always_well_formed:
  "\<exists>r w'. judge env t_start t_end p w = (r, w') \<and> well_formed (submission_id_of p) r
     \<and> jr_wall_time_ms r = wall_ms t_start t_end"
proof (cases "judge env t_start t_end p w")
  case (Pair r w')
  then show ?thesis
    using judge_well_formed[of p env t_start t_end w] by (auto simp: judge_def split: prod.splits)
qed

text \<open>An exception of the mode becomes a FAILED result whose error is the text of the exception, and does not escape.\<close>

lemma judge_reports_exception:
  assumes "run_mode env p w = (Inl exc, w')"
  shows "fst (judge env t_start t_end p w) = build_failed_result p exc (wall_ms t_start t_end)
     \<and> snd (judge env t_start t_end p w) = w'"
  using assms by (simp add: judge_def build_failed_result_def)



text \<open>Configuring the queue twice is configuring it once, and the single queue is the default one, so a task without
  explicit route reaches a queue the worker consumes.\<close>

lemma configure_celery_idempotent:
  "configure_celery_app cfg' (configure_celery_app cfg st) = configure_celery_app cfg st
   \<and> (\<not> fst st \<longrightarrow> map fst (ce_task_queues (snd (configure_celery_app cfg st)))
        = [ce_task_default_queue (snd (configure_celery_app cfg st))])"
  by (auto simp: configure_celery_app_def split: prod.splits)

text \<open>A request without a language: the standard mode raises a \<^verbatim>\<open>KeyError\<close>.\<close>

definition no_language_payload :: judge_payload where
  "no_language_payload = (demo_payload ''STANDARD'' (demo_problem 30 True) [])\<lparr>jp_language := Absent\<rparr>"

lemma no_language_raises: "run_mode env no_language_payload w = (Inl (KeyError ''language''), w)"
  by (simp add: run_mode_def no_language_payload_def demo_payload_def standard_judge_def payload_field_def
      jbind_def jres_def rbind_def need_def)

lemma judge_reports_exception_witness:
  "jr_error (fst (judge demo_env 0 1 no_language_payload demo_world)) = Some (asc (quoted ''language''))"
  using judge_reports_exception[OF no_language_raises[of demo_env demo_world], of 0 1]
  by (simp add: build_failed_result_def)



definition blank_conf :: celery_conf where
  "blank_conf = \<lparr>ce_task_default_queue = [], ce_task_default_routing_key = [], ce_task_queues = [],
     ce_task_soft_time_limit = 0, ce_task_time_limit = 0, ce_task_acks_late = False,
     ce_task_reject_on_worker_lost = False, ce_worker_prefetch_multiplier = 4, ce_polling_interval = None,
     ce_task_ignore_result = True\<rparr>"

lemma configure_celery_idempotent_witness:
  "map fst (ce_task_queues (snd (configure_celery_app judge_settings_default (False, blank_conf)))) = [''judge'']"
  using configure_celery_idempotent[of judge_settings_default judge_settings_default "(False, blank_conf)"]
  by (simp add: configure_celery_app_def judge_settings_default_def)

end
