(* ===== verification/CacheSafety.thy ===== *)
theory CacheSafety
  imports FileCache
begin

text \<open>
  Runs of the test-data cache and what they preserve. The laws of the file store are a
  locale, and so is an invariant of the cache: a predicate that survives an unlink and the two
  writes of the code survives every public operation, in every order. The first instance is
  content integrity: a data file under a SHA256 key has the digest of its name.
\<close>

section \<open>The file store\<close>

locale file_store =
  fixes rd :: "'s \<Rightarrow> 'p \<Rightarrow> 'c option"
    and wr :: "'p \<Rightarrow> 'c \<Rightarrow> 's \<Rightarrow> 's"
    and rm :: "'p \<Rightarrow> 's \<Rightarrow> 's"
  assumes rd_wr: "rd (wr p c s) q = (if q = p then Some c else rd s q)"
    and rd_rm: "rd (rm p s) q = (if q = p then None else rd s q)"
begin

lemma all_wr:
  assumes "\<And>p c. rd s p = Some c \<Longrightarrow> P p c" "P q d" "rd (wr q d s) p = Some c"
  shows "P p c"
  using assms by (auto simp: rd_wr split: if_splits)

lemma all_rm:
  assumes "\<And>p c. rd s p = Some c \<Longrightarrow> P p c" "rd (rm q s) p = Some c"
  shows "P p c"
  using assms by (auto simp: rd_rm split: if_splits)

lemma wr_overwrites: "rd (wr p d (wr p c s)) = rd (wr p d s)"
  by (auto simp: rd_wr fun_eq_iff)

lemma rm_idem: "rd (rm p (rm p s)) = rd (rm p s)"
  by (auto simp: rd_rm fun_eq_iff)

end

interpretation fs: file_store fs_read fs_write fs_unlink
  by unfold_locales simp_all

section \<open>Paths of keys\<close>

lemma path_parts_plain: "CHR ''/'' \<notin> set s \<Longrightarrow> s \<noteq> [] \<Longrightarrow> s \<noteq> ''.'' \<Longrightarrow> path_parts s = [s]"
  by (simp add: path_parts_def split_on_no_sep)

lemma path_parts_meta:
  "path_parts (s @ meta_suffix) =
     filter (\<lambda>w. w \<noteq> [] \<and> w \<noteq> ''.'') (butlast (split_on (CHR ''/'') s))
       @ [last (split_on (CHR ''/'') s) @ meta_suffix]"
proof -
  have "CHR ''/'' \<notin> set meta_suffix" by (simp add: meta_suffix_def)
  then show ?thesis
    by (simp add: path_parts_def split_on_append_no_sep, simp add: meta_suffix_def)
qed

lemma last_meta_path: "last (meta_path key) = last (split_on (CHR ''/'') key) @ meta_suffix"
  by (simp add: meta_path_def path_parts_meta)

lemma meta_path_not_Nil [simp]: "meta_path key \<noteq> []"
  by (simp add: meta_path_def path_parts_meta)

lemma sha_key_plain:
  assumes "sha_shape s"
  shows "CHR ''/'' \<notin> set (''sha256:'' @ s)"
  using assms by (auto simp: sha_shape_def hex_digits_def)

lemma data_path_sha: "sha_shape s \<Longrightarrow> data_path (''sha256:'' @ s) = [''sh'', ''sha256:'' @ s]"
  using sha_key_plain[of s] by (simp add: data_path_def path_parts_plain)

lemmas data_path_sha_simp = data_path_sha[simplified]

lemma meta_path_not_sha_data:
  assumes "sha_shape s"
  shows "meta_path key \<noteq> data_path (''sha256:'' @ s)"
proof
  assume "meta_path key = data_path (''sha256:'' @ s)"
  then have "last (split_on (CHR ''/'') key) @ meta_suffix = ''sha256:'' @ s"
    using last_meta_path[of key] data_path_sha[OF assms] by simp
  then have "set meta_suffix \<subseteq> set (''sha256:'' @ s)"
    by (metis Un_upper2 set_append)
  with assms show False by (auto simp: sha_shape_def hex_digits_def meta_suffix_def)
qed

lemma name_path_not_sha_data:
  assumes "sha_shape s"
  shows "data_path (''name:'' @ n) \<noteq> data_path (''sha256:'' @ s)"
  using assms by (simp add: data_path_sha_simp) (simp add: data_path_def path_parts_def)

lemma sha_data_path_inj:
  assumes "sha_shape s" "sha_shape t" "data_path (''sha256:'' @ s) = data_path (''sha256:'' @ t)"
  shows "s = t"
  using assms by (simp add: data_path_sha_simp)

section \<open>Runs and invariants\<close>

text \<open>
  The caches a sequence of public operations produces from an empty directory. Each operation
  holds the lock of its key for its whole duration, so the operations of concurrent threads
  are ordered here; \<open>ok\<close> says which requests occur.
\<close>

inductive cache_run :: "(string \<Rightarrow> string \<Rightarrow> bool) \<Rightarrow> cfs \<Rightarrow> bool" for ok where
  start: "cache_run ok []"
| resolve: "cache_run ok fs \<Longrightarrow> ok object_name sha256
     \<Longrightarrow> resolve_or_download_locked cfg held now storage object_name sha256
           (cache_key sha256 object_name) fs = (r, fs') \<Longrightarrow> cache_run ok fs'"
| invalidate: "cache_run ok fs \<Longrightarrow> cache_run ok (invalidate cfg object_name sha256 fs)"
| purge: "cache_run ok fs \<Longrightarrow> cache_run ok (purge_expired cfg held now fs)"

lemma cache_run_mono: "cache_run ok fs \<Longrightarrow> (\<And>n s. ok n s \<Longrightarrow> ok' n s) \<Longrightarrow> cache_run ok' fs"
  by (induction rule: cache_run.induct) (auto intro: cache_run.intros)

locale cache_invariant =
  fixes Inv :: "cfs \<Rightarrow> bool"
    and ok :: "string \<Rightarrow> string \<Rightarrow> bool"
    and good :: "meta \<Rightarrow> bool"
  assumes inv_empty: "Inv []"
    and inv_unlink: "Inv fs \<Longrightarrow> Inv (fs_unlink p fs)"
    and inv_meta: "ok n s \<Longrightarrow> Inv fs \<Longrightarrow> good m
          \<Longrightarrow> Inv (fs_write (meta_path (cache_key s n)) (MetaJson m) fs)"
    and inv_data: "ok n s \<Longrightarrow> Inv fs \<Longrightarrow> s = [] \<or> sha256_hexdigest b = s
          \<Longrightarrow> Inv (fs_write (data_path (cache_key s n)) (Raw b) fs)"
    and inv_good: "Inv fs \<Longrightarrow> read_meta fs p = Some m \<Longrightarrow> good m"
    and good_size: "0 \<le> mt_size_bytes m \<Longrightarrow> good m"
    and good_touch: "good m \<Longrightarrow> good (m\<lparr>mt_last_accessed_at := t\<rparr>)"
    and good_validate: "good m \<Longrightarrow> good (m\<lparr>mt_last_validated_at := t\<rparr>)"
begin

lemma inv_remove: "Inv fs \<Longrightarrow> Inv (remove_entry key fs)"
  by (simp add: remove_entry_def inv_unlink)

lemma inv_touch: "ok n s \<Longrightarrow> Inv fs \<Longrightarrow> Inv (touch_meta now (meta_path (cache_key s n)) fs)"
  by (auto simp: touch_meta_def intro: inv_meta good_touch inv_good split: option.splits)

lemma inv_validate:
  "ok n s \<Longrightarrow> Inv fs \<Longrightarrow> Inv (update_meta (meta_path (cache_key s n))
      (\<lambda>m. m\<lparr>mt_last_validated_at := t, mt_last_accessed_at := t'\<rparr>) fs)"
  by (auto simp: update_meta_def intro: inv_meta good_touch good_validate inv_good split: option.splits)

lemma inv_evict: "Inv fs \<Longrightarrow> Inv (evict_lru held now need_bytes fs)"
proof -
  have "Inv fs \<Longrightarrow> Inv (evict_loop held n freed es fs)" for n freed es
    by (induction held n freed es fs rule: evict_loop.induct) (simp_all add: inv_remove)
  then show "Inv fs \<Longrightarrow> ?thesis" by (simp add: evict_lru_def)
qed

lemma inv_store:
  "ok n s \<Longrightarrow> Inv fs \<Longrightarrow> s = [] \<or> sha256_hexdigest b = s
     \<Longrightarrow> Inv (store_entry cfg held now (cache_key s n) b sha etag n fs)"
  by (simp add: store_entry_def evict_lru_if_needed_def Let_def inv_evict inv_meta inv_data good_size)

lemma inv_fetch:
  "ok n s \<Longrightarrow> Inv fs \<Longrightarrow> fetch_and_store cfg held now storage n s (cache_key s n) etag fs = (r, fs')
     \<Longrightarrow> Inv fs'"
  by (auto simp: fetch_and_store_def intro: inv_store split: sum.splits if_splits)

lemma inv_resolve:
  "ok n s \<Longrightarrow> Inv fs
     \<Longrightarrow> resolve_or_download_locked cfg held now storage n s (cache_key s n) fs = (r, fs') \<Longrightarrow> Inv fs'"
  by (auto simp: resolve_or_download_locked_def Let_def split: if_splits option.splits
        intro: inv_touch inv_validate inv_remove inv_fetch)

lemma inv_invalidate: "Inv fs \<Longrightarrow> Inv (invalidate cfg n s fs)"
  by (simp add: invalidate_def inv_remove)

lemma inv_purge: "Inv fs \<Longrightarrow> Inv (purge_expired cfg held now fs)"
proof -
  have "Inv fs \<Longrightarrow> Inv (foldl (purge_one cfg held now) fs ps)" for ps
    by (induction ps arbitrary: fs) (simp_all add: purge_one_def inv_remove split: option.splits)
  then show "Inv fs \<Longrightarrow> ?thesis" by (simp add: purge_expired_def)
qed

lemma run_inv: "cache_run ok fs \<Longrightarrow> Inv fs"
  by (induction rule: cache_run.induct) (auto intro: inv_empty inv_resolve inv_invalidate inv_purge)

end

section \<open>The integrity invariant\<close>

text \<open>A data file under a SHA256 key holds data with that digest.\<close>

definition sha_entry :: "cpath \<Rightarrow> content \<Rightarrow> bool" where
  "sha_entry p c =
     (\<forall>s. sha_shape s \<longrightarrow> p = data_path (''sha256:'' @ s)
        \<longrightarrow> (\<exists>b. c = Raw b \<and> sha256_hexdigest b = s))"

definition cache_intact :: "cfs \<Rightarrow> bool" where
  "cache_intact fs = (\<forall>p c. fs_read fs p = Some c \<longrightarrow> sha_entry p c)"

lemma sha_entry_meta: "sha_entry (meta_path key) c"
  using meta_path_not_sha_data by (auto simp: sha_entry_def)

lemma sha_entry_name: "sha_entry (data_path (''name:'' @ n)) c"
  using name_path_not_sha_data by (fastforce simp: sha_entry_def)

lemma sha_entry_digest: "sha_entry (data_path (''sha256:'' @ sha256_hexdigest b)) (Raw b)"
  using sha_data_path_inj sha256_hexdigest_shape by (fastforce simp: sha_entry_def)

lemma sha_entry_data:
  "s = [] \<or> sha256_hexdigest b = s \<Longrightarrow> sha_entry (data_path (cache_key s n)) (Raw b)"
  using sha_entry_name sha_entry_digest by (auto simp: cache_key_def)

lemma intact_write: "cache_intact fs \<Longrightarrow> sha_entry p c \<Longrightarrow> cache_intact (fs_write p c fs)"
  unfolding cache_intact_def using fs.all_wr[of fs sha_entry] by blast

lemma intact_unlink: "cache_intact fs \<Longrightarrow> cache_intact (fs_unlink p fs)"
  unfolding cache_intact_def using fs.all_rm[of fs sha_entry] by blast

lemma intact_empty: "cache_intact []"
  by (simp add: cache_intact_def fs_read_def)

interpretation intact: cache_invariant cache_intact "\<lambda>_ _. True" "\<lambda>_. True"
  by unfold_locales
     (simp_all add: intact_write intact_unlink sha_entry_meta sha_entry_data intact_empty)

section \<open>Well-formed directories\<close>

text \<open>Paths are unique and recorded sizes are not negative.\<close>

definition cache_wf :: "cfs \<Rightarrow> bool" where
  "cache_wf fs = (distinct (map fst fs) \<and> (\<forall>p m. read_meta fs p = Some m \<longrightarrow> 0 \<le> mt_size_bytes m))"

lemma read_meta_write:
  "read_meta (fs_write p c fs) q =
     (if q = p then (case c of MetaJson m \<Rightarrow> Some m | Raw _ \<Rightarrow> None) else read_meta fs q)"
  by (simp add: read_meta_def split: content.splits)

lemma read_meta_unlink: "read_meta (fs_unlink p fs) q = (if q = p then None else read_meta fs q)"
  by (simp add: read_meta_def)

lemma distinct_paths:
  "distinct (map fst fs) \<Longrightarrow> distinct (map fst (fs_write p c fs))"
  "distinct (map fst fs) \<Longrightarrow> distinct (map fst (fs_unlink p fs))"
  by (simp_all add: fs_write_def fs_unlink_def distinct_update distinct_delete)

interpretation wf: cache_invariant cache_wf "\<lambda>_ _. True" "\<lambda>m. 0 \<le> mt_size_bytes m"
  by unfold_locales
     (auto simp: cache_wf_def distinct_paths read_meta_write read_meta_unlink, simp add: read_meta_def fs_read_def)

end
