(* ===== verification/CacheEviction.thy ===== *)
theory CacheEviction
  imports CacheSafety
begin

text \<open>
  LRU eviction of the test-data cache: which entries it removes, that it removes enough, that
  it never removes a recently used entry, and so that a download returns a file that is still
  there.
\<close>

section \<open>The entries removed\<close>

text \<open>The entries the eviction loop removes, in order.\<close>

fun victims :: "string set \<Rightarrow> int \<Rightarrow> int \<Rightarrow> cache_stat list \<Rightarrow> cache_stat list" where
  "victims held need_bytes freed [] = []"
| "victims held need_bytes freed (e # es) =
     (if need_bytes \<le> freed then []
      else if cs_key e \<in> held then victims held need_bytes freed es
      else e # victims held need_bytes (freed + cs_size e) es)"

lemma evict_loop_victims:
  "evict_loop held need_bytes freed es fs =
     foldl (\<lambda>fs e. remove_entry (cs_key e) fs) fs (victims held need_bytes freed es)"
  by (induction held need_bytes freed es fs rule: evict_loop.induct) auto

lemma victims_prefix:
  "\<exists>k. victims held need_bytes freed es = take k (filter (\<lambda>e. cs_key e \<notin> held) es)"
proof (induction held need_bytes freed es rule: victims.induct)
  case (2 held need_bytes freed e es)
  show ?case
  proof (cases "need_bytes \<le> freed")
    case False
    with 2 show ?thesis
      by (cases "cs_key e \<in> held") (auto intro: exI[of _ "Suc k" for k])
  qed (auto intro: exI[of _ 0])
qed simp

lemma set_victims: "set (victims held need_bytes freed es) \<subseteq> {e \<in> set es. cs_key e \<notin> held}"
proof -
  obtain k where "victims held need_bytes freed es = take k (filter (\<lambda>e. cs_key e \<notin> held) es)"
    using victims_prefix by blast
  then show ?thesis using set_take_subset by fastforce
qed

lemma victims_enough:
  "need_bytes \<le> freed + sum_list (map cs_size (victims held need_bytes freed es))
     \<or> victims held need_bytes freed es = filter (\<lambda>e. cs_key e \<notin> held) es"
  by (induction held need_bytes freed es rule: victims.induct) auto

lemma victims_minimal:
  assumes "victims held need_bytes freed es = vs @ [v]"
  shows "freed + sum_list (map cs_size vs) < need_bytes"
  using assms
proof (induction held need_bytes freed es arbitrary: vs rule: victims.induct)
  case (2 held need_bytes freed e es)
  then show ?case
    by (cases vs) (auto split: if_splits)
qed simp

lemma fs_read_evicted:
  "fs_read (foldl (\<lambda>fs e. remove_entry (cs_key e) fs) fs vs) q =
     (if \<exists>v\<in>set vs. q = data_path (cs_key v) \<or> q = meta_path (cs_key v) then None else fs_read fs q)"
  by (induction vs arbitrary: fs) (auto simp: fs_read_remove_entry)

lemma paths_evicted:
  "map fst (foldl (\<lambda>fs e. remove_entry (cs_key e) fs) fs vs) =
     filter (\<lambda>q. \<not> (\<exists>v\<in>set vs. q = data_path (cs_key v) \<or> q = meta_path (cs_key v))) (map fst fs)"
proof (induction vs arbitrary: fs)
  case (Cons v vs)
  have "map fst (remove_entry (cs_key v) fs) =
          filter (\<lambda>q. q \<noteq> data_path (cs_key v) \<and> q \<noteq> meta_path (cs_key v)) (map fst fs)"
    by (simp add: remove_entry_def fs_unlink_def AList.delete_eq filter_map o_def) 
       (auto intro!: arg_cong[where f = "map fst"] filter_cong)
  then show ?case
    by (simp only: foldl_Cons Cons.IH) (auto intro!: filter_cong)
qed simp

section \<open>Flat caches\<close>

text \<open>
  A cache is flat when each meta file is the meta file of the key its name stands for. That
  holds as long as no key contains a slash.
\<close>

definition flat :: "cfs \<Rightarrow> bool" where
  "flat fs = (\<forall>p k. fs_read fs p \<noteq> None \<longrightarrow> key_from_meta_path p = Some k \<longrightarrow> p = meta_path k)"

definition plain_key :: "string \<Rightarrow> bool" where
  "plain_key key = (CHR ''/'' \<notin> set key \<and> (\<exists>r. key = ''sha256:'' @ r \<or> key = ''name:'' @ r))"

lemma endswith_conv: "endswith s p \<longleftrightarrow> (\<exists>r. s = r @ p)"
proof
  assume "endswith s p"
  then have "s = take (length s - length p) s @ p"
    by (metis append_take_drop_id endswith_def)
  then show "\<exists>r. s = r @ p" by blast
qed auto

lemma key_from_meta_path_Some:
  "key_from_meta_path p = Some k \<longleftrightarrow> p \<noteq> [] \<and> last p = k @ meta_suffix"
  by (cases p) (auto simp: key_from_meta_path_def Let_def endswith_conv)

lemma path_parts_take2:
  assumes "plain_key key"
  shows "path_parts (take 2 key) = [take 2 key]" "path_parts key = [key]"
  using assms by (auto simp: plain_key_def intro!: path_parts_plain dest: in_set_takeD)

lemma plain_data_path: "plain_key key \<Longrightarrow> data_path key = [take 2 key, key]"
  by (simp add: data_path_def path_parts_take2)

lemma plain_meta_path:
  assumes "plain_key key"
  shows "meta_path key = [take 2 key, key @ meta_suffix]"
proof -
  have "CHR ''/'' \<notin> set (key @ meta_suffix)" "key @ meta_suffix \<noteq> []" "key @ meta_suffix \<noteq> ''.''"
    using assms by (auto simp: plain_key_def meta_suffix_def)
  then show ?thesis
    by (simp add: meta_path_def path_parts_take2[OF assms] path_parts_plain)
qed

lemma key_from_meta_path_meta: "plain_key key \<Longrightarrow> key_from_meta_path (meta_path key) = Some key"
  by (simp add: key_from_meta_path_Some plain_meta_path)

lemma prefix_of_append:
  assumes "p @ [c] @ r = k @ t" "c \<notin> set t"
  shows "\<exists>r'. k = p @ [c] @ r'"
proof -
  have "\<exists>r'. us = c # r'" if "c # r = us @ t" for us
    using that assms(2) by (cases us) auto
  then show ?thesis using assms by (auto simp: append_eq_append_conv2)
qed

lemma plain_key_prefix:
  assumes "plain_key (k @ meta_suffix)"
  shows "plain_key k"
proof -
  obtain r where r: "k @ meta_suffix = ''sha256'' @ [CHR '':''] @ r
                     \<or> k @ meta_suffix = ''name'' @ [CHR '':''] @ r"
    using assms by (auto simp: plain_key_def)
  have colon: "CHR '':'' \<notin> set meta_suffix" by (simp add: meta_suffix_def)
  have "(\<exists>r'. k = ''sha256'' @ [CHR '':''] @ r') \<or> (\<exists>r'. k = ''name'' @ [CHR '':''] @ r')"
    using r prefix_of_append[OF _ colon, of "''sha256''" r k] prefix_of_append[OF _ colon, of "''name''" r k]
    by metis
  then show ?thesis using assms by (auto simp: plain_key_def)
qed

lemma flat_write:
  assumes "flat fs" "\<And>k. key_from_meta_path p = Some k \<Longrightarrow> p = meta_path k"
  shows "flat (fs_write p c fs)"
  using assms by (auto simp: flat_def)

lemma flat_unlink: "flat fs \<Longrightarrow> flat (fs_unlink p fs)"
  by (auto simp: flat_def)

lemma flat_write_meta: "plain_key key \<Longrightarrow> flat fs \<Longrightarrow> flat (fs_write (meta_path key) c fs)"
  by (rule flat_write) (simp_all add: key_from_meta_path_meta)

lemma flat_write_data:
  assumes "plain_key key" "flat fs"
  shows "flat (fs_write (data_path key) c fs)"
proof (rule flat_write[OF assms(2)])
  fix k assume "key_from_meta_path (data_path key) = Some k"
  then have key: "key = k @ meta_suffix"
    using assms by (simp add: key_from_meta_path_Some plain_data_path)
  then have k: "plain_key k" using assms plain_key_prefix by blast
  then have "2 \<le> length k" by (auto simp: plain_key_def)
  then show "data_path key = meta_path k"
    using k assms by (simp add: plain_data_path plain_meta_path) (simp add: key)
qed

definition plain_request :: "string \<Rightarrow> string \<Rightarrow> bool" where
  "plain_request object_name sha256 = (CHR ''/'' \<notin> set object_name \<and> (sha256 = [] \<or> sha_shape sha256))"

lemma plain_request_key: "plain_request n s \<Longrightarrow> plain_key (cache_key s n)"
  using sha_key_plain by (auto simp: plain_request_def plain_key_def cache_key_def)

interpretation flat: cache_invariant flat plain_request "\<lambda>_. True"
  by unfold_locales
     (simp_all add: flat_unlink flat_write_meta flat_write_data plain_request_key, simp add: flat_def fs_read_def)

section \<open>A stored entry survives the eviction it triggers\<close>

lemma candidate_stale:
  assumes "e \<in> set (evict_candidates now fs)"
  obtains p m where "read_meta fs p = Some m" "key_from_meta_path p = Some (cs_key e)"
    and "lru_grace_period < fsub now (mt_last_accessed_at m)" "cs_size e = mt_size_bytes m"
proof -
  from assms obtain p where "e \<in> set (stat_of fs p)" "lru_grace_period < fsub now (cs_last_accessed_at e)"
    by (auto simp: evict_candidates_def collect_stats_def)
  then show ?thesis
    using that[of p] by (cases "read_meta fs p"; cases "key_from_meta_path p")
      (auto simp: stat_of_def split: if_splits)
qed

lemma data_path_flat_key:
  assumes "plain_key key" "data_path k = data_path key" "CHR ''/'' \<notin> set k"
  shows "k = key"
proof -
  have "last (data_path k) = key" "length (data_path k) = 2"
    using assms by (simp_all add: plain_data_path)
  moreover have "path_parts k = (if k = [] \<or> k = ''.'' then [] else [k])"
    using assms(3) by (simp add: path_parts_def split_on_no_sep)
  ultimately show ?thesis
    by (auto simp: data_path_def path_parts_def split: if_splits)
qed

lemma flat_key_plain:
  assumes "flat fs" "read_meta fs p = Some m" "key_from_meta_path p = Some k"
  shows "p = meta_path k" "CHR ''/'' \<notin> set k"
proof -
  show p: "p = meta_path k"
    using assms by (auto simp: flat_def read_meta_def split: option.splits)
  then have "last (split_on (CHR ''/'') k) = k"
    using assms(3) by (simp add: key_from_meta_path_Some last_meta_path)
  then show "CHR ''/'' \<notin> set k"
    by (metis last_in_set split_on_not_Nil split_on_parts)
qed

lemma fsub_self [simp]: "fsub x x = 0"
  by (simp add: fsub_def)

lemma store_keeps_data:
  assumes "plain_key key" "flat fs"
  shows "fs_read (store_entry cfg held now key content sha256 etag object_name fs) (data_path key)
           = Some (Raw content)"
proof -
  let ?m = "\<lparr>mt_etag = etag, mt_sha256 = sha256, mt_size_bytes = int (length content),
               mt_object_name = object_name, mt_cached_at = now, mt_last_accessed_at = now,
               mt_last_validated_at = now\<rparr>"
  define fs1 where "fs1 = fs_write (meta_path key) (MetaJson ?m) (fs_write (data_path key) (Raw content) fs)"
  have "data_path key \<noteq> meta_path key"
    using assms by (simp add: plain_data_path plain_meta_path meta_suffix_def)
  then have data: "fs_read fs1 (data_path key) = Some (Raw content)"
    and meta: "read_meta fs1 (meta_path key) = Some ?m"
    by (simp_all add: fs1_def read_meta_def)
  have flat: "flat fs1" using assms by (simp add: fs1_def flat_write_meta flat_write_data)
  have spared: "data_path key \<noteq> data_path (cs_key e) \<and> data_path key \<noteq> meta_path (cs_key e)"
    if "e \<in> set (evict_candidates now fs1)" for e
  proof -
    from that obtain p m where m: "read_meta fs1 p = Some m" "key_from_meta_path p = Some (cs_key e)"
      and stale: "lru_grace_period < fsub now (mt_last_accessed_at m)"
      by (rule candidate_stale)
    note p = flat_key_plain[OF flat m]
    have "cs_key e \<noteq> key"
      using m meta stale by (auto simp: p(1) lru_grace_period_def)
    then have "data_path key \<noteq> data_path (cs_key e)"
      using data_path_flat_key[OF assms(1) _ p(2)] by metis
    moreover have "data_path key \<noteq> meta_path (cs_key e)"
      using m(1) data by (auto simp: p(1) read_meta_def)
    ultimately show ?thesis by simp
  qed
  have "fs_read (evict_lru held now n fs1) (data_path key) = Some (Raw content)" for n
    using spared set_victims[of held n 0 "evict_candidates now fs1"] data
    by (auto simp: evict_lru_def evict_loop_victims fs_read_evicted)
  then show ?thesis
    using data by (simp add: store_entry_def evict_lru_if_needed_def Let_def flip: fs1_def)
qed

section \<open>Accounting\<close>

definition recorded_size :: "cfs \<Rightarrow> cpath \<Rightarrow> int" where
  "recorded_size fs p = (case read_meta fs p of None \<Rightarrow> 0 | Some m \<Rightarrow> mt_size_bytes m)"

lemma total_size_sum:
  "distinct (map fst fs) \<Longrightarrow> calculate_total_size fs = (\<Sum>p\<in>set (meta_files fs). recorded_size fs p)"
  by (simp add: calculate_total_size_def recorded_size_def meta_files_def sum_list_distinct_conv_sum_set
        flip: recorded_size_def)

lemma meta_file_keys:
  "p \<in> set (meta_files fs) \<Longrightarrow> \<exists>k. key_from_meta_path p = Some k"
  by (auto simp: meta_files_def key_from_meta_path_Some endswith_conv)

lemma collect_stats_distinct:
  assumes "flat fs" "distinct (map fst fs)"
  shows "distinct (map cs_key (collect_stats fs))"
proof -
  have inj: "p = q" if "k \<in> cs_key ` set (stat_of fs p)" "k \<in> cs_key ` set (stat_of fs q)" for p q k
    using that assms(1)
    by (auto simp: stat_of_def flat_def read_meta_def split: option.splits if_splits content.splits) metis
  have one: "distinct (map cs_key (stat_of fs p))" for p
    by (simp add: stat_of_def split: option.splits)
  have "distinct ps \<Longrightarrow> distinct (map cs_key (concat (map (stat_of fs) ps)))" for ps
  proof (induction ps)
    case (Cons p ps)
    then show ?case using inj[of _ p] one by (fastforce simp: image_iff)
  qed simp
  moreover have "distinct (meta_files fs)" using assms(2) by (simp add: meta_files_def)
  ultimately show ?thesis by (simp add: collect_stats_def)
qed

lemma stat_meta:
  assumes "flat fs" "v \<in> set (collect_stats fs)"
  shows "meta_path (cs_key v) \<in> set (meta_files fs)"
    and "key_from_meta_path (meta_path (cs_key v)) = Some (cs_key v)"
    and "recorded_size fs (meta_path (cs_key v)) = cs_size v"
proof -
  obtain p where p: "p \<in> set (meta_files fs)" "v \<in> set (stat_of fs p)"
    using assms(2) by (auto simp: collect_stats_def)
  then obtain m where m: "read_meta fs p = Some m" "key_from_meta_path p = Some (cs_key v)"
      "cs_size v = mt_size_bytes m"
    by (cases "read_meta fs p"; cases "key_from_meta_path p") (auto simp: stat_of_def split: if_splits)
  then have "p = meta_path (cs_key v)" using flat_key_plain[OF assms(1)] by blast
  with p m show "meta_path (cs_key v) \<in> set (meta_files fs)"
    and "key_from_meta_path (meta_path (cs_key v)) = Some (cs_key v)"
    and "recorded_size fs (meta_path (cs_key v)) = cs_size v"
    by (simp_all add: recorded_size_def)
qed

lemma evicted_total:
  assumes "flat fs" "cache_wf fs" "set vs \<subseteq> set (collect_stats fs)" "distinct (map cs_key vs)"
  defines "fs' \<equiv> foldl (\<lambda>fs e. remove_entry (cs_key e) fs) fs vs"
  shows "calculate_total_size fs' + sum_list (map cs_size vs) \<le> calculate_total_size fs"
proof -
  define V where "V = (\<lambda>v. meta_path (cs_key v)) ` set vs"
  have stat: "v \<in> set (collect_stats fs)" if "v \<in> set vs" for v using assms(3) that by auto
  have inj: "inj_on (\<lambda>v. meta_path (cs_key v)) (set vs)"
    using stat stat_meta(2)[OF assms(1)] assms(4)
    by (auto simp: inj_on_def distinct_map) (metis option.inject)
  have freed: "sum_list (map cs_size vs) = (\<Sum>p\<in>V. recorded_size fs p)"
    using stat stat_meta(3)[OF assms(1)] assms(4)
    by (auto simp: V_def sum.reindex[OF inj] distinct_map sum_list_distinct_conv_sum_set intro!: sum.cong)
  have paths: "set (map fst fs') \<subseteq> set (map fst fs) - V"
    by (auto simp: fs'_def V_def paths_evicted simp del: set_map)
  then have sub: "set (meta_files fs') \<subseteq> set (meta_files fs) - V"
    unfolding meta_files_def set_filter by blast
  have "V \<subseteq> set (meta_files fs)" using stat stat_meta(1)[OF assms(1)] by (auto simp: V_def)
  then have "(\<Sum>p\<in>set (meta_files fs) - V. recorded_size fs p) + (\<Sum>p\<in>V. recorded_size fs p)
       = (\<Sum>p\<in>set (meta_files fs). recorded_size fs p)"
    using sum.subset_diff[of V "set (meta_files fs)" "recorded_size fs"] by simp
  moreover have nonneg: "0 \<le> recorded_size fs p" for p
    using assms(2) by (auto simp: recorded_size_def cache_wf_def split: option.splits)
  have "recorded_size fs' p \<le> recorded_size fs p" for p
    using nonneg[of p] by (auto simp: recorded_size_def read_meta_def fs'_def fs_read_evicted split: option.splits)
  then have "(\<Sum>p\<in>set (meta_files fs'). recorded_size fs' p) \<le> (\<Sum>p\<in>set (meta_files fs'). recorded_size fs p)"
    by (rule sum_mono)
  moreover have "(\<Sum>p\<in>set (meta_files fs'). recorded_size fs p) \<le> (\<Sum>p\<in>set (meta_files fs) - V. recorded_size fs p)"
    using sub nonneg by (intro sum_mono2) auto
  moreover have "distinct (map fst fs)" "distinct (map fst fs')"
    using assms(2) by (simp_all add: cache_wf_def fs'_def paths_evicted)
  ultimately show ?thesis by (simp add: total_size_sum freed)
qed

lemma victims_distinct:
  assumes "distinct (map cs_key es)"
  shows "distinct (map cs_key (victims held need_bytes freed es))"
proof -
  obtain k where "victims held need_bytes freed es = take k (filter (\<lambda>e. cs_key e \<notin> held) es)"
    using victims_prefix by blast
  then show ?thesis using assms by (simp add: distinct_map_filter take_map[symmetric])
qed

lemma candidates_distinct:
  "flat fs \<Longrightarrow> cache_wf fs \<Longrightarrow> distinct (map cs_key (evict_candidates now fs))"
  using collect_stats_distinct[of fs]
  by (auto simp: evict_candidates_def cache_wf_def distinct_map inj_on_def)

lemma candidates_stats: "set (evict_candidates now fs) \<subseteq> set (collect_stats fs)"
  by (auto simp: evict_candidates_def)

lemma candidate_gone:
  assumes "v \<in> set (victims held n 0 (evict_candidates now fs))"
  shows "fs_read (evict_lru held now n fs) (data_path (cs_key v)) = None"
    and "fs_read (evict_lru held now n fs) (meta_path (cs_key v)) = None"
  using assms by (auto simp: evict_lru_def evict_loop_victims fs_read_evicted)

lemma evict_lru_accounting:
  assumes "flat fs" "cache_wf fs"
  shows "calculate_total_size (evict_lru held now n fs) + n \<le> calculate_total_size fs
     \<or> (\<forall>e\<in>set (evict_candidates now fs). cs_key e \<notin> held
          \<longrightarrow> fs_read (evict_lru held now n fs) (data_path (cs_key e)) = None)"
proof -
  let ?vs = "victims held n 0 (evict_candidates now fs)"
  have "set ?vs \<subseteq> set (collect_stats fs)"
    using set_victims[of held n 0 "evict_candidates now fs"] candidates_stats[of now fs] by blast
  then have "calculate_total_size (evict_lru held now n fs) + sum_list (map cs_size ?vs)
       \<le> calculate_total_size fs"
    unfolding evict_lru_def evict_loop_victims
    by (rule evicted_total[OF assms _ victims_distinct[OF candidates_distinct[OF assms]]])
  then show ?thesis
    using victims_enough[of n 0 held "evict_candidates now fs"] candidate_gone(1)[of _ held n now fs]
    by auto
qed

lemma evict_lru_spares:
  assumes "fs_read fs p \<noteq> None" "fs_read (evict_lru held now n fs) p = None"
  shows "\<exists>e\<in>set (evict_candidates now fs). cs_key e \<notin> held
           \<and> (p = data_path (cs_key e) \<or> p = meta_path (cs_key e))"
  using assms set_victims[of held n 0 "evict_candidates now fs"]
  by (auto simp: evict_lru_def evict_loop_victims fs_read_evicted split: if_splits)

lemma resolve_locked_exists:
  assumes "plain_key key" "flat fs"
    and "resolve_or_download_locked cfg held now storage object_name sha256 key fs = (Inr (Some p), fs')"
  shows "p = data_path key \<and> fs_exists fs' p"
proof -
  have touch: "fs_exists fs (data_path key) \<Longrightarrow> fs_exists (touch_meta t q fs) (data_path key)" for t q
    by (auto simp: fs_exists_def touch_meta_def split: option.splits)
  have update: "fs_exists fs (data_path key) \<Longrightarrow> fs_exists (update_meta q upd fs) (data_path key)" for q upd
    by (auto simp: fs_exists_def update_meta_def split: option.splits)
  have fetch: "p = data_path key \<and> fs_exists fs' p"
    if "fetch_and_store cfg held now storage object_name sha256 key etag g = (Inr (Some p), fs')" "flat g"
    for etag g
    using that store_keeps_data[OF assms(1) that(2)]
    by (auto simp: fetch_and_store_def fs_exists_def split: sum.splits if_splits)
  have "flat (remove_entry key fs)" using assms(2) by (rule flat.inv_remove)
  with assms fetch touch update show ?thesis
    by (auto simp: resolve_or_download_locked_def Let_def split: if_splits option.splits)
qed

lemma resolve_verified:
  assumes "cache_run plain_request (cw_root w)" "plain_request object_name sha256"
    and "resolve_or_download cfg held now storage object_name sha256 w = (Inr (Some (InCache p)), w')"
  shows "\<exists>c. fs_read (cw_root w') p = Some c
           \<and> (sha256 \<noteq> [] \<longrightarrow> (\<exists>b. c = Raw b \<and> sha256_hexdigest b = sha256))"
proof -
  let ?key = "cache_key sha256 object_name"
  obtain fs' where r: "resolve_or_download_locked cfg held now storage object_name sha256 ?key (cw_root w)
      = (Inr (Some p), fs')" and w': "cw_root w' = fs'"
    using assms(3)
    by (auto simp: resolve_or_download_def map_sum_def split: if_splits prod.splits sum.splits)
  have p: "p = data_path ?key" "fs_exists fs' p"
    using resolve_locked_exists[OF plain_request_key[OF assms(2)] flat.run_inv[OF assms(1)] r] by auto
  have "cache_intact fs'"
    using intact.inv_resolve[OF _ intact.run_inv r] cache_run_mono[OF assms(1)] by simp
  then have "\<exists>b. c = Raw b \<and> sha256_hexdigest b = sha256"
    if "fs_read fs' p = Some c" "sha256 \<noteq> []" for c
    using that assms(2) p(1) by (auto simp: cache_intact_def sha_entry_def cache_key_def plain_request_def)
  then show ?thesis using p(2) w' by (auto simp: fs_exists_def)
qed

section \<open>Properties\<close>



text \<open>A storage with one version of every object, and a configuration with a small cache.\<close>

definition echo_storage :: storage_client where
  "echo_storage = \<lparr>sc_type_name = ''S3Storage'',
     sc_head_object = Some (\<lambda>n. Inr (Some \<lparr>oh_etag = ''e1'', oh_content_length = 1\<rparr>)),
     sc_download_bytes = Some (\<lambda>n. Inr (map of_char n))\<rparr>"

definition small_cfg :: cache_cfg where
  "small_cfg = \<lparr>cc_enabled = True, cc_max_bytes = 1024, cc_ttl_seconds = 3600\<rparr>"

lemmas cache_eval = resolve_or_download_def resolve_or_download_locked_def fetch_and_store_def
  store_entry_def evict_lru_if_needed_def calculate_total_size_def meta_files_def echo_storage_def
  small_cfg_def cache_key_def data_path_def meta_path_def path_parts_def meta_suffix_def endswith_def
  fs_exists_def head_or_none_def download_def read_meta_def is_fresh_def touch_meta_def Let_def
  revalidate_interval_def touch_cooldown_def

lemma fs_write_Cons:
  "fs_write p c [] = [(p, c)]"
  "fs_write p c ((q, d) # fs) = (if q = p then (p, c) # fs else (q, d) # fs_write p c fs)"
  by (auto simp: fs_write_def)

lemma fs_read_Cons:
  "fs_read [] p = None"
  "fs_read ((q, d) # fs) p = (if q = p then Some d else fs_read fs p)"
  by (auto simp: fs_read_def)


definition stored_t :: cfs where
  "stored_t = snd (resolve_or_download_locked small_cfg {} 100 echo_storage ''t'' [] ''name:t'' [])"

lemma stored_t_eval:
  "stored_t = [([''na'', ''name:t''], Raw [116]),
     ([''na'', ''name:t.meta.json''], MetaJson \<lparr>mt_etag = ''e1'', mt_sha256 = sha256_hexdigest [116],
        mt_size_bytes = 1, mt_object_name = ''t'', mt_cached_at = 100, mt_last_accessed_at = 100,
        mt_last_validated_at = 100\<rparr>)]"
  by (simp add: stored_t_def cache_eval fs_write_Cons fs_read_Cons)

lemma stored_t_run: "cache_run plain_request stored_t"
proof (rule cache_run.resolve[OF cache_run.start])
  show "plain_request ''t'' []" by (simp add: plain_request_def)
  show "resolve_or_download_locked small_cfg {} 100 echo_storage ''t'' [] (cache_key [] ''t'') []
          = (fst (resolve_or_download_locked small_cfg {} 100 echo_storage ''t'' [] ''name:t'' []), stored_t)"
    by (simp add: cache_key_def stored_t_def)
qed

lemma fsub_eval: "fsub 102 100 = 2" "fsub 500 100 = 400"
  by code_simp+


text \<open>The cache files of the objects \<^verbatim>\<open>x\<close> and \<^verbatim>\<open>x.meta.json\<close> collide: with both
  cached, a fresh hit on the second returns the JSON of the meta file of the first, not its data.\<close>

lemma meta_name_collision:
  "\<exists>w1 w2 p m. resolve_or_download small_cfg {} 100 echo_storage ''x.meta.json'' []
        \<lparr>cw_root = [], cw_direct = Map.empty\<rparr> = (Inr (Some (InCache p)), w1)
      \<and> resolve_or_download small_cfg {} 101 echo_storage ''x'' [] w1
        = (Inr (Some (InCache [''na'', ''name:x''])), w2)
      \<and> resolve_or_download small_cfg {} 102 echo_storage ''x.meta.json'' [] w2 = (Inr (Some (InCache p)), w2)
      \<and> fs_read (cw_root w2) p = Some (MetaJson m)"
  by (simp add: cache_eval fs_write_Cons fs_read_Cons fsub_eval)

end
