(* ===== verification/Raster.thy ===== *)
theory Raster
  imports Sha256
begin

text \<open>
  The drawing primitives of the PNG captcha, \<^verbatim>\<open>app/core/security/transport.py\<close>: pixels of an RGB buffer,
  Bresenham lines and glyphs. The buffer is a list of bytes, three per pixel, row by row; coordinates are Python
  integers. The line loop is a \<open>while True\<close>: its definition may not return, and returning is proved.
\<close>

section \<open>transport.py: pixels, lines, glyphs\<close>

type_synonym colour = "nat \<times> nat \<times> nat"

definition colour_bytes :: "colour \<Rightarrow> bytes" where
  "colour_bytes c = (case c of (r, g, b) \<Rightarrow> [r, g, b])"

definition set_pixel :: "bytes \<Rightarrow> int \<Rightarrow> int \<Rightarrow> int \<Rightarrow> int \<Rightarrow> colour \<Rightarrow> bytes" where
  "set_pixel pixels width height x y color =
     (if x < 0 \<or> x \<ge> width \<or> y < 0 \<or> y \<ge> height then pixels
      else let offset = nat ((y * width + x) * 3)
           in take offset pixels @ colour_bytes color @ drop (offset + 3) pixels)"

partial_function (option) draw_line_loop ::
  "int \<Rightarrow> int \<Rightarrow> int \<Rightarrow> int \<Rightarrow> colour \<Rightarrow> int \<Rightarrow> int \<Rightarrow> int \<Rightarrow> int \<Rightarrow> bytes \<Rightarrow> int \<Rightarrow> int \<Rightarrow> int \<Rightarrow> bytes option" where
  "draw_line_loop width height x2 y2 color dx dy sx sy pixels x1 y1 error =
     (let pixels = set_pixel pixels width height x1 y1 color in
      if x1 = x2 \<and> y1 = y2 then Some pixels
      else
        let e2 = 2 * error;
            (error, x1) = (if e2 \<ge> dy then (error + dy, x1 + sx) else (error, x1));
            (error, y1) = (if e2 \<le> dx then (error + dx, y1 + sy) else (error, y1))
        in draw_line_loop width height x2 y2 color dx dy sx sy pixels x1 y1 error)"

declare draw_line_loop.simps [code]

definition draw_line ::
  "bytes \<Rightarrow> int \<Rightarrow> int \<Rightarrow> int \<Rightarrow> int \<Rightarrow> int \<Rightarrow> int \<Rightarrow> colour \<Rightarrow> bytes option" where
  "draw_line pixels width height x1 y1 x2 y2 color =
     (let dx = \<bar>x2 - x1\<bar>;
          dy = - \<bar>y2 - y1\<bar>;
          sx = (if x1 < x2 then 1 else - 1);
          sy = (if y1 < y2 then 1 else - 1)
      in draw_line_loop width height x2 y2 color dx dy sx sy pixels x1 y1 (dx + dy))"

definition captcha_glyphs :: "(char \<times> string list) list" where
  "captcha_glyphs =
     [(CHR ''2'', [''11110'', ''00001'', ''00001'', ''11110'', ''10000'', ''10000'', ''11111'']),
      (CHR ''3'', [''11110'', ''00001'', ''00001'', ''01110'', ''00001'', ''00001'', ''11110'']),
      (CHR ''4'', [''10001'', ''10001'', ''10001'', ''11111'', ''00001'', ''00001'', ''00001'']),
      (CHR ''5'', [''11111'', ''10000'', ''10000'', ''11110'', ''00001'', ''00001'', ''11110'']),
      (CHR ''6'', [''01111'', ''10000'', ''10000'', ''11110'', ''10001'', ''10001'', ''01110'']),
      (CHR ''7'', [''11111'', ''00001'', ''00010'', ''00100'', ''01000'', ''01000'', ''01000'']),
      (CHR ''8'', [''01110'', ''10001'', ''10001'', ''01110'', ''10001'', ''10001'', ''01110'']),
      (CHR ''9'', [''01110'', ''10001'', ''10001'', ''01111'', ''00001'', ''00001'', ''11110'']),
      (CHR ''A'', [''01110'', ''10001'', ''10001'', ''11111'', ''10001'', ''10001'', ''10001'']),
      (CHR ''B'', [''11110'', ''10001'', ''10001'', ''11110'', ''10001'', ''10001'', ''11110'']),
      (CHR ''C'', [''01111'', ''10000'', ''10000'', ''10000'', ''10000'', ''10000'', ''01111'']),
      (CHR ''D'', [''11110'', ''10001'', ''10001'', ''10001'', ''10001'', ''10001'', ''11110'']),
      (CHR ''E'', [''11111'', ''10000'', ''10000'', ''11110'', ''10000'', ''10000'', ''11111'']),
      (CHR ''F'', [''11111'', ''10000'', ''10000'', ''11110'', ''10000'', ''10000'', ''10000'']),
      (CHR ''G'', [''01111'', ''10000'', ''10000'', ''10011'', ''10001'', ''10001'', ''01111'']),
      (CHR ''H'', [''10001'', ''10001'', ''10001'', ''11111'', ''10001'', ''10001'', ''10001'']),
      (CHR ''J'', [''00111'', ''00010'', ''00010'', ''00010'', ''10010'', ''10010'', ''01100'']),
      (CHR ''K'', [''10001'', ''10010'', ''10100'', ''11000'', ''10100'', ''10010'', ''10001'']),
      (CHR ''L'', [''10000'', ''10000'', ''10000'', ''10000'', ''10000'', ''10000'', ''11111'']),
      (CHR ''M'', [''10001'', ''11011'', ''10101'', ''10101'', ''10001'', ''10001'', ''10001'']),
      (CHR ''N'', [''10001'', ''11001'', ''10101'', ''10011'', ''10001'', ''10001'', ''10001'']),
      (CHR ''P'', [''11110'', ''10001'', ''10001'', ''11110'', ''10000'', ''10000'', ''10000'']),
      (CHR ''Q'', [''01110'', ''10001'', ''10001'', ''10001'', ''10101'', ''10010'', ''01101'']),
      (CHR ''R'', [''11110'', ''10001'', ''10001'', ''11110'', ''10100'', ''10010'', ''10001'']),
      (CHR ''S'', [''01111'', ''10000'', ''10000'', ''01110'', ''00001'', ''00001'', ''11110'']),
      (CHR ''T'', [''11111'', ''00100'', ''00100'', ''00100'', ''00100'', ''00100'', ''00100'']),
      (CHR ''U'', [''10001'', ''10001'', ''10001'', ''10001'', ''10001'', ''10001'', ''01110'']),
      (CHR ''V'', [''10001'', ''10001'', ''10001'', ''10001'', ''01010'', ''01010'', ''00100'']),
      (CHR ''W'', [''10001'', ''10001'', ''10001'', ''10101'', ''10101'', ''11011'', ''10001'']),
      (CHR ''X'', [''10001'', ''01010'', ''00100'', ''00100'', ''00100'', ''01010'', ''10001'']),
      (CHR ''Y'', [''10001'', ''01010'', ''00100'', ''00100'', ''00100'', ''00100'', ''00100'']),
      (CHR ''Z'', [''11111'', ''00001'', ''00010'', ''00100'', ''01000'', ''10000'', ''11111''])]"

text \<open>The squares of side \<open>scale\<close> of the enabled cells, in the order of the four nested loops.\<close>

definition glyph_points :: "string list \<Rightarrow> int \<Rightarrow> int \<Rightarrow> nat \<Rightarrow> (int \<times> int) list" where
  "glyph_points glyph x y scale =
     concat (map (\<lambda>(row_index, row).
       concat (map (\<lambda>(column_index, enabled).
         if enabled \<noteq> CHR ''1'' then []
         else concat (map (\<lambda>dy. map (\<lambda>dx.
           (x + int (column_index * scale + dx), y + int (row_index * scale + dy))) [0..<scale]) [0..<scale]))
       (enumerate 0 row))) (enumerate 0 glyph))"

definition plot :: "int \<Rightarrow> int \<Rightarrow> colour \<Rightarrow> (int \<times> int) list \<Rightarrow> bytes \<Rightarrow> bytes" where
  "plot width height color pts pixels = foldl (\<lambda>px (x, y). set_pixel px width height x y color) pixels pts"

definition draw_glyph ::
  "bytes \<Rightarrow> int \<Rightarrow> int \<Rightarrow> char \<Rightarrow> int \<Rightarrow> int \<Rightarrow> nat \<Rightarrow> colour \<Rightarrow> bytes" where
  "draw_glyph pixels width height ch x y scale color =
     (case map_of captcha_glyphs ch of
        None \<Rightarrow> pixels
      | Some glyph \<Rightarrow> plot width height color (glyph_points glyph x y scale) pixels)"

section \<open>Pixels\<close>

definition canvas :: "int \<Rightarrow> int \<Rightarrow> bytes \<Rightarrow> bool" where
  "canvas width height px = (0 \<le> width \<and> 0 \<le> height \<and> length px = nat (width * height * 3))"

definition pixel :: "int \<Rightarrow> int \<Rightarrow> int \<Rightarrow> bytes \<Rightarrow> bytes" where
  "pixel width x y px = take 3 (drop (nat ((y * width + x) * 3)) px)"

lemma pixel_offset:
  assumes "0 \<le> (x::int)" "x < width" "0 \<le> y" "y < height"
  shows "0 \<le> (y * width + x) * 3" "(y * width + x) * 3 + 3 \<le> width * height * 3"
proof -
  from assms show "0 \<le> (y * width + x) * 3" by simp
  have "y * width + width \<le> height * width"
    using mult_right_mono[of "y + 1" height width] assms by (simp add: algebra_simps)
  with assms show "(y * width + x) * 3 + 3 \<le> width * height * 3" by (simp add: algebra_simps)
qed

lemma length_colour [simp]: "length (colour_bytes c) = 3"
  by (simp add: colour_bytes_def split: prod.splits)

lemma canvas_set_pixel: "canvas width height px \<Longrightarrow> canvas width height (set_pixel px width height x y color)"
proof (cases "x < 0 \<or> x \<ge> width \<or> y < 0 \<or> y \<ge> height")
  case False
  assume "canvas width height px"
  moreover from this False have "nat ((y * width + x) * 3) + 3 \<le> length px"
    using pixel_offset[of x width y height] unfolding canvas_def by linarith
  ultimately show ?thesis using False by (simp add: canvas_def set_pixel_def Let_def)
qed (simp add: set_pixel_def)

lemma canvas_plot: "canvas width height px \<Longrightarrow> canvas width height (plot width height color pts px)"
  unfolding plot_def by (induction pts arbitrary: px) (auto simp: canvas_set_pixel)

text \<open>Reading a pixel after writing one: the offsets of different pixels are at least three bytes apart.\<close>

lemma offset_inj:
  assumes "0 \<le> (x::int)" "x < width" "0 \<le> x'" "x' < width" "y * width + x = y' * width + x'"
  shows "x = x' \<and> y = y'"
proof -
  have "x = (y * width + x) mod width" using assms(1,2) by simp
  moreover have "x' = (y' * width + x') mod width" using assms(3,4) by simp
  ultimately have "x = x'" using assms(5) by metis
  with assms show ?thesis by simp
qed

lemma slice_before:
  assumes "m + 3 \<le> n" "n \<le> length px"
  shows "take 3 (drop m (take n px @ ys)) = take 3 (drop m px)"
proof -
  have "3 \<le> length px - m" using assms by linarith
  then show ?thesis using assms by (simp add: drop_take min_def)
qed

lemma slice_after:
  assumes "n + 3 \<le> m" "n \<le> length px" "length c = 3"
  shows "take 3 (drop m (take n px @ c @ drop (n + 3) px)) = take 3 (drop m px)"
proof -
  have "drop m (take n px @ c @ drop (n + 3) px) = drop (m - (n + 3)) (drop (n + 3) px)"
    using assms by (simp add: min_def)
  then show ?thesis using assms(1) by simp
qed

lemma pixel_set_pixel:
  assumes "canvas width height px" "0 \<le> x" "x < width" "0 \<le> y" "y < height"
  shows "pixel width x y (set_pixel px width height x' y' color) =
     (if x' = x \<and> y' = y then colour_bytes color else pixel width x y px)"
proof (cases "x' < 0 \<or> x' \<ge> width \<or> y' < 0 \<or> y' \<ge> height")
  case True
  with assms show ?thesis by (auto simp: set_pixel_def)
next
  case False
  let ?o = "(y * width + x) * 3" and ?o' = "(y' * width + x') * 3"
  note o = pixel_offset[OF assms(2-5)] and o' = pixel_offset[of x' width y' height]
  have len: "length px = nat (width * height * 3)" using assms(1) by (simp add: canvas_def)
  have set: "set_pixel px width height x' y' color = take (nat ?o') px @ colour_bytes color @ drop (nat ?o' + 3) px"
    using False by (simp add: set_pixel_def Let_def)
  consider "x' = x" "y' = y" | "?o + 3 \<le> ?o'" | "?o' + 3 \<le> ?o" "\<not> (x' = x \<and> y' = y)"
  proof (cases "y * width + x = y' * width + x'")
    case True
    with offset_inj[OF _ _ _ _ True] False assms that(1) show ?thesis by auto
  next
    case False
    then have "?o + 3 \<le> ?o' \<or> ?o' + 3 \<le> ?o" "\<not> (x' = x \<and> y' = y)" by auto
    with that show ?thesis by blast
  qed
  then show ?thesis
  proof cases
    case 1
    then have "nat ?o' = nat ?o" "nat ?o + 3 \<le> length px" using o len by auto
    with 1 show ?thesis unfolding set pixel_def by simp
  next
    case 2
    then have "nat ?o + 3 \<le> nat ?o'" "nat ?o' \<le> length px" using o o' False len by linarith+
    note slice_before[OF this, of "colour_bytes color @ drop (nat ?o' + 3) px"]
    moreover have "\<not> (x' = x \<and> y' = y)" using 2 by (rule contrapos_pn) simp
    ultimately show ?thesis unfolding pixel_def set by presburger
  next
    case 3
    then have "nat ?o' + 3 \<le> nat ?o" "nat ?o' \<le> length px" using o o' False len by linarith+
    from slice_after[OF this length_colour] 3 show ?thesis unfolding pixel_def set by presburger
  qed
qed

lemma pixel_plot:
  assumes "canvas width height px" "0 \<le> x" "x < width" "0 \<le> y" "y < height"
  shows "pixel width x y (plot width height color pts px) =
     (if (x, y) \<in> set pts then colour_bytes color else pixel width x y px)"
  using assms(1)
proof (induction pts arbitrary: px)
  case (Cons p pts)
  then show ?case
    using pixel_set_pixel[OF Cons(2) assms(2-5)] canvas_set_pixel[OF Cons(2)] by (cases p) (auto simp: plot_def)
qed (simp add: plot_def)

section \<open>Lines\<close>

definition adjacent :: "int \<times> int \<Rightarrow> int \<times> int \<Rightarrow> bool" where
  "adjacent p q = (p \<noteq> q \<and> \<bar>fst q - fst p\<bar> \<le> 1 \<and> \<bar>snd q - snd p\<bar> \<le> 1)"

text \<open>
  The deviation of the grid point \<open>i\<close> steps along the first axis and \<open>j\<close> along the second from the ideal
  segment to \<open>(D, E)\<close>, at most half a step along the longer axis.
\<close>

definition dev :: "int \<Rightarrow> int \<Rightarrow> int \<Rightarrow> int \<Rightarrow> int" where
  "dev D E i j = j * D - i * E"

definition near :: "int \<Rightarrow> int \<Rightarrow> int \<Rightarrow> int \<Rightarrow> bool" where
  "near D E i j = (2 * \<bar>dev D E i j\<bar> \<le> max D E \<and> 0 \<le> i \<and> i \<le> D \<and> 0 \<le> j \<and> j \<le> E)"

lemma dev_steps:
  "dev D E (i + 1) j = dev D E i j - E"
  "dev D E i (j + 1) = dev D E i j + D"
  by (simp_all add: dev_def algebra_simps)

text \<open>One iteration away from the end point: the step along the longer axis is always taken, the other one keeps
  the deviation small.\<close>

definition next_i :: "int \<Rightarrow> int \<Rightarrow> int \<Rightarrow> int \<Rightarrow> int" where
  "next_i D E i j = (if 2 * (dev D E i j + D - E) \<ge> - E then i + 1 else i)"

definition next_j :: "int \<Rightarrow> int \<Rightarrow> int \<Rightarrow> int \<Rightarrow> int" where
  "next_j D E i j = (if 2 * (dev D E i j + D - E) \<le> D then j + 1 else j)"

lemma half_bound:
  assumes "2 * (a * D) \<le> 2 * (b * D) + (D::int)" "0 < D"
  shows "a \<le> b"
proof (rule ccontr)
  assume "\<not> a \<le> b"
  then have "(b + 1) * D \<le> a * D" using assms(2) by (intro mult_right_mono) auto
  with assms show False by (simp add: distrib_right)
qed

lemma minor_bound:
  assumes "2 * dev D E i j \<le> D" "0 < D" "i \<le> D" "0 \<le> E"
  shows "j \<le> E"
proof (rule half_bound[of _ D])
  have "i * E \<le> E * D" using mult_right_mono[OF assms(3,4)] by (simp add: mult.commute)
  with assms(1) show "2 * (j * D) \<le> 2 * (E * D) + D" by (simp add: dev_def)
qed fact

lemma dev_swap: "dev E D j i = - dev D E i j"
  by (simp add: dev_def)

lemma step_x:
  assumes "near D E i j" "E \<le> D" "i < D"
  shows "next_i D E i j = i + 1" "near D E (i + 1) (next_j D E i j)"
proof -
  from assms have b: "2 * dev D E i j \<le> D" "- 2 * dev D E i j \<le> D" "0 \<le> E" "0 < D" "0 \<le> i" "0 \<le> j"
    by (auto simp: near_def)
  with assms(2) show "next_i D E i j = i + 1" by (simp add: next_i_def)
  have d1: "2 * dev D E (i + 1) (next_j D E i j) \<le> D" and d2: "- 2 * dev D E (i + 1) (next_j D E i j) \<le> D"
    using b assms(2) by (auto simp: next_j_def dev_steps)
  then have d: "2 * \<bar>dev D E (i + 1) (next_j D E i j)\<bar> \<le> D" by linarith
  have "next_j D E i j \<le> E" by (rule minor_bound[OF d1]) (use b assms(3) in simp_all)
  moreover have "0 \<le> next_j D E i j" using b by (simp add: next_j_def)
  ultimately show "near D E (i + 1) (next_j D E i j)" using d b assms(2,3) by (simp add: near_def)
qed

lemma step_y:
  assumes "near D E i j" "D < E" "j < E"
  shows "next_j D E i j = j + 1" "near D E (next_i D E i j) (j + 1)"
proof -
  from assms have b: "2 * dev D E i j \<le> E" "- 2 * dev D E i j \<le> E" "0 \<le> D" "0 < E" "0 \<le> i" "0 \<le> j"
    by (auto simp: near_def)
  with assms(2) show "next_j D E i j = j + 1" by (simp add: next_j_def)
  have d1: "2 * dev D E (next_i D E i j) (j + 1) \<le> E" and d2: "- 2 * dev D E (next_i D E i j) (j + 1) \<le> E"
    using b assms(2) by (auto simp: next_i_def dev_steps)
  then have d: "2 * \<bar>dev D E (next_i D E i j) (j + 1)\<bar> \<le> E" by linarith
  have "next_i D E i j \<le> D"
  proof (rule minor_bound)
    show "2 * dev E D (j + 1) (next_i D E i j) \<le> E" using d2 unfolding dev_swap[of D E] by linarith
  qed (use b assms(3) in simp_all)
  moreover have "0 \<le> next_i D E i j" using b by (simp add: next_i_def)
  ultimately show "near D E (next_i D E i j) (j + 1)" using d b assms(2,3) by (simp add: near_def)
qed

text \<open>The point at the end of the longer axis is the end point.\<close>

lemma near_end_x:
  assumes "near D E D j" "E \<le> D"
  shows "j = E"
proof (cases "D = 0")
  case False
  from assms have n: "- 2 * dev D E D j \<le> D" "0 \<le> D" "j \<le> E" by (auto simp: near_def)
  have "E \<le> j"
    by (rule half_bound[of _ D]) (use n False in \<open>simp_all add: dev_def mult.commute\<close>)
  with n show ?thesis by simp
qed (use assms in \<open>auto simp: near_def\<close>)

lemma near_end_y:
  assumes "near D E i E" "D < E"
  shows "i = D"
  using near_end_x[of E D i] assms by (simp add: near_def dev_swap[of E D])

definition progress :: "int \<Rightarrow> int \<Rightarrow> int \<Rightarrow> int \<Rightarrow> int" where
  "progress D E i j = (if E \<le> D then i else j)"

lemma near_step:
  assumes "near D E i j" "(i, j) \<noteq> (D, E)"
  shows "near D E (next_i D E i j) (next_j D E i j)"
    and "progress D E (next_i D E i j) (next_j D E i j) = progress D E i j + 1"
    and "progress D E i j < max D E"
    and "(next_i D E i j, next_j D E i j) \<noteq> (i, j)"
proof -
  have lt: "if E \<le> D then i < D else j < E"
  proof (cases "E \<le> D")
    case True
    with near_end_x[of D E j] assms have "i \<noteq> D" by auto
    with assms(1) True show ?thesis by (simp add: near_def)
  next
    case False
    with near_end_y[of D E i] assms have "j \<noteq> E" by auto
    with assms(1) False show ?thesis by (simp add: near_def)
  qed
  then show "near D E (next_i D E i j) (next_j D E i j)"
    "progress D E (next_i D E i j) (next_j D E i j) = progress D E i j + 1"
    "progress D E i j < max D E"
    "(next_i D E i j, next_j D E i j) \<noteq> (i, j)"
    using step_x[OF assms(1)] step_y[OF assms(1)] by (auto simp: progress_def split: if_splits)
qed

text \<open>The three variables an iteration updates.\<close>

lemma loop_step:
  "(let e2 = 2 * (dev D E i j + D - E);
        (error, x) = (if e2 \<ge> - E then (dev D E i j + D - E + - E, x1 + sx * i + sx) else (dev D E i j + D - E, x1 + sx * i));
        (error, y) = (if e2 \<le> D then (error + D, y1 + sy * j + sy) else (error, y1 + sy * j))
    in f x y error) =
   f (x1 + sx * next_i D E i j) (y1 + sy * next_j D E i j) (dev D E (next_i D E i j) (next_j D E i j) + D - E)"
  by (cases "2 * (dev D E i j + D - E) \<ge> - E"; cases "2 * (dev D E i j + D - E) \<le> D")
     (simp_all add: Let_def next_i_def next_j_def dev_steps distrib_left add.assoc, simp_all add: algebra_simps)

text \<open>The loop from a point near the segment plots one point per remaining step of the longer axis.\<close>

lemma draw_line_loop_plots:
  assumes "sx = 1 \<or> sx = - 1" "sy = 1 \<or> sy = - (1::int)" "near D E i j"
  shows "\<exists>pts. draw_line_loop width height (x1 + sx * D) (y1 + sy * E) color D (- E) sx sy px
             (x1 + sx * i) (y1 + sy * j) (dev D E i j + D - E) = Some (plot width height color pts px)
     \<and> int (length pts) = max D E - progress D E i j + 1
     \<and> pts \<noteq> [] \<and> hd pts = (x1 + sx * i, y1 + sy * j) \<and> last pts = (x1 + sx * D, y1 + sy * E)
     \<and> successively adjacent pts
     \<and> (\<forall>p\<in>set pts. \<exists>i j. p = (x1 + sx * i, y1 + sy * j) \<and> near D E i j)"
  using assms(3)
proof (induction "nat (max D E - progress D E i j)" arbitrary: i j px)
  case 0
  then have "(i, j) = (D, E)" using near_step(3)[OF 0(2)] by fastforce
  then show ?case
    using 0(2) by (intro exI[of _ "[(x1 + sx * D, y1 + sy * E)]"])
      (auto simp: draw_line_loop.simps plot_def progress_def Let_def)
next
  case (Suc n)
  let ?i = "next_i D E i j" and ?j = "next_j D E i j" and ?p = "(x1 + sx * i, y1 + sy * j)"
  have ne: "(i, j) \<noteq> (D, E)" using Suc(2) by (auto simp: progress_def split: if_splits)
  note st = near_step[OF Suc(3) ne]
  have "n = nat (max D E - progress D E ?i ?j)" using Suc(2) st(2) by simp
  from Suc(1)[OF this st(1), of "set_pixel px width height (x1 + sx * i) (y1 + sy * j) color"]
  obtain pts where pts: "draw_line_loop width height (x1 + sx * D) (y1 + sy * E) color D (- E) sx sy
        (set_pixel px width height (x1 + sx * i) (y1 + sy * j) color)
             (x1 + sx * ?i) (y1 + sy * ?j) (dev D E ?i ?j + D - E)
        = Some (plot width height color pts (set_pixel px width height (x1 + sx * i) (y1 + sy * j) color))"
    "int (length pts) = max D E - progress D E ?i ?j + 1" "pts \<noteq> []" "hd pts = (x1 + sx * ?i, y1 + sy * ?j)"
    "last pts = (x1 + sx * D, y1 + sy * E)" "successively adjacent pts"
    "\<forall>p\<in>set pts. \<exists>i j. p = (x1 + sx * i, y1 + sy * j) \<and> near D E i j" by blast
  have pos: "\<not> (x1 + sx * i = x1 + sx * D \<and> y1 + sy * j = y1 + sy * E)" using ne assms(1,2) by auto
  have "draw_line_loop width height (x1 + sx * D) (y1 + sy * E) color D (- E) sx sy px
             (x1 + sx * i) (y1 + sy * j) (dev D E i j + D - E)
        = draw_line_loop width height (x1 + sx * D) (y1 + sy * E) color D (- E) sx sy
           (set_pixel px width height (x1 + sx * i) (y1 + sy * j) color)
             (x1 + sx * ?i) (y1 + sy * ?j) (dev D E ?i ?j + D - E)"
    by (subst draw_line_loop.simps)
       (simp only: Let_def[of "set_pixel px width height (x1 + sx * i) (y1 + sy * j) color"] if_not_P[OF pos] loop_step)
  moreover have "adjacent ?p (hd pts)"
  proof -
    have "?i = i \<or> ?i = i + 1" "?j = j \<or> ?j = j + 1" by (simp_all add: next_i_def next_j_def)
    with st(4) assms(1,2) show ?thesis by (auto simp: adjacent_def pts(4))
  qed
  ultimately show ?case
    using pts Suc(3) st(2) by (intro exI[of _ "?p # pts"]) (auto simp: plot_def successively_Cons)
qed

section \<open>Properties\<close>

text \<open>A grid point within the box of the segment and at most half a step of the longer axis away from it.\<close>

definition on_segment :: "int \<Rightarrow> int \<Rightarrow> int \<Rightarrow> int \<Rightarrow> int \<times> int \<Rightarrow> bool" where
  "on_segment x1 y1 x2 y2 p =
     (case p of (x, y) \<Rightarrow>
        min x1 x2 \<le> x \<and> x \<le> max x1 x2 \<and> min y1 y2 \<le> y \<and> y \<le> max y1 y2
        \<and> 2 * \<bar>(y - y1) * (x2 - x1) - (x - x1) * (y2 - y1)\<bar> \<le> max \<bar>x2 - x1\<bar> \<bar>y2 - y1\<bar>)"

lemma near_on_segment:
  assumes "near D E i j" "sx = 1 \<or> sx = - 1" "sy = 1 \<or> sy = - (1::int)"
  shows "on_segment x1 y1 (x1 + sx * D) (y1 + sy * E) (x1 + sx * i, y1 + sy * j)"
proof -
  have "(sy * j) * (sx * D) - (sx * i) * (sy * E) = (sx * sy) * dev D E i j" by (simp add: dev_def algebra_simps)
  moreover have "\<bar>(sx * sy) * dev D E i j\<bar> = \<bar>dev D E i j\<bar>" using assms(2,3) by (auto simp: abs_mult)
  moreover have "\<bar>sx * D\<bar> = D" "\<bar>sy * E\<bar> = E" using assms by (auto simp: near_def abs_mult)
  ultimately show ?thesis using assms by (auto simp: near_def on_segment_def)
qed

lemma draw_line_plots:
  "\<exists>pts. draw_line px width height x1 y1 x2 y2 color = Some (plot width height color pts px)
     \<and> int (length pts) = max \<bar>x2 - x1\<bar> \<bar>y2 - y1\<bar> + 1
     \<and> hd pts = (x1, y1) \<and> last pts = (x2, y2) \<and> successively adjacent pts
     \<and> list_all (on_segment x1 y1 x2 y2) pts"
proof -
  define D E where "D = \<bar>x2 - x1\<bar>" and "E = \<bar>y2 - y1\<bar>"
  define sx sy :: int where "sx = (if x1 < x2 then 1 else - 1)" and "sy = (if y1 < y2 then 1 else - 1)"
  have signs: "sx = 1 \<or> sx = - 1" "sy = 1 \<or> sy = - 1" by (auto simp: sx_def sy_def)
  have ends: "x1 + sx * D = x2" "y1 + sy * E = y2" by (auto simp: sx_def sy_def D_def E_def)
  have "near D E 0 0" by (simp add: near_def dev_def D_def E_def)
  from draw_line_loop_plots[OF signs this, of width height x1 y1 color px] obtain pts where pts:
    "draw_line_loop width height x2 y2 color D (- E) sx sy px x1 y1 (D + - E) = Some (plot width height color pts px)"
    "int (length pts) = max D E - progress D E 0 0 + 1" "hd pts = (x1, y1)" "last pts = (x2, y2)"
    "successively adjacent pts" "\<forall>p\<in>set pts. \<exists>i j. p = (x1 + sx * i, y1 + sy * j) \<and> near D E i j"
    by (auto simp: ends dev_def)
  have "on_segment x1 y1 x2 y2 p" if "p \<in> set pts" for p
  proof -
    from pts(6) that obtain i j where "p = (x1 + sx * i, y1 + sy * j)" "near D E i j" by blast
    with near_on_segment[OF _ signs, of D E i j x1 y1] show ?thesis by (simp add: ends)
  qed
  then show ?thesis
    using pts by (intro exI[of _ pts]) (auto simp: draw_line_def Let_def progress_def list_all_iff D_def E_def sx_def sy_def)
qed

text \<open>C39: The Bresenham loop always returns. It plots an eight-connected path of \<open>max |dx| |dy| + 1\<close> points from the
  first end point to the second; every point lies within the box of the two, at most half a pixel from the ideal
  line along the shorter axis.\<close>

theorem draw_line_correct:
  "\<exists>pts. draw_line px width height x1 y1 x2 y2 color = Some (plot width height color pts px)
     \<and> int (length pts) = max \<bar>x2 - x1\<bar> \<bar>y2 - y1\<bar> + 1
     \<and> hd pts = (x1, y1) \<and> last pts = (x2, y2) \<and> successively adjacent pts
     \<and> list_all (on_segment x1 y1 x2 y2) pts"
  by (rule draw_line_plots)

end
