(* ===== verification/Base64.thy ===== *)
theory Base64
  imports PyText
begin

text \<open>
  \<^verbatim>\<open>base64.b64encode\<close> and \<^verbatim>\<open>base64.b64decode\<close> of the Python standard library, as the transport code uses them:
  decoding is the lenient mode of CPython, which skips characters outside the alphabet and stops at a complete padding.
\<close>

definition b64_alphabet :: string where
  "b64_alphabet = ''ABCDEFGHIJKLMNOPQRSTUVWXYZabcdefghijklmnopqrstuvwxyz0123456789+/''"

definition b64_char :: "nat \<Rightarrow> char" where
  "b64_char n = b64_alphabet ! n"

definition b64_index :: "char \<Rightarrow> nat option" where
  "b64_index c = (if c \<in> set b64_alphabet then Some (length (takeWhile (\<lambda>d. d \<noteq> c) b64_alphabet)) else None)"

fun b64encode :: "bytes \<Rightarrow> string" where
  "b64encode [] = []"
| "b64encode [a] = [b64_char (a div 4), b64_char (a mod 4 * 16), CHR ''='', CHR ''='']"
| "b64encode [a, b] =
     [b64_char (a div 4), b64_char (a mod 4 * 16 + b div 16), b64_char (b mod 16 * 4), CHR ''='']"
| "b64encode (a # b # c # rest) =
     b64_char (a div 4) # b64_char (a mod 4 * 16 + b div 16) # b64_char (b mod 16 * 4 + c div 64)
       # b64_char (c mod 64) # b64encode rest"

definition b64_error :: exn where
  "b64_error = ValueError (asc ''Incorrect padding'')"

text \<open>The loop of the decoder: position in the current group of four, bits left over from it, padding seen.\<close>

fun b64_go :: "nat \<Rightarrow> nat \<Rightarrow> nat \<Rightarrow> string \<Rightarrow> bytes res" where
  "b64_go quad left pads [] = (if quad = 0 then Inr [] else Inl b64_error)"
| "b64_go quad left pads (ch # rest) =
     (if ch = CHR ''='' then
        (if 2 \<le> quad \<and> 4 \<le> quad + (pads + 1) then Inr []
         else b64_go quad left (if 2 \<le> quad then pads + 1 else pads) rest)
      else case b64_index ch of
          None \<Rightarrow> b64_go quad left pads rest
        | Some n \<Rightarrow>
            if quad = 0 then b64_go 1 n 0 rest
            else if quad = 1 then rbind (b64_go 2 (n mod 16) 0 rest) (\<lambda>bs. Inr ((left * 4 + n div 16) # bs))
            else if quad = 2 then rbind (b64_go 3 (n mod 4) 0 rest) (\<lambda>bs. Inr ((left * 16 + n div 4) # bs))
            else rbind (b64_go 0 0 0 rest) (\<lambda>bs. Inr ((left * 64 + n) # bs)))"

definition b64decode :: "string \<Rightarrow> bytes res" where
  "b64decode s = b64_go 0 0 0 s"

section \<open>Facts\<close>

lemma takeWhile_nth_distinct:
  "distinct xs \<Longrightarrow> n < length xs \<Longrightarrow> length (takeWhile (\<lambda>d. d \<noteq> xs ! n) xs) = n"
proof (induction xs arbitrary: n)
  case (Cons x xs)
  then show ?case by (cases n) auto
qed simp

lemma b64_alphabet_facts: "distinct b64_alphabet" "length b64_alphabet = 64" "CHR ''='' \<notin> set b64_alphabet"
  by (simp_all add: b64_alphabet_def)

lemma b64_index_char [simp]:
  assumes "n < 64"
  shows "b64_index (b64_char n) = Some n" "b64_char n \<noteq> CHR ''=''"
proof -
  have m: "b64_char n \<in> set b64_alphabet" using assms b64_alphabet_facts by (simp add: b64_char_def)
  then show "b64_char n \<noteq> CHR ''=''" using b64_alphabet_facts(3) by metis
  from m show "b64_index (b64_char n) = Some n"
    using assms b64_alphabet_facts takeWhile_nth_distinct[of b64_alphabet n]
    by (simp add: b64_index_def b64_char_def)
qed

text \<open>The groups of six bits of three bytes, and the bytes put together again.\<close>

lemma sextets:
  assumes "(a::nat) < 256" "b < 256"
  shows "a div 4 < 64" "a mod 4 * 16 < 64" "a mod 16 * 4 < 64" "a mod 4 * 16 + b div 16 < 64" "a mod 16 * 4 + b div 64 < 64"
proof -
  have "a div 4 < 64" "b div 16 < 16" "b div 64 < 4" using assms by (simp_all add: less_mult_imp_div_less)
  moreover have "a mod 4 < 4" "a mod 16 < 16" by simp_all
  ultimately show "a div 4 < 64" "a mod 4 * 16 < 64" "a mod 16 * 4 < 64"
    "a mod 4 * 16 + b div 16 < 64" "a mod 16 * 4 + b div 64 < 64" by linarith+
qed

lemma octets:
  assumes "(b::nat) < 256"
  shows "(a mod 4 * 16 + b div 16) div 16 = a mod 4" "(a mod 4 * 16 + b div 16) mod 16 = b div 16"
    and "(a mod 16 * 4 + b div 64) div 4 = a mod 16" "(a mod 16 * 4 + b div 64) mod 4 = b div 64"
proof -
  have "b div 16 < 16" "b div 64 < 4" using assms by (simp_all add: less_mult_imp_div_less)
  then show "(a mod 4 * 16 + b div 16) div 16 = a mod 4" "(a mod 4 * 16 + b div 16) mod 16 = b div 16"
    "(a mod 16 * 4 + b div 64) div 4 = a mod 16" "(a mod 16 * 4 + b div 64) mod 4 = b div 64" by simp_all
qed

lemma b64_go_steps:
  "n < 64 \<Longrightarrow> b64_go 0 left pads (b64_char n # rest) = b64_go 1 n 0 rest"
  "n < 64 \<Longrightarrow> b64_go 1 left pads (b64_char n # rest) = rbind (b64_go 2 (n mod 16) 0 rest) (\<lambda>bs. Inr ((left * 4 + n div 16) # bs))"
  "n < 64 \<Longrightarrow> b64_go 2 left pads (b64_char n # rest) = rbind (b64_go 3 (n mod 4) 0 rest) (\<lambda>bs. Inr ((left * 16 + n div 4) # bs))"
  "n < 64 \<Longrightarrow> b64_go 3 left pads (b64_char n # rest) = rbind (b64_go 0 0 0 rest) (\<lambda>bs. Inr ((left * 64 + n) # bs))"
  by simp_all

lemma b64_go_encode: "(\<forall>b\<in>set bs. b < 256) \<Longrightarrow> b64_go 0 left pads (b64encode bs) = Inr bs"
proof (induction bs arbitrary: left pads rule: b64encode.induct)
  case (2 a)
  then have a: "a < 256" by simp
  show ?case using a by (simp add: b64_go_steps sextets del: b64_go.simps(2)) simp
next
  case (3 a b)
  then have a: "a < 256" and b: "b < 256" by simp_all
  show ?case using a b by (simp add: b64_go_steps sextets octets del: b64_go.simps(2)) simp
next
  case (4 a b c rest)
  then have a: "a < 256" and b: "b < 256" and c: "c < 256" by simp_all
  show ?case using 4 a b c
    by (simp add: b64_go_steps b64_go_steps(2)[unfolded One_nat_def] sextets octets del: b64_go.simps)
qed simp

lemma b64decode_encode: "(\<forall>b\<in>set bs. b < 256) \<Longrightarrow> b64decode (b64encode bs) = Inr bs"
  unfolding b64decode_def by (rule b64_go_encode)

end
