(* ===== verification/Settings.thy ===== *)
theory Settings
  imports Prelude
begin

text \<open>
  The settings, \<^verbatim>\<open>app/core/config/settings.py\<close>: a record per class with its declared defaults. Reading them from the environment
  is pydantic-settings; the components take the records they read as arguments. The storage settings are in
  the theory of the storage, except for the upload rules, which are here.
\<close>

record app_settings =
  app_name :: string
  app_host :: string
  app_port :: int
  app_debug :: bool
  app_workers :: int
  app_worker_max :: int
  app_process_role :: string
  app_config_crypto_key :: string
  app_timezone :: string
  app_trusted_proxy_ips :: "string list"

definition app_settings_default :: app_settings where
  "app_settings_default = \<lparr>app_name = ''hei-fastapi'', app_host = ''127.0.0.1'', app_port = 8000, app_debug = True,
     app_workers = 1, app_worker_max = 4, app_process_role = ''all'', app_config_crypto_key = [],
     app_timezone = ''Asia/Shanghai'', app_trusted_proxy_ips = []\<rparr>"

record audit_settings =
  ad_operation_queue_size :: int
  ad_operation_shutdown_timeout_seconds :: rat

definition audit_settings_default :: audit_settings where
  "audit_settings_default = \<lparr>ad_operation_queue_size = 1000, ad_operation_shutdown_timeout_seconds = 5\<rparr>"

record redis_settings =
  re_url :: string
  re_max_connections :: int

definition redis_settings_default :: redis_settings where
  "redis_settings_default = \<lparr>re_url = ''redis://localhost:6379/0'', re_max_connections = 1000\<rparr>"

record auth_settings =
  au_token_name :: string
  au_token_ttl_seconds :: int
  au_refresh_ttl_seconds :: int
  au_token_ttl_short_seconds :: int
  au_admin_register_enabled :: bool
  au_portal_register_enabled :: bool
  au_login_failure_window_seconds :: int
  au_login_account_max_failures :: int
  au_login_ip_max_failures :: int
  au_login_lock_seconds :: int
  au_password_reset_token_ttl_seconds :: int
  au_default_password :: string
  au_captcha_ttl_seconds :: int
  au_password_crypto_key_ttl_seconds :: int
  au_session_idle_timeout_seconds :: int
  au_session_bind_ip :: bool
  au_session_bind_user_agent :: bool
  au_max_concurrent_sessions :: int
  au_password_expire_days :: int

definition auth_settings_default :: auth_settings where
  "auth_settings_default = \<lparr>au_token_name = ''Authorization'', au_token_ttl_seconds = 14400,
     au_refresh_ttl_seconds = 14400, au_token_ttl_short_seconds = 7200, au_admin_register_enabled = False,
     au_portal_register_enabled = True, au_login_failure_window_seconds = 900, au_login_account_max_failures = 5,
     au_login_ip_max_failures = 30, au_login_lock_seconds = 900, au_password_reset_token_ttl_seconds = 600,
     au_default_password = [], au_captcha_ttl_seconds = 300, au_password_crypto_key_ttl_seconds = 600,
     au_session_idle_timeout_seconds = 0, au_session_bind_ip = True, au_session_bind_user_agent = False,
     au_max_concurrent_sessions = 5, au_password_expire_days = 90\<rparr>"

record mail_settings =
  ma_host :: string
  ma_port :: int
  ma_username :: string
  ma_password :: string
  ma_from_email :: string
  ma_from_name :: string
  ma_use_tls :: bool
  ma_timeout_seconds :: rat
  ma_password_reset_url :: string

definition mail_settings_default :: mail_settings where
  "mail_settings_default = \<lparr>ma_host = [], ma_port = 587, ma_username = [], ma_password = [], ma_from_email = [],
     ma_from_name = ''hei-fastapi'', ma_use_tls = True, ma_timeout_seconds = 10,
     ma_password_reset_url = ''http://localhost:5173/auth/forgot-password''\<rparr>"

record cors_settings =
  co_allow_origins :: "string list"
  co_allow_credentials :: bool
  co_allow_methods :: "string list"
  co_allow_headers :: "string list"

definition cors_settings_default :: cors_settings where
  "cors_settings_default = \<lparr>
     co_allow_origins = [''http://localhost:5173'', ''http://127.0.0.1:5173'', ''http://localhost:5163'',
       ''http://127.0.0.1:5163'', ''http://localhost:5174'', ''http://127.0.0.1:5174''],
     co_allow_credentials = True, co_allow_methods = [''GET'', ''POST'', ''PUT'', ''PATCH'', ''DELETE'', ''OPTIONS''],
     co_allow_headers = [''Authorization'', ''Content-Type'', ''X-Request-Id'', ''Accept'', ''Origin'']\<rparr>"

record celery_settings =
  cs_broker_url :: string
  cs_result_backend :: string
  cs_broker_visibility_timeout :: int
  cs_worker_log_level :: string
  cs_log_dir :: string
  cs_log_file_max_mb :: int
  cs_beat_log_level :: string
  cs_worker_pool :: string
  cs_worker_concurrency :: int
  cs_worker_without_mingle :: bool
  cs_worker_without_gossip :: bool
  cs_worker_remote_control_enabled :: bool
  cs_worker_cancel_long_running_tasks_on_connection_loss :: bool
  cs_worker_prefetch_multiplier :: int
  cs_worker_queues :: string

definition celery_settings_default :: celery_settings where
  "celery_settings_default = \<lparr>cs_broker_url = ''redis://127.0.0.1:6379/1'', cs_result_backend = [],
     cs_broker_visibility_timeout = 3600, cs_worker_log_level = ''INFO'', cs_log_dir = ''logs'', cs_log_file_max_mb = 100,
     cs_beat_log_level = ''INFO'', cs_worker_pool = ''threads'', cs_worker_concurrency = 8, cs_worker_without_mingle = True,
     cs_worker_without_gossip = True, cs_worker_remote_control_enabled = False,
     cs_worker_cancel_long_running_tasks_on_connection_loss = True, cs_worker_prefetch_multiplier = 1,
     cs_worker_queues = ''judge''\<rparr>"

record upload_settings =
  up_upload_max_bytes :: int
  up_upload_allowed_content_types :: "string list"
  up_upload_allowed_extensions :: "string list"
  up_upload_denied_extensions :: "string list"
  up_upload_category_max_length :: int
  up_public_upload_enabled :: bool

definition upload_settings_default :: upload_settings where
  "upload_settings_default = \<lparr>up_upload_max_bytes = 10485760,
     up_upload_allowed_content_types = [''image/jpeg'', ''image/png'', ''image/webp'', ''application/pdf'', ''text/plain'',
       ''video/mp4'', ''video/webm'', ''video/quicktime''],
     up_upload_allowed_extensions = [''.jpg'', ''.jpeg'', ''.png'', ''.webp'', ''.pdf'', ''.txt'', ''.mp4'', ''.webm'', ''.mov''],
     up_upload_denied_extensions = [''.exe'', ''.bat'', ''.cmd'', ''.sh'', ''.js'', ''.html'', ''.php'', ''.py'', ''.jar''],
     up_upload_category_max_length = 64, up_public_upload_enabled = False\<rparr>"

record id_generator_settings =
  ig_worker_id :: int
  ig_datacenter_id :: int

definition id_generator_settings_default :: id_generator_settings where
  "id_generator_settings_default = \<lparr>ig_worker_id = 1, ig_datacenter_id = 1\<rparr>"

record swagger_settings =
  sw_enabled :: bool

definition swagger_settings_default :: swagger_settings where
  "swagger_settings_default = \<lparr>sw_enabled = True\<rparr>"

record observability_settings =
  ob_enabled :: bool
  ob_service_name :: string
  ob_service_version :: string
  ob_environment :: string
  ob_log_enabled :: bool
  ob_log_level :: string
  ob_log_json :: bool
  ob_log_dir :: string
  ob_log_file_max_mb :: int
  ob_metrics_enabled :: bool
  ob_metrics_path :: string
  ob_tracing_enabled :: bool
  ob_otlp_enabled :: bool
  ob_otlp_endpoint :: string
  ob_sample_ratio :: rat
  ob_celery_observability_enabled :: bool
  ob_http_client_observability_enabled :: bool

definition observability_settings_default :: observability_settings where
  "observability_settings_default = \<lparr>ob_enabled = False, ob_service_name = ''hei-fastapi'',
     ob_service_version = ''0.1.0'', ob_environment = ''dev'', ob_log_enabled = True, ob_log_level = ''INFO'',
     ob_log_json = False, ob_log_dir = ''logs'', ob_log_file_max_mb = 100, ob_metrics_enabled = False,
     ob_metrics_path = ''/metrics'', ob_tracing_enabled = False, ob_otlp_enabled = False, ob_otlp_endpoint = [],
     ob_sample_ratio = 1, ob_celery_observability_enabled = False, ob_http_client_observability_enabled = False\<rparr>"

record audit_alert_settings =
  aa_enabled :: bool
  aa_webhook_url :: string
  aa_webhook_secret :: string
  aa_analysis_interval_seconds :: int
  aa_alert_cooldown_seconds :: int
  aa_rule_brute_force :: bool
  aa_rule_unusual_hours :: bool
  aa_rule_sensitive_ops :: bool
  aa_rule_bulk_delete :: bool
  aa_rule_ip_anomaly :: bool
  aa_brute_force_threshold :: int
  aa_bulk_delete_threshold :: int
  aa_ip_anomaly_threshold :: int

definition audit_alert_settings_default :: audit_alert_settings where
  "audit_alert_settings_default = \<lparr>aa_enabled = False, aa_webhook_url = [], aa_webhook_secret = [],
     aa_analysis_interval_seconds = 300, aa_alert_cooldown_seconds = 1800, aa_rule_brute_force = True,
     aa_rule_unusual_hours = True, aa_rule_sensitive_ops = True, aa_rule_bulk_delete = True, aa_rule_ip_anomaly = True,
     aa_brute_force_threshold = 10, aa_bulk_delete_threshold = 20, aa_ip_anomaly_threshold = 3\<rparr>"

record password_policy =
  pp_min_length :: int
  pp_max_length :: int
  pp_require_uppercase :: bool
  pp_require_lowercase :: bool
  pp_require_digit :: bool
  pp_require_special :: bool
  pp_expire_days :: int
  pp_history_check_count :: int
  pp_common_password_check :: bool

definition password_policy_default :: password_policy where
  "password_policy_default = \<lparr>pp_min_length = 8, pp_max_length = 128, pp_require_uppercase = True,
     pp_require_lowercase = True, pp_require_digit = True, pp_require_special = True, pp_expire_days = 90,
     pp_history_check_count = 5, pp_common_password_check = True\<rparr>"


record settings =
  st_app :: app_settings
  st_audit :: audit_settings
  st_redis :: redis_settings
  st_auth :: auth_settings
  st_mail :: mail_settings
  st_cors :: cors_settings
  st_celery :: celery_settings
  st_password_policy :: password_policy
  st_audit_alert :: audit_alert_settings
  st_id_generator :: id_generator_settings
  st_swagger :: swagger_settings
  st_observability :: observability_settings

definition settings_default :: settings where
  "settings_default = \<lparr>st_app = app_settings_default, st_audit = audit_settings_default, st_redis = redis_settings_default,
     st_auth = auth_settings_default, st_mail = mail_settings_default, st_cors = cors_settings_default,
     st_celery = celery_settings_default, st_password_policy = password_policy_default,
     st_audit_alert = audit_alert_settings_default, st_id_generator = id_generator_settings_default,
     st_swagger = swagger_settings_default, st_observability = observability_settings_default\<rparr>"

text \<open>\<^verbatim>\<open>get_settings\<close> with its cache: \<open>load\<close> reads the environment.\<close>

definition get_settings :: "(unit \<Rightarrow> settings res) \<Rightarrow> settings option \<Rightarrow> settings res \<times> settings option" where
  "get_settings load cache =
     (case cache of
        Some s \<Rightarrow> (Inr s, cache)
      | None \<Rightarrow> (case load () of Inl e \<Rightarrow> (Inl e, None) | Inr s \<Rightarrow> (Inr s, Some s)))"

end
