(* ===== verification/Errors.thy ===== *)
theory Errors
  imports PyText Settings
begin

text \<open>
  The application's exceptions and the responses they become:
  \<^verbatim>\<open>app/core/exceptions/base.py\<close>, \<^verbatim>\<open>business.py\<close> and \<^verbatim>\<open>handlers.py\<close>, with the error envelope of
  \<^verbatim>\<open>app/core/response/schema.py\<close>. Logging and the exception counters are left out.
\<close>

datatype app_error =
    BusinessError ptext
  | AuthenticationError ptext
  | AuthorizationError ptext
  | NotFoundError ptext
  | ConflictError ptext

fun app_status_code :: "app_error \<Rightarrow> int" where
  "app_status_code (BusinessError _) = 400"
| "app_status_code (AuthenticationError _) = 401"
| "app_status_code (AuthorizationError _) = 403"
| "app_status_code (NotFoundError _) = 404"
| "app_status_code (ConflictError _) = 409"

text \<open>The class attribute \<^verbatim>\<open>code\<close>, equal to the status in every class.\<close>

definition app_code :: "app_error \<Rightarrow> int" where
  "app_code e = app_status_code e"

fun app_message :: "app_error \<Rightarrow> ptext" where
  "app_message (BusinessError m) = m"
| "app_message (AuthenticationError m) = m"
| "app_message (AuthorizationError m) = m"
| "app_message (NotFoundError m) = m"
| "app_message (ConflictError m) = m"

text \<open>What reaches the handlers: an application error, FastAPI's validation error with its list of errors (location and
  message, each of which may be absent), Starlette's HTTP exception, anything else.\<close>

datatype loc_item = Loc_int int | Loc_str string

record validation_item =
  vi_loc :: "loc_item list option"
  vi_msg :: "string option"

datatype web_exn =
    App app_error
  | Validation "validation_item list"
  | Http int "string option"
  | Unexpected exn

type_synonym 'a web = "web_exn + 'a"

record web_request =
  rq_client_host :: "string option"
  rq_headers :: "string \<Rightarrow> string option"

record error_response =
  er_status_code :: int
  er_code :: int
  er_message :: ptext
  er_headers :: "(string \<times> string) list"

section \<open>handlers.py\<close>

definition build_cors_headers :: "cors_settings \<Rightarrow> web_request \<Rightarrow> (string \<times> string) list" where
  "build_cors_headers cors request =
     (case rq_headers request ''origin'' of
        None \<Rightarrow> []
      | Some origin \<Rightarrow>
          if origin = [] \<or> origin \<notin> set (co_allow_origins cors) then []
          else [(''Access-Control-Allow-Origin'', origin), (''Vary'', ''Origin'')]
             @ (if co_allow_credentials cors then [(''Access-Control-Allow-Credentials'', ''true'')] else []))"

definition build_error_response ::
  "cors_settings \<Rightarrow> web_request \<Rightarrow> int \<Rightarrow> int \<Rightarrow> ptext \<Rightarrow> error_response" where
  "build_error_response cors request status_code code message =
     \<lparr>er_status_code = status_code, er_code = code, er_message = message,
      er_headers = build_cors_headers cors request\<rparr>"

fun path_step :: "string list \<Rightarrow> loc_item \<Rightarrow> string list" where
  "path_step parts (Loc_int i) =
     (if parts \<noteq> [] then butlast parts @ [last parts @ ''['' @ str_int i @ '']'']
      else parts @ [''['' @ str_int i @ '']''])"
| "path_step parts (Loc_str s) = parts @ [s]"

definition format_validation_path :: "loc_item list \<Rightarrow> string" where
  "format_validation_path loc =
     join_with ''.'' (filter (\<lambda>p. p \<noteq> []) (foldl path_step [] (drop 1 loc)))"

definition build_validation_message :: "validation_item list \<Rightarrow> string" where
  "build_validation_message errors =
     (case errors of
        [] \<Rightarrow> ''Validation failed''
      | first_error # _ \<Rightarrow>
          let path = format_validation_path (case vi_loc first_error of None \<Rightarrow> [] | Some l \<Rightarrow> l);
              detail = (case vi_msg first_error of None \<Rightarrow> ''Validation failed'' | Some m \<Rightarrow> m)
          in if path \<noteq> [] then path @ '': '' @ detail else detail)"

text \<open>\<^verbatim>\<open>None\<close> stands for a detail that is not a string.\<close>

definition extract_http_exception_message :: "string option \<Rightarrow> string" where
  "extract_http_exception_message detail =
     (case detail of None \<Rightarrow> ''HTTP request error'' | Some d \<Rightarrow> if d \<noteq> [] then d else ''HTTP request error'')"

fun handle_exception :: "cors_settings \<Rightarrow> web_request \<Rightarrow> web_exn \<Rightarrow> error_response" where
  "handle_exception cors request (App e) =
     build_error_response cors request (app_status_code e) (app_code e) (app_message e)"
| "handle_exception cors request (Validation errors) =
     build_error_response cors request 422 422 (asc (build_validation_message errors))"
| "handle_exception cors request (Http status detail) =
     build_error_response cors request status status (asc (extract_http_exception_message detail))"
| "handle_exception cors request (Unexpected e) =
     build_error_response cors request 500 500 (asc ''Internal server error'')"

section \<open>Facts\<close>

lemma handle_exception_code: "er_code (handle_exception cors request e) = er_status_code (handle_exception cors request e)"
  by (cases e) (simp_all add: build_error_response_def app_code_def)

lemma handle_exception_headers: "er_headers (handle_exception cors request e) = build_cors_headers cors request"
  by (cases e) (simp_all add: build_error_response_def)

end
