(* ===== verification/Session.thy ===== *)
theory Session
  imports PyFloat Settings
begin

text \<open>
  The session store, \<^verbatim>\<open>app/core/security/session.py\<close>, with the key names of
  \<^verbatim>\<open>app/platform/cache/keys.py\<close>.

  Redis is a record of the commands the store uses, over an abstract state; \<open>redis_ok\<close> collects the
  documented behaviour the store relies on. The JSON text of a session is the session itself. A pipeline is its
  commands in order. A time stamp that does not parse is \<open>Unparsable\<close>; the clock does not advance within a call.
  The three Redis calls of \<^verbatim>\<open>_check_idle_timeout\<close> are not awaited, so they have no effect.
\<close>

section \<open>keys.py\<close>

definition login_token_key :: "string \<Rightarrow> string" where
  "login_token_key token = ''login:token:'' @ token"

definition login_account_tokens_key :: "string \<Rightarrow> string \<Rightarrow> string" where
  "login_account_tokens_key account_type account_id = ''login:account:'' @ account_type @ '':'' @ account_id"

definition login_tokens_key :: string where
  "login_tokens_key = ''login:tokens''"

section \<open>Redis\<close>

record ('s, 'v) redis =
  rs_setex :: "rat \<Rightarrow> string \<Rightarrow> int \<Rightarrow> 'v \<Rightarrow> 's \<Rightarrow> 's"
  rs_set :: "string \<Rightarrow> 'v \<Rightarrow> 's \<Rightarrow> 's"
  rs_get :: "rat \<Rightarrow> string \<Rightarrow> 's \<Rightarrow> 'v option"
  rs_sadd :: "string \<Rightarrow> string \<Rightarrow> 's \<Rightarrow> 's"
  rs_srem :: "string \<Rightarrow> string list \<Rightarrow> 's \<Rightarrow> 's"
  rs_smembers :: "string \<Rightarrow> 's \<Rightarrow> string list"
  rs_delete :: "string list \<Rightarrow> 's \<Rightarrow> 's"

definition redis_ok :: "('s, 'v) redis \<Rightarrow> bool" where
  "redis_ok R =
     ((\<forall>now k ttl v s t q. 0 < ttl \<longrightarrow> rs_get R t q (rs_setex R now k ttl v s) =
          (if q = k then (if t < now + of_int ttl then Some v else None) else rs_get R t q s))
      \<and> (\<forall>now k ttl v s q. q \<noteq> k \<longrightarrow> rs_smembers R q (rs_setex R now k ttl v s) = rs_smembers R q s)
      \<and> (\<forall>k v s t q. rs_get R t q (rs_set R k v s) = (if q = k then Some v else rs_get R t q s))
      \<and> (\<forall>k v s q. q \<noteq> k \<longrightarrow> rs_smembers R q (rs_set R k v s) = rs_smembers R q s)
      \<and> (\<forall>k e s t q. q \<noteq> k \<longrightarrow> rs_get R t q (rs_sadd R k e s) = rs_get R t q s)
      \<and> (\<forall>k e s q. set (rs_smembers R q (rs_sadd R k e s)) =
            (if q = k then insert e (set (rs_smembers R q s)) else set (rs_smembers R q s)))
      \<and> (\<forall>k es s t q. q \<noteq> k \<longrightarrow> rs_get R t q (rs_srem R k es s) = rs_get R t q s)
      \<and> (\<forall>k es s q. set (rs_smembers R q (rs_srem R k es s)) =
            (if q = k then set (rs_smembers R q s) - set es else set (rs_smembers R q s)))
      \<and> (\<forall>ks s t q. rs_get R t q (rs_delete R ks s) = (if q \<in> set ks then None else rs_get R t q s))
      \<and> (\<forall>ks s q. set (rs_smembers R q (rs_delete R ks s)) =
            (if q \<in> set ks then {} else set (rs_smembers R q s))))"

section \<open>Payload and settings\<close>

record permission_grant =
  gr_permission_key :: string
  gr_data_scope :: string
  gr_custom_scope_dept_ids :: "string list"
  gr_effect :: string
  gr_source_type :: string
  gr_source_id :: string

datatype stamp = Stamp rat | Unparsable

record session_payload =
  sp_token :: string
  sp_account_id :: string
  sp_account_type :: string
  sp_role_ids :: "string list"
  sp_dept_ids :: "string list"
  sp_group_ids :: "string list"
  sp_resource_ids :: "string list"
  sp_button_codes :: "string list"
  sp_permission_keys :: "string list"
  sp_permission_grants :: "permission_grant list"
  sp_client_ip :: "string option"
  sp_user_agent :: "string option"
  sp_remember_me :: bool
  sp_password_expired :: bool
  sp_device_label :: "string option"
  sp_login_at :: "stamp option"
  sp_last_active_at :: "stamp option"
  sp_expires_at :: "stamp option"

text \<open>\<^verbatim>\<open>datetime.min\<close> in seconds of the Unix epoch.\<close>

definition datetime_min :: rat where
  "datetime_min = - 62135596800"

definition parse_datetime_or_epoch :: "stamp option \<Rightarrow> rat" where
  "parse_datetime_or_epoch v = (case v of Some (Stamp t) \<Rightarrow> t | _ \<Rightarrow> datetime_min)"

section \<open>session.py\<close>

text \<open>Every operation starts with the client, or fails; below, \<open>R\<close> is the client it returns.\<close>

definition get_required_redis :: "('s, session_payload) redis option \<Rightarrow> string + ('s, session_payload) redis" where
  "get_required_redis client =
     (case client of None \<Rightarrow> Inl ''Redis is required for session store'' | Some R \<Rightarrow> Inr R)"

definition session_set ::
  "('s, session_payload) redis \<Rightarrow> rat \<Rightarrow> session_payload \<Rightarrow> int \<Rightarrow> 's \<Rightarrow> 's" where
  "session_set R now p ttl_seconds s =
     rs_sadd R login_tokens_key (sp_token p)
       (rs_sadd R (login_account_tokens_key (sp_account_type p) (sp_account_id p)) (sp_token p)
         (rs_setex R now (login_token_key (sp_token p)) ttl_seconds p s))"

text \<open>Whether the session is still valid; the deletions of an idle one are never awaited.\<close>

definition check_idle_timeout :: "auth_settings \<Rightarrow> rat \<Rightarrow> session_payload \<Rightarrow> session_payload option" where
  "check_idle_timeout au now p =
     (if au_session_idle_timeout_seconds au \<le> 0 \<or> sp_last_active_at p = None then Some p
      else if of_int (au_session_idle_timeout_seconds au) < now - parse_datetime_or_epoch (sp_last_active_at p)
      then None else Some p)"

definition session_get ::
  "auth_settings \<Rightarrow> ('s, session_payload) redis \<Rightarrow> rat \<Rightarrow> string \<Rightarrow> 's \<Rightarrow> session_payload option" where
  "session_get au R now token s =
     (case rs_get R now (login_token_key token) s of
        None \<Rightarrow> None
      | Some p \<Rightarrow> check_idle_timeout au now p)"

definition session_touch ::
  "auth_settings \<Rightarrow> ('s, session_payload) redis \<Rightarrow> rat \<Rightarrow> string \<Rightarrow> 's \<Rightarrow> 's" where
  "session_touch au R now token s =
     (case rs_get R now (login_token_key token) s of
        None \<Rightarrow> s
      | Some p \<Rightarrow>
          rs_setex R now (login_token_key token)
            (if sp_remember_me p then au_token_ttl_seconds au else au_token_ttl_short_seconds au)
            (p\<lparr>sp_last_active_at := Some (Stamp now)\<rparr>) s)"

definition get_accounts_tokens ::
  "('s, session_payload) redis \<Rightarrow> (string \<times> string) list \<Rightarrow> 's \<Rightarrow> ((string \<times> string) \<times> string list) list" where
  "get_accounts_tokens R targets s =
     map (\<lambda>target. (target, rs_smembers R (login_account_tokens_key (fst target) (snd target)) s)) (dedup targets)"

definition get_account_tokens :: "('s, session_payload) redis \<Rightarrow> string \<Rightarrow> string \<Rightarrow> 's \<Rightarrow> string list" where
  "get_account_tokens R account_type account_id s =
     (case map_of (get_accounts_tokens R [(account_type, account_id)] s) (account_type, account_id) of
        None \<Rightarrow> [] | Some ts \<Rightarrow> ts)"

definition list_tokens :: "('s, session_payload) redis \<Rightarrow> 's \<Rightarrow> string list" where
  "list_tokens R s = rs_smembers R login_tokens_key s"

definition list_sessions_by_tokens ::
  "auth_settings \<Rightarrow> ('s, session_payload) redis \<Rightarrow> rat \<Rightarrow> string list \<Rightarrow> 's \<Rightarrow> session_payload list \<times> 's" where
  "list_sessions_by_tokens au R now tokens s =
     (let unique_tokens = dedup tokens;
          sessions = List.map_filter (\<lambda>t. session_get au R now t s) unique_tokens;
          stale_tokens = filter (\<lambda>t. session_get au R now t s = None) unique_tokens
      in (sessions, if stale_tokens = [] then s else rs_srem R login_tokens_key stale_tokens s))"

definition list_account_sessions ::
  "auth_settings \<Rightarrow> ('s, session_payload) redis \<Rightarrow> rat \<Rightarrow> string \<Rightarrow> string \<Rightarrow> 's \<Rightarrow> session_payload list \<times> 's" where
  "list_account_sessions au R now account_type account_id s =
     (case list_sessions_by_tokens au R now (get_account_tokens R account_type account_id s) s of
        (sessions, s') \<Rightarrow> (sort_key (\<lambda>p. parse_datetime_or_epoch (sp_login_at p)) sessions, s'))"

definition delete_keys :: "('s, session_payload) redis \<Rightarrow> string list \<Rightarrow> 's \<Rightarrow> 's" where
  "delete_keys R keys s = (if dedup keys = [] then s else rs_delete R (dedup keys) s)"

definition session_delete ::
  "auth_settings \<Rightarrow> ('s, session_payload) redis \<Rightarrow> rat \<Rightarrow> string \<Rightarrow> 's \<Rightarrow> 's" where
  "session_delete au R now token s =
     (let payload = session_get au R now token s;
          s1 = rs_srem R login_tokens_key [token] (delete_keys R [login_token_key token] s)
      in case payload of
           None \<Rightarrow> s1
         | Some p \<Rightarrow> rs_srem R (login_account_tokens_key (sp_account_type p) (sp_account_id p)) [token] s1)"

definition prune_excess_sessions ::
  "auth_settings \<Rightarrow> ('s, session_payload) redis \<Rightarrow> rat \<Rightarrow> string \<Rightarrow> string \<Rightarrow> int \<Rightarrow> 's \<Rightarrow> 's" where
  "prune_excess_sessions au R now account_type account_id max_sessions s =
     (if max_sessions \<le> 0 then s
      else case list_account_sessions au R now account_type account_id s of
        (sessions, s') \<Rightarrow>
          if int (length sessions) \<le> max_sessions then s'
          else foldl (\<lambda>s p. session_delete au R now (sp_token p) s) s'
                 (take (length sessions - nat max_sessions) sessions))"

definition delete_accounts_sessions ::
  "('s, session_payload) redis \<Rightarrow> (string \<times> string) list \<Rightarrow> 's \<Rightarrow> 's" where
  "delete_accounts_sessions R targets s =
     (let unique_targets = dedup targets in
      if unique_targets = [] then s
      else
        let tokens = concat (map snd (get_accounts_tokens R unique_targets s));
            keys = map login_token_key tokens @ map (\<lambda>(t, i). login_account_tokens_key t i) unique_targets;
            s1 = delete_keys R keys s
        in if tokens = [] then s1 else rs_srem R login_tokens_key tokens s1)"

definition delete_account_sessions ::
  "('s, session_payload) redis \<Rightarrow> string \<Rightarrow> string \<Rightarrow> 's \<Rightarrow> 's" where
  "delete_account_sessions R account_type account_id s =
     delete_accounts_sessions R [(account_type, account_id)] s"

text \<open>\<^verbatim>\<open>_set_sessions\<close>: the refreshed sessions under their old tokens.\<close>

definition set_sessions ::
  "auth_settings \<Rightarrow> ('s, session_payload) redis \<Rightarrow> rat \<Rightarrow> (session_payload \<times> string) list \<Rightarrow> 's \<Rightarrow> 's" where
  "set_sessions au R now updates s =
     foldl (\<lambda>s (p, token).
         rs_sadd R login_tokens_key token
           (rs_sadd R (login_account_tokens_key (sp_account_type p) (sp_account_id p)) token
             (rs_setex R now (login_token_key token) (au_token_ttl_seconds au) p s))) s updates"

definition refresh_accounts_sessions ::
  "auth_settings \<Rightarrow> ('s, session_payload) redis \<Rightarrow> rat \<Rightarrow> (string \<times> string) list
     \<Rightarrow> (string \<times> string \<Rightarrow> (string \<Rightarrow> session_payload) option) \<Rightarrow> 's \<Rightarrow> 's" where
  "refresh_accounts_sessions au R now targets payload_factories s =
     (let unique_targets = filter (\<lambda>t. payload_factories t \<noteq> None) (dedup targets);
          token_map = get_accounts_tokens R unique_targets s;
          token_targets = concat (map (\<lambda>(target, ts). map (\<lambda>t. (t, target)) ts) token_map);
          live = filter (\<lambda>(t, _). rs_get R now (login_token_key t) s \<noteq> None) token_targets;
          updates = map (\<lambda>(t, target). (the (payload_factories target) t, t)) live
      in if updates = [] then s else set_sessions au R now updates s)"

definition refresh_account_sessions ::
  "auth_settings \<Rightarrow> ('s, session_payload) redis \<Rightarrow> rat \<Rightarrow> string \<Rightarrow> string \<Rightarrow> (string \<Rightarrow> session_payload) \<Rightarrow> 's \<Rightarrow> 's" where
  "refresh_account_sessions au R now account_type account_id factory s =
     refresh_accounts_sessions au R now [(account_type, account_id)]
       (\<lambda>t. if t = (account_type, account_id) then Some factory else None) s"

section \<open>Facts\<close>

lemma token_key_inj [simp]: "login_token_key t = login_token_key t' \<longleftrightarrow> t = t'"
  by (simp add: login_token_key_def)

lemma token_key_distinct [simp]:
  "login_token_key t \<noteq> login_tokens_key" "login_tokens_key \<noteq> login_token_key t"
  "login_token_key t \<noteq> login_account_tokens_key a i" "login_account_tokens_key a i \<noteq> login_token_key t"
  "login_tokens_key \<noteq> login_account_tokens_key a i" "login_account_tokens_key a i \<noteq> login_tokens_key"
  by (simp_all add: login_token_key_def login_tokens_key_def login_account_tokens_key_def)

lemma redis_setex:
  assumes "redis_ok R"
  shows "0 < ttl \<Longrightarrow> rs_get R t q (rs_setex R now k ttl v s) =
          (if q = k then (if t < now + of_int ttl then Some v else None) else rs_get R t q s)"
    and "q \<noteq> k \<Longrightarrow> rs_smembers R q (rs_setex R now k ttl v s) = rs_smembers R q s"
  using assms unfolding redis_ok_def by simp_all

lemma redis_sets:
  assumes "redis_ok R"
  shows "q \<noteq> k \<Longrightarrow> rs_get R t q (rs_sadd R k e s) = rs_get R t q s"
    and "set (rs_smembers R q (rs_sadd R k e s)) =
            (if q = k then insert e (set (rs_smembers R q s)) else set (rs_smembers R q s))"
    and "q \<noteq> k \<Longrightarrow> rs_get R t q (rs_srem R k es s) = rs_get R t q s"
    and "set (rs_smembers R q (rs_srem R k es s)) =
            (if q = k then set (rs_smembers R q s) - set es else set (rs_smembers R q s))"
    and "rs_get R t q (rs_delete R ks s) = (if q \<in> set ks then None else rs_get R t q s)"
    and "set (rs_smembers R q (rs_delete R ks s)) = (if q \<in> set ks then {} else set (rs_smembers R q s))"
  using assms unfolding redis_ok_def by simp_all

lemma redis_set:
  assumes "redis_ok R"
  shows "rs_get R t q (rs_set R k v s) = (if q = k then Some v else rs_get R t q s)"
  using assms unfolding redis_ok_def by simp

lemmas redis_laws = redis_setex redis_sets

text \<open>Every stored session carries its own token and is listed in the index of its account.\<close>

definition session_inv :: "('s, session_payload) redis \<Rightarrow> 's \<Rightarrow> bool" where
  "session_inv R s =
     (\<forall>now t p. rs_get R now (login_token_key t) s = Some p \<longrightarrow>
        sp_token p = t \<and> t \<in> set (rs_smembers R (login_account_tokens_key (sp_account_type p) (sp_account_id p)) s))"

lemma session_invD:
  "session_inv R s \<Longrightarrow> rs_get R now (login_token_key t) s = Some p \<Longrightarrow>
     sp_token p = t \<and> t \<in> set (rs_smembers R (login_account_tokens_key (sp_account_type p) (sp_account_id p)) s)"
  by (simp add: session_inv_def)

text \<open>Storing a session under its token, as login and refresh do.\<close>

lemma sessions_store:
  assumes "redis_ok R" "session_inv R s" "0 < ttl" "sp_token p = token"
  shows "session_inv R (rs_sadd R login_tokens_key token
       (rs_sadd R (login_account_tokens_key (sp_account_type p) (sp_account_id p)) token
         (rs_setex R now (login_token_key token) ttl p s)))"
  unfolding session_inv_def
proof (intro allI impI)
  let ?s = "rs_sadd R login_tokens_key token
       (rs_sadd R (login_account_tokens_key (sp_account_type p) (sp_account_id p)) token
         (rs_setex R now (login_token_key token) ttl p s))"
  fix t q pa assume g: "rs_get R t (login_token_key q) ?s = Some pa"
  show "sp_token pa = q \<and> q \<in> set (rs_smembers R (login_account_tokens_key (sp_account_type pa) (sp_account_id pa)) ?s)"
  proof (cases "q = token")
    case True
    with g assms show ?thesis by (simp add: redis_laws split: if_splits)
  next
    case False
    with g assms have "rs_get R t (login_token_key q) s = Some pa" by (simp add: redis_laws)
    from session_invD[OF assms(2) this] assms(1) show ?thesis by (metis (no_types, lifting) insertCI redis_setex(2) redis_sets(2) token_key_distinct(3,4,5,6))
  qed
qed

lemma sessions_set: "redis_ok R \<Longrightarrow> session_inv R s \<Longrightarrow> 0 < ttl \<Longrightarrow> session_inv R (session_set R now p ttl s)"
  unfolding session_set_def by (rule sessions_store) auto

lemma sessions_touch:
  assumes "redis_ok R" "session_inv R s" "0 < au_token_ttl_seconds au" "0 < au_token_ttl_short_seconds au"
  shows "session_inv R (session_touch au R now token s)"
proof (cases "rs_get R now (login_token_key token) s")
  case (Some p)
  from session_invD[OF assms(2) Some] show ?thesis
    using assms Some by (auto simp: session_touch_def session_inv_def redis_laws split: if_splits)
qed (simp add: session_touch_def assms)

lemma sessions_srem_global: "redis_ok R \<Longrightarrow> session_inv R s \<Longrightarrow> session_inv R (rs_srem R login_tokens_key ts s)"
  by (simp add: session_inv_def redis_laws)

lemma sessions_list: "redis_ok R \<Longrightarrow> session_inv R s \<Longrightarrow> session_inv R (snd (list_account_sessions au R now a i s))"
  by (simp add: list_account_sessions_def list_sessions_by_tokens_def Let_def sessions_srem_global split: prod.splits)

lemma session_delete_get:
  "redis_ok R \<Longrightarrow> rs_get R t (login_token_key q) (session_delete au R now token s) =
     (if q = token then None else rs_get R t (login_token_key q) s)"
  by (auto simp: session_delete_def delete_keys_def dedup_def dedup_step_def Let_def redis_laws split: option.splits)

lemma session_delete_members:
  "redis_ok R \<Longrightarrow> q \<noteq> token \<Longrightarrow>
     q \<in> set (rs_smembers R (login_account_tokens_key a i) (session_delete au R now token s))
       \<longleftrightarrow> q \<in> set (rs_smembers R (login_account_tokens_key a i) s)"
  by (auto simp: session_delete_def delete_keys_def dedup_def dedup_step_def Let_def redis_laws split: option.splits)

lemma sessions_delete: "redis_ok R \<Longrightarrow> session_inv R s \<Longrightarrow> session_inv R (session_delete au R now token s)"
  by (auto simp: session_inv_def session_delete_get session_delete_members split: if_splits)

lemma sessions_deletes: "redis_ok R \<Longrightarrow> session_inv R s \<Longrightarrow> session_inv R (foldl (\<lambda>s p. session_delete au R now (sp_token p) s) s ps)"
  by (induction ps arbitrary: s) (simp_all add: sessions_delete)

lemma sessions_prune: "redis_ok R \<Longrightarrow> session_inv R s \<Longrightarrow> session_inv R (prune_excess_sessions au R now a i n s)"
  using sessions_list[of R s au now a i] by (auto simp: prune_excess_sessions_def sessions_deletes split: prod.splits)

lemma dedup_eq_Nil [simp]: "dedup xs = [] \<longleftrightarrow> xs = []"
  by (metis set_dedup set_empty)

lemma accounts_deleted_get:
  assumes "redis_ok R" "session_inv R s"
    and "rs_get R t (login_token_key q) (delete_accounts_sessions R targets s) = Some p"
  shows "rs_get R t (login_token_key q) s = Some p"
    and "\<And>a i. (a, i) \<in> set targets
           \<Longrightarrow> login_account_tokens_key a i \<noteq> login_account_tokens_key (sp_account_type p) (sp_account_id p)"
proof -
  let ?toks = "concat (map snd (get_accounts_tokens R (dedup targets) s))"
  have toks: "q \<in> set ?toks" if "(a, i) \<in> set targets" "q \<in> set (rs_smembers R (login_account_tokens_key a i) s)" for a i
    using that by (force simp: get_accounts_tokens_def)
  have gone: "rs_get R t (login_token_key q) s = Some p \<and> (targets \<noteq> [] \<longrightarrow> q \<notin> set ?toks)"
  proof (cases "dedup targets = []")
    case True
    then have "targets = []" by (metis set_dedup set_empty)
    with True assms(3) show ?thesis by (simp add: delete_accounts_sessions_def)
  next
    case False
    with assms(1,3) show ?thesis
      by (auto simp: delete_accounts_sessions_def delete_keys_def Let_def redis_laws split: if_splits)
  qed
  then show "rs_get R t (login_token_key q) s = Some p" by simp
  with session_invD[OF assms(2)] gone toks
  show "(a, i) \<in> set targets
      \<Longrightarrow> login_account_tokens_key a i \<noteq> login_account_tokens_key (sp_account_type p) (sp_account_id p)" for a i
    by (metis empty_iff empty_set)
qed

lemma sessions_delete_accounts:
  assumes "redis_ok R" "session_inv R s"
  shows "session_inv R (delete_accounts_sessions R targets s)"
  unfolding session_inv_def
proof (intro allI impI)
  fix now t p assume g: "rs_get R now (login_token_key t) (delete_accounts_sessions R targets s) = Some p"
  note old = accounts_deleted_get[OF assms g]
  let ?k = "login_account_tokens_key (sp_account_type p) (sp_account_id p)"
  have "set (rs_smembers R ?k (delete_accounts_sessions R targets s)) = set (rs_smembers R ?k s)"
    using assms(1) old(2) by (force simp: delete_accounts_sessions_def delete_keys_def Let_def redis_laws)
  with session_invD[OF assms(2) old(1)]
  show "sp_token p = t \<and> t \<in> set (rs_smembers R ?k (delete_accounts_sessions R targets s))" by simp
qed

lemma sessions_set_sessions:
  assumes "redis_ok R" "session_inv R s" "0 < au_token_ttl_seconds au" "\<forall>(p, t)\<in>set us. sp_token p = t"
  shows "session_inv R (set_sessions au R now us s)"
  using assms(2,4) unfolding set_sessions_def
proof (induction us arbitrary: s)
  case (Cons u us)
  then show ?case by (cases u) (simp add: sessions_store[OF assms(1) _ assms(3)])
qed simp

lemma sessions_refresh:
  assumes "redis_ok R" "session_inv R s" "0 < au_token_ttl_seconds au"
    and "\<And>target f t. factories target = Some f \<Longrightarrow> sp_token (f t) = t"
  shows "session_inv R (refresh_accounts_sessions au R now targets factories s)"
proof -
  have kept: "\<forall>t. sp_token (f t) = t" if "factories target = Some f" for target f
    using assms(4)[OF that] by blast
  show ?thesis
    unfolding refresh_accounts_sessions_def Let_def
    by (auto intro!: sessions_set_sessions[OF assms(1-3)] simp: assms(2) get_accounts_tokens_def) (use kept in force)
qed

section \<open>Runs\<close>

text \<open>
  The states a sequence of store operations produces from a Redis without sessions. The settings \<open>au\<close> have
  positive lifetimes, and a payload factory keeps the token it is given.
\<close>

inductive session_run :: "auth_settings \<Rightarrow> ('s, session_payload) redis \<Rightarrow> 's \<Rightarrow> 's \<Rightarrow> bool" for au R s0 where
  start: "session_run au R s0 s0"
| set: "session_run au R s0 s \<Longrightarrow> 0 < ttl \<Longrightarrow> session_run au R s0 (session_set R now p ttl s)"
| touch: "session_run au R s0 s \<Longrightarrow> session_run au R s0 (session_touch au R now token s)"
| listed: "session_run au R s0 s \<Longrightarrow> session_run au R s0 (snd (list_account_sessions au R now a i s))"
| prune: "session_run au R s0 s \<Longrightarrow> session_run au R s0 (prune_excess_sessions au R now a i n s)"
| delete: "session_run au R s0 s \<Longrightarrow> session_run au R s0 (session_delete au R now token s)"
| delete_accounts: "session_run au R s0 s \<Longrightarrow> session_run au R s0 (delete_accounts_sessions R targets s)"
| refresh: "session_run au R s0 s \<Longrightarrow> (\<And>target f t. factories target = Some f \<Longrightarrow> sp_token (f t) = t)
     \<Longrightarrow> session_run au R s0 (refresh_accounts_sessions au R now targets factories s)"

definition no_sessions :: "('s, session_payload) redis \<Rightarrow> 's \<Rightarrow> bool" where
  "no_sessions R s = (\<forall>now t. rs_get R now (login_token_key t) s = None)"

lemma session_run_inv:
  assumes "session_run au R s0 s" "redis_ok R" "no_sessions R s0"
    and "0 < au_token_ttl_seconds au" "0 < au_token_ttl_short_seconds au"
  shows "session_inv R s"
  using assms
proof (induction rule: session_run.induct)
  case start
  then show ?case by (simp add: no_sessions_def session_inv_def)
qed (simp_all add: sessions_set sessions_touch sessions_list sessions_prune sessions_delete sessions_delete_accounts sessions_refresh)

section \<open>Pruning\<close>

lemma session_get_token:
  "session_inv R s \<Longrightarrow> session_get au R now t s = Some p \<Longrightarrow> sp_token p = t"
  by (auto simp: session_get_def check_idle_timeout_def session_inv_def split: option.splits if_splits)

lemma get_after_deletes:
  "redis_ok R \<Longrightarrow> session_get au R now t (foldl (\<lambda>s p. session_delete au R now (sp_token p) s) s ps) =
     (if t \<in> sp_token ` set ps then None else session_get au R now t s)"
  by (induction ps arbitrary: s) (auto simp: session_get_def session_delete_get)

lemma members_after_deletes:
  assumes "redis_ok R" "t \<notin> sp_token ` set ps"
  shows "t \<in> set (rs_smembers R (login_account_tokens_key a i) (foldl (\<lambda>s p. session_delete au R now (sp_token p) s) s ps))
     \<longleftrightarrow> t \<in> set (rs_smembers R (login_account_tokens_key a i) s)"
  using assms(2) by (induction ps arbitrary: s) (simp_all add: session_delete_members[OF assms(1)])

lemma set_map_filter_Some: "set (List.map_filter f xs) = {y. \<exists>x\<in>set xs. f x = Some y}"
  by (induction xs) (auto simp: List.map_filter_simps split: option.splits)

lemma account_tokens [simp]: "get_account_tokens R a i s = rs_smembers R (login_account_tokens_key a i) s"
  by (simp add: get_account_tokens_def get_accounts_tokens_def dedup_def dedup_step_def)

lemma listed_sessions:
  "set (fst (list_account_sessions au R now a i s)) =
     {p. \<exists>t\<in>set (rs_smembers R (login_account_tokens_key a i) s). session_get au R now t s = Some p}"
  by (simp add: list_account_sessions_def list_sessions_by_tokens_def Let_def set_map_filter_Some)

lemma distinct_tokens_map_filter:
  assumes "distinct ts" "\<And>t p. f t = Some p \<Longrightarrow> sp_token p = t"
  shows "distinct (map sp_token (List.map_filter f ts))"
  using assms(1)
proof (induction ts)
  case (Cons t ts)
  then show ?case
    using assms(2) by (auto simp: List.map_filter_simps set_map_filter_Some split: option.splits)
qed (simp add: List.map_filter_simps)

lemma listed_distinct:
  assumes "session_inv R s"
  shows "distinct (map sp_token (fst (list_account_sessions au R now a i s)))"
proof -
  let ?l = "List.map_filter (\<lambda>t. session_get au R now t s) (dedup (rs_smembers R (login_account_tokens_key a i) s))"
  have "distinct (map sp_token ?l)"
    using session_get_token[OF assms] by (intro distinct_tokens_map_filter distinct_dedup)
  then have "distinct ?l \<and> inj_on sp_token (set ?l)" by (simp add: distinct_map)
  then show ?thesis
    by (simp add: list_account_sessions_def list_sessions_by_tokens_def Let_def distinct_map)
qed

lemma listed_state:
  assumes "redis_ok R"
  shows "session_get au R now t (snd (list_account_sessions au R now a i s)) = session_get au R now t s"
    and "set (rs_smembers R (login_account_tokens_key b j) (snd (list_account_sessions au R now a i s)))
           = set (rs_smembers R (login_account_tokens_key b j) s)"
  using assms by (simp_all add: list_account_sessions_def list_sessions_by_tokens_def Let_def session_get_def redis_laws)

lemma listed_sorted:
  "sorted (map (\<lambda>p. parse_datetime_or_epoch (sp_login_at p)) (fst (list_account_sessions au R now a i s)))"
  by (simp add: list_account_sessions_def split: prod.splits)

lemma prune_state:
  assumes "0 < max_sessions"
  shows "prune_excess_sessions au R now a i max_sessions s =
     (let sessions = fst (list_account_sessions au R now a i s) in
      foldl (\<lambda>s p. session_delete au R now (sp_token p) s) (snd (list_account_sessions au R now a i s))
        (take (length sessions - nat max_sessions) sessions))"
  using assms by (simp add: prune_excess_sessions_def Let_def split: prod.splits)

lemma sorted_take_drop:
  assumes "sorted (map f xs)" "p \<in> set (take n xs)" "q \<in> set (drop n xs)"
  shows "f p \<le> f q"
proof -
  have "sorted (map f (take n xs) @ map f (drop n xs))"
    using assms(1) by (simp flip: map_append)
  with assms(2,3) show ?thesis by (simp add: sorted_append)
qed

section \<open>A concrete Redis\<close>

text \<open>Strings with their expiry time, if any, and sets.\<close>

record 'v redis_data =
  rd_strings :: "string \<Rightarrow> ('v \<times> rat option) option"
  rd_sets :: "string \<Rightarrow> string list"

definition redis_impl :: "('v redis_data, 'v) redis" where
  "redis_impl = \<lparr>
     rs_setex = (\<lambda>now k ttl v s. s\<lparr>rd_strings := (rd_strings s)(k \<mapsto> (v, Some (now + of_int ttl)))\<rparr>),
     rs_set = (\<lambda>k v s. s\<lparr>rd_strings := (rd_strings s)(k \<mapsto> (v, None))\<rparr>),
     rs_get = (\<lambda>now k s. case rd_strings s k of None \<Rightarrow> None
       | Some (v, expires) \<Rightarrow> (case expires of None \<Rightarrow> Some v | Some e \<Rightarrow> if now < e then Some v else None)),
     rs_sadd = (\<lambda>k e s. s\<lparr>rd_sets := (rd_sets s)(k := List.insert e (rd_sets s k))\<rparr>),
     rs_srem = (\<lambda>k es s. s\<lparr>rd_sets := (rd_sets s)(k := filter (\<lambda>e. e \<notin> set es) (rd_sets s k))\<rparr>),
     rs_smembers = (\<lambda>k s. rd_sets s k),
     rs_delete = (\<lambda>ks s. \<lparr>rd_strings = (\<lambda>q. if q \<in> set ks then None else rd_strings s q),
                          rd_sets = (\<lambda>q. if q \<in> set ks then [] else rd_sets s q)\<rparr>)\<rparr>"

definition redis_empty :: "'v redis_data" where
  "redis_empty = \<lparr>rd_strings = Map.empty, rd_sets = (\<lambda>_. [])\<rparr>"

lemma redis_impl_ok: "redis_ok redis_impl"
  by (auto simp: redis_ok_def redis_impl_def)

lemma redis_empty_no_sessions: "no_sessions redis_impl redis_empty"
  by (simp add: no_sessions_def redis_impl_def redis_empty_def)

definition demo_session :: "string \<Rightarrow> string \<Rightarrow> rat \<Rightarrow> session_payload" where
  "demo_session token account login =
     \<lparr>sp_token = token, sp_account_id = account, sp_account_type = ''ADMIN'', sp_role_ids = [], sp_dept_ids = [],
      sp_group_ids = [], sp_resource_ids = [], sp_button_codes = [], sp_permission_keys = [],
      sp_permission_grants = [], sp_client_ip = None, sp_user_agent = None, sp_remember_me = True,
      sp_password_expired = False, sp_device_label = None, sp_login_at = Some (Stamp login),
      sp_last_active_at = None, sp_expires_at = None\<rparr>"

definition demo_auth :: auth_settings where
  "demo_auth = auth_settings_default\<lparr>au_token_ttl_seconds := 100, au_token_ttl_short_seconds := 10\<rparr>"

text \<open>Two logins of account a and one of account b.\<close>

definition demo_store :: "session_payload redis_data" where
  "demo_store =
     session_set redis_impl 3 (demo_session ''z'' ''b'' 3) 50
       (session_set redis_impl 2 (demo_session ''y'' ''a'' 2) 50
         (session_set redis_impl 1 (demo_session ''x'' ''a'' 1) 50 redis_empty))"

lemma demo_store_run: "session_run demo_auth redis_impl redis_empty demo_store"
  unfolding demo_store_def by (intro session_run.intros) simp_all

lemmas demo_run = demo_store_run redis_impl_ok redis_empty_no_sessions

lemmas demo_eval =
  demo_store_def demo_session_def demo_auth_def auth_settings_default_def session_set_def redis_impl_def redis_empty_def session_get_def
  check_idle_timeout_def login_tokens_key_def login_token_key_def login_account_tokens_key_def

section \<open>Properties\<close>

text \<open>C10: Pruning an account's sessions to a positive maximum leaves at most that many live sessions in the account's
  index: exactly the last ones to log in. Every session it deletes logged in no later than every session it keeps, the
  deleted tokens no longer authenticate, and every other token of the store still does exactly what it did.\<close>

theorem prune_keeps_newest:
  assumes "session_run au R s0 s" "redis_ok R" "no_sessions R s0"
    and "0 < au_token_ttl_seconds au" "0 < au_token_ttl_short_seconds au" "0 < max_sessions"
    and "sessions = fst (list_account_sessions au R now a i s)"
    and "evicted = take (length sessions - nat max_sessions) sessions"
    and "kept = drop (length sessions - nat max_sessions) sessions"
    and "s' = prune_excess_sessions au R now a i max_sessions s"
  shows "int (length kept) \<le> max_sessions
     \<and> {t \<in> set (get_account_tokens R a i s'). session_get au R now t s' \<noteq> None} = sp_token ` set kept
     \<and> (\<forall>t. session_get au R now t s' = (if t \<in> sp_token ` set evicted then None else session_get au R now t s))
     \<and> (\<forall>p\<in>set evicted. \<forall>q\<in>set kept.
           parse_datetime_or_epoch (sp_login_at p) \<le> parse_datetime_or_epoch (sp_login_at q))"
proof -
  note inv = session_run_inv[OF assms(1-5)]
  have split: "sessions = evicted @ kept" by (simp add: assms(8,9))
  have get: "session_get au R now t s' = (if t \<in> sp_token ` set evicted then None else session_get au R now t s)" for t
    by (simp add: assms(10) prune_state[OF assms(6)] Let_def get_after_deletes[OF assms(2)] listed_state[OF assms(2)]
        flip: assms(7,8))
  have mem: "t \<in> set (get_account_tokens R a i s') \<longleftrightarrow> t \<in> set (get_account_tokens R a i s)"
    if "t \<notin> sp_token ` set evicted" for t
    using that by (simp add: assms(10) prune_state[OF assms(6)] Let_def members_after_deletes[OF assms(2)]
        listed_state[OF assms(2)] flip: assms(7,8))
  have live: "sp_token ` set sessions = {t \<in> set (get_account_tokens R a i s). session_get au R now t s \<noteq> None}"
    using session_get_token[OF inv] by (force simp: assms(7) listed_sessions)
  have "sp_token ` set evicted \<inter> sp_token ` set kept = {}"
    using listed_distinct[OF inv, of au now a i] unfolding assms(7)[symmetric] split by auto
  moreover have "sp_token ` set sessions = sp_token ` set evicted \<union> sp_token ` set kept"
    by (simp add: split image_Un)
  ultimately have "{t \<in> set (get_account_tokens R a i s'). session_get au R now t s' \<noteq> None} = sp_token ` set kept"
    using live mem get by (auto split: if_splits)
  moreover have "int (length kept) \<le> max_sessions" using assms(6) by (simp add: assms(9))
  ultimately show ?thesis
    using get sorted_take_drop[OF listed_sorted[of au R now a i s]] by (auto simp: assms(7,8,9))
qed

theorem prune_keeps_newest_witness:
  "{t \<in> set (get_account_tokens redis_impl ''ADMIN'' ''a''
         (prune_excess_sessions demo_auth redis_impl 4 ''ADMIN'' ''a'' 1 demo_store)).
      session_get demo_auth redis_impl 4 t
        (prune_excess_sessions demo_auth redis_impl 4 ''ADMIN'' ''a'' 1 demo_store) \<noteq> None} = {''y''}"
proof -
  have l: "fst (list_account_sessions demo_auth redis_impl 4 ''ADMIN'' ''a'' demo_store)
             = [demo_session ''x'' ''a'' 1, demo_session ''y'' ''a'' 2]"
    by (simp add: list_account_sessions_def list_sessions_by_tokens_def get_account_tokens_def get_accounts_tokens_def
        dedup_def dedup_step_def List.map_filter_simps parse_datetime_or_epoch_def Let_def demo_eval)
  have pos: "0 < au_token_ttl_seconds demo_auth" "0 < au_token_ttl_short_seconds demo_auth" "0 < (1 :: int)"
    by (simp_all add: demo_auth_def)
  show ?thesis
    using conjunct1[OF conjunct2[OF prune_keeps_newest[OF demo_run pos refl refl refl refl, of 4 "''ADMIN''" "''a''"]]]
    unfolding l by (simp add: demo_session_def)
qed

end
