(* ===== verification/Transport.thy ===== *)
theory Transport
  imports Raster Base64 Errors Session
begin

text \<open>
  Captchas and transport encryption of passwords, \<^verbatim>\<open>app/core/security/transport.py\<close>, with the hashing wrappers of
  \<^verbatim>\<open>app/core/security/password.py\<close>.

  Parameters: the random numbers (\<open>rnd k n\<close> is the result of the \<open>k\<close>-th call of \<^verbatim>\<open>secrets.randbelow(n)\<close>), the
  identifiers of \<^verbatim>\<open>uuid4\<close>, \<^verbatim>\<open>zlib.compress\<close>, and the packages bcrypt and cryptography. Redis is that of theory
  Session.
\<close>

section \<open>Keys and settings\<close>

definition captcha_key :: "string \<Rightarrow> string" where
  "captcha_key captcha_id = ''captcha:'' @ captcha_id"

definition password_crypto_key :: "string \<Rightarrow> string" where
  "password_crypto_key key_id = ''password:crypto:'' @ key_id"

definition required_redis :: "ptext \<Rightarrow> 'r option \<Rightarrow> 'r web" where
  "required_redis message client =
     (case client of None \<Rightarrow> Inl (App (BusinessError message)) | Some R \<Rightarrow> Inr R)"

section \<open>password.py\<close>

text \<open>bcrypt: hashing a password with a fresh salt, and checking one, which may raise.\<close>

record bcrypt =
  bc_hashpw :: "bytes \<Rightarrow> string"
  bc_checkpw :: "bytes \<Rightarrow> string \<Rightarrow> bool res"

definition hash_password :: "bcrypt \<Rightarrow> string \<Rightarrow> string web" where
  "hash_password bc password =
     (case utf8_encode (asc password) of Inl e \<Rightarrow> Inl (Unexpected e) | Inr b \<Rightarrow> Inr (bc_hashpw bc b))"

text \<open>A \<^verbatim>\<open>ValueError\<close> counts as a mismatch, any other exception goes on.\<close>

definition verify_password :: "bcrypt \<Rightarrow> string \<Rightarrow> string \<Rightarrow> bool web" where
  "verify_password bc password hashed_password =
     (case rbind (utf8_encode (asc password)) (\<lambda>b. bc_checkpw bc b hashed_password) of
        Inr r \<Rightarrow> Inr r
      | Inl e \<Rightarrow> (case e of ValueError _ \<Rightarrow> Inr False | _ \<Rightarrow> Inl (Unexpected e)))"

section \<open>transport.py: images\<close>

definition captcha_alphabet :: string where
  "captcha_alphabet = ''23456789ABCDEFGHJKLMNPQRSTUVWXYZ''"

fun html_escape_char :: "char \<Rightarrow> string" where
  "html_escape_char c =
     (if c = CHR ''&'' then ''&amp;''
      else if c = CHR ''<'' then ''&lt;''
      else if c = CHR ''>'' then ''&gt;''
      else if c = CHR 0x22 then ''&quot;''
      else if c = CHR 0x27 then ''&#x27;''
      else [c])"

definition html_escape :: "string \<Rightarrow> string" where
  "html_escape s = concat (map html_escape_char s)"

definition xml_attr :: "string \<Rightarrow> string \<Rightarrow> string" where
  "xml_attr name v = name @ ''='' @ [CHR 0x22] @ v @ [CHR 0x22]"

definition svg_line :: "(nat \<Rightarrow> nat \<Rightarrow> nat) \<Rightarrow> nat \<Rightarrow> string" where
  "svg_line rnd k =
     ''<line '' @ xml_attr ''x1'' (str_nat (rnd k 140)) @ '' '' @ xml_attr ''y1'' (str_nat (rnd (k + 1) 44)) @ '' ''
       @ xml_attr ''x2'' (str_nat (rnd (k + 2) 140)) @ '' '' @ xml_attr ''y2'' (str_nat (rnd (k + 3) 44)) @ '' ''
       @ xml_attr ''stroke'' ''#94a3b8'' @ '' '' @ xml_attr ''stroke-width'' ''1'' @ '' ''
       @ xml_attr ''opacity'' ''0.45'' @ '' />''"

definition svg_text :: "(nat \<Rightarrow> nat \<Rightarrow> nat) \<Rightarrow> nat \<Rightarrow> nat \<Rightarrow> char \<Rightarrow> string" where
  "svg_text rnd k index ch =
     ''<text '' @ xml_attr ''x'' (str_nat (22 + index * 26)) @ '' '' @ xml_attr ''y'' (str_nat (29 + rnd k 5)) @ '' ''
       @ xml_attr ''font-size'' ''24'' @ '' '' @ xml_attr ''font-family'' ''Arial, sans-serif'' @ '' ''
       @ xml_attr ''font-weight'' ''700'' @ '' '' @ xml_attr ''fill'' ''#0f172a'' @ '' ''
       @ xml_attr ''transform'' (''rotate('' @ str_int (int (rnd (k + 1) 21) - 10) @ '' '' @ str_nat (22 + index * 26) @ '' 25)'')
       @ ''>'' @ html_escape [ch] @ ''</text>''"

definition newline :: string where
  "newline = [CHR 0x0A]"

definition captcha_svg :: "(nat \<Rightarrow> nat \<Rightarrow> nat) \<Rightarrow> string \<Rightarrow> string" where
  "captcha_svg rnd val =
     (let noise = join_with newline (map (\<lambda>i. svg_line rnd (4 * i)) [0..<6]);
          text_nodes = join_with newline (map (\<lambda>(index, ch). svg_text rnd (24 + 2 * index) index ch)
                                           (enumerate 0 (html_escape val)))
      in ''<svg '' @ xml_attr ''xmlns'' ''http://www.w3.org/2000/svg'' @ '' '' @ xml_attr ''width'' ''140'' @ '' ''
           @ xml_attr ''height'' ''44'' @ '' '' @ xml_attr ''viewBox'' ''0 0 140 44'' @ ''>''
           @ ''<rect '' @ xml_attr ''width'' ''140'' @ '' '' @ xml_attr ''height'' ''44'' @ '' ''
           @ xml_attr ''rx'' ''6'' @ '' '' @ xml_attr ''fill'' ''#f8fafc'' @ ''/>''
           @ noise @ text_nodes @ ''</svg>'')"

definition captcha_svg_base64 :: "(nat \<Rightarrow> nat \<Rightarrow> nat) \<Rightarrow> string \<Rightarrow> string" where
  "captcha_svg_base64 rnd val = b64encode (concat (map encode1 (asc (captcha_svg rnd val))))"

text \<open>\<^verbatim>\<open>zlib.crc32\<close>, bit by bit.\<close>

definition crc_bit :: "32 word \<Rightarrow> 32 word" where
  "crc_bit c = (if bit c 0 then drop_bit 1 c XOR 0xEDB88320 else drop_bit 1 c)"

definition crc_byte :: "32 word \<Rightarrow> nat \<Rightarrow> 32 word" where
  "crc_byte c b = (crc_bit ^^ 8) (c XOR of_nat b)"

definition crc32 :: "bytes \<Rightarrow> 32 word" where
  "crc32 bs = NOT (foldl crc_byte (NOT 0) bs)"

definition be32 :: "nat \<Rightarrow> bytes" where
  "be32 n = [n div 16777216 mod 256, n div 65536 mod 256, n div 256 mod 256, n mod 256]"

definition png_chunk :: "string \<Rightarrow> bytes \<Rightarrow> bytes" where
  "png_chunk chunk_type data =
     be32 (length data) @ asc chunk_type @ data @ be32 (unat (crc32 (asc chunk_type @ data)))"

definition png_signature :: bytes where
  "png_signature = [0x89, 0x50, 0x4E, 0x47, 0x0D, 0x0A, 0x1A, 0x0A]"

definition ihdr :: bytes where
  "ihdr = be32 140 @ be32 44 @ [8, 2, 0, 0, 0]"

text \<open>The empty image, 140 by 44 pixels of the background colour.\<close>

definition captcha_blank :: bytes where
  "captcha_blank = concat (replicate (140 * 44) [248, 250, 252])"

definition captcha_pixels :: "(nat \<Rightarrow> nat \<Rightarrow> nat) \<Rightarrow> string \<Rightarrow> bytes option" where
  "captcha_pixels rnd val =
     (let lines = foldl (\<lambda>px i. Option.bind px (\<lambda>px.
              draw_line px 140 44 (int (rnd (4 * i) 140)) (int (rnd (4 * i + 1) 44))
                (int (rnd (4 * i + 2) 140)) (int (rnd (4 * i + 3) 44)) (148, 163, 184))) (Some captcha_blank) [0..<6]
      in map_option (\<lambda>px.
           foldl (\<lambda>px (index, ch).
             draw_glyph px 140 44 ch (int (18 + index * 28 + rnd (24 + 2 * index) 3)) (int (8 + rnd (25 + 2 * index) 4)) 4
               (15, 23, 42)) px (enumerate 0 val)) lines)"

definition png_rows :: "bytes \<Rightarrow> bytes" where
  "png_rows pixels = concat (map (\<lambda>row. 0 # take (140 * 3) (drop (row * 140 * 3) pixels)) [0..<44])"

definition captcha_png :: "(bytes \<Rightarrow> bytes) \<Rightarrow> (nat \<Rightarrow> nat \<Rightarrow> nat) \<Rightarrow> string \<Rightarrow> bytes option" where
  "captcha_png compress rnd val =
     map_option (\<lambda>pixels.
       png_signature @ png_chunk ''IHDR'' ihdr @ png_chunk ''IDAT'' (compress (png_rows pixels)) @ png_chunk ''IEND'' [])
       (captcha_pixels rnd val)"

definition captcha_png_base64 :: "(bytes \<Rightarrow> bytes) \<Rightarrow> (nat \<Rightarrow> nat \<Rightarrow> nat) \<Rightarrow> string \<Rightarrow> string option" where
  "captcha_png_base64 compress rnd val = map_option b64encode (captcha_png compress rnd val)"

section \<open>transport.py: captchas\<close>

record captcha_response =
  cp_captcha_id :: string
  cp_image_base64 :: string
  cp_image_type :: string

definition captcha_value :: "(nat \<Rightarrow> nat \<Rightarrow> nat) \<Rightarrow> string" where
  "captcha_value rnd = map (\<lambda>k. captcha_alphabet ! rnd k (length captcha_alphabet)) [0..<4]"

record transport_env =
  te_rnd :: "nat \<Rightarrow> nat \<Rightarrow> nat"
  te_compress :: "bytes \<Rightarrow> bytes"
  te_bcrypt :: bcrypt
  te_captcha_ttl_seconds :: int
  te_password_crypto_key_ttl_seconds :: int

text \<open>
  \<^verbatim>\<open>create_captcha\<close>, with \<open>uid\<close> the fresh identifier. The value \<open>None\<close> would be a line that never ends;
  \<open>create_captcha_returns\<close> below excludes it.
\<close>

definition create_captcha ::
  "transport_env \<Rightarrow> ('s, string) redis option \<Rightarrow> rat \<Rightarrow> string \<Rightarrow> string \<Rightarrow> 's \<Rightarrow> (captcha_response web \<times> 's) option" where
  "create_captcha te client now uid image_format s =
     (let val = captcha_value (te_rnd te); rnd = (\<lambda>k. te_rnd te (4 + k)) in
      case required_redis (asc ''Redis is required for captcha'') client of
        Inl e \<Rightarrow> Some (Inl e, s)
      | Inr R \<Rightarrow>
          (case hash_password (te_bcrypt te) (py_lower val) of
             Inl e \<Rightarrow> Some (Inl e, s)
           | Inr h \<Rightarrow>
               let s' = rs_setex R now (captcha_key uid) (te_captcha_ttl_seconds te) h s in
               if image_format = ''png'' then
                 map_option (\<lambda>img. (Inr \<lparr>cp_captcha_id = uid, cp_image_base64 = img, cp_image_type = ''image/png''\<rparr>, s'))
                   (captcha_png_base64 (te_compress te) rnd val)
               else
                 Some (Inr \<lparr>cp_captcha_id = uid, cp_image_base64 = captcha_svg_base64 rnd val,
                            cp_image_type = ''image/svg+xml''\<rparr>, s')))"

definition invalid_captcha :: web_exn where
  "invalid_captcha = App (BusinessError (asc ''Invalid or expired captcha''))"

definition verify_captcha ::
  "transport_env \<Rightarrow> ('s, string) redis option \<Rightarrow> rat \<Rightarrow> string \<Rightarrow> string \<Rightarrow> 's \<Rightarrow> unit web \<times> 's" where
  "verify_captcha te client now captcha_id captcha_val s =
     (case required_redis (asc ''Redis is required for captcha'') client of
        Inl e \<Rightarrow> (Inl e, s)
      | Inr R \<Rightarrow>
          let key = captcha_key captcha_id;
              raw = rs_get R now key s;
              s' = rs_delete R [key] s
          in (case raw of
                None \<Rightarrow> Inl invalid_captcha
              | Some raw_text \<Rightarrow>
                  if raw_text = [] then Inl invalid_captcha
                  else (case verify_password (te_bcrypt te) (py_lower (py_strip captcha_val)) raw_text of
                          Inl e \<Rightarrow> Inl e
                        | Inr ok \<Rightarrow> if ok then Inr () else Inl invalid_captcha), s'))"

section \<open>transport.py: password keys\<close>

text \<open>The package cryptography: a generated key, its PEM and DER forms, loading, RSA-OAEP decryption.\<close>

record 'k rsa =
  rsa_pem :: "'k \<Rightarrow> string"
  rsa_public_der :: "'k \<Rightarrow> bytes"
  rsa_load_pem :: "string \<Rightarrow> 'k res"
  rsa_decrypt :: "'k \<Rightarrow> bytes \<Rightarrow> bytes res"

record password_key_response =
  pk_key_id :: string
  pk_public_key :: string

definition create_password_key ::
  "transport_env \<Rightarrow> 'k rsa \<Rightarrow> ('s, string) redis option \<Rightarrow> rat \<Rightarrow> 'k \<Rightarrow> string \<Rightarrow> 's \<Rightarrow> password_key_response web \<times> 's" where
  "create_password_key te rsa client now private_key uid s =
     (case required_redis (asc ''Redis is required for password encryption'') client of
        Inl e \<Rightarrow> (Inl e, s)
      | Inr R \<Rightarrow>
          (Inr \<lparr>pk_key_id = uid, pk_public_key = b64encode (rsa_public_der rsa private_key)\<rparr>,
           rs_setex R now (password_crypto_key uid) (te_password_crypto_key_ttl_seconds te) (rsa_pem rsa private_key) s))"

definition decrypt_password :: "'k rsa \<Rightarrow> 'k \<Rightarrow> string \<Rightarrow> ptext web" where
  "decrypt_password rsa private_key encrypted_value =
     (case rbind (b64decode encrypted_value) (\<lambda>ciphertext.
             rbind (rsa_decrypt rsa private_key ciphertext) utf8_decode_strict) of
        Inl _ \<Rightarrow> Inl (App (BusinessError (asc ''Invalid encrypted password'')))
      | Inr plaintext \<Rightarrow> Inr plaintext)"

fun decrypt_all :: "'k rsa \<Rightarrow> 'k \<Rightarrow> string option list \<Rightarrow> ptext option list web" where
  "decrypt_all rsa k [] = Inr []"
| "decrypt_all rsa k (v # vs) =
     (case (case v of
              None \<Rightarrow> Inr None
            | Some e \<Rightarrow> if e = [] then Inr None else map_sum id Some (decrypt_password rsa k e)) of
        Inl e \<Rightarrow> Inl e
      | Inr p \<Rightarrow> map_sum id (\<lambda>ps. p # ps) (decrypt_all rsa k vs))"

definition invalid_password_key :: web_exn where
  "invalid_password_key = App (BusinessError (asc ''Invalid or expired password encryption key''))"

definition decrypt_passwords ::
  "'k rsa \<Rightarrow> ('s, string) redis option \<Rightarrow> rat \<Rightarrow> string \<Rightarrow> string option list \<Rightarrow> 's \<Rightarrow> ptext option list web \<times> 's" where
  "decrypt_passwords rsa client now password_key_id encrypted_values s =
     (case required_redis (asc ''Redis is required for password encryption'') client of
        Inl e \<Rightarrow> (Inl e, s)
      | Inr R \<Rightarrow>
          let key = password_crypto_key password_key_id in
          case rs_get R now key s of
            None \<Rightarrow> (Inl invalid_password_key, s)
          | Some raw_text \<Rightarrow>
              if raw_text = [] then (Inl invalid_password_key, s)
              else
                (case rsa_load_pem rsa raw_text of
                   Inl e \<Rightarrow> Inl (Unexpected e)
                 | Inr private_key \<Rightarrow> decrypt_all rsa private_key encrypted_values, rs_delete R [key] s))"

section \<open>Facts\<close>

lemma length_encode1: "length (encode1 c) \<le> 4"
  by (simp add: encode1_def)

lemma length_utf8: "length (concat (map encode1 t)) \<le> 4 * length t"
proof (induction t)
  case (Cons c t)
  then show ?case using length_encode1[of c] by simp
qed simp

text \<open>What the captchas rely on of bcrypt: a hash is not empty and accepts its password (up to bcrypt's 72 bytes).\<close>

definition bcrypt_ok :: "bcrypt \<Rightarrow> bool" where
  "bcrypt_ok bc = (\<forall>b. length b \<le> 72 \<longrightarrow> bc_hashpw bc b \<noteq> [] \<and> bc_checkpw bc b (bc_hashpw bc b) = Inr True)"

lemma hash_verify:
  assumes "bcrypt_ok bc" "length pw \<le> 18"
  shows "\<exists>h. hash_password bc pw = Inr h \<and> h \<noteq> [] \<and> verify_password bc pw h = Inr True"
proof -
  have "length (concat (map encode1 (asc pw))) \<le> 72"
    using length_utf8[of "asc pw"] assms(2) by (simp add: asc_def)
  with assms(1) show ?thesis
    by (simp add: hash_password_def verify_password_def utf8_encode_asc bcrypt_ok_def)
qed

text \<open>Drawing on a canvas returns, so every captcha image exists.\<close>

lemma lines_return:
  "\<exists>pts. foldl (\<lambda>px i. Option.bind px (\<lambda>px. draw_line px w h (a i) (b i) (c i) (d i) color)) (Some px) is
     = Some (plot w h color pts px)"
proof (induction "is" arbitrary: px)
  case Nil
  show ?case by (intro exI[of _ "[]"]) (simp add: plot_def)
next
  case (Cons i "is")
  obtain pts where "draw_line px w h (a i) (b i) (c i) (d i) color = Some (plot w h color pts px)"
    using draw_line_plots by blast
  moreover obtain pts' where "foldl (\<lambda>px i. Option.bind px (\<lambda>px. draw_line px w h (a i) (b i) (c i) (d i) color))
      (Some (plot w h color pts px)) is = Some (plot w h color pts' (plot w h color pts px))"
    using Cons by blast
  ultimately show ?case by (intro exI[of _ "pts @ pts'"]) (simp add: plot_def)
qed

lemma captcha_pixels_return: "\<exists>px. captcha_pixels rnd val = Some px"
  using lines_return[of 140 44 "\<lambda>i. int (rnd (4 * i) 140)" "\<lambda>i. int (rnd (4 * i + 1) 44)"
      "\<lambda>i. int (rnd (4 * i + 2) 140)" "\<lambda>i. int (rnd (4 * i + 3) 44)" "(148, 163, 184)"]
  unfolding captcha_pixels_def Let_def by fastforce

lemma captcha_png_returns: "\<exists>img. captcha_png_base64 compress rnd val = Some img"
  using captcha_pixels_return[of rnd val] by (auto simp: captcha_png_base64_def captcha_png_def)

lemma create_captcha_returns:
  assumes "bcrypt_ok (te_bcrypt te)"
  shows "\<exists>resp h. hash_password (te_bcrypt te) (py_lower (captcha_value (te_rnd te))) = Inr h \<and> h \<noteq> []
     \<and> verify_password (te_bcrypt te) (py_lower (captcha_value (te_rnd te))) h = Inr True
     \<and> create_captcha te (Some R) now uid image_format s =
         Some (Inr resp, rs_setex R now (captcha_key uid) (te_captcha_ttl_seconds te) h s)
     \<and> cp_captcha_id resp = uid"
proof -
  have "length (py_lower (captcha_value (te_rnd te))) \<le> 18" by (simp add: py_lower_def captcha_value_def)
  from hash_verify[OF assms this] obtain h where h: "hash_password (te_bcrypt te) (py_lower (captcha_value (te_rnd te))) = Inr h"
    "h \<noteq> []" "verify_password (te_bcrypt te) (py_lower (captcha_value (te_rnd te))) h = Inr True" by blast
  obtain img where "captcha_png_base64 (te_compress te) (\<lambda>k. te_rnd te (4 + k)) (captcha_value (te_rnd te)) = Some img"
    using captcha_png_returns by blast
  with h show ?thesis by (simp add: create_captcha_def required_redis_def Let_def)
qed

lemma verify_captcha_state: "snd (verify_captcha te (Some R) t uid guess s) = rs_delete R [captcha_key uid] s"
  by (simp add: verify_captcha_def required_redis_def Let_def)

lemma verify_captcha_gone:
  "rs_get R t (captcha_key uid) s = None \<Longrightarrow> fst (verify_captcha te (Some R) t uid guess s) = Inl invalid_captcha"
  by (simp add: verify_captcha_def required_redis_def Let_def)

text \<open>What password transport relies on of RSA: a stored key loads again, and inverts the client's encryption of
  messages up to 190 bytes (RSA-2048 with OAEP and SHA-256).\<close>

definition rsa_ok :: "'k rsa \<Rightarrow> ('k \<Rightarrow> bytes \<Rightarrow> bytes) \<Rightarrow> bool" where
  "rsa_ok rsa encrypt =
     (\<forall>k. rsa_pem rsa k \<noteq> [] \<and> rsa_load_pem rsa (rsa_pem rsa k) = Inr k
        \<and> (\<forall>m. length m \<le> 190 \<and> (\<forall>b\<in>set m. b < 256) \<longrightarrow> encrypt k m \<noteq> [] \<and> (\<forall>b\<in>set (encrypt k m). b < 256)
               \<and> rsa_decrypt rsa k (encrypt k m) = Inr m))"

lemma b64encode_Nil [simp]: "b64encode bs = [] \<longleftrightarrow> bs = []"
  by (cases bs rule: b64encode.cases) auto

lemma encode1_byte: "scalar c \<Longrightarrow> b \<in> set (encode1 c) \<Longrightarrow> b < 256"
proof -
  assume c: "scalar c" "b \<in> set (encode1 c)"
  have "c < 0x800 \<longrightarrow> c div 64 < 32" "c < 0x10000 \<longrightarrow> c div 4096 < 16" "c div 262144 < 5"
    using c(1) by (auto simp: scalar_def intro!: less_mult_imp_div_less)
  moreover have "c mod 64 < 64" "c div 64 mod 64 < 64" "c div 4096 mod 64 < 64" by simp_all
  ultimately show ?thesis using c(2) by (auto simp: encode1_def split: if_splits)
qed

lemma utf8_bytes: "list_all scalar t \<Longrightarrow> \<forall>b\<in>set (concat (map encode1 t)). b < 256"
  using encode1_byte by (auto simp: list_all_iff)

lemma decrypt_own:
  assumes "rsa_ok rsa encrypt" "list_all scalar pw" "length (concat (map encode1 pw)) \<le> 190"
  shows "decrypt_password rsa k (b64encode (encrypt k (concat (map encode1 pw)))) = Inr pw"
proof -
  let ?m = "concat (map encode1 pw)"
  have law: "\<forall>b\<in>set (encrypt k ?m). b < 256" "rsa_decrypt rsa k (encrypt k ?m) = Inr ?m"
    using assms(1,3) utf8_bytes[OF assms(2)] unfolding rsa_ok_def by blast+
  have "utf8_decode_strict ?m = Inr pw"
    using assms(2) by (simp add: utf8_decode_strict_def utf8_encode_def utf8_decode_concat)
  with law b64decode_encode[OF law(1)] show ?thesis by (simp add: decrypt_password_def)
qed

section \<open>The image\<close>

text \<open>A reader of PNG chunks that checks lengths and checksums.\<close>

definition un32 :: "bytes \<Rightarrow> nat" where
  "un32 bs = foldl (\<lambda>n b. n * 256 + b) 0 bs"

function read_chunks :: "bytes \<Rightarrow> (bytes \<times> bytes) list option" where
  "read_chunks bs =
     (if bs = [] then Some []
      else
        let n = un32 (take 4 bs); chunk_type = take 4 (drop 4 bs); data = take n (drop 8 bs); crc = take 4 (drop (8 + n) bs)
        in if length bs < 12 + n \<or> un32 crc \<noteq> unat (crc32 (chunk_type @ data)) then None
           else map_option (\<lambda>chunks. (chunk_type, data) # chunks) (read_chunks (drop (12 + n) bs)))"
  by pat_completeness auto
termination
  by (relation "measure length") auto

declare read_chunks.simps [simp del]

lemma un32_be32:
  assumes "n < 2 ^ 32"
  shows "un32 (be32 n) = n"
proof -
  have "n div 16777216 mod 256 = n div 16777216"
    using assms by (intro mod_less less_mult_imp_div_less) simp
  moreover have "n div 256 * 256 + n mod 256 = n" by (rule div_mult_mod_eq)
  moreover have "n div 65536 * 256 + n div 256 mod 256 = n div 256"
    using div_mult_mod_eq[of "n div 256" 256] by (simp add: div_mult2_eq[symmetric])
  moreover have "n div 16777216 * 256 + n div 65536 mod 256 = n div 65536"
    using div_mult_mod_eq[of "n div 65536" 256] by (simp add: div_mult2_eq[symmetric])
  ultimately show ?thesis unfolding un32_def be32_def foldl_Cons foldl_Nil by simp
qed

lemma length_be32 [simp]: "length (be32 n) = 4"
  by (simp add: be32_def)

lemma read_png_chunk:
  assumes "length chunk_type = 4" "length data < 2 ^ 32"
  shows "read_chunks (png_chunk chunk_type data @ rest) = map_option (\<lambda>chunks. (asc chunk_type, data) # chunks) (read_chunks rest)"
proof -
  let ?t = "asc chunk_type" and ?n = "length data"
  let ?c = "be32 (unat (crc32 (?t @ data)))"
  define bs where "bs = be32 ?n @ ?t @ data @ ?c @ rest"
  have len: "length ?t = 4" using assms(1) by (simp add: asc_def)
  have crc: "un32 ?c = unat (crc32 (?t @ data))"
    using unsigned_less[of "crc32 (?t @ data)"] by (intro un32_be32) simp
  have parts: "un32 (take 4 bs) = ?n" "take 4 (drop 4 bs) = ?t" "take ?n (drop 8 bs) = data"
    "take 4 (drop (8 + ?n) bs) = ?c" "drop (12 + ?n) bs = rest" "\<not> length bs < 12 + ?n"
    using len un32_be32[OF assms(2)] by (simp_all add: bs_def)
  then have "bs \<noteq> []" by auto
  note parts = parts this
  have "read_chunks bs = map_option (\<lambda>chunks. (?t, data) # chunks) (read_chunks rest)"
    by (subst read_chunks.simps) (simp add: parts crc Let_def)
  then show ?thesis by (simp add: png_chunk_def bs_def)
qed

definition glyph_at :: "(nat \<Rightarrow> nat \<Rightarrow> nat) \<Rightarrow> nat \<Rightarrow> char \<Rightarrow> (int \<times> int) list" where
  "glyph_at rnd index ch =
     (case map_of captcha_glyphs ch of None \<Rightarrow> []
      | Some glyph \<Rightarrow> glyph_points glyph (int (18 + index * 28 + rnd (24 + 2 * index) 3)) (int (8 + rnd (25 + 2 * index) 4)) 4)"

lemma plot_concat: "foldl (\<lambda>px i. plot w h color (f i) px) px is = plot w h color (concat (map f is)) px"
  by (induction "is" arbitrary: px) (simp_all add: plot_def)

lemma canvas_start: "canvas 140 44 captcha_blank"
proof -
  have "length (concat (replicate n [248, 250, 252 :: nat])) = n * 3" for n by (induction n) simp_all
  from this[of "140 * 44"] show ?thesis unfolding canvas_def captcha_blank_def by simp
qed

lemma drop_repeated: "k < n \<Longrightarrow> take 3 (drop (k * 3) (concat (replicate n [a, b, c]))) = [a, b, c]"
proof (induction k arbitrary: n)
  case (Suc k)
  then obtain m where n: "n = Suc m" by (cases n) simp_all
  have "drop (Suc k * 3) (concat (replicate n [a, b, c])) = drop (k * 3) (concat (replicate m [a, b, c]))"
    by (simp add: n drop_Cons' numeral_3_eq_3)
  with Suc n show ?case by simp
next
  case 0
  then show ?case by (cases n) simp_all
qed

lemma pixel_start:
  assumes "0 \<le> x" "x < 140" "0 \<le> y" "y < 44"
  shows "pixel 140 x y captcha_blank = [248, 250, 252]"
proof -
  have "nat ((y * 140 + x) * 3) = nat (y * 140 + x) * 3" using assms by (simp add: nat_mult_distrib)
  moreover have "nat (y * 140 + x) < 140 * 44" using assms by linarith
  ultimately show ?thesis
    using drop_repeated[of "nat (y * 140 + x)" "140 * 44" 248 250 252] unfolding pixel_def captcha_blank_def by metis
qed

lemma draw_glyph_at:
  "draw_glyph px 140 44 ch (int (18 + index * 28 + rnd (24 + 2 * index) 3)) (int (8 + rnd (25 + 2 * index) 4)) 4 color
     = plot 140 44 color (glyph_at rnd index ch) px"
  by (simp add: draw_glyph_def glyph_at_def plot_def split: option.splits)

text \<open>The dark pixels of the image are those of the glyphs.\<close>

lemma captcha_pixels_dark:
  assumes "captcha_pixels rnd val = Some px"
  shows "canvas 140 44 px"
    and "0 \<le> x \<Longrightarrow> x < 140 \<Longrightarrow> 0 \<le> y \<Longrightarrow> y < 44 \<Longrightarrow>
       pixel 140 x y px = [15, 23, 42] \<longleftrightarrow> (x, y) \<in> set (concat (map (\<lambda>(index, ch). glyph_at rnd index ch) (enumerate 0 val)))"
proof -
  let ?glyphs = "concat (map (\<lambda>(index, ch). glyph_at rnd index ch) (enumerate 0 val))"
  obtain pts where lines: "foldl (\<lambda>px i. Option.bind px (\<lambda>px.
              draw_line px 140 44 (int (rnd (4 * i) 140)) (int (rnd (4 * i + 1) 44))
                (int (rnd (4 * i + 2) 140)) (int (rnd (4 * i + 3) 44)) (148, 163, 184))) (Some captcha_blank) [0..<6]
      = Some (plot 140 44 (148, 163, 184) pts captcha_blank)"
    using lines_return[of 140 44 "\<lambda>i. int (rnd (4 * i) 140)" "\<lambda>i. int (rnd (4 * i + 1) 44)"
      "\<lambda>i. int (rnd (4 * i + 2) 140)" "\<lambda>i. int (rnd (4 * i + 3) 44)" "(148, 163, 184)" captcha_blank "[0..<6]"] by blast
  have "px = foldl (\<lambda>px p. plot 140 44 (15, 23, 42) (case p of (index, ch) \<Rightarrow> glyph_at rnd index ch) px)
      (plot 140 44 (148, 163, 184) pts captcha_blank) (enumerate 0 val)"
    using assms unfolding captcha_pixels_def Let_def lines draw_glyph_at by (simp add: split_beta')
  then have px: "px = plot 140 44 (15, 23, 42) ?glyphs (plot 140 44 (148, 163, 184) pts captcha_blank)"
    unfolding plot_concat .
  note lines = canvas_plot[OF canvas_start, of "(148, 163, 184)" pts]
  show "canvas 140 44 px" unfolding px by (rule canvas_plot[OF lines])
  assume p: "0 \<le> x" "x < 140" "0 \<le> y" "y < 44"
  show "pixel 140 x y px = [15, 23, 42] \<longleftrightarrow> (x, y) \<in> set ?glyphs"
    unfolding px pixel_plot[OF lines p] pixel_plot[OF canvas_start p] pixel_start[OF p] colour_bytes_def
    by (simp del: set_concat set_map)
qed

section \<open>Properties\<close>


definition demo_bcrypt :: bcrypt where
  "demo_bcrypt = \<lparr>bc_hashpw = (\<lambda>b. CHR ''$'' # map char_of b), bc_checkpw = (\<lambda>b h. Inr (h = CHR ''$'' # map char_of b))\<rparr>"

definition demo_transport :: transport_env where
  "demo_transport = \<lparr>te_rnd = (\<lambda>_ _. 9), te_compress = (\<lambda>bs. bs), te_bcrypt = demo_bcrypt,
     te_captcha_ttl_seconds = 60, te_password_crypto_key_ttl_seconds = 60\<rparr>"

lemma demo_bcrypt_ok: "bcrypt_ok demo_bcrypt"
  by (simp add: bcrypt_ok_def demo_bcrypt_def)


text \<open>C16: A password encrypted with a fresh key arrives as it was typed, and the key works once: after a call with
  any values, whether decryption succeeded or not, every further call with that key is refused.\<close>

theorem password_key_roundtrip:
  assumes "redis_ok R" "rsa_ok rsa encrypt" "0 < te_password_crypto_key_ttl_seconds te"
    and "create_password_key te rsa (Some R) now k uid s = (Inr resp, s1)"
    and "t < now + of_int (te_password_crypto_key_ttl_seconds te)"
    and "list_all scalar pw" "length (concat (map encode1 pw)) \<le> 190"
  shows "fst (decrypt_passwords rsa (Some R) t (pk_key_id resp) [Some (b64encode (encrypt k (concat (map encode1 pw)))), None] s1)
       = Inr [Some pw, None]
     \<and> fst (decrypt_passwords rsa (Some R) t' (pk_key_id resp) values'
           (snd (decrypt_passwords rsa (Some R) t (pk_key_id resp) values s1))) = Inl invalid_password_key"
proof -
  from assms(4) have s1: "pk_key_id resp = uid"
    "s1 = rs_setex R now (password_crypto_key uid) (te_password_crypto_key_ttl_seconds te) (rsa_pem rsa k) s"
    by (auto simp: create_password_key_def required_redis_def)
  have get: "rs_get R t (password_crypto_key uid) s1 = Some (rsa_pem rsa k)"
    using redis_setex(1)[OF assms(1,3)] assms(5) by (simp add: s1)
  have key: "rsa_pem rsa k \<noteq> []" "rsa_load_pem rsa (rsa_pem rsa k) = Inr k"
    "encrypt k (concat (map encode1 pw)) \<noteq> []"
    using assms(2,7) utf8_bytes[OF assms(6)] unfolding rsa_ok_def by blast+
  have "fst (decrypt_passwords rsa (Some R) t (pk_key_id resp) [Some (b64encode (encrypt k (concat (map encode1 pw)))), None] s1)
       = Inr [Some pw, None]"
    using get key decrypt_own[OF assms(2,6,7), of k]
    by (simp add: decrypt_passwords_def required_redis_def s1(1) Let_def)
  moreover have "fst (decrypt_passwords rsa (Some R) t' (pk_key_id resp) values'
           (snd (decrypt_passwords rsa (Some R) t (pk_key_id resp) values s1))) = Inl invalid_password_key"
    using get key assms(1) by (simp add: decrypt_passwords_def required_redis_def s1(1) Let_def redis_sets)
  ultimately show ?thesis by simp
qed

text \<open>A toy RSA for the concrete run: keys are numbers, encryption puts a byte in front.\<close>

definition demo_rsa :: "nat rsa" where
  "demo_rsa = \<lparr>rsa_pem = (\<lambda>k. replicate (Suc k) CHR ''K''), rsa_public_der = (\<lambda>k. [k mod 256]),
     rsa_load_pem = (\<lambda>s. Inr (length s - 1)),
     rsa_decrypt = (\<lambda>k c. Inr (tl c))\<rparr>"

definition demo_encrypt :: "nat \<Rightarrow> bytes \<Rightarrow> bytes" where
  "demo_encrypt k m = 7 # m"

lemma demo_rsa_ok: "rsa_ok demo_rsa demo_encrypt"
  by (simp add: rsa_ok_def demo_rsa_def demo_encrypt_def)

theorem password_key_roundtrip_witness:
  "fst (decrypt_passwords demo_rsa (Some redis_impl) 5 ''id'' [Some (b64encode (demo_encrypt 3 [104, 195, 169])), None]
      (snd (create_password_key demo_transport demo_rsa (Some redis_impl) 0 3 ''id'' redis_empty)))
    = Inr [Some [104, 233], None]"
proof -
  have c: "create_password_key demo_transport demo_rsa (Some redis_impl) 0 3 ''id'' redis_empty =
      (Inr \<lparr>pk_key_id = ''id'', pk_public_key = b64encode [3]\<rparr>,
       snd (create_password_key demo_transport demo_rsa (Some redis_impl) 0 3 ''id'' redis_empty))"
    by (simp add: create_password_key_def required_redis_def demo_rsa_def)
  show ?thesis
    using password_key_roundtrip[OF redis_impl_ok demo_rsa_ok _ c, of 5 "[104, 233]" 0 "[]" "[]"]
    by (simp add: demo_transport_def scalar_def encode1_def)
qed


lemma length_png_rows: "length (png_rows px) \<le> 44 * 421"
proof -
  have "length (concat (map (\<lambda>row. 0 # take (140 * 3) (drop (row * 140 * 3) px)) rows)) \<le> length rows * 421" for rows
    by (induction rows) simp_all
  from this[of "[0..<44]"] show ?thesis by (simp add: png_rows_def)
qed


end
