(* ===== verification/ModuleSystem.thy ===== *)
theory ModuleSystem
  imports Prelude "HOL-Library.Char_ord" "HOL-Library.List_Lexorder" "HOL-Library.Product_Lexorder"
    "HOL-Library.Multiset"
begin

text \<open>
  The module system, \<^verbatim>\<open>app/platform/module/\<close> with the service registry
  \<^verbatim>\<open>app/platform/interfaces/__init__.py\<close> and the event bus \<^verbatim>\<open>app/platform/events.py\<close>:
  specs, discovery with its dependency order, route inclusion, beat schedules, hooks and services.

  Python's import system and \<^verbatim>\<open>pkgutil\<close> are parameters: what a package walk finds, whether a manifest can be found,
  what importing it yields. Importing a path may raise. A Python set that is only iterated for a message
  (the path of a circular dependency) is a list in insertion order.
\<close>

section \<open>spec.py\<close>

record route_spec =
  rt_version :: string
  rt_router :: string
  rt_prefix :: string
  rt_tags :: "string list"
  rt_order :: int

record beat_schedule_spec =
  bs_name :: string
  bs_task :: string
  bs_schedule :: rat

record service_registration =
  sv_interface :: string
  sv_implementation :: string

record module_spec =
  ms_name :: string
  ms_enabled :: bool
  ms_enabled_key :: string
  ms_routes :: "route_spec list"
  ms_models :: "string list"
  ms_tasks :: "string list"
  ms_beat_schedules :: "beat_schedule_spec list"
  ms_startup_hooks :: "string list"
  ms_shutdown_hooks :: "string list"
  ms_order :: int
  ms_config_model :: string
  ms_config_from_db :: bool
  ms_services :: "service_registration list"
  ms_event_handlers :: "string list"
  ms_depends_on :: "string list"

text \<open>\<^verbatim>\<open>s.partition(sep)\<close> for a one-character separator: the parts before and after it, if it occurs.\<close>

fun partition_at :: "'a \<Rightarrow> 'a list \<Rightarrow> 'a list \<times> bool \<times> 'a list" where
  "partition_at c [] = ([], False, [])"
| "partition_at c (x # xs) =
     (if x = c then ([], True, xs) else case partition_at c xs of (a, f, b) \<Rightarrow> (x # a, f, b))"

fun getattrs :: "('v \<Rightarrow> string \<Rightarrow> 'v res) \<Rightarrow> 'v \<Rightarrow> string list \<Rightarrow> 'v res" where
  "getattrs getattr v [] = Inr v"
| "getattrs getattr v (a # as) = rbind (getattr v a) (\<lambda>w. getattrs getattr w as)"

definition import_string ::
  "(string \<Rightarrow> 'v res) \<Rightarrow> ('v \<Rightarrow> string \<Rightarrow> 'v res) \<Rightarrow> string \<Rightarrow> 'v res" where
  "import_string import_module getattr path =
     (case partition_at (CHR '':'') path of (module_path, separator, attr) \<Rightarrow>
        if \<not> separator \<or> module_path = [] \<or> attr = []
        then Inl (ValueError (asc (''Import path must use '' @ quoted ''module:attribute'' @ '' format: '' @ path)))
        else rbind (import_module module_path) (\<lambda>m. getattrs getattr m (split_on (CHR ''.'') attr)))"

section \<open>discovery.py\<close>

text \<open>The items of a comma-separated list, stripped, without the empty ones.\<close>

definition csv_items :: "string \<Rightarrow> string list" where
  "csv_items s = filter (\<lambda>w. w \<noteq> []) (map py_strip (split_on (CHR '','') s))"

definition env_or_empty :: "(string \<Rightarrow> string option) \<Rightarrow> string \<Rightarrow> string" where
  "env_or_empty environ name = (case environ name of None \<Rightarrow> [] | Some v \<Rightarrow> v)"

definition iter_module_manifest_names ::
  "(string \<Rightarrow> (string \<times> bool) list option) \<Rightarrow> (string \<Rightarrow> bool) \<Rightarrow> string \<Rightarrow> string list" where
  "iter_module_manifest_names walk_packages find_spec package_name =
     (case walk_packages package_name of
        None \<Rightarrow> []
      | Some infos \<Rightarrow>
          sort (dedup (filter find_spec (map (\<lambda>(name, _). name @ ''.module'') (filter snd infos)))))"

definition resolve_package_names :: "(string \<Rightarrow> string option) \<Rightarrow> string \<Rightarrow> string list" where
  "resolve_package_names environ package_name =
     foldl dedup_step (csv_items package_name) (csv_items (env_or_empty environ ''HEI_MODULE_PACKAGES''))"

definition env_name_set :: "(string \<Rightarrow> string option) \<Rightarrow> string \<Rightarrow> string set" where
  "env_name_set environ name = set (csv_items (env_or_empty environ name))"

definition is_module_enabled :: "(string \<Rightarrow> string option) \<Rightarrow> module_spec \<Rightarrow> bool" where
  "is_module_enabled environ spec =
     (if ms_name spec \<in> env_name_set environ ''HEI_DISABLED_MODULES'' then False
      else if ms_name spec \<in> env_name_set environ ''HEI_ENABLED_MODULES'' then True
      else ms_enabled spec)"

text \<open>\<^verbatim>\<open>{s.name: s for s in specs}\<close>: the last spec of a name wins.\<close>

definition by_name :: "module_spec list \<Rightarrow> string \<Rightarrow> module_spec option" where
  "by_name specs name = map_of (rev (map (\<lambda>s. (ms_name s, s)) specs)) name"

lemma by_name_Some: "by_name specs name = Some spec \<Longrightarrow> spec \<in> set specs \<and> ms_name spec = name"
  by (auto simp: by_name_def dest: map_of_SomeD)

type_synonym topo_state = "string set \<times> module_spec list"

definition circular :: "string list \<Rightarrow> string \<Rightarrow> exn" where
  "circular path name =
     ValueError (asc (''Circular module dependency: '' @ join_with '' -> '' path @ '' -> '' @ name))"

text \<open>
  The inner function \<^verbatim>\<open>visit\<close> of \<^verbatim>\<open>_topological_sort\<close> and its loop over the dependencies. The path is
  extended for the recursive calls and restored after them.
\<close>

function visit :: "module_spec list \<Rightarrow> string list \<Rightarrow> string \<Rightarrow> topo_state \<Rightarrow> topo_state res"
  and visit_deps :: "module_spec list \<Rightarrow> string list \<Rightarrow> string list \<Rightarrow> topo_state \<Rightarrow> topo_state res" where
  "visit specs path name st =
     (case st of (visited, result) \<Rightarrow>
        if name \<in> visited then Inr st
        else if name \<in> set path then Inl (circular path name)
        else case by_name specs name of
            None \<Rightarrow> Inr (insert name visited, result)
          | Some spec \<Rightarrow>
              rbind (visit_deps specs (path @ [name]) (ms_depends_on spec) st)
                (\<lambda>(visited', result'). Inr (insert name visited', result' @ [spec])))"
| "visit_deps specs path [] st = Inr st"
| "visit_deps specs path (dep # deps) st =
     rbind (visit specs path dep st) (\<lambda>st'. visit_deps specs path deps st')"
  by pat_completeness auto

termination
proof (relation "inv_image (less_than <*lex*> less_than)
    (case_sum (\<lambda>(specs, path, _, _). (card (ms_name ` set specs - set path), 0))
              (\<lambda>(specs, path, deps, _). (card (ms_name ` set specs - set path), Suc (length deps))))", goal_cases)
  case (2 specs path name st visited result spec)
  then have "name \<in> ms_name ` set specs - set path"
    by (force dest: by_name_Some)
  then have "card (ms_name ` set specs - set (path @ [name])) < card (ms_name ` set specs - set path)"
    by (intro psubset_card_mono) auto
  then show ?case by simp
qed auto

declare visit.simps [simp del]

fun visit_all :: "module_spec list \<Rightarrow> module_spec list \<Rightarrow> topo_state \<Rightarrow> topo_state res" where
  "visit_all all [] st = Inr st"
| "visit_all all (spec # specs) st =
     (if ms_name spec \<in> fst st then visit_all all specs st
      else rbind (visit all [] (ms_name spec) st) (\<lambda>st'. visit_all all specs st'))"

definition topological_sort :: "module_spec list \<Rightarrow> module_spec list res" where
  "topological_sort specs =
     rbind (visit_all specs specs ({}, [])) (\<lambda>(visited, result).
       let remaining = filter (\<lambda>s. ms_name s \<notin> ms_name ` set result) specs
       in Inr (result @ sort_key (\<lambda>s. (ms_order s, ms_name s)) remaining))"

text \<open>The loop over the manifests: \<^verbatim>\<open>seen\<close> is the set of the names of the specs kept so far.\<close>

fun load_specs ::
  "(string \<Rightarrow> string option) \<Rightarrow> (string \<Rightarrow> module_spec option res) \<Rightarrow> module_spec list \<Rightarrow> string list
     \<Rightarrow> module_spec list res" where
  "load_specs environ load_manifest specs [] = Inr specs"
| "load_specs environ load_manifest specs (m # ms) =
     rbind (load_manifest m) (\<lambda>loaded.
       case loaded of
         None \<Rightarrow> Inl (TypeError (asc (m @ ''.module must be a ModuleSpec instance'')))
       | Some spec \<Rightarrow>
           if ms_name spec \<in> ms_name ` set specs
           then Inl (ValueError (asc (''Duplicate module name: '' @ ms_name spec)))
           else if \<not> is_module_enabled environ spec then load_specs environ load_manifest specs ms
           else load_specs environ load_manifest (specs @ [spec]) ms)"

record importer =
  im_walk_packages :: "string \<Rightarrow> (string \<times> bool) list option"
  im_find_spec :: "string \<Rightarrow> bool"
  im_load_manifest :: "string \<Rightarrow> module_spec option res"

definition load_module_specs_uncached ::
  "importer \<Rightarrow> (string \<Rightarrow> string option) \<Rightarrow> string list \<Rightarrow> module_spec list res" where
  "load_module_specs_uncached im environ package_names =
     rbind (load_specs environ (im_load_manifest im) []
              (concat (map (iter_module_manifest_names (im_walk_packages im) (im_find_spec im)) package_names)))
       topological_sort"

text \<open>\<^verbatim>\<open>@cache\<close>: keyed by the package names; an exception is not cached.\<close>

definition load_module_specs ::
  "importer \<Rightarrow> (string \<Rightarrow> string option) \<Rightarrow> string \<Rightarrow> (string list \<rightharpoonup> module_spec list)
     \<Rightarrow> module_spec list res \<times> (string list \<rightharpoonup> module_spec list)" where
  "load_module_specs im environ package_name cache =
     (let package_names = resolve_package_names environ package_name in
      case cache package_names of
        Some specs \<Rightarrow> (Inr specs, cache)
      | None \<Rightarrow>
          (case load_module_specs_uncached im environ package_names of
             Inl e \<Rightarrow> (Inl e, cache)
           | Inr specs \<Rightarrow> (Inr specs, cache(package_names \<mapsto> specs))))"

section \<open>router.py\<close>

definition strip_slashes :: "string \<Rightarrow> string" where
  "strip_slashes s = strip_by (\<lambda>c. c = CHR ''/'') s"

definition join_prefixes :: "string list \<Rightarrow> string" where
  "join_prefixes parts = CHR ''/'' # join_with ''/'' (filter (\<lambda>p. p \<noteq> []) (map strip_slashes parts))"

text \<open>The routers \<^verbatim>\<open>include_router\<close> receives, with their prefix and tags. \<open>as_router\<close> tells whether an imported value is one.\<close>

definition build_api_router ::
  "(string \<Rightarrow> 'v res) \<Rightarrow> ('v \<Rightarrow> bool) \<Rightarrow> module_spec list \<Rightarrow> ('v \<times> string \<times> string list) list res" where
  "build_api_router import_path as_router module_specs =
     (let route_specs = concat (map (\<lambda>m. map (\<lambda>r. (m, r)) (ms_routes m)) module_specs);
          ordered = sort_key (\<lambda>(m, r). (rt_version r, rt_order r, ms_order m, ms_name m)) route_specs
      in mapr (\<lambda>(m, r).
           rbind (import_path (rt_router r)) (\<lambda>route_router.
             if \<not> as_router route_router
             then Inl (TypeError (asc (ms_name m @ '' route '' @ rt_router r @ '' is not an APIRouter'')))
             else Inr (route_router, join_prefixes [''/api'', rt_version r, rt_prefix r], rt_tags r))) ordered)"

section \<open>loader.py, hooks.py, services.py\<close>

fun import_modules :: "(string \<Rightarrow> unit res) \<Rightarrow> string list \<Rightarrow> unit res" where
  "import_modules import_module [] = Inr ()"
| "import_modules import_module (m # ms) = rbind (import_module m) (\<lambda>_. import_modules import_module ms)"

definition load_declared_models :: "(string \<Rightarrow> unit res) \<Rightarrow> module_spec list \<Rightarrow> unit res" where
  "load_declared_models import_module specs = import_modules import_module (concat (map ms_models specs))"

definition load_declared_tasks :: "(string \<Rightarrow> unit res) \<Rightarrow> module_spec list \<Rightarrow> unit res" where
  "load_declared_tasks import_module specs = import_modules import_module (concat (map ms_tasks specs))"

type_synonym beat_schedule = "(string \<times> string \<times> rat) list"

fun add_schedules :: "beat_schedule_spec list \<Rightarrow> beat_schedule \<Rightarrow> beat_schedule res" where
  "add_schedules [] schedule = Inr schedule"
| "add_schedules (item # items) schedule =
     (if bs_name item \<in> fst ` set schedule
      then Inl (ValueError (asc (''Duplicate Celery beat schedule name: '' @ bs_name item)))
      else add_schedules items (schedule @ [(bs_name item, bs_task item, bs_schedule item)]))"

definition collect_beat_schedule :: "module_spec list \<Rightarrow> beat_schedule res" where
  "collect_beat_schedule specs = add_schedules (concat (map ms_beat_schedules specs)) []"

text \<open>The hooks that were called, in order, and how the run ended: the first hook that raises stops it.\<close>

fun run_hooks :: "(string \<Rightarrow> unit res) \<Rightarrow> string list \<Rightarrow> string list \<times> unit res" where
  "run_hooks call [] = ([], Inr ())"
| "run_hooks call (h # hs) =
     (case call h of
        Inl e \<Rightarrow> ([h], Inl e)
      | Inr _ \<Rightarrow> (case run_hooks call hs of (called, r) \<Rightarrow> (h # called, r)))"

definition run_startup_hooks :: "(string \<Rightarrow> unit res) \<Rightarrow> module_spec list \<Rightarrow> string list \<times> unit res" where
  "run_startup_hooks call specs = run_hooks call (concat (map ms_startup_hooks specs))"

definition run_shutdown_hooks :: "(string \<Rightarrow> unit res) \<Rightarrow> module_spec list \<Rightarrow> string list \<times> unit res" where
  "run_shutdown_hooks call specs = run_hooks call (concat (map ms_shutdown_hooks (rev specs)))"

definition run_event_handlers :: "(string \<Rightarrow> unit res) \<Rightarrow> module_spec list \<Rightarrow> string list \<times> unit res" where
  "run_event_handlers call specs = run_hooks call (concat (map ms_event_handlers specs))"

section \<open>interfaces and events.py\<close>

type_synonym 'v registry = "string \<rightharpoonup> 'v"

definition register :: "string \<Rightarrow> 'v \<Rightarrow> 'v registry \<Rightarrow> 'v registry" where
  "register interface impl reg = reg(interface \<mapsto> impl)"

definition register_audit_queue :: "'v \<Rightarrow> 'v registry \<Rightarrow> 'v registry" where
  "register_audit_queue impl reg = register ''audit_queue'' impl reg"

definition register_config_reader :: "'v \<Rightarrow> 'v registry \<Rightarrow> 'v registry" where
  "register_config_reader impl reg = register ''config_reader'' impl reg"

definition register_data_scope_resolver :: "'v \<Rightarrow> 'v registry \<Rightarrow> 'v registry" where
  "register_data_scope_resolver impl reg = register ''data_scope_resolver'' impl reg"

definition register_account_lookup :: "'v \<Rightarrow> 'v registry \<Rightarrow> 'v registry" where
  "register_account_lookup impl reg = register ''account_lookup'' impl reg"

definition resolve :: "string \<Rightarrow> 'v registry \<Rightarrow> 'v res" where
  "resolve interface reg =
     (case reg interface of
        None \<Rightarrow> Inl (RuntimeError (asc (quoted interface @ '' not registered'')))
      | Some impl \<Rightarrow> Inr impl)"

fun register_all :: "(string \<Rightarrow> 'v res) \<Rightarrow> service_registration list \<Rightarrow> 'v registry \<Rightarrow> unit res \<times> 'v registry" where
  "register_all import_path [] reg = (Inr (), reg)"
| "register_all import_path (svc # svcs) reg =
     (case import_path (sv_implementation svc) of
        Inl e \<Rightarrow> (Inl e, reg)
      | Inr impl \<Rightarrow> register_all import_path svcs (register (sv_interface svc) impl reg))"

definition register_services :: "(string \<Rightarrow> 'v res) \<Rightarrow> module_spec list \<Rightarrow> 'v registry \<Rightarrow> unit res \<times> 'v registry" where
  "register_services import_path specs reg = register_all import_path (concat (map ms_services specs)) reg"

type_synonym 'h subscribers = "string \<Rightarrow> 'h list"

definition subscribe :: "string \<Rightarrow> 'h \<Rightarrow> 'h subscribers \<Rightarrow> 'h subscribers" where
  "subscribe event_name handler subs = subs(event_name := subs event_name @ [handler])"

text \<open>
  Every handler of the event runs on the state of the process, whatever the others raise; an exception is only
  logged, its effects stay.
\<close>

definition emit :: "('h \<Rightarrow> 's \<Rightarrow> unit res \<times> 's) \<Rightarrow> string \<Rightarrow> 'h subscribers \<Rightarrow> 's \<Rightarrow> 's" where
  "emit run event_name subs s = foldl (\<lambda>s handler. snd (run handler s)) s (subs event_name)"

text \<open>The same from synchronous code: the coroutine an asynchronous handler returns is never awaited.\<close>

definition emit_sync :: "('h \<Rightarrow> bool) \<Rightarrow> ('h \<Rightarrow> 's \<Rightarrow> unit res \<times> 's) \<Rightarrow> string \<Rightarrow> 'h subscribers \<Rightarrow> 's \<Rightarrow> 's" where
  "emit_sync is_async run event_name subs s =
     foldl (\<lambda>s handler. if is_async handler then s else snd (run handler s)) s (subs event_name)"

section \<open>Dependency order\<close>

text \<open>An edge from a module to a module it depends on.\<close>

definition depends :: "module_spec list \<Rightarrow> (string \<times> string) set" where
  "depends specs = {(a, b). \<exists>spec. by_name specs a = Some spec \<and> b \<in> set (ms_depends_on spec)}"

text \<open>Every module of the list is preceded by those of its dependencies that \<open>specs\<close> has.\<close>

definition dependencies_first :: "module_spec list \<Rightarrow> module_spec list \<Rightarrow> bool" where
  "dependencies_first specs out =
     (\<forall>xs s ys. out = xs @ s # ys \<longrightarrow>
        (\<forall>d\<in>set (ms_depends_on s). by_name specs d \<noteq> None \<longrightarrow> d \<in> ms_name ` set xs))"

lemma dependencies_first_Nil [simp]: "dependencies_first specs []"
  by (simp add: dependencies_first_def)

lemma dependencies_first_snoc:
  assumes "dependencies_first specs out"
    and "\<And>d. d \<in> set (ms_depends_on s) \<Longrightarrow> by_name specs d \<noteq> None \<Longrightarrow> d \<in> ms_name ` set out"
  shows "dependencies_first specs (out @ [s])"
  unfolding dependencies_first_def
proof (intro allI impI)
  fix xs s' ys assume "out @ [s] = xs @ s' # ys"
  then consider "ys = []" "xs = out" "s' = s" | ys' where "out = xs @ s' # ys'"
    by (cases ys rule: rev_cases) auto
  then show "\<forall>d\<in>set (ms_depends_on s'). by_name specs d \<noteq> None \<longrightarrow> d \<in> ms_name ` set xs"
    using assms by cases (auto simp: dependencies_first_def)
qed

text \<open>What the search keeps: the modules listed are visited, different and in dependency order; a visited name is
  listed or unknown; no name on the path is visited.\<close>

definition topo_ok :: "module_spec list \<Rightarrow> string set \<Rightarrow> topo_state \<Rightarrow> bool" where
  "topo_ok specs path st =
     (case st of (visited, result) \<Rightarrow>
        ms_name ` set result \<subseteq> visited \<and> distinct (map ms_name result)
        \<and> (\<forall>s\<in>set result. by_name specs (ms_name s) = Some s)
        \<and> (\<forall>v\<in>visited. by_name specs v \<noteq> None \<longrightarrow> v \<in> ms_name ` set result)
        \<and> dependencies_first specs result \<and> path \<inter> visited = {})"

lemma topo_ok_start: "topo_ok specs {} ({}, [])"
  by (simp add: topo_ok_def)

lemma topo_ok_push: "topo_ok specs path st \<Longrightarrow> name \<notin> fst st \<Longrightarrow> topo_ok specs (insert name path) st"
  by (auto simp: topo_ok_def split: prod.splits)

lemma topo_ok_unknown:
  "topo_ok specs path (visited, result) \<Longrightarrow> by_name specs name = None \<Longrightarrow> name \<notin> path
     \<Longrightarrow> topo_ok specs path (insert name visited, result)"
  by (auto simp: topo_ok_def)

lemma topo_ok_emit:
  assumes "topo_ok specs (insert name path) (visited, result)" "by_name specs name = Some spec" "name \<notin> path"
    and "set (ms_depends_on spec) \<subseteq> visited"
  shows "topo_ok specs path (insert name visited, result @ [spec])"
proof -
  have "dependencies_first specs (result @ [spec])"
    using assms(1,4) by (intro dependencies_first_snoc) (auto simp: topo_ok_def)
  with assms by_name_Some[OF assms(2)] show ?thesis by (auto simp: topo_ok_def)
qed

lemma visit_ok:
  "visit specs path name st = Inr st' \<Longrightarrow> topo_ok specs (set path) st
     \<Longrightarrow> topo_ok specs (set path) st' \<and> insert name (fst st) \<subseteq> fst st'"
  "visit_deps specs path deps st = Inr st' \<Longrightarrow> topo_ok specs (set path) st
     \<Longrightarrow> topo_ok specs (set path) st' \<and> set deps \<union> fst st \<subseteq> fst st'"
proof (induction specs path name st and specs path deps st arbitrary: st' and st' rule: visit_visit_deps.induct)
  case (1 specs path name st)
  obtain visited result where st: "st = (visited, result)" by (cases st)
  show ?case
  proof (cases "name \<in> visited")
    case True
    with 1(2,3) show ?thesis by (auto simp: st visit.simps)
  next
    case new: False
    with 1(2) have path: "name \<notin> set path" by (auto simp: st visit.simps)
    show ?thesis
    proof (cases "by_name specs name")
      case None
      with 1(2,3) new path show ?thesis by (auto simp: st visit.simps topo_ok_unknown)
    next
      case (Some spec)
      with 1(2) new path obtain visited' result'
        where r: "visit_deps specs (path @ [name]) (ms_depends_on spec) st = Inr (visited', result')"
          and st': "st' = (insert name visited', result' @ [spec])"
        by (auto simp: st visit.simps rbind_eq_Inr)
      have "topo_ok specs (set (path @ [name])) st"
        using topo_ok_push[OF 1(3)] new by (simp add: st)
      from 1(1)[OF st[symmetric] new path Some r this]
      show ?thesis using Some path by (auto simp: st st' topo_ok_emit)
    qed
  qed
next
  case (3 specs path dep deps st)
  from 3(3) obtain st1 where v: "visit specs path dep st = Inr st1" "visit_deps specs path deps st1 = Inr st'"
    by (auto simp: rbind_eq_Inr)
  from 3(1)[OF v(1) 3(4)] 3(2)[OF v(1) v(2)] show ?case by auto
qed simp

lemma visit_all_ok:
  "visit_all all specs st = Inr st' \<Longrightarrow> topo_ok all {} st
     \<Longrightarrow> topo_ok all {} st' \<and> ms_name ` set specs \<union> fst st \<subseteq> fst st'"
proof (induction all specs st arbitrary: st' rule: visit_all.induct)
  case (2 all spec specs st)
  show ?case
  proof (cases "ms_name spec \<in> fst st")
    case True
    with 2(1)[OF True] 2(3,4) show ?thesis by auto
  next
    case False
    with 2(3) obtain st1 where v: "visit all [] (ms_name spec) st = Inr st1" "visit_all all specs st1 = Inr st'"
      by (auto simp: rbind_eq_Inr)
    from visit_ok(1)[OF v(1)] 2(4) 2(2)[OF False v(1) v(2)] show ?thesis by auto
  qed
qed simp

text \<open>A circular dependency is reported only when there is one.\<close>

lemma visit_error:
  "visit specs path name st = Inl e \<Longrightarrow> (\<forall>m\<in>set path. (m, name) \<in> (depends specs)\<^sup>+)
     \<Longrightarrow> \<exists>p n. e = circular p n \<and> (n, n) \<in> (depends specs)\<^sup>+"
  "visit_deps specs path deps st = Inl e \<Longrightarrow> (\<forall>m\<in>set path. \<forall>d\<in>set deps. (m, d) \<in> (depends specs)\<^sup>+)
     \<Longrightarrow> \<exists>p n. e = circular p n \<and> (n, n) \<in> (depends specs)\<^sup>+"
proof (induction specs path name st and specs path deps st rule: visit_visit_deps.induct)
  case (1 specs path name st)
  obtain visited result where st: "st = (visited, result)" by (cases st)
  from 1(2) have new: "name \<notin> visited" by (auto simp: st visit.simps)
  show ?case
  proof (cases "name \<in> set path")
    case True
    with 1(2,3) new show ?thesis by (auto simp: st visit.simps)
  next
    case path: False
    with 1(2) new obtain spec where spec: "by_name specs name = Some spec"
      and r: "visit_deps specs (path @ [name]) (ms_depends_on spec) st = Inl e"
      by (auto simp: st visit.simps rbind_eq_Inl split: option.splits)
    have edge: "(name, d) \<in> depends specs" if "d \<in> set (ms_depends_on spec)" for d
      using that spec by (auto simp: depends_def)
    have "\<forall>m\<in>set (path @ [name]). \<forall>d\<in>set (ms_depends_on spec). (m, d) \<in> (depends specs)\<^sup>+"
      using 1(3) edge by (auto intro: trancl_into_trancl)
    from 1(1)[OF st[symmetric] new path spec r this] show ?thesis .
  qed
next
  case (3 specs path dep deps st)
  then show ?case by (auto simp: rbind_eq_Inl)
qed simp

lemma visit_all_error:
  "visit_all all specs st = Inl e \<Longrightarrow> \<exists>p n. e = circular p n \<and> (n, n) \<in> (depends all)\<^sup>+"
proof (induction all specs st rule: visit_all.induct)
  case (2 all spec specs st)
  then show ?case using visit_error(1)[of all "[]" "ms_name spec" st e] by (auto simp: rbind_eq_Inl split: if_splits)
qed simp

lemma takeWhile_shorter: "x \<in> set xs \<Longrightarrow> \<not> P x \<Longrightarrow> length (takeWhile P xs) < length xs"
  by (induction xs) auto

text \<open>A list in dependency order has no cycle: every edge leads to an earlier position.\<close>

lemma dependencies_first_acyclic:
  assumes "dependencies_first specs out" "\<And>a. by_name specs a \<noteq> None \<Longrightarrow> a \<in> ms_name ` set out"
    and "\<forall>s\<in>set out. by_name specs (ms_name s) = Some s"
  shows "(n, n) \<notin> (depends specs)\<^sup>+"
proof
  define pos where "pos a = length (takeWhile (\<lambda>s. ms_name s \<noteq> a) out)" for a
  have edge: "pos b < pos a" if ab: "(a, b) \<in> depends specs" and b: "by_name specs b \<noteq> None" for a b
  proof -
    from ab obtain spec where spec: "by_name specs a = Some spec" "b \<in> set (ms_depends_on spec)"
      by (auto simp: depends_def)
    let ?xs = "takeWhile (\<lambda>s. ms_name s \<noteq> a) out"
    from assms(2)[of a] spec obtain y ys where out: "out = ?xs @ y # ys" and y: "ms_name y = a"
      by (metis (mono_tags, lifting) dropWhile_eq_Nil_conv hd_dropWhile imageE list.collapse option.distinct(1)
          takeWhile_dropWhile_id)
    then have "y = spec" using assms(3) spec(1) by (metis in_set_conv_decomp option.inject)
    with assms(1) out spec(2) b have "b \<in> ms_name ` set ?xs" unfolding dependencies_first_def by blast
    then obtain t where t: "t \<in> set ?xs" "ms_name t = b" by auto
    have "takeWhile (\<lambda>s. ms_name s \<noteq> b) out = takeWhile (\<lambda>s. ms_name s \<noteq> b) ?xs"
      using t by (subst out) (simp add: takeWhile_append1[of t])
    moreover have "length (takeWhile (\<lambda>s. ms_name s \<noteq> b) ?xs) < length ?xs"
      using t by (intro takeWhile_shorter) auto
    ultimately show ?thesis by (simp add: pos_def)
  qed
  have "by_name specs b \<noteq> None \<Longrightarrow> pos b < pos a" if "(a, b) \<in> (depends specs)\<^sup>+" for a b
    using that
  proof (induction rule: trancl_induct)
    case (step b c)
    then have "by_name specs b \<noteq> None" by (auto simp: depends_def)
    with step edge show ?case by fastforce
  qed (use edge in blast)
  moreover assume "(n, n) \<in> (depends specs)\<^sup>+"
  moreover from this have "by_name specs n \<noteq> None" by (auto simp: depends_def dest: tranclD)
  ultimately show False by blast
qed

lemma by_name_known: "ms_name ` set specs = {a. by_name specs a \<noteq> None}"
  by (auto simp: by_name_def map_of_eq_None_iff image_image)

text \<open>After the search nothing remains, so the final sort by \<^verbatim>\<open>order\<close> never applies.\<close>

lemma topological_sort_result:
  assumes "topological_sort specs = Inr out"
  obtains visited where "visit_all specs specs ({}, []) = Inr (visited, out)"
    "topo_ok specs {} (visited, out)" "ms_name ` set specs = ms_name ` set out"
proof -
  from assms obtain visited result where v: "visit_all specs specs ({}, []) = Inr (visited, result)"
    and out: "out = result @ sort_key (\<lambda>s. (ms_order s, ms_name s)) (filter (\<lambda>s. ms_name s \<notin> ms_name ` set result) specs)"
    by (auto simp: topological_sort_def rbind_eq_Inr Let_def)
  from visit_all_ok[OF v topo_ok_start] have ok: "topo_ok specs {} (visited, result)"
    and all: "ms_name ` set specs \<subseteq> visited" by auto
  have "ms_name ` set specs = ms_name ` set result"
    using ok all by_name_known[of specs] by (auto simp: topo_ok_def)
  moreover from this have "filter (\<lambda>s. ms_name s \<notin> ms_name ` set result) specs = []"
    by (auto simp: filter_empty_conv)
  ultimately show thesis using that v ok out by simp
qed

lemma topological_sort_fails:
  "(\<exists>e. topological_sort specs = Inl e) \<longleftrightarrow> (\<exists>n. (n, n) \<in> (depends specs)\<^sup>+)"
proof
  assume "\<exists>e. topological_sort specs = Inl e"
  then show "\<exists>n. (n, n) \<in> (depends specs)\<^sup>+"
    using visit_all_error[of specs specs "({}, [])"]
    by (auto simp: topological_sort_def rbind_eq_Inl Let_def split: prod.splits)
next
  assume cyc: "\<exists>n. (n, n) \<in> (depends specs)\<^sup>+"
  show "\<exists>e. topological_sort specs = Inl e"
  proof (rule ccontr)
    assume "\<nexists>e. topological_sort specs = Inl e"
    then obtain out where "topological_sort specs = Inr out" by (cases "topological_sort specs") auto
    then obtain visited where "topo_ok specs {} (visited, out)" "ms_name ` set specs = ms_name ` set out"
      by (rule topological_sort_result)
    with dependencies_first_acyclic[of specs out] cyc show False
      using by_name_known[of specs] by (auto simp: topo_ok_def)
  qed
qed

lemma distinct_by_name: "distinct (map ms_name specs) \<Longrightarrow> s \<in> set specs \<Longrightarrow> by_name specs (ms_name s) = Some s"
  by (simp add: by_name_def comp_def flip: rev_map)

lemma topological_sort_permutes:
  assumes "topological_sort specs = Inr out" "distinct (map ms_name specs)"
  shows "mset out = mset specs \<and> dependencies_first specs out"
proof -
  from assms(1) obtain visited where ok: "topo_ok specs {} (visited, out)" and names: "ms_name ` set specs = ms_name ` set out"
    by (rule topological_sort_result)
  have known: "by_name specs (ms_name s) = Some s" if "s \<in> set out" for s
    using ok that by (simp add: topo_ok_def)
  have "set out = set specs"
  proof
    show "set out \<subseteq> set specs" using known by (auto dest: by_name_Some)
    show "set specs \<subseteq> set out"
    proof
      fix s assume s: "s \<in> set specs"
      with names obtain t where "t \<in> set out" "ms_name t = ms_name s" by (metis imageE imageI)
      with known[of t] distinct_by_name[OF assms(2) s] show "s \<in> set out" by (metis option.inject)
    qed
  qed
  moreover have "distinct out" "distinct specs"
    using ok assms(2) by (simp_all add: topo_ok_def distinct_map)
  ultimately show ?thesis using ok by (simp add: topo_ok_def set_eq_iff_mset_eq_distinct)
qed

text \<open>Modules without dependencies keep the order of discovery, whatever their \<^verbatim>\<open>order\<close>.\<close>

lemma visit_all_independent:
  assumes "distinct (map ms_name specs)" "\<forall>s\<in>set specs. ms_depends_on s = []"
    and "set ss \<subseteq> set specs" "distinct (map ms_name ss)" "visited \<inter> ms_name ` set ss = {}"
  shows "visit_all specs ss (visited, result) = Inr (visited \<union> ms_name ` set ss, result @ ss)"
  using assms(3-5)
proof (induction ss arbitrary: visited result)
  case (Cons s ss)
  then have "visit specs [] (ms_name s) (visited, result) = Inr (insert (ms_name s) visited, result @ [s])"
    using assms(1,2) by (auto simp: visit.simps distinct_by_name)
  with Cons show ?case by auto
qed simp

lemma topological_sort_ignores_order:
  assumes "distinct (map ms_name specs)" "\<forall>s\<in>set specs. ms_depends_on s = []"
  shows "topological_sort specs = Inr specs"
  using visit_all_independent[OF assms subset_refl assms(1), of "{}" "[]"]
  by (simp add: topological_sort_def Let_def filter_empty_conv)

lemma load_specs_ok:
  assumes "load_specs environ load_manifest specs ms = Inr out" "distinct (map ms_name specs)"
    and "\<forall>s\<in>set specs. is_module_enabled environ s"
  shows "distinct (map ms_name out) \<and> (\<forall>s\<in>set out. is_module_enabled environ s)"
  using assms
proof (induction ms arbitrary: specs)
  case (Cons m ms)
  from Cons(2) obtain spec where "load_manifest m = Inr (Some spec)" "ms_name spec \<notin> ms_name ` set specs"
    and "load_specs environ load_manifest (if is_module_enabled environ spec then specs @ [spec] else specs) ms = Inr out"
    by (auto simp: rbind_eq_Inr split: option.splits if_splits)
  with Cons(1)[of "specs @ [spec]"] Cons(1)[of specs] Cons(3,4) show ?case by (auto split: if_splits)
qed simp

lemma uncached_ok:
  assumes "load_module_specs_uncached im environ packages = Inr out"
  shows "distinct (map ms_name out) \<and> (\<forall>s\<in>set out. is_module_enabled environ s) \<and> dependencies_first out out"
proof -
  from assms obtain specs where load: "load_specs environ (im_load_manifest im) []
      (concat (map (iter_module_manifest_names (im_walk_packages im) (im_find_spec im)) packages)) = Inr specs"
    and sorted: "topological_sort specs = Inr out"
    by (auto simp: load_module_specs_uncached_def rbind_eq_Inr)
  from load_specs_ok[OF load] have ok: "distinct (map ms_name specs)" "\<forall>s\<in>set specs. is_module_enabled environ s"
    by auto
  from topological_sort_permutes[OF sorted ok(1)] have perm: "mset out = mset specs" "dependencies_first specs out"
    by auto
  then have set: "set out = set specs" by (metis set_mset_mset)
  have "mset (map ms_name out) = mset (map ms_name specs)" using perm(1) by simp
  then have dist: "distinct (map ms_name out)" using ok(1) by (metis mset_eq_imp_distinct_iff)
  have "by_name out a \<noteq> None \<longleftrightarrow> by_name specs a \<noteq> None" for a
    using by_name_known[of out] by_name_known[of specs] set by auto
  with perm(2) have "dependencies_first out out" unfolding dependencies_first_def by blast
  with dist ok(2) set show ?thesis by simp
qed

lemma run_hooks_all: "run_hooks call hs = (called, Inr ()) \<Longrightarrow> called = hs"
  by (induction hs arbitrary: called) (auto split: sum.splits prod.splits)

section \<open>Properties\<close>

text \<open>C13: Sorting modules with different names fails exactly when their declared dependencies have a cycle, and then with
  the circular-dependency error; otherwise it returns a permutation of the modules in which every module comes after
  those of its dependencies that are present.\<close>

theorem topological_sort_correct:
  assumes "distinct (map ms_name specs)"
  shows "case topological_sort specs of
      Inl e \<Rightarrow> (\<exists>path n. e = circular path n) \<and> (\<exists>n. (n, n) \<in> (depends specs)\<^sup>+)
    | Inr out \<Rightarrow> (\<nexists>n. (n, n) \<in> (depends specs)\<^sup>+) \<and> mset out = mset specs \<and> dependencies_first specs out"
proof (cases "topological_sort specs")
  case (Inl e)
  then have "visit_all specs specs ({}, []) = Inl e"
    by (auto simp: topological_sort_def rbind_eq_Inl Let_def split: prod.splits)
  from visit_all_error[OF this] Inl show ?thesis by auto
next
  case (Inr out)
  with topological_sort_fails[of specs] topological_sort_permutes[OF Inr assms] show ?thesis by auto
qed

definition demo_module :: "string \<Rightarrow> string list \<Rightarrow> int \<Rightarrow> module_spec" where
  "demo_module name deps order =
     \<lparr>ms_name = name, ms_enabled = True, ms_enabled_key = [], ms_routes = [], ms_models = [], ms_tasks = [],
      ms_beat_schedules = [], ms_startup_hooks = [name @ '':start''], ms_shutdown_hooks = [name @ '':stop''],
      ms_order = order, ms_config_model = [], ms_config_from_db = False, ms_services = [], ms_event_handlers = [],
      ms_depends_on = deps\<rparr>"

lemma demo_sorted:
  "topological_sort [demo_module ''b'' [''a''] 1, demo_module ''a'' [] 2] = Inr [demo_module ''a'' [] 2, demo_module ''b'' [''a''] 1]"
  by (simp add: topological_sort_def visit.simps by_name_def Let_def demo_module_def)

theorem topological_sort_correct_witness:
  "dependencies_first [demo_module ''b'' [''a''] 1, demo_module ''a'' [] 2]
     [demo_module ''a'' [] 2, demo_module ''b'' [''a''] 1]"
  using topological_sort_correct[of "[demo_module ''b'' [''a''] 1, demo_module ''a'' [] 2]"]
  unfolding demo_sorted by (simp add: demo_module_def)

text \<open>Discovery returns enabled modules with different names, and when all hooks succeed, the startup hooks of
  a module run after those of every module it depends on, and its shutdown hooks before theirs.\<close>

lemma module_hooks_ordered:
  assumes "load_module_specs_uncached im environ packages = Inr specs"
    and "s \<in> set specs" "t \<in> set specs" "ms_name t \<in> set (ms_depends_on s)"
    and "run_startup_hooks start specs = (started, Inr ())"
    and "run_shutdown_hooks stop specs = (stopped, Inr ())"
  shows "distinct (map ms_name specs) \<and> (\<forall>m\<in>set specs. is_module_enabled environ m)
     \<and> (\<exists>as bs cs. started = as @ ms_startup_hooks t @ bs @ ms_startup_hooks s @ cs)
     \<and> (\<exists>as bs cs. stopped = as @ ms_shutdown_hooks s @ bs @ ms_shutdown_hooks t @ cs)"
proof -
  note ok = uncached_ok[OF assms(1)]
  from assms(2) obtain xs ys where split: "specs = xs @ s # ys" by (auto dest: split_list)
  have "by_name specs (ms_name t) \<noteq> None" using by_name_known[of specs] assms(3) by auto
  with ok split assms(4) have "ms_name t \<in> ms_name ` set xs" unfolding dependencies_first_def by blast
  then obtain t' where "t' \<in> set xs" "ms_name t' = ms_name t" by auto
  moreover from this have "t' = t" using ok assms(3) split by (metis Un_iff distinct_map inj_onD set_append)
  ultimately obtain us vs where "xs = us @ t # vs" by (auto dest: split_list)
  with split have specs: "specs = us @ t # vs @ s # ys" by simp
  have "started = concat (map ms_startup_hooks us) @ ms_startup_hooks t @ concat (map ms_startup_hooks vs)
      @ ms_startup_hooks s @ concat (map ms_startup_hooks ys)"
    using run_hooks_all[OF assms(5)[unfolded run_startup_hooks_def]] by (simp add: specs)
  moreover have "stopped = concat (map ms_shutdown_hooks (rev ys)) @ ms_shutdown_hooks s
      @ concat (map ms_shutdown_hooks (rev vs)) @ ms_shutdown_hooks t @ concat (map ms_shutdown_hooks (rev us))"
    using run_hooks_all[OF assms(6)[unfolded run_shutdown_hooks_def]] by (simp add: specs)
  ultimately show ?thesis using ok by blast
qed

definition demo_importer :: importer where
  "demo_importer =
     \<lparr>im_walk_packages = (\<lambda>_. Some [(''app.a'', True), (''app.b'', True), (''app.c'', False)]),
      im_find_spec = (\<lambda>_. True),
      im_load_manifest = (\<lambda>m. Inr (Some (if m = ''app.a.module'' then demo_module ''a'' [''b''] 1
                                       else demo_module ''b'' [] 2)))\<rparr>"

lemma demo_loaded:
  "load_module_specs_uncached demo_importer (\<lambda>_. None) [''app''] = Inr [demo_module ''b'' [] 2, demo_module ''a'' [''b''] 1]"
  by (simp add: load_module_specs_uncached_def demo_importer_def iter_module_manifest_names_def dedup_def dedup_step_def
      is_module_enabled_def env_name_set_def env_or_empty_def csv_items_def py_strip_def strip_by_def lstrip_by_def
      topological_sort_def visit.simps by_name_def Let_def demo_module_def)

lemma module_hooks_ordered_witness:
  "\<exists>as bs cs. [''b:start'', ''a:start''] = as @ ''b:start'' # bs @ ''a:start'' # cs"
proof -
  let ?a = "demo_module ''a'' [''b''] 1" and ?b = "demo_module ''b'' [] 2"
  have "run_startup_hooks (\<lambda>_. Inr ()) [?b, ?a] = ([''b:start'', ''a:start''], Inr ())"
    "run_shutdown_hooks (\<lambda>_. Inr ()) [?b, ?a] = ([''a:stop'', ''b:stop''], Inr ())"
    by (simp_all add: run_startup_hooks_def run_shutdown_hooks_def demo_module_def)
  from module_hooks_ordered[OF demo_loaded _ _ _ this, of ?a ?b] show ?thesis
    by (simp add: demo_module_def)
qed

end
