(* ===== verification/PermissionRegistry.thy ===== *)
theory PermissionRegistry
  imports Errors Session ModuleSystem
begin

text \<open>
  The permission registry, \<^verbatim>\<open>app/core/security/permission_registry.py\<close>: the scan of the routes for their
  permission keys, the registry in Redis, and the check of keys against it.

  A route is what the scan reads of FastAPI's objects. The JSON text stored in Redis is the value it encodes. Names of
  resources may be any text, so they and the entries of the registry are lists of code points; permission keys are strings.
\<close>

section \<open>Routes\<close>

text \<open>A dependency with the permission key of its callable's metadata, if it has any, and its own dependencies.\<close>

datatype dependant = Dependant (dp_permission_key: "string option") (dp_dependencies: "dependant list")

record api_route =
  ar_path :: string
  ar_methods :: "string list"
  ar_tags :: "string list"
  ar_summary :: "ptext option"
  ar_endpoint_name :: ptext
  ar_dependencies :: "dependant list"

datatype route_node =
    Api_route api_route
  | Route_group "route_node list"
  | Other_route

record permission_resource =
  pr_permission_key :: string
  pr_name :: ptext
  pr_route_path :: string
  pr_method :: string

definition resource_text :: "permission_resource \<Rightarrow> ptext" where
  "resource_text r = asc (pr_permission_key r) @ asc ''['' @ pr_name r @ asc '']''"

section \<open>Scanning\<close>

text \<open>\<^verbatim>\<open>[a-z0-9*]+(?::[a-z0-9*]+)+\<close>, matched against the whole key.\<close>

definition key_char :: "char \<Rightarrow> bool" where
  "key_char c = (c \<in> set ''abcdefghijklmnopqrstuvwxyz0123456789*'')"

definition permission_key_pattern :: "string \<Rightarrow> bool" where
  "permission_key_pattern key =
     (let parts = split_on (CHR '':'') key
      in 2 \<le> length parts \<and> list_all (\<lambda>p. p \<noteq> [] \<and> list_all key_char p) parts)"

fun iter_dependant_calls :: "dependant \<Rightarrow> string option list" where
  "iter_dependant_calls (Dependant key deps) =
     concat (map (\<lambda>d. dp_permission_key d # iter_dependant_calls d) deps)"

definition normalize_methods :: "api_route \<Rightarrow> string list" where
  "normalize_methods route = sort (filter (\<lambda>m. m \<noteq> ''HEAD'' \<and> m \<noteq> ''OPTIONS'') (ar_methods route))"

text \<open>\<^verbatim>\<open>^/api/v[0-9]+(?=/|$)\<close>, removed once.\<close>

definition strip_api_version :: "string \<Rightarrow> string" where
  "strip_api_version s =
     (if \<not> startswith s ''/api/v'' then s
      else
        let ds = takeWhile (\<lambda>c. c \<in> set digits) (drop 6 s); rest = dropWhile (\<lambda>c. c \<in> set digits) (drop 6 s)
        in if ds \<noteq> [] \<and> (rest = [] \<or> hd rest = CHR ''/'') then rest else s)"

definition or_slash :: "string \<Rightarrow> string" where
  "or_slash s = (if s = [] then ''/'' else s)"

definition normalize_route_path :: "string \<Rightarrow> string" where
  "normalize_route_path path =
     (let normalized = or_slash (py_strip path)
      in if normalized = ''/api'' then ''/'' else or_slash (strip_api_version normalized))"

fun strip_tags :: "string \<Rightarrow> string list \<Rightarrow> string" where
  "strip_tags normalized [] = normalized"
| "strip_tags normalized (tag # tags) =
     (if normalized = ''/'' @ tag then ''/''
      else if startswith normalized (''/'' @ tag @ ''/'') then drop (length tag + 1) normalized
      else strip_tags normalized tags)"

definition normalize_permission_route_path :: "api_route \<Rightarrow> string" where
  "normalize_permission_route_path route =
     strip_tags (normalize_route_path (ar_path route)) (filter (\<lambda>t. t \<noteq> []) (map strip_slashes (ar_tags route)))"

text \<open>The literal of \<^verbatim>\<open>RESOURCE_NAME_FALLBACK\<close>: "interface name not defined".\<close>

definition resource_name_fallback :: ptext where
  "resource_name_fallback = [0x672A, 0x5B9A, 0x4E49, 0x63A5, 0x53E3, 0x540D, 0x79F0]"

definition resolve_route_name :: "api_route \<Rightarrow> ptext" where
  "resolve_route_name route =
     (case ar_summary route of
        Some summary \<Rightarrow> if summary \<noteq> [] then summary
                        else if ar_endpoint_name route \<noteq> [] then ar_endpoint_name route else resource_name_fallback
      | None \<Rightarrow> if ar_endpoint_name route \<noteq> [] then ar_endpoint_name route else resource_name_fallback)"

definition extract_permission_key :: "api_route \<Rightarrow> string option" where
  "extract_permission_key route =
     (let calls = iter_dependant_calls (Dependant None (ar_dependencies route));
          permission_keys = filter (\<lambda>k. k \<noteq> [] \<and> permission_key_pattern k) (map py_strip (List.map_filter id calls))
      in if permission_keys = [] then None else Some (hd (sort permission_keys)))"

fun iter_api_route_candidates :: "route_node list \<Rightarrow> api_route list" where
  "iter_api_route_candidates [] = []"
| "iter_api_route_candidates (Api_route r # routes) = r # iter_api_route_candidates routes"
| "iter_api_route_candidates (Route_group rs # routes) = iter_api_route_candidates rs @ iter_api_route_candidates routes"
| "iter_api_route_candidates (Other_route # routes) = iter_api_route_candidates routes"

text \<open>One iteration of the scan; the keys seen are those of the resources found.\<close>

definition scan_step :: "permission_resource list \<Rightarrow> api_route \<Rightarrow> permission_resource list" where
  "scan_step resources route =
     (case extract_permission_key route of
        None \<Rightarrow> resources
      | Some permission_key \<Rightarrow>
          if normalize_methods route = [] \<or> permission_key \<in> pr_permission_key ` set resources then resources
          else resources @ [\<lparr>pr_permission_key = permission_key, pr_name = resolve_route_name route,
                             pr_route_path = normalize_permission_route_path route,
                             pr_method = hd (normalize_methods route)\<rparr>])"

definition scan_permission_registry :: "route_node list \<Rightarrow> permission_resource list" where
  "scan_permission_registry routes =
     sort_key pr_permission_key (foldl scan_step [] (iter_api_route_candidates routes))"

section \<open>The registry in Redis\<close>

datatype registry_json = J_list "ptext list" | J_dict "(ptext \<times> string) list"

definition permission_resource_cache_key :: string where
  "permission_resource_cache_key = ''Cache:permission-resource''"

definition permission_resource_method_cache_key :: string where
  "permission_resource_method_cache_key = ''Cache:permission-resource-method''"

definition runtime :: "string \<Rightarrow> web_exn" where
  "runtime m = Unexpected (RuntimeError (asc m))"

text \<open>\<^verbatim>\<open>{r.resource_text: r.method for r in resources}\<close>.\<close>

definition method_map :: "permission_resource list \<Rightarrow> (ptext \<times> string) list" where
  "method_map resources = map (\<lambda>k. (k, the (map_of (rev (map (\<lambda>r. (resource_text r, pr_method r)) resources)) k)))
     (dedup (map resource_text resources))"

definition sync_permission_registry ::
  "('s, registry_json) redis option \<Rightarrow> route_node list \<Rightarrow> 's \<Rightarrow> permission_resource list web \<times> 's" where
  "sync_permission_registry client routes s =
     (let resources = scan_permission_registry routes in
      if resources = []
      then (Inl (runtime ''Permission registry scan returned 0 resources; refusing to write Redis''), s)
      else case client of
          None \<Rightarrow> (Inl (runtime ''Redis is required to sync permission registry''), s)
        | Some R \<Rightarrow>
            (Inr resources,
             rs_set R permission_resource_method_cache_key (J_dict (method_map resources))
               (rs_set R permission_resource_cache_key (J_list (map resource_text resources)) s)))"

definition list_permission_resources :: "('s, registry_json) redis option \<Rightarrow> rat \<Rightarrow> 's \<Rightarrow> ptext list web" where
  "list_permission_resources client now s =
     (case client of
        None \<Rightarrow> Inl (runtime ''Redis is required to read permission registry'')
      | Some R \<Rightarrow>
          (case rs_get R now permission_resource_cache_key s of
             None \<Rightarrow> Inl (runtime ''Permission registry is not synced in Redis'')
           | Some (J_list items) \<Rightarrow> Inr items
           | Some (J_dict items) \<Rightarrow> Inr (map fst items)))"

text \<open>The part of an entry before its first bracket.\<close>

definition registered_key :: "ptext \<Rightarrow> ptext" where
  "registered_key resource = takeWhile (\<lambda>c. c \<noteq> 91) resource"

definition list_registered_permission_keys :: "('s, registry_json) redis option \<Rightarrow> rat \<Rightarrow> 's \<Rightarrow> ptext set web" where
  "list_registered_permission_keys client now s =
     map_sum id (\<lambda>resources. set (map registered_key resources)) (list_permission_resources client now s)"

definition ensure_registered_permission_keys ::
  "('s, registry_json) redis option \<Rightarrow> rat \<Rightarrow> string list \<Rightarrow> 's \<Rightarrow> unit web" where
  "ensure_registered_permission_keys client now permission_keys s =
     (let unique_permission_keys = sort (dedup (filter (\<lambda>k. k \<noteq> []) permission_keys)) in
      if unique_permission_keys = [] then Inr ()
      else case list_registered_permission_keys client now s of
          Inl e \<Rightarrow> Inl e
        | Inr registered \<Rightarrow>
            let missing_permission_keys = filter (\<lambda>k. asc k \<notin> registered) unique_permission_keys
            in if missing_permission_keys \<noteq> []
               then Inl (App (BusinessError (asc (''Permission is not registered in Redis: ''
                                             @ join_with '', '' missing_permission_keys))))
               else Inr ())"

definition ensure_registered_permission_key ::
  "('s, registry_json) redis option \<Rightarrow> rat \<Rightarrow> string \<Rightarrow> 's \<Rightarrow> unit web" where
  "ensure_registered_permission_key client now permission_key s =
     ensure_registered_permission_keys client now [permission_key] s"

section \<open>Facts\<close>

lemma asc_inj [simp]: "asc s = asc t \<longleftrightarrow> s = t"
  unfolding asc_def by (rule inj_map_eq_map) (simp add: inj_def)

lemma split_on_chars: "set s \<subseteq> insert c (\<Union> (set ` set (split_on c s)))"
proof (induction s)
  case (Cons x s)
  then show ?case by (cases "split_on c s") auto
qed simp

lemma pattern_no_bracket: "permission_key_pattern key \<Longrightarrow> CHR ''['' \<notin> set key"
proof
  assume p: "permission_key_pattern key" and "CHR ''['' \<in> set key"
  with split_on_chars[of key "CHR '':''"] obtain w where "w \<in> set (split_on (CHR '':'') key)" "CHR ''['' \<in> set w"
    by auto
  with p have "key_char (CHR ''['')" by (auto simp: permission_key_pattern_def list_all_iff Let_def)
  then show False by (simp add: key_char_def)
qed

lemma extract_valid:
  assumes "extract_permission_key route = Some key"
  shows "permission_key_pattern key"
proof -
  obtain ks where ks: "ks \<noteq> []" "key = hd (sort ks)" "\<forall>k\<in>set ks. permission_key_pattern k"
    using assms by (auto simp: extract_permission_key_def Let_def split: if_splits)
  from ks(1) have "sort ks \<noteq> []" by (metis length_0_conv length_sort)
  then have "key \<in> set ks" using ks(2) by (metis list.set_sel(1) set_sort)
  with ks(3) show ?thesis by blast
qed

definition scanned :: "permission_resource list \<Rightarrow> bool" where
  "scanned rs = (distinct (map pr_permission_key rs)
     \<and> (\<forall>r\<in>set rs. permission_key_pattern (pr_permission_key r) \<and> pr_method r \<notin> {''HEAD'', ''OPTIONS''}))"

lemma normalize_methods_set: "m \<in> set (normalize_methods route) \<Longrightarrow> m \<notin> {''HEAD'', ''OPTIONS''}"
  by (simp add: normalize_methods_def)

lemma scan_step_scanned: "scanned rs \<Longrightarrow> scanned (scan_step rs route)"
  using normalize_methods_set[OF hd_in_set, of route]
  by (auto simp: scan_step_def scanned_def extract_valid split: option.splits)

lemma foldl_scanned: "scanned rs \<Longrightarrow> scanned (foldl scan_step rs routes)"
  by (induction routes arbitrary: rs) (simp_all add: scan_step_scanned)

lemma scan_registry_scanned: "scanned (scan_permission_registry routes)"
proof -
  have "scanned (foldl scan_step [] (iter_api_route_candidates routes))"
    by (rule foldl_scanned) (simp add: scanned_def)
  then have "scanned (sort_key pr_permission_key (foldl scan_step [] (iter_api_route_candidates routes)))"
    by (simp add: scanned_def distinct_map)
  then show ?thesis by (simp add: scan_permission_registry_def)
qed

lemma registered_key_resource:
  assumes "permission_key_pattern (pr_permission_key r)"
  shows "registered_key (resource_text r) = asc (pr_permission_key r)"
proof -
  have "91 \<notin> set (asc (pr_permission_key r))"
  proof
    assume "91 \<in> set (asc (pr_permission_key r))"
    then obtain c where "c \<in> set (pr_permission_key r)" "(of_char c :: nat) = of_char (CHR ''['')"
      by (auto simp: asc_def)
    then have "CHR ''['' \<in> set (pr_permission_key r)" by (simp only: of_char_eq_iff)
    with pattern_no_bracket[OF assms] show False by simp
  qed
  then have "takeWhile (\<lambda>c. c \<noteq> 91) (asc (pr_permission_key r) @ 91 # ys) = asc (pr_permission_key r)" for ys
    by (subst takeWhile_append2) auto
  then show ?thesis by (simp add: registered_key_def resource_text_def asc_def[of "''[''"])
qed

lemma synced_keys:
  assumes "redis_ok R" "sync_permission_registry (Some R) routes s = (Inr resources, s')"
  shows "resources = scan_permission_registry routes"
    and "list_registered_permission_keys (Some R) now s' = Inr (asc ` pr_permission_key ` set resources)"
proof -
  from assms(2) have r: "resources = scan_permission_registry routes"
    and s': "s' = rs_set R permission_resource_method_cache_key (J_dict (method_map resources))
               (rs_set R permission_resource_cache_key (J_list (map resource_text resources)) s)"
    by (auto simp: sync_permission_registry_def Let_def split: if_splits)
  show "resources = scan_permission_registry routes" by fact
  have "permission_resource_cache_key \<noteq> permission_resource_method_cache_key"
    by (simp add: permission_resource_cache_key_def permission_resource_method_cache_key_def)
  then have "list_permission_resources (Some R) now s' = Inr (map resource_text resources)"
    using assms(1) by (simp add: list_permission_resources_def s' redis_set)
  moreover have "registered_key (resource_text x) = asc (pr_permission_key x)" if "x \<in> set resources" for x
    using that scan_registry_scanned[of routes] r by (intro registered_key_resource) (auto simp: scanned_def)
  ultimately show "list_registered_permission_keys (Some R) now s' = Inr (asc ` pr_permission_key ` set resources)"
    by (simp add: list_registered_permission_keys_def image_image)
qed

lemma ensure_iff:
  assumes "list_registered_permission_keys client now s = Inr (asc ` keys)"
  shows "ensure_registered_permission_keys client now ks s = Inr () \<longleftrightarrow> (\<forall>k\<in>set ks. k \<noteq> [] \<longrightarrow> k \<in> keys)"
proof -
  let ?u = "sort (dedup (filter (\<lambda>k. k \<noteq> []) ks))"
  have u: "set ?u = {k \<in> set ks. k \<noteq> []}" by auto
  have "filter (\<lambda>k. asc k \<notin> asc ` keys) ?u = [] \<longleftrightarrow> (\<forall>k\<in>set ?u. k \<in> keys)"
    by (auto simp: filter_empty_conv)
  moreover have "?u = [] \<Longrightarrow> \<forall>k\<in>set ?u. k \<in> keys" by (metis empty_iff empty_set)
  ultimately have "ensure_registered_permission_keys client now ks s = Inr () \<longleftrightarrow> (\<forall>k\<in>set ?u. k \<in> keys)"
    using assms unfolding ensure_registered_permission_keys_def Let_def by auto
  then show ?thesis unfolding u by blast
qed

section \<open>Properties\<close>

text \<open>C40: The registry is faithful. A successful synchronisation returns the scanned resources, sorted by key, with
  different keys, each of the key pattern and each with a method other than HEAD and OPTIONS; afterwards the keys read
  back from Redis are exactly those of the resources, whatever their names contain, and a list of keys passes the check
  exactly when all its non-empty members are among them.\<close>

theorem permission_registry_roundtrip:
  assumes "redis_ok R" "sync_permission_registry (Some R) routes s = (Inr resources, s')"
  shows "sorted (map pr_permission_key resources) \<and> distinct (map pr_permission_key resources)
     \<and> list_all (\<lambda>r. permission_key_pattern (pr_permission_key r) \<and> pr_method r \<notin> {''HEAD'', ''OPTIONS''}) resources
     \<and> list_registered_permission_keys (Some R) now s' = Inr (asc ` pr_permission_key ` set resources)
     \<and> (ensure_registered_permission_keys (Some R) now ks s' = Inr ()
          \<longleftrightarrow> set ks - {[]} \<subseteq> pr_permission_key ` set resources)"
proof -
  note keys = synced_keys[OF assms]
  have "scanned resources" using scan_registry_scanned keys(1) by simp
  moreover have "sorted (map pr_permission_key resources)" by (simp add: keys(1) scan_permission_registry_def)
  ultimately show ?thesis
    using keys(2)[of now] ensure_iff[OF keys(2), of now ks] by (auto simp: scanned_def list_all_iff)
qed

definition demo_route :: api_route where
  "demo_route = \<lparr>ar_path = ''/api/v1/judge/submit'', ar_methods = [''POST'', ''HEAD''], ar_tags = [''judge''],
     ar_summary = Some (asc ''Submit [demo]''), ar_endpoint_name = [], ar_dependencies = [Dependant (Some ''judge:submit'') []]\<rparr>"

lemma demo_scan:
  "scan_permission_registry [Other_route, Route_group [Api_route demo_route]] =
     [\<lparr>pr_permission_key = ''judge:submit'', pr_name = asc ''Submit [demo]'', pr_route_path = ''/submit'', pr_method = ''POST''\<rparr>]"
  by code_simp

theorem permission_registry_roundtrip_witness:
  "ensure_registered_permission_keys (Some redis_impl) 0 [''judge:submit'', []]
     (snd (sync_permission_registry (Some redis_impl) [Other_route, Route_group [Api_route demo_route]] redis_empty)) = Inr ()"
proof -
  let ?r = "[\<lparr>pr_permission_key = ''judge:submit'', pr_name = asc ''Submit [demo]'', pr_route_path = ''/submit'', pr_method = ''POST''\<rparr>]"
  have "sync_permission_registry (Some redis_impl) [Other_route, Route_group [Api_route demo_route]] redis_empty
     = (Inr ?r, snd (sync_permission_registry (Some redis_impl) [Other_route, Route_group [Api_route demo_route]] redis_empty))"
    by (simp add: sync_permission_registry_def demo_scan Let_def)
  from permission_registry_roundtrip[OF redis_impl_ok this, of 0 "[''judge:submit'', []]"] show ?thesis by auto
qed

end
