(* ===== verification/RequestAuth.thy ===== *)
theory RequestAuth
  imports Errors Session ModuleSystem
begin

text \<open>
  Authentication and authorisation of a request: \<^verbatim>\<open>app/deps/auth.py\<close>, \<^verbatim>\<open>app/core/network/client_ip.py\<close>,
  \<^verbatim>\<open>app/core/security/permission.py\<close>, \<^verbatim>\<open>account_type.py\<close> and \<^verbatim>\<open>data_scope.py\<close>.

  Header names are in lower case, as Starlette looks them up. The background task that touches the session is returned as
  the token it was scheduled for. The address parser of \<^verbatim>\<open>ipaddress\<close> is a parameter: \<open>ip_address s\<close> and
  \<open>ip_network s\<close> are \<open>None\<close> where Python raises \<^verbatim>\<open>ValueError\<close>, a network is the test of its members.
\<close>

section \<open>client\_ip.py\<close>

record 'a ip_parser =
  ip_address :: "string \<Rightarrow> 'a option"
  ip_network :: "string \<Rightarrow> ('a \<Rightarrow> bool) option"

definition is_trusted_proxy :: "'a ip_parser \<Rightarrow> string list \<Rightarrow> string \<Rightarrow> bool" where
  "is_trusted_proxy ip trusted remote_ip =
     (if trusted = [] then False
      else if ''*'' \<in> set trusted then True
      else case ip_address ip remote_ip of
          None \<Rightarrow> remote_ip \<in> set trusted
        | Some remote \<Rightarrow>
            list_ex (\<lambda>item. case ip_network ip item of None \<Rightarrow> item = remote_ip | Some member \<Rightarrow> member remote) trusted)"

text \<open>The text before the first comma, stripped.\<close>

definition first_header_ip :: "string option \<Rightarrow> string option" where
  "first_header_ip val =
     (case val of
        None \<Rightarrow> None
      | Some v \<Rightarrow>
          if v = [] then None
          else let candidate = py_strip (hd (split_on (CHR '','') v)) in if candidate = [] then None else Some candidate)"

definition get_client_ip :: "'a ip_parser \<Rightarrow> string list \<Rightarrow> web_request \<Rightarrow> string option" where
  "get_client_ip ip trusted request =
     (case rq_client_host request of
        None \<Rightarrow> None
      | Some direct_ip \<Rightarrow>
          if direct_ip = [] \<or> \<not> is_trusted_proxy ip trusted direct_ip then Some direct_ip
          else case first_header_ip (rq_headers request ''x-real-ip'') of
              Some real_ip \<Rightarrow> Some real_ip
            | None \<Rightarrow>
                (case rq_headers request ''x-forwarded-for'' of
                   None \<Rightarrow> Some direct_ip
                 | Some forwarded_for \<Rightarrow>
                     if forwarded_for = [] then Some direct_ip
                     else (case first_header_ip (Some forwarded_for) of None \<Rightarrow> Some direct_ip | Some c \<Rightarrow> Some c)))"

section \<open>permission.py and account\_type.py\<close>

definition has_permission :: "string list \<Rightarrow> string \<Rightarrow> bool" where
  "has_permission permissions permission_code =
     (permission_code \<in> set permissions \<or> ''*:*:*'' \<in> set permissions)"

definition assert_account_type_allowed :: "string \<Rightarrow> string list \<Rightarrow> unit web" where
  "assert_account_type_allowed actual expected =
     (if actual \<notin> set expected
      then Inl (App (AuthorizationError (asc (''Account type '' @ quoted actual @ '' is not allowed''))))
      else Inr ())"

section \<open>auth.py\<close>

record 'a auth_env =
  ae_auth :: auth_settings
  ae_session_bind_ip :: bool
  ae_session_bind_user_agent :: bool
  ae_trusted_proxy_ips :: "string list"
  ae_ip :: "'a ip_parser"

definition truthy :: "string option \<Rightarrow> bool" where
  "truthy v = (v \<noteq> None \<and> v \<noteq> Some [])"

definition auth_error :: "string \<Rightarrow> web_exn" where
  "auth_error m = App (AuthenticationError (asc m))"

definition validate_session_ip :: "'a auth_env \<Rightarrow> web_request \<Rightarrow> session_payload \<Rightarrow> unit web" where
  "validate_session_ip ae request p =
     (if \<not> ae_session_bind_ip ae \<or> \<not> truthy (sp_client_ip p) then Inr ()
      else
        let current_ip = get_client_ip (ae_ip ae) (ae_trusted_proxy_ips ae) request
        in if truthy current_ip \<and> current_ip \<noteq> sp_client_ip p
           then Inl (App (AuthenticationError
                  (asc ''Session IP mismatch '' @ [0x2014] @ asc '' token may have been stolen'')))
           else Inr ())"

definition validate_session_user_agent :: "'a auth_env \<Rightarrow> web_request \<Rightarrow> session_payload \<Rightarrow> unit web" where
  "validate_session_user_agent ae request p =
     (if \<not> ae_session_bind_user_agent ae \<or> \<not> truthy (sp_user_agent p) then Inr ()
      else
        let current_ua = rq_headers request ''user-agent''
        in if truthy current_ua \<and> current_ua \<noteq> sp_user_agent p
           then Inl (auth_error ''Session User-Agent mismatch'') else Inr ())"

text \<open>The session of the request and the token whose activity is recorded in the background.\<close>

definition get_current_session ::
  "'a auth_env \<Rightarrow> ('s, session_payload) redis \<Rightarrow> rat \<Rightarrow> web_request \<Rightarrow> 's \<Rightarrow> (session_payload \<times> string) web" where
  "get_current_session ae R now request s =
     (case rq_headers request ''authorization'' of
        None \<Rightarrow> Inl (auth_error ''Missing authorization token'')
      | Some authorization \<Rightarrow>
          if authorization = [] then Inl (auth_error ''Missing authorization token'')
          else
            let token = py_strip authorization in
            case session_get (ae_auth ae) R now token s of
              None \<Rightarrow> Inl (auth_error ''Invalid or expired token'')
            | Some p \<Rightarrow>
                (case validate_session_ip ae request p of
                   Inl e \<Rightarrow> Inl e
                 | Inr _ \<Rightarrow>
                     (case validate_session_user_agent ae request p of
                        Inl e \<Rightarrow> Inl e
                      | Inr _ \<Rightarrow> Inr (p, token))))"

text \<open>The two dependency factories. \<^verbatim>\<open>get_current_account\<close> returns the same session.\<close>

definition get_current_account :: "session_payload \<Rightarrow> session_payload" where
  "get_current_account p = p"

definition require_account_type ::
  "'a auth_env \<Rightarrow> ('s, session_payload) redis \<Rightarrow> rat \<Rightarrow> string list \<Rightarrow> web_request \<Rightarrow> 's \<Rightarrow> session_payload web" where
  "require_account_type ae R now account_types request s =
     (case get_current_session ae R now request s of
        Inl e \<Rightarrow> Inl e
      | Inr (p, _) \<Rightarrow> map_sum id (\<lambda>_. p) (assert_account_type_allowed (sp_account_type (get_current_account p)) account_types))"

definition require_permission ::
  "'a auth_env \<Rightarrow> ('s, session_payload) redis \<Rightarrow> rat \<Rightarrow> string \<Rightarrow> web_request \<Rightarrow> 's \<Rightarrow> session_payload web" where
  "require_permission ae R now permission_code request s =
     (case get_current_session ae R now request s of
        Inl e \<Rightarrow> Inl e
      | Inr (p, _) \<Rightarrow>
          if \<not> has_permission (sp_permission_keys (get_current_account p)) permission_code
          then Inl (App (AuthorizationError (asc (''Permission denied: '' @ permission_code))))
          else Inr p)"

section \<open>data\_scope.py\<close>

datatype data_scope = Scope_ALL | Scope_DEPT_AND_CHILD | Scope_DEPT | Scope_SELF | Scope_CUSTOM

text \<open>\<^verbatim>\<open>DataScope(value)\<close>.\<close>

definition parse_scope :: "string \<Rightarrow> data_scope web" where
  "parse_scope v =
     (if v = ''ALL'' then Inr Scope_ALL
      else if v = ''DEPT_AND_CHILD'' then Inr Scope_DEPT_AND_CHILD
      else if v = ''DEPT'' then Inr Scope_DEPT
      else if v = ''SELF'' then Inr Scope_SELF
      else if v = ''CUSTOM'' then Inr Scope_CUSTOM
      else Inl (Unexpected (ValueError (asc (quoted v @ '' is not a valid DataScope'')))))"

definition find_permission_grant :: "session_payload \<Rightarrow> string \<Rightarrow> permission_grant option" where
  "find_permission_grant p permission_key =
     find (\<lambda>g. gr_permission_key g = permission_key) (rev (sp_permission_grants p))"

definition has_unrestricted_data_scope :: "session_payload \<Rightarrow> string \<Rightarrow> bool web" where
  "has_unrestricted_data_scope p permission_key =
     (if ''*:*:*'' \<in> set (sp_permission_keys p) then Inr True
      else case find_permission_grant p permission_key of
          None \<Rightarrow> Inr False
        | Some grant \<Rightarrow> map_sum id (\<lambda>sc. sc = Scope_ALL) (parse_scope (gr_data_scope grant)))"

text \<open>\<^verbatim>\<open>_unique_ids\<close>: sorted, different, not empty.\<close>

definition unique_ids :: "string list \<Rightarrow> string list" where
  "unique_ids vals = sort (dedup (filter (\<lambda>v. v \<noteq> []) vals))"

text \<open>The departments a request may see; \<open>None\<close> is no restriction. The resolver of the registry computes sub-departments.\<close>

definition resolve_data_scope_dept_ids ::
  "(string list \<Rightarrow> string list web) registry \<Rightarrow> session_payload \<Rightarrow> string \<Rightarrow> string list option web" where
  "resolve_data_scope_dept_ids reg p permission_key =
     (case has_unrestricted_data_scope p permission_key of
        Inl e \<Rightarrow> Inl e
      | Inr unrestricted \<Rightarrow>
          if unrestricted then Inr None
          else
            let grant = find_permission_grant p permission_key;
                custom_scope_dept_ids = (case grant of None \<Rightarrow> [] | Some g \<Rightarrow> gr_custom_scope_dept_ids g)
            in case (case grant of None \<Rightarrow> Inr Scope_SELF | Some g \<Rightarrow> parse_scope (gr_data_scope g)) of
                Inl e \<Rightarrow> Inl e
              | Inr sc \<Rightarrow>
                  (case sc of
                     Scope_ALL \<Rightarrow> Inr None
                   | Scope_DEPT \<Rightarrow> Inr (Some (unique_ids (sp_dept_ids p)))
                   | Scope_DEPT_AND_CHILD \<Rightarrow>
                       (case resolve ''data_scope_resolver'' reg of
                          Inl e \<Rightarrow> Inl (Unexpected e)
                        | Inr resolver \<Rightarrow> map_sum id Some (resolver (sp_dept_ids p)))
                   | Scope_CUSTOM \<Rightarrow> Inr (Some (unique_ids custom_scope_dept_ids))
                   | Scope_SELF \<Rightarrow> Inr (Some [])))"

section \<open>Facts\<close>

lemma validate_ip_ok:
  "validate_session_ip ae request p = Inr () \<longleftrightarrow>
     (ae_session_bind_ip ae \<and> truthy (sp_client_ip p)
        \<and> truthy (get_client_ip (ae_ip ae) (ae_trusted_proxy_ips ae) request)
      \<longrightarrow> get_client_ip (ae_ip ae) (ae_trusted_proxy_ips ae) request = sp_client_ip p)"
  by (auto simp: validate_session_ip_def Let_def)

lemma validate_ua_ok:
  "validate_session_user_agent ae request p = Inr () \<longleftrightarrow>
     (ae_session_bind_user_agent ae \<and> truthy (sp_user_agent p) \<and> truthy (rq_headers request ''user-agent'')
      \<longrightarrow> rq_headers request ''user-agent'' = sp_user_agent p)"
  by (auto simp: validate_session_user_agent_def Let_def)

lemma current_session_iff:
  "get_current_session ae R now request s = Inr (p, token) \<longleftrightarrow>
     (\<exists>authorization. rq_headers request ''authorization'' = Some authorization \<and> authorization \<noteq> []
        \<and> token = py_strip authorization \<and> session_get (ae_auth ae) R now token s = Some p
        \<and> validate_session_ip ae request p = Inr () \<and> validate_session_user_agent ae request p = Inr ())"
  by (auto simp: get_current_session_def Let_def split: option.splits sum.splits)

lemma require_permission_session:
  "require_permission ae R now code request s = Inr p \<longleftrightarrow>
     (\<exists>token. get_current_session ae R now request s = Inr (p, token)) \<and> has_permission (sp_permission_keys p) code"
  by (auto simp: require_permission_def get_current_account_def split: sum.splits prod.splits)

text \<open>A forwarding header has no effect on the address of a direct client that is not a trusted proxy.\<close>

lemma untrusted_ip:
  "\<not> is_trusted_proxy ip trusted direct \<Longrightarrow> rq_client_host request = Some direct
     \<Longrightarrow> get_client_ip ip trusted request = Some direct"
  by (simp add: get_client_ip_def)

lemma unrestricted_iff:
  "resolve_data_scope_dept_ids reg p key = Inr None \<longleftrightarrow>
     ''*:*:*'' \<in> set (sp_permission_keys p)
     \<or> (\<exists>g. find_permission_grant p key = Some g \<and> gr_data_scope g = ''ALL'')"
proof -
  have scopes: "parse_scope v = Inr Scope_ALL \<longleftrightarrow> v = ''ALL''" for v
    by (simp add: parse_scope_def)
  have resolved: "map_sum id Some x \<noteq> Inr None" for x :: "string list web" by (cases x) simp_all
  consider "''*:*:*'' \<in> set (sp_permission_keys p)" | "''*:*:*'' \<notin> set (sp_permission_keys p)" "find_permission_grant p key = None"
    | g where "''*:*:*'' \<notin> set (sp_permission_keys p)" "find_permission_grant p key = Some g" by blast
  then show ?thesis
  proof cases
    case (3 g)
    then show ?thesis
      using scopes[of "gr_data_scope g"] resolved
      by (cases "parse_scope (gr_data_scope g)")
         (simp_all add: resolve_data_scope_dept_ids_def has_unrestricted_data_scope_def split: sum.split data_scope.split)
  qed (simp_all add: resolve_data_scope_dept_ids_def has_unrestricted_data_scope_def)
qed

lemma session_get_stored:
  "session_get au R now token s = Some p \<longleftrightarrow>
     rs_get R now (login_token_key token) s = Some p \<and> check_idle_timeout au now p = Some p"
  by (auto simp: session_get_def check_idle_timeout_def split: option.splits if_splits)

section \<open>Properties\<close>


definition demo_ip :: "string ip_parser" where
  "demo_ip = \<lparr>ip_address = Some, ip_network = (\<lambda>_. None)\<rparr>"

definition demo_auth_env :: "string auth_env" where
  "demo_auth_env = \<lparr>ae_auth = demo_auth, ae_session_bind_ip = True, ae_session_bind_user_agent = False,
     ae_trusted_proxy_ips = [], ae_ip = demo_ip\<rparr>"

definition demo_request :: "string \<Rightarrow> web_request" where
  "demo_request token = \<lparr>rq_client_host = Some ''10.0.0.1'', rq_headers = [''authorization'' \<mapsto> token]\<rparr>"



end
