(* ===== verification/RateLimit.thy ===== *)
theory RateLimit
  imports Errors PyFloat
begin

text \<open>
  The rate limiter, \<^verbatim>\<open>app/middleware/rate_limit.py\<close>: a sliding window per client and rule, kept as a Redis sorted set of
  time stamps.

  A sorted set is the list of its scores; a member is the text of its score, so adding the same time twice keeps one.
  Times are rationals: subtracting the window from a clock reading is exact in binary64. A failing Redis raises, and
  the request goes on.
\<close>

section \<open>Rules\<close>

datatype rl_scope = Scope_ip | Scope_user | Scope_mix

datatype rl_pattern = Pat_login | Pat_register | Pat_password | Pat_captcha | Pat_api

text \<open>What follows \<^verbatim>\<open>^/api/v\d+/\<close>, if the path starts so.\<close>

definition api_rest :: "string \<Rightarrow> string option" where
  "api_rest path =
     (if \<not> startswith path ''/api/v'' then None
      else
        let ds = takeWhile (\<lambda>c. c \<in> set digits) (drop 6 path); rest = dropWhile (\<lambda>c. c \<in> set digits) (drop 6 path)
        in if ds \<noteq> [] \<and> startswith rest ''/'' then Some (drop 1 rest) else None)"

definition rest_starts :: "string list \<Rightarrow> string \<Rightarrow> bool" where
  "rest_starts heads path =
     (case api_rest path of None \<Rightarrow> False | Some rest \<Rightarrow> list_ex (\<lambda>p. startswith rest p) heads)"

fun pattern_search :: "rl_pattern \<Rightarrow> string \<Rightarrow> bool" where
  "pattern_search Pat_login path = rest_starts [''admin/login'', ''portal/login''] path"
| "pattern_search Pat_register path = rest_starts [''portal/register''] path"
| "pattern_search Pat_password path =
     rest_starts [''admin/forgot-password'', ''admin/reset-password'', ''portal/forgot-password'', ''portal/reset-password''] path"
| "pattern_search Pat_captcha path = rest_starts [''admin/captcha'', ''portal/captcha''] path"
| "pattern_search Pat_api path = rest_starts [[]] path"

text \<open>The text of a pattern, part of the key; a backslash is \<open>CHR 0x5C\<close>.\<close>

definition api_regex :: "string \<Rightarrow> string" where
  "api_regex tail = ''^/api/v'' @ [CHR 0x5C] @ ''d+/'' @ tail"

fun pattern_text :: "rl_pattern \<Rightarrow> string" where
  "pattern_text Pat_login = api_regex ''(admin|portal)/login''"
| "pattern_text Pat_register = api_regex ''portal/register''"
| "pattern_text Pat_password = api_regex ''(admin|portal)/(forgot-password|reset-password)''"
| "pattern_text Pat_captcha = api_regex ''(admin|portal)/captcha''"
| "pattern_text Pat_api = api_regex []"

record rl_rule =
  rl_pat :: rl_pattern
  rl_limit :: int
  rl_window_sec :: int
  rl_scope_of :: rl_scope

definition rate_limit_rules :: "rl_rule list" where
  "rate_limit_rules =
     [\<lparr>rl_pat = Pat_login, rl_limit = 10, rl_window_sec = 60, rl_scope_of = Scope_ip\<rparr>,
      \<lparr>rl_pat = Pat_register, rl_limit = 5, rl_window_sec = 60, rl_scope_of = Scope_ip\<rparr>,
      \<lparr>rl_pat = Pat_password, rl_limit = 5, rl_window_sec = 60, rl_scope_of = Scope_ip\<rparr>,
      \<lparr>rl_pat = Pat_captcha, rl_limit = 30, rl_window_sec = 60, rl_scope_of = Scope_ip\<rparr>,
      \<lparr>rl_pat = Pat_api, rl_limit = 120, rl_window_sec = 60, rl_scope_of = Scope_mix\<rparr>]"

section \<open>The window\<close>

text \<open>The sorted set of a key, with the time it expires.\<close>

record zset =
  zs_scores :: "rat list"
  zs_expires :: "rat option"

type_synonym zstore = "string \<Rightarrow> zset"

definition zempty :: zset where
  "zempty = \<lparr>zs_scores = [], zs_expires = None\<rparr>"

definition zlive :: "rat \<Rightarrow> zset \<Rightarrow> zset" where
  "zlive now z = (case zs_expires z of None \<Rightarrow> z | Some e \<Rightarrow> if e \<le> now then zempty else z)"

definition zadd :: "rat \<Rightarrow> zset \<Rightarrow> zset" where
  "zadd score z = z\<lparr>zs_scores := List.insert score (zs_scores z)\<rparr>"

definition zremrangebyscore :: "rat \<Rightarrow> rat \<Rightarrow> zset \<Rightarrow> zset" where
  "zremrangebyscore lo hi z = z\<lparr>zs_scores := filter (\<lambda>u. \<not> (lo \<le> u \<and> u \<le> hi)) (zs_scores z)\<rparr>"

definition increment_and_check :: "rat \<Rightarrow> int \<Rightarrow> zset \<Rightarrow> int \<times> zset" where
  "increment_and_check now window_sec z =
     (let window_start = now - of_int window_sec;
          z1 = zremrangebyscore 0 window_start (zadd now (zlive now z))
      in (int (length (zs_scores z1)), z1\<lparr>zs_expires := Some (now + of_int window_sec)\<rparr>))"

section \<open>The middleware\<close>

datatype rl_outcome = Passed | Too_many int

definition client_part :: "string option \<Rightarrow> string" where
  "client_part ip = (case ip of None \<Rightarrow> ''unknown'' | Some i \<Rightarrow> if i = [] then ''unknown'' else i)"

definition rl_key :: "rl_rule \<Rightarrow> string option \<Rightarrow> string option \<Rightarrow> string option" where
  "rl_key rule client_ip account_id =
     (let by_ip = ''rl:ip:'' @ client_part client_ip @ '':'' @ pattern_text (rl_pat rule);
          by_user = (\<lambda>uid. ''rl:user:'' @ uid @ '':'' @ pattern_text (rl_pat rule))
      in case rl_scope_of rule of
           Scope_ip \<Rightarrow> Some by_ip
         | Scope_user \<Rightarrow> (case account_id of None \<Rightarrow> None | Some uid \<Rightarrow> if uid = [] then None else Some (by_user uid))
         | Scope_mix \<Rightarrow> Some (case account_id of None \<Rightarrow> by_ip | Some uid \<Rightarrow> if uid = [] then by_ip else by_user uid))"

text \<open>The first rule that matches and has a key decides; \<open>broken\<close> says that Redis raises for this request.\<close>

fun dispatch_rules ::
  "rl_rule list \<Rightarrow> bool \<Rightarrow> rat \<Rightarrow> string \<Rightarrow> string option \<Rightarrow> string option \<Rightarrow> zstore \<Rightarrow> rl_outcome \<times> zstore" where
  "dispatch_rules [] broken now path client_ip account_id st = (Passed, st)"
| "dispatch_rules (rule # rules) broken now path client_ip account_id st =
     (if \<not> pattern_search (rl_pat rule) path then dispatch_rules rules broken now path client_ip account_id st
      else case rl_key rule client_ip account_id of
          None \<Rightarrow> dispatch_rules rules broken now path client_ip account_id st
        | Some key \<Rightarrow>
            if broken then (Passed, st)
            else
              (case increment_and_check now (rl_window_sec rule) (st key) of (count, z) \<Rightarrow>
                 (if rl_limit rule < count then Too_many (rl_window_sec rule) else Passed, st(key := z))))"

definition rate_limit_dispatch ::
  "bool \<Rightarrow> bool \<Rightarrow> rat \<Rightarrow> string \<Rightarrow> string option \<Rightarrow> string option \<Rightarrow> zstore \<Rightarrow> rl_outcome \<times> zstore" where
  "rate_limit_dispatch has_redis broken now path client_ip account_id st =
     (if \<not> has_redis then (Passed, st)
      else dispatch_rules rate_limit_rules broken now path client_ip account_id st)"

section \<open>The window counts the requests of the last seconds\<close>

text \<open>A run of requests on one key; the result says which were let through.\<close>

fun window_run :: "int \<Rightarrow> int \<Rightarrow> zset \<Rightarrow> rat list \<Rightarrow> (rat \<times> bool) list" where
  "window_run limit_count window_sec z [] = []"
| "window_run limit_count window_sec z (t # ts) =
     (case increment_and_check t window_sec z of (count, z') \<Rightarrow>
        (t, count \<le> limit_count) # window_run limit_count window_sec z' ts)"

definition in_window :: "int \<Rightarrow> rat \<Rightarrow> rat \<Rightarrow> bool" where
  "in_window w t u = (t - of_int w < u \<and> u \<le> t)"

text \<open>What the set holds after requests at \<open>hist\<close>, the last one at \<open>last hist\<close>.\<close>

definition holds :: "int \<Rightarrow> rat list \<Rightarrow> zset \<Rightarrow> bool" where
  "holds w hist z =
     (if hist = [] then z = zempty
      else distinct (zs_scores z) \<and> set (zs_scores z) = {u \<in> set hist. in_window w (last hist) u}
         \<and> zs_expires z = Some (last hist + of_int w))"

lemma holds_step:
  assumes "holds w hist z" "0 < w" "\<forall>u\<in>set hist. 0 \<le> u \<and> u < t" "0 \<le> t" "sorted hist"
  shows "holds w (hist @ [t]) (snd (increment_and_check t w z))"
    and "fst (increment_and_check t w z) = int (card {u \<in> set (hist @ [t]). in_window w t u})"
proof -
  let ?z1 = "zremrangebyscore 0 (t - of_int w) (zadd t (zlive t z))"
  have live: "distinct (zs_scores (zlive t z)) \<and> t \<notin> set (zs_scores (zlive t z))
      \<and> (\<forall>u. t - of_int w < u \<longrightarrow> (u \<in> set (zs_scores (zlive t z)) \<longleftrightarrow> u \<in> set hist))
      \<and> (\<forall>u\<in>set (zs_scores (zlive t z)). u \<in> set hist)"
  proof (cases "hist = []")
    case True
    with assms(1) show ?thesis by (simp add: holds_def zlive_def zempty_def)
  next
    case False
    have last: "\<forall>u\<in>set hist. u \<le> last hist" using assms(5) False
      by (cases hist rule: rev_cases) (auto simp: sorted_append)
    have "last hist < t" using assms(3) False by simp
    then have older: "t - of_int w < u \<Longrightarrow> last hist - of_int w < u" for u by linarith
    from assms(1,3) False last show ?thesis
      by (auto simp: holds_def zlive_def zempty_def in_window_def dest: older)
  qed
  have set: "set (zs_scores ?z1) = {u \<in> set (hist @ [t]). in_window w t u}"
    using live assms(2,3,4) by (auto simp: zremrangebyscore_def zadd_def in_window_def less_imp_le)
  have dist: "distinct (zs_scores ?z1)" using live by (simp add: zremrangebyscore_def zadd_def)
  show "holds w (hist @ [t]) (snd (increment_and_check t w z))"
    using set dist by (simp add: holds_def increment_and_check_def Let_def)
  show "fst (increment_and_check t w z) = int (card {u \<in> set (hist @ [t]). in_window w t u})"
    using set distinct_card[OF dist] by (simp add: increment_and_check_def Let_def)
qed

text \<open>The verdict on each request of a run, in terms of the requests before it.\<close>

lemma window_run_verdicts:
  assumes "holds w hist z" "0 < w" "sorted_wrt (<) (hist @ ts)" "\<forall>u\<in>set (hist @ ts). 0 \<le> u"
  shows "window_run limit_count w z ts =
     map (\<lambda>t. (t, int (card {u \<in> set (hist @ ts). in_window w t u}) \<le> limit_count)) ts"
  using assms
proof (induction ts arbitrary: hist z)
  case (Cons t ts)
  have sorted: "sorted hist" "\<forall>u\<in>set hist. 0 \<le> u \<and> u < t" "0 \<le> t"
    using Cons(4,5) by (auto simp: sorted_wrt_append strict_sorted_imp_sorted)
  note step = holds_step[OF Cons(2,3) sorted(2,3,1)]
  have "{u \<in> set (hist @ t # ts). in_window w t u} = {u \<in> set (hist @ [t]). in_window w t u}"
    using Cons(4) by (auto simp: sorted_wrt_append in_window_def)
  moreover have "window_run limit_count w (snd (increment_and_check t w z)) ts =
     map (\<lambda>t'. (t', int (card {u \<in> set ((hist @ [t]) @ ts). in_window w t' u}) \<le> limit_count)) ts"
    by (rule Cons(1)[OF step(1)]) (use Cons in auto)
  ultimately show ?case using step(2) by (simp add: case_prod_beta)
qed simp

lemma window_run_limited:
  assumes "0 < window_sec" "0 \<le> limit_count" "sorted_wrt (<) ts" "\<forall>u\<in>set ts. 0 \<le> u"
  shows "int (length (filter (\<lambda>(u, passed). passed \<and> in_window window_sec t u) (window_run limit_count window_sec zempty ts)))
       \<le> limit_count
     \<and> (\<forall>u. (u, False) \<in> set (window_run limit_count window_sec zempty ts)
          \<longrightarrow> limit_count < int (card {v \<in> set ts. in_window window_sec u v}))"
proof -
  have run: "window_run limit_count window_sec zempty ts =
      map (\<lambda>u. (u, int (card {v \<in> set ts. in_window window_sec u v}) \<le> limit_count)) ts"
    using window_run_verdicts[of window_sec "[]" zempty ts limit_count] assms by (simp add: holds_def)
  define acc where "acc = filter (\<lambda>u. int (card {v \<in> set ts. in_window window_sec u v}) \<le> limit_count \<and> in_window window_sec t u) ts"
  have len: "length (filter (\<lambda>(u, passed). passed \<and> in_window window_sec t u) (window_run limit_count window_sec zempty ts))
      = length acc"
    unfolding run acc_def by (simp add: filter_map comp_def)
  have "int (length acc) \<le> limit_count"
  proof (cases "acc = []")
    case False
    have dist: "distinct acc" using assms(3) by (simp add: acc_def strict_sorted_iff)
    define a where "a = Max (set acc)"
    have a: "a \<in> set acc" "\<forall>u\<in>set acc. u \<le> a" using False by (simp_all add: a_def)
    have "set acc \<subseteq> {v \<in> set ts. in_window window_sec a v}"
      using a by (auto simp: acc_def in_window_def)
    then have "card (set acc) \<le> card {v \<in> set ts. in_window window_sec a v}" by (intro card_mono) auto
    moreover have "int (card {v \<in> set ts. in_window window_sec a v}) \<le> limit_count" using a(1) by (simp add: acc_def)
    ultimately show ?thesis using distinct_card[OF dist] by linarith
  qed (use assms(2) in simp)
  then show ?thesis using len run by auto
qed

text \<open>Requests of one client for one path, at the times \<open>ts\<close>, and whether each passed.\<close>

fun dispatch_run :: "string \<Rightarrow> string option \<Rightarrow> string option \<Rightarrow> zstore \<Rightarrow> rat list \<Rightarrow> (rat \<times> bool) list" where
  "dispatch_run path client_ip account_id st [] = []"
| "dispatch_run path client_ip account_id st (t # ts) =
     (case rate_limit_dispatch True False t path client_ip account_id st of (outcome, st') \<Rightarrow>
        (t, outcome = Passed) # dispatch_run path client_ip account_id st' ts)"

text \<open>The rule that decides on a request.\<close>

definition deciding_rule :: "string \<Rightarrow> string option \<Rightarrow> string option \<Rightarrow> rl_rule option" where
  "deciding_rule path client_ip account_id =
     find (\<lambda>r. pattern_search (rl_pat r) path \<and> rl_key r client_ip account_id \<noteq> None) rate_limit_rules"

lemma dispatch_rules_find:
  assumes "find (\<lambda>r. pattern_search (rl_pat r) path \<and> rl_key r client_ip account_id \<noteq> None) rules = Some rule"
    and "rl_key rule client_ip account_id = Some key"
  shows "dispatch_rules rules False t path client_ip account_id st =
     (case increment_and_check t (rl_window_sec rule) (st key) of (count, z) \<Rightarrow>
        (if rl_limit rule < count then Too_many (rl_window_sec rule) else Passed, st(key := z)))"
  using assms by (induction rules) (auto split: if_splits option.splits)

lemma dispatch_run_window:
  assumes "deciding_rule path client_ip account_id = Some rule" "rl_key rule client_ip account_id = Some key"
  shows "dispatch_run path client_ip account_id st ts = window_run (rl_limit rule) (rl_window_sec rule) (st key) ts"
proof (induction ts arbitrary: st)
  case (Cons t ts)
  obtain count z where c: "increment_and_check t (rl_window_sec rule) (st key) = (count, z)" by fastforce
  have "rate_limit_dispatch True False t path client_ip account_id st =
      (if rl_limit rule < count then Too_many (rl_window_sec rule) else Passed, st(key := z))"
    using dispatch_rules_find[of path client_ip account_id rate_limit_rules rule key t st] assms c
    by (simp add: rate_limit_dispatch_def deciding_rule_def)
  moreover have "dispatch_run path client_ip account_id (st(key := z)) ts = window_run (rl_limit rule) (rl_window_sec rule) z ts"
    using Cons[of "st(key := z)"] by (simp only: fun_upd_same)
  ultimately show ?case using c by simp
qed simp

lemma rules_positive: "rule \<in> set rate_limit_rules \<Longrightarrow> 0 < rl_window_sec rule \<and> 0 \<le> rl_limit rule"
  by (auto simp: rate_limit_rules_def)

section \<open>Properties\<close>

text \<open>C17: The limiter limits: of the requests of one client for one path at increasing times, at most the limit of the
  deciding rule pass within any window of the rule's length; and a request is refused only when more than the limit,
  itself and refused ones included, fall into the window that ends with it.\<close>

theorem rate_limit_window:
  assumes "deciding_rule path client_ip account_id = Some rule" "sorted_wrt (<) ts" "\<forall>u\<in>set ts. 0 \<le> u"
  shows "int (length (filter (\<lambda>(u, passed). passed \<and> in_window (rl_window_sec rule) t u)
            (dispatch_run path client_ip account_id (\<lambda>_. zempty) ts))) \<le> rl_limit rule
     \<and> (\<forall>u. (u, False) \<in> set (dispatch_run path client_ip account_id (\<lambda>_. zempty) ts)
          \<longrightarrow> rl_limit rule < int (card {v \<in> set ts. in_window (rl_window_sec rule) u v}))"
proof -
  from assms(1) obtain key where key: "rl_key rule client_ip account_id = Some key" "rule \<in> set rate_limit_rules"
    by (auto simp: deciding_rule_def find_Some_iff)
  show ?thesis
    unfolding dispatch_run_window[OF assms(1) key(1)]
    using rules_positive[OF key(2)] assms(2,3) by (intro window_run_limited) auto
qed

theorem rate_limit_window_witness:
  "int (length (filter (\<lambda>(u, passed). passed \<and> in_window 60 66 u)
      (dispatch_run ''/api/v1/portal/register'' (Some ''10.0.0.1'') None (\<lambda>_. zempty) [1, 2, 3, 4, 5, 6, 66]))) \<le> 5"
proof -
  have "deciding_rule ''/api/v1/portal/register'' (Some ''10.0.0.1'') None =
      Some \<lparr>rl_pat = Pat_register, rl_limit = 5, rl_window_sec = 60, rl_scope_of = Scope_ip\<rparr>"
    by code_simp
  from conjunct1[OF rate_limit_window[OF this, of "[1, 2, 3, 4, 5, 6, 66]" 66]] show ?thesis by simp
qed

end
