(* ===== verification/OperationAudit.thy ===== *)
theory OperationAudit
  imports RateLimit "HOL-Library.Multiset"
begin

text \<open>
  The operation audit: which requests are recorded and as what, \<^verbatim>\<open>app/middleware/operation_audit.py\<close>, and the bounded
  queue of \<^verbatim>\<open>app/platform/audit/queue.py\<close> as a state machine.

  The worker of a queue takes an event and hands it to the event bus without giving up control in between (the bus is
  synchronous and its errors are logged), so one step of the worker records one event. Stopping detaches the queue, which
  its worker goes on draining until it is empty or the time is up.
\<close>

section \<open>operation\_audit.py\<close>

definition audit_methods :: "string set" where
  "audit_methods = {''POST'', ''PUT'', ''PATCH'', ''DELETE''}"

definition lower_letter :: "char \<Rightarrow> bool" where
  "lower_letter c = (c \<in> set ''abcdefghijklmnopqrstuvwxyz'')"

definition module_char :: "char \<Rightarrow> bool" where
  "module_char c = (lower_letter c \<or> c \<in> set ''0123456789/_-'')"

text \<open>
  \<^verbatim>\<open>AUDIT_PATH_RE.match(path)\<close>: the groups \<^verbatim>\<open>module_path\<close> and \<^verbatim>\<open>action\<close>. The module path is greedy, and as what follows
  it is optional the match never gives characters back.
\<close>

definition audit_path_match :: "string \<Rightarrow> (string \<times> string option) option" where
  "audit_path_match path =
     (case api_rest path of
        None \<Rightarrow> None
      | Some rest \<Rightarrow>
          let tail = (if startswith rest ''admin/'' then Some (drop 6 rest)
                      else if startswith rest ''portal/'' then Some (drop 7 rest) else None)
          in case tail of
               None \<Rightarrow> None
             | Some t \<Rightarrow>
                 if t = [] \<or> \<not> lower_letter (hd t) then None
                 else
                   let module_path = takeWhile module_char t; remaining = dropWhile module_char t
                   in Some (module_path,
                            if startswith remaining ''/'' then Some (takeWhile (\<lambda>c. c \<noteq> CHR ''?'') remaining) else None))"

definition skip_audit_path_patterns :: "string list" where
  "skip_audit_path_patterns =
     [''/captcha'', ''/password-key'', ''/login'', ''/register'', ''/forgot-password'', ''/reset-password'', ''/cancel'', ''/me'']"

definition should_skip_path :: "string \<Rightarrow> bool" where
  "should_skip_path path = list_ex (\<lambda>p. endswith (py_lower path) p) skip_audit_path_patterns"

definition hex_char :: "char \<Rightarrow> bool" where
  "hex_char c = (c \<in> set ''0123456789abcdef'')"

text \<open>\<^verbatim>\<open>re.sub(r"[0-9a-f]{8,}", "", s)\<close>.\<close>

function remove_hex_runs :: "string \<Rightarrow> string" where
  "remove_hex_runs s =
     (case s of
        [] \<Rightarrow> []
      | c # cs \<Rightarrow>
          if hex_char c then
            (if 8 \<le> length (takeWhile hex_char s) then [] else takeWhile hex_char s) @ remove_hex_runs (dropWhile hex_char cs)
          else c # remove_hex_runs cs)"
  by pat_completeness auto
termination
  by (relation "measure length") (auto simp: less_Suc_eq_le length_dropWhile_le)

declare remove_hex_runs.simps [simp del]

definition strip_slash :: "string \<Rightarrow> string" where
  "strip_slash s = strip_by (\<lambda>c. c = CHR ''/'') s"

definition extract_resource_type :: "string \<Rightarrow> string" where
  "extract_resource_type module_path =
     (let resource = strip_by (\<lambda>c. c \<in> set ''-_'')
            (remove_hex_runs (last (split_on (CHR ''/'') (strip_slash module_path))))
      in if resource \<noteq> [] then resource else map (\<lambda>c. if c = CHR ''/'' then CHR ''_'' else c) module_path)"

definition extract_action :: "string option \<Rightarrow> string \<Rightarrow> string" where
  "extract_action action_str http_method =
     (case action_str of
        None \<Rightarrow> py_lower http_method
      | Some a \<Rightarrow>
          if a = [] then py_lower http_method
          else
            let action = hd (split_on (CHR ''/'') (strip_slash a))
            in if action \<noteq> [] then map (\<lambda>c. if c = CHR ''-'' then CHR ''_'' else c) action else py_lower http_method)"

definition match_audit_target :: "string \<Rightarrow> string \<Rightarrow> (string \<times> string) option" where
  "match_audit_target http_method path =
     (if py_upper http_method \<notin> audit_methods then None
      else if should_skip_path path then None
      else case audit_path_match path of
          None \<Rightarrow> if ''logout'' \<in> set (split_on (CHR ''/'') path) then Some (''account'', ''logout'') else None
        | Some (module_path, action_str) \<Rightarrow> Some (extract_resource_type module_path, extract_action action_str http_method))"

record operation_audit_event =
  ev_resource_type :: string
  ev_action :: string
  ev_method :: string
  ev_path :: string
  ev_status_code :: int
  ev_account_id :: "string option"
  ev_account_type :: "string option"
  ev_request_id :: "string option"
  ev_ip :: "string option"
  ev_user_agent :: "string option"

section \<open>queue.py\<close>

text \<open>
  The live queue with its worker, the queues that a stop is draining, and, for the statements below, the events that were
  accepted, recorded and given up at a timeout.
\<close>

record audit_state =
  as_live :: "operation_audit_event list option"
  as_draining :: "operation_audit_event list list"
  as_accepted :: "operation_audit_event list"
  as_recorded :: "operation_audit_event list"
  as_lost :: "operation_audit_event list"

definition audit_init :: audit_state where
  "audit_init = \<lparr>as_live = None, as_draining = [], as_accepted = [], as_recorded = [], as_lost = []\<rparr>"

definition queue_start :: "audit_state \<Rightarrow> audit_state" where
  "queue_start st = (if as_live st \<noteq> None then st else st\<lparr>as_live := Some []\<rparr>)"

text \<open>\<^verbatim>\<open>asyncio.Queue.full()\<close>: a maximum that is not positive means no bound.\<close>

definition queue_full :: "int \<Rightarrow> 'e list \<Rightarrow> bool" where
  "queue_full maxsize q = (0 < maxsize \<and> maxsize \<le> int (length q))"

definition enqueue :: "int \<Rightarrow> operation_audit_event \<Rightarrow> audit_state \<Rightarrow> bool \<times> audit_state" where
  "enqueue maxsize event st =
     (case as_live st of
        None \<Rightarrow> (False, st)
      | Some q \<Rightarrow>
          if queue_full maxsize q then (False, st)
          else (True, st\<lparr>as_live := Some (q @ [event]), as_accepted := as_accepted st @ [event]\<rparr>))"

text \<open>The middleware, after the response: what it knows of the request from the context variables.\<close>

record audit_context =
  ac_account_id :: "string option"
  ac_account_type :: "string option"
  ac_request_id :: "string option"
  ac_ip :: "string option"
  ac_user_agent :: "string option"

definition audit_dispatch :: "int \<Rightarrow> audit_context \<Rightarrow> string \<Rightarrow> string \<Rightarrow> int \<Rightarrow> audit_state \<Rightarrow> audit_state" where
  "audit_dispatch maxsize ctx http_method path status_code st =
     (case match_audit_target http_method path of
        None \<Rightarrow> st
      | Some (resource_type, action) \<Rightarrow>
          snd (enqueue maxsize
            \<lparr>ev_resource_type = resource_type, ev_action = action, ev_method = http_method, ev_path = path,
             ev_status_code = status_code, ev_account_id = ac_account_id ctx, ev_account_type = ac_account_type ctx,
             ev_request_id = ac_request_id ctx, ev_ip = ac_ip ctx, ev_user_agent = ac_user_agent ctx\<rparr> st))"

definition queue_detach :: "audit_state \<Rightarrow> audit_state" where
  "queue_detach st =
     (case as_live st of None \<Rightarrow> st | Some q \<Rightarrow> st\<lparr>as_live := None, as_draining := as_draining st @ [q]\<rparr>)"

text \<open>The interleavings: requests enqueue (or another caller does), workers record, a stop detaches, then joins an empty queue or times out.\<close>

inductive audit_step :: "int \<Rightarrow> audit_state \<Rightarrow> audit_state \<Rightarrow> bool" for maxsize where
  start: "audit_step maxsize st (queue_start st)"
| request: "audit_step maxsize st (audit_dispatch maxsize ctx http_method path status_code st)"
| put: "audit_step maxsize st (snd (enqueue maxsize event st))"
| work: "as_live st = Some (e # q) \<Longrightarrow>
     audit_step maxsize st (st\<lparr>as_live := Some q, as_recorded := as_recorded st @ [e]\<rparr>)"
| detach: "audit_step maxsize st (queue_detach st)"
| drain: "as_draining st = xs @ (e # q) # ys \<Longrightarrow>
     audit_step maxsize st (st\<lparr>as_draining := xs @ q # ys, as_recorded := as_recorded st @ [e]\<rparr>)"
| join: "as_draining st = xs @ [] # ys \<Longrightarrow> audit_step maxsize st (st\<lparr>as_draining := xs @ ys\<rparr>)"
| timeout: "as_draining st = xs @ q # ys \<Longrightarrow>
     audit_step maxsize st (st\<lparr>as_draining := xs @ ys, as_lost := as_lost st @ q\<rparr>)"

inductive audit_run :: "int \<Rightarrow> audit_state \<Rightarrow> bool" for maxsize where
  init: "audit_run maxsize audit_init"
| step: "audit_run maxsize st \<Longrightarrow> audit_step maxsize st st' \<Longrightarrow> audit_run maxsize st'"

section \<open>Facts\<close>

definition pending :: "audit_state \<Rightarrow> operation_audit_event multiset" where
  "pending st = (case as_live st of None \<Rightarrow> {#} | Some q \<Rightarrow> mset q) + mset (concat (as_draining st))"

definition audit_inv :: "int \<Rightarrow> audit_state \<Rightarrow> bool" where
  "audit_inv maxsize st =
     (mset (as_accepted st) = mset (as_recorded st) + pending st + mset (as_lost st)
      \<and> (0 < maxsize \<longrightarrow> (case as_live st of None \<Rightarrow> True | Some q \<Rightarrow> int (length q) \<le> maxsize)))"

lemma enqueue_inv: "audit_inv maxsize st \<Longrightarrow> audit_inv maxsize (snd (enqueue maxsize event st))"
  by (auto simp: audit_inv_def pending_def enqueue_def queue_full_def split: option.splits)

lemma audit_step_inv:
  assumes "audit_inv maxsize st" "audit_step maxsize st st'"
  shows "audit_inv maxsize st'"
  using assms(2)
proof cases
  case request
  then show ?thesis using assms(1) by (simp add: audit_dispatch_def enqueue_inv split: option.splits prod.splits)
next
  case put
  then show ?thesis using assms(1) by (simp add: enqueue_inv)
qed (use assms(1) in \<open>auto simp: audit_inv_def pending_def queue_start_def queue_detach_def split: option.splits\<close>)

lemma audit_run_inv: "audit_run maxsize st \<Longrightarrow> audit_inv maxsize st"
proof (induction rule: audit_run.induct)
  case init
  show ?case by (simp add: audit_inv_def pending_def audit_init_def)
qed (rule audit_step_inv)

lemma dropWhile_not_start: "\<not> startswith (dropWhile module_char t) ''/''"
proof (cases "dropWhile module_char t")
  case (Cons c cs)
  then have "\<not> module_char c" by (metis hd_dropWhile list.distinct(1) list.sel(1))
  then show ?thesis by (auto simp: Cons startswith_def module_char_def)
next
  case Nil
  then show ?thesis unfolding Nil by (simp add: startswith_def)
qed

section \<open>Properties\<close>

text \<open>C18: The audit queue neither invents nor duplicates events, and loses accepted ones only at a shutdown timeout: in
  every interleaving of requests, workers, starts and stops, the accepted events are exactly those recorded, those still
  queued and those given up at a timeout, and a bounded queue never exceeds its bound.\<close>

theorem audit_queue_conserves:
  assumes "audit_run maxsize st"
  shows "mset (as_accepted st) = mset (as_recorded st) + pending st + mset (as_lost st)
     \<and> (0 < maxsize \<longrightarrow> (case as_live st of None \<Rightarrow> True | Some q \<Rightarrow> int (length q) \<le> maxsize))"
  using audit_run_inv[OF assms] by (simp add: audit_inv_def)

definition demo_event :: operation_audit_event where
  "demo_event = \<lparr>ev_resource_type = ''users'', ev_action = ''post'', ev_method = ''POST'', ev_path = ''/api/v1/admin/users'',
     ev_status_code = 200, ev_account_id = None, ev_account_type = None, ev_request_id = None, ev_ip = None,
     ev_user_agent = None\<rparr>"

theorem audit_queue_conserves_witness:
  "mset (as_accepted (snd (enqueue 1 demo_event (queue_start audit_init)))) =
     mset (as_recorded (snd (enqueue 1 demo_event (queue_start audit_init))))
       + pending (snd (enqueue 1 demo_event (queue_start audit_init)))
       + mset (as_lost (snd (enqueue 1 demo_event (queue_start audit_init))))"
proof -
  have "audit_run 1 (snd (enqueue 1 demo_event (queue_start audit_init)))"
    by (rule audit_run.step[OF audit_run.step[OF audit_run.init audit_step.start] audit_step.put])
  from audit_queue_conserves[OF this] show ?thesis by simp
qed

text \<open>The audit never reads an action out of the path: the greedy module path takes the slashes too, so the action
  group of the pattern stays empty and every audited operation but logout is recorded under its HTTP method.\<close>

lemma audit_action_is_method:
  assumes "match_audit_target http_method path = Some (resource_type, action)"
  shows "(resource_type, action) = (''account'', ''logout'') \<or> action = py_lower http_method"
  using assms
  by (auto simp: match_audit_target_def audit_path_match_def dropWhile_not_start extract_action_def Let_def
      split: if_splits option.splits)

lemma audit_action_is_method_witness:
  "match_audit_target ''POST'' ''/api/v1/admin/users/reset'' = Some (''reset'', ''post'') \<and> ''post'' = py_lower ''POST''"
proof -
  have m: "match_audit_target ''POST'' ''/api/v1/admin/users/reset'' = Some (''reset'', ''post'')" by code_simp
  from audit_action_is_method[OF m] m show ?thesis by simp
qed

end
