(* ===== verification/Policies.thy ===== *)
theory Policies
  imports Errors PyFloat
begin

text \<open>
  Small policies: password strength (\<^verbatim>\<open>app/core/security/password_policy.py\<close>), masking of personal data
  (\<^verbatim>\<open>app/core/security/masking.py\<close>), pagination (\<^verbatim>\<open>app/core/response/pagination.py\<close>), and the instance number of
  the id generator (\<^verbatim>\<open>app/platform/id_generator/snowflake.py\<close>).
\<close>

section \<open>password\_policy.py\<close>

definition common_passwords :: "string list" where
  "common_passwords =
     [''123456'', ''password'', ''12345678'', ''qwerty'', ''123456789'', ''12345'',
      ''1234'', ''111111'', ''1234567'', ''sunshine'', ''qwerty123'', ''iloveyou'',
      ''princess'', ''admin'', ''welcome'', ''666666'', ''abc123'', ''football'',
      ''123123'', ''monkey'', ''654321'', ''!@#$%^&*'', ''charlie'', ''aa123456'',
      ''donald'', ''password1'', ''qwerty12345'', ''1234567890'', ''letmein'', ''password123'',
      ''admin123'', ''passw0rd'', ''hello123'', ''test123'', ''root'', ''administrator'',
      ''p@ssw0rd'', ''qwertyuiop'', ''asdfghjkl'', ''zxcvbnm'', ''pass123'', ''password!'',
      ''default'', ''change123'', ''changeme'']"

definition upper_ascii :: "nat \<Rightarrow> bool" where "upper_ascii c = (65 \<le> c \<and> c \<le> 90)"

definition lower_ascii :: "nat \<Rightarrow> bool" where "lower_ascii c = (97 \<le> c \<and> c \<le> 122)"

definition digit_ascii :: "nat \<Rightarrow> bool" where "digit_ascii c = (48 \<le> c \<and> c \<le> 57)"

definition special_char :: "nat \<Rightarrow> bool" where
  "special_char c = (\<not> upper_ascii c \<and> \<not> lower_ascii c \<and> \<not> digit_ascii c)"

text \<open>The messages of the source, from "at least ... characters" to "too common".\<close>

definition msg_too_short :: "int \<Rightarrow> ptext" where
  "msg_too_short n = [0x5BC6, 0x7801, 0x957F, 0x5EA6, 0x81F3, 0x5C11, 0x20] @ asc (str_int n) @ [0x20, 0x4E2A, 0x5B57, 0x7B26]"

definition msg_too_long :: "int \<Rightarrow> ptext" where
  "msg_too_long n = [0x5BC6, 0x7801, 0x957F, 0x5EA6, 0x4E0D, 0x80FD, 0x8D85, 0x8FC7, 0x20] @ asc (str_int n) @ [0x20, 0x4E2A, 0x5B57, 0x7B26]"

definition msg_no_uppercase :: ptext where
  "msg_no_uppercase = [0x5BC6, 0x7801, 0x5FC5, 0x987B, 0x5305, 0x542B, 0x81F3, 0x5C11, 0x4E00, 0x4E2A, 0x5927, 0x5199, 0x5B57, 0x6BCD]"

definition msg_no_lowercase :: ptext where
  "msg_no_lowercase = [0x5BC6, 0x7801, 0x5FC5, 0x987B, 0x5305, 0x542B, 0x81F3, 0x5C11, 0x4E00, 0x4E2A, 0x5C0F, 0x5199, 0x5B57, 0x6BCD]"

definition msg_no_digit :: ptext where
  "msg_no_digit = [0x5BC6, 0x7801, 0x5FC5, 0x987B, 0x5305, 0x542B, 0x81F3, 0x5C11, 0x4E00, 0x4E2A, 0x6570, 0x5B57]"

definition msg_no_special :: ptext where
  "msg_no_special = [0x5BC6, 0x7801, 0x5FC5, 0x987B, 0x5305, 0x542B, 0x81F3, 0x5C11, 0x4E00, 0x4E2A, 0x7279, 0x6B8A, 0x5B57, 0x7B26]"

definition msg_common :: ptext where
  "msg_common = [0x5BC6, 0x7801, 0x8FC7, 0x4E8E, 0x5E38, 0x89C1, 0xFF0C, 0x8BF7, 0x66F4, 0x6362]"

definition business :: "ptext \<Rightarrow> 'a web" where
  "business m = Inl (App (BusinessError m))"

text \<open>
  \<^verbatim>\<open>password.lower()\<close>, as far as it can produce one of the common passwords: those are ASCII, and the characters whose lower
  case is an ASCII character are the ASCII letters and the Kelvin sign.
\<close>

definition lowered :: "ptext \<Rightarrow> ptext" where
  "lowered password = map (\<lambda>c. if upper_ascii c then c + 32 else if c = 0x212A then 107 else c) password"

text \<open>The first violated rule decides.\<close>

definition validate_password_strength :: "password_policy \<Rightarrow> ptext \<Rightarrow> unit web" where
  "validate_password_strength policy password =
     (if int (length password) < pp_min_length policy then business (msg_too_short (pp_min_length policy))
      else if int (length password) > pp_max_length policy then business (msg_too_long (pp_max_length policy))
      else if pp_require_uppercase policy \<and> \<not> list_ex upper_ascii password then business msg_no_uppercase
      else if pp_require_lowercase policy \<and> \<not> list_ex lower_ascii password then business msg_no_lowercase
      else if pp_require_digit policy \<and> \<not> list_ex digit_ascii password then business msg_no_digit
      else if pp_require_special policy \<and> \<not> list_ex special_char password then business msg_no_special
      else if pp_common_password_check policy \<and> lowered password \<in> asc ` set common_passwords then business msg_common
      else Inr ())"

definition estimate_strength_level :: "ptext \<Rightarrow> int" where
  "estimate_strength_level password =
     (let score = (if 8 \<le> length password then 1 else 0) + (if 12 \<le> length password then 1 else 0)
                + (if list_ex upper_ascii password \<and> list_ex lower_ascii password then 1 else 0)
                + (if list_ex digit_ascii password \<and> list_ex special_char password then 1 else 0)
      in min score 4)"

section \<open>masking.py\<close>

text \<open>The index of the first \<^verbatim>\<open>@\<close>, as \<^verbatim>\<open>str.find\<close> returns it.\<close>

definition find_at :: "ptext \<Rightarrow> int" where
  "find_at s = (if 64 \<in> set s then int (length (takeWhile (\<lambda>c. c \<noteq> 64) s)) else - 1)"

definition mask_email :: "ptext \<Rightarrow> ptext" where
  "mask_email email =
     (if email = [] then email
      else let at_idx = find_at email in
        if at_idx < 2 then email else hd email # asc ''***'' @ drop (nat at_idx) email)"

definition mask_phone :: "ptext \<Rightarrow> ptext" where
  "mask_phone phone =
     (if phone = [] \<or> length phone < 7 then phone
      else take 3 phone @ asc ''****'' @ drop (length phone - 4) phone)"

text \<open>\<^verbatim>\<open>1\d{10}\<close>; \<open>is_digit\<close> is \<^verbatim>\<open>\d\<close>, the decimal digits of Unicode.\<close>

definition mask_identifier :: "(nat \<Rightarrow> bool) \<Rightarrow> ptext \<Rightarrow> ptext" where
  "mask_identifier is_digit val =
     (if val = [] then val
      else if 64 \<in> set val then mask_email val
      else if length val = 11 \<and> hd val = 49 \<and> list_all is_digit (tl val) then mask_phone val
      else val)"

definition mask_ip :: "ptext \<Rightarrow> ptext" where
  "mask_ip ip =
     (if 46 \<in> set ip then rev (drop 1 (dropWhile (\<lambda>c. c \<noteq> 46) (rev ip))) @ asc ''.*'' else ip)"

section \<open>pagination.py\<close>

record page_query =
  pq_current :: int
  pq_size :: int

definition page_query_valid :: "page_query \<Rightarrow> bool" where
  "page_query_valid q = (1 \<le> pq_current q \<and> 1 \<le> pq_size q \<and> pq_size q \<le> 100)"

definition page_offset :: "page_query \<Rightarrow> int" where
  "page_offset q = (pq_current q - 1) * pq_size q"

record 'a page_data =
  pd_size :: int
  pd_current :: int
  pd_total :: int
  pd_pages :: int
  pd_records :: "'a list"

text \<open>\<^verbatim>\<open>ceil(total / size)\<close> is a float division.\<close>

definition build_page :: "page_query \<Rightarrow> int \<Rightarrow> 'a list \<Rightarrow> 'a page_data" where
  "build_page q total_count items =
     \<lparr>pd_size = pq_size q, pd_current = pq_current q, pd_total = total_count,
      pd_pages = (if total_count \<noteq> 0 then ceiling (fdiv (of_int total_count) (of_int (pq_size q))) else 0),
      pd_records = items\<rparr>"

section \<open>snowflake.py\<close>

definition build_instance_id :: "int \<Rightarrow> int \<Rightarrow> int" where
  "build_instance_id datacenter_id worker_id = (datacenter_id mod 32) * 32 + worker_id mod 32"

section \<open>Facts\<close>

lemma strength_level_bounds: "0 \<le> estimate_strength_level pw \<and> estimate_strength_level pw \<le> 4"
  by (simp add: estimate_strength_level_def Let_def)

lemma rne_error: "\<bar>of_int (rne r) - r\<bar> \<le> 1 / 2"
proof -
  define d where "d = r - of_int (floor r)"
  have d: "0 \<le> d" "d < 1" unfolding d_def by linarith+
  have "rne r = (if d < 1 / 2 then floor r else if 1 / 2 < d then floor r + 1 else if even (floor r) then floor r else floor r + 1)"
    by (simp add: rne_def d_def Let_def)
  then consider "rne r = floor r" "d \<le> 1 / 2" | "rne r = floor r + 1" "1 / 2 \<le> d"
    by (auto split: if_splits)
  then show ?thesis
  proof cases
    case 1
    have "of_int (rne r) - r = - d" unfolding 1(1) d_def by simp
    with 1 d show ?thesis by simp
  next
    case 2
    have "of_int (rne r) - r = 1 - d" unfolding 2(1) d_def by simp
    with 2 d show ?thesis by simp
  qed
qed

lemma fl_of_int:
  assumes "0 < n" "n < 2 ^ 53"
  shows "fl (of_int n) = of_int n"
proof -
  let ?x = "of_int n :: rat"
  have pos: "0 < ?x" using assms(1) by simp
  have "?x < of_int (2 ^ 53)" using assms(2) by (simp only: of_int_less_iff)
  then have "?x < power_int 2 53" by simp
  with ilog2_bounds(1)[OF pos] have "power_int 2 (ilog2 ?x) < (power_int 2 53 :: rat)" by linarith
  then have "ilog2 ?x < 53" by (simp only: power_int2_less)
  then have "fl_exp ?x \<le> 0" by (simp add: fl_exp_def)
  with fl_pos_exact[OF pos, of n 0] pos show ?thesis by (simp add: fl_def)
qed

lemma fl_lower:
  assumes "0 < x" "- 1022 \<le> ilog2 x"
  shows "x - x / 2 ^ 53 \<le> fl x"
proof -
  let ?u = "power_int 2 (fl_exp x) :: rat"
  have "\<bar>of_int (rne (x / ?u)) - x / ?u\<bar> \<le> 1 / 2" by (rule rne_error)
  then have "x / ?u - 1 / 2 \<le> of_int (rne (x / ?u))" by linarith
  then have "(x / ?u - 1 / 2) * ?u \<le> fl_pos x" unfolding fl_pos_def by (intro mult_right_mono) auto
  then have "x - ?u / 2 \<le> fl_pos x" by (simp add: left_diff_distrib)
  moreover have "?u * 2 ^ 52 \<le> x"
    using ilog2_bounds(1)[OF assms(1)] assms(2) by (simp add: fl_exp_def max_def power_int_diff)
  ultimately show ?thesis using assms(1) by (simp add: fl_def)
qed

lemma ceiling_fdiv:
  assumes "0 < total_count" "total_count < 2 ^ 53" "1 \<le> m" "m \<le> (100 :: int)"
  shows "ceiling (fdiv (of_int total_count) (of_int m)) = ceiling (of_int total_count / of_int m :: rat)"
proof -
  let ?q = "of_int total_count / of_int m :: rat" and ?n = "ceiling (of_int total_count / of_int m :: rat)"
  have q: "0 < ?q" using assms by simp
  have m: "(0 :: rat) < of_int m" using assms(3) by simp
  have n_pos: "0 < ?n" using q by simp
  have "?q \<le> of_int total_count" using assms m by (simp add: pos_divide_le_eq mult_le_cancel_left1 flip: of_int_mult)
  then have "?n \<le> total_count" by (simp add: ceiling_le_iff)
  with assms(2) have "fl (of_int ?n) = of_int ?n" by (intro fl_of_int[OF n_pos]) linarith
  moreover have "?q \<le> of_int ?n" by (rule le_of_int_ceiling)
  ultimately have up: "fl ?q \<le> of_int ?n" by (metis fl_mono)
  have "of_int ?n - 1 < ?q" by linarith
  then have "(of_int ?n - 1) * of_int m < (of_int total_count :: rat)" using m by (simp add: pos_less_divide_eq)
  then have "(?n - 1) * m < total_count" by (metis (no_types) of_int_1 of_int_diff of_int_less_iff of_int_mult)
  then have "(?n - 1) * m + 1 \<le> total_count" by linarith
  then have "(of_int ?n - 1) * of_int m + 1 \<le> (of_int total_count :: rat)"
    by (metis (no_types, opaque_lifting) of_int_1 of_int_add of_int_diff of_int_le_iff of_int_mult)
  then have "((of_int ?n - 1) * of_int m + 1) / of_int m \<le> ?q" using m by (intro divide_right_mono) auto
  then have gap: "of_int ?n - 1 + 1 / of_int m \<le> ?q" using m by (simp add: add_divide_distrib)
  have "1 / 128 \<le> ?q" using assms m by (simp add: pos_le_divide_eq flip: of_int_mult)
  moreover have "power_int 2 (- 7) = (1 / 128 :: rat)" by (simp add: power_int_def field_simps)
  ultimately have "power_int 2 (- 7) \<le> ?q" by simp
  with ilog2_bounds(2)[OF q] have "power_int 2 (- 7) < (power_int 2 (ilog2 ?q + 1) :: rat)" by linarith
  then have "- 1022 \<le> ilog2 ?q" by (simp only: power_int2_less)
  note low = fl_lower[OF q this]
  have "of_int total_count < (2 ^ 53 :: rat)" using assms(2) by (metis of_int_less_iff of_int_numeral of_int_power)
  then have "?q / 2 ^ 53 < 1 / of_int m" using m by (simp add: field_simps)
  with low gap have "of_int ?n - 1 < fl ?q" by linarith
  with up show ?thesis unfolding fdiv_def by (intro ceiling_unique) auto
qed

lemma ceiling_multiple:
  assumes "(0 :: int) < n" "(p - 1) * n < t" "t \<le> p * n"
  shows "(t + n - 1) div n = p" and "ceiling (of_int t / of_int n :: rat) = p"
proof -
  show "(t + n - 1) div n = p" by (rule int_div_pos_eq[of _ _ _ "t + n - 1 - p * n"]) (use assms in \<open>auto simp: algebra_simps\<close>)
  have n: "(0 :: rat) < of_int n" using assms(1) by simp
  have "of_int ((p - 1) * n) < (of_int t :: rat)" "(of_int t :: rat) \<le> of_int (p * n)"
    using assms(2,3) by (simp_all only: of_int_less_iff of_int_le_iff)
  then have "of_int p - 1 < (of_int t / of_int n :: rat)" "(of_int t / of_int n :: rat) \<le> of_int p"
    using n by (simp_all add: pos_less_divide_eq pos_divide_le_eq)
  then show "ceiling (of_int t / of_int n :: rat) = p" by (intro ceiling_unique) auto
qed

lemma page_of:
  assumes "(1 :: int) \<le> n" "0 \<le> i"
  shows "(c - 1) * n \<le> i \<and> i < (c - 1) * n + n \<longleftrightarrow> c = i div n + 1"
proof
  assume "(c - 1) * n \<le> i \<and> i < (c - 1) * n + n"
  then have "i div n = c - 1" by (intro int_div_pos_eq[of _ _ _ "i - (c - 1) * n"]) (auto simp: algebra_simps)
  then show "c = i div n + 1" by simp
next
  assume "c = i div n + 1"
  then have c: "(c - 1) * n = i div n * n" by simp
  have "i div n * n + i mod n = i" "0 \<le> i mod n" "i mod n < n" using assms by simp_all
  then show "(c - 1) * n \<le> i \<and> i < (c - 1) * n + n" unfolding c by linarith
qed

section \<open>Properties\<close>

text \<open>Pagination is exact for totals below two to the 53rd, although the number of pages is computed with a float
  division: the pages are the rounded-up quotient, every record index lies on exactly one page between the first and
  the last, and at the offset of that page.\<close>

lemma pagination_exact:
  assumes "page_query_valid q" "0 \<le> total_count" "total_count < 2 ^ 53" "0 \<le> i" "i < total_count"
  shows "pd_pages (build_page q total_count items) = (total_count + pq_size q - 1) div pq_size q
     \<and> (\<exists>!current. 1 \<le> current \<and> current \<le> pd_pages (build_page q total_count items)
          \<and> page_offset (q\<lparr>pq_current := current\<rparr>) \<le> i \<and> i < page_offset (q\<lparr>pq_current := current\<rparr>) + pq_size q)"
proof -
  let ?n = "pq_size q"
  define p where "p = (total_count - 1) div ?n + 1"
  have n: "1 \<le> ?n" "?n \<le> 100" using assms(1) by (auto simp: page_query_valid_def)
  have "(p - 1) * ?n \<le> total_count - 1 \<and> total_count - 1 < (p - 1) * ?n + ?n"
    using page_of[of ?n "total_count - 1" p] n assms by (simp add: p_def)
  then have p: "(p - 1) * ?n < total_count" "total_count \<le> p * ?n" by (auto simp: algebra_simps)
  have pages: "pd_pages (build_page q total_count items) = p"
    using ceiling_fdiv[of total_count ?n] ceiling_multiple(2)[OF _ p] assms n by (simp add: build_page_def)
  have "i div ?n < p"
  proof -
    have "i div ?n \<le> (total_count - 1) div ?n" using assms n by (intro zdiv_mono1) auto
    then show ?thesis by (simp add: p_def)
  qed
  moreover have "0 \<le> i div ?n" using assms n by (simp add: pos_imp_zdiv_nonneg_iff)
  ultimately show ?thesis
    using page_of[OF n(1) assms(4)] ceiling_multiple(1)[OF _ p] n by (auto simp: pages page_offset_def intro!: ex1I[of _ "i div ?n + 1"])
qed

lemma pagination_exact_witness:
  "pd_pages (build_page \<lparr>pq_current = 1, pq_size = 20\<rparr> 41 [()]) = 3"
  using pagination_exact[of "\<lparr>pq_current = 1, pq_size = 20\<rparr>" 41 40 "[()]"] by (simp add: page_query_valid_def)

text \<open>A masked value tells nothing about what it hides: the mask of an e-mail address depends only on its first character
  and on the domain, for local parts of at least two characters; the mask of a phone number of at least seven
  characters depends only on the first three and the last four, not even on the length.\<close>

lemma masking_hides:
  "(2 \<le> length local1 \<and> 2 \<le> length local2 \<and> hd local1 = hd local2 \<and> 64 \<notin> set local1 \<and> 64 \<notin> set local2
       \<longrightarrow> mask_email (local1 @ 64 # domain) = mask_email (local2 @ 64 # domain))
   \<and> (length head1 = 3 \<and> length tail1 = 4 \<longrightarrow> mask_phone (head1 @ middle1 @ tail1) = mask_phone (head1 @ middle2 @ tail1))"
proof -
  have "mask_email (l @ 64 # domain) = hd l # asc ''***'' @ 64 # domain" if "2 \<le> length l" "64 \<notin> set l" for l
  proof -
    have "takeWhile (\<lambda>c. c \<noteq> 64) (l @ 64 # domain) = l" using that(2) by (subst takeWhile_append2) auto
    moreover have "hd (l @ 64 # domain) = hd l" using that(1) by (cases l) auto
    ultimately show ?thesis using that(1) by (simp add: mask_email_def find_at_def)
  qed
  then have "2 \<le> length local1 \<and> 2 \<le> length local2 \<and> hd local1 = hd local2 \<and> 64 \<notin> set local1 \<and> 64 \<notin> set local2
       \<longrightarrow> mask_email (local1 @ 64 # domain) = mask_email (local2 @ 64 # domain)" by simp
  moreover have "length head1 = 3 \<and> length tail1 = 4 \<longrightarrow> mask_phone (head1 @ middle1 @ tail1) = mask_phone (head1 @ middle2 @ tail1)"
    by (auto simp: mask_phone_def)
  ultimately show ?thesis by blast
qed

lemma masking_hides_witness:
  "mask_email (asc ''john'' @ 64 # asc ''x.org'') = mask_email (asc ''jane-doe'' @ 64 # asc ''x.org'')"
  using masking_hides[of "asc ''john''" "asc ''jane-doe''" "asc ''x.org''"] by (simp add: asc_def)

text \<open>A phone number of exactly seven characters is not masked at all: nothing lies between the two parts shown.\<close>

lemma mask_phone_seven: "length phone = 7 \<Longrightarrow> mask_phone phone = take 3 phone @ asc ''****'' @ drop 3 phone"
  by (cases phone) (simp_all add: mask_phone_def)

text \<open>What a password has to satisfy.\<close>

lemma validate_password_ok:
  "validate_password_strength policy pw = Inr () \<longleftrightarrow>
     pp_min_length policy \<le> int (length pw) \<and> int (length pw) \<le> pp_max_length policy
     \<and> (pp_require_uppercase policy \<longrightarrow> list_ex upper_ascii pw) \<and> (pp_require_lowercase policy \<longrightarrow> list_ex lower_ascii pw)
     \<and> (pp_require_digit policy \<longrightarrow> list_ex digit_ascii pw) \<and> (pp_require_special policy \<longrightarrow> list_ex special_char pw)
     \<and> (pp_common_password_check policy \<longrightarrow> lowered pw \<notin> asc ` set common_passwords)"
  by (auto simp: validate_password_strength_def business_def)

lemma instance_id_bounds: "0 \<le> build_instance_id d w \<and> build_instance_id d w < 1024"
proof -
  have "0 \<le> d mod 32" "d mod 32 < 32" "0 \<le> w mod 32" "w mod 32 < 32" by simp_all
  then show ?thesis unfolding build_instance_id_def by linarith
qed

end
