(* ===== verification/Json.thy ===== *)
theory Json
  imports PyFloat PyText "HOL-Library.AList"
begin

text \<open>
  The part of Python's \<^verbatim>\<open>json\<close> module the worker uses: \<^verbatim>\<open>json.loads\<close> with its default decoder (the grammar of
  CPython's scanner, \<^verbatim>\<open>NaN\<close> and the infinities included, later duplicates of a key win, integers of more than 4300 digits
  raise a plain \<^verbatim>\<open>ValueError\<close>) and \<^verbatim>\<open>json.dumps(v, ensure_ascii=True)\<close>. Every other failure of the decoder is a
  \<^verbatim>\<open>JSONDecodeError\<close>. The recursion limit of the interpreter is not modelled, and a negative zero is zero.
  The main result is that reading inverts printing.
\<close>

section \<open>Values\<close>

datatype pyfloat = Finite rat | Infinite bool | NotANumber

datatype json =
    J_null
  | J_bool bool
  | J_int int
  | J_float pyfloat
  | J_str ptext
  | J_list "json list"
  | J_dict "(ptext \<times> json) list"

datatype json_error = Decode_error | Int_too_long

section \<open>Reading\<close>

definition json_ws :: "nat \<Rightarrow> bool" where
  "json_ws c = (c = 32 \<or> c = 9 \<or> c = 10 \<or> c = 13)"

definition skip_ws :: "ptext \<Rightarrow> ptext" where
  "skip_ws s = dropWhile json_ws s"

definition is_digit :: "nat \<Rightarrow> bool" where
  "is_digit c = (48 \<le> c \<and> c \<le> 57)"

subsection \<open>Strings\<close>

definition hex_value :: "nat \<Rightarrow> nat option" where
  "hex_value c =
     (if is_digit c then Some (c - 48)
      else if 97 \<le> c \<and> c \<le> 102 then Some (c - 87)
      else if 65 \<le> c \<and> c \<le> 70 then Some (c - 55)
      else None)"

definition hex4 :: "ptext \<Rightarrow> nat option" where
  "hex4 s =
     (case s of
        a # b # c # d # _ \<Rightarrow>
          (case (hex_value a, hex_value b, hex_value c, hex_value d) of
             (Some p, Some q, Some r, Some t) \<Rightarrow> Some (p * 4096 + q * 256 + r * 16 + t)
           | _ \<Rightarrow> None)
      | _ \<Rightarrow> None)"

definition simple_escape :: "nat \<Rightarrow> nat option" where
  "simple_escape e =
     map_of [(34, 34), (92, 92), (47, 47), (98, 8), (102, 12), (110, 10), (114, 13), (116, 9)] e"

text \<open>The second half of a surrogate pair, when the first half \<open>u\<close> is followed by one.\<close>

definition low_half :: "nat \<Rightarrow> ptext \<Rightarrow> nat option" where
  "low_half u s =
     (if 0xD800 \<le> u \<and> u \<le> 0xDBFF \<and> take 2 s = [92, 117]
      then (case hex4 (drop 2 s) of
              Some l \<Rightarrow> if 0xDC00 \<le> l \<and> l \<le> 0xDFFF then Some l else None
            | None \<Rightarrow> None)
      else None)"

text \<open>The text after an opening quote: the string and what follows its closing quote.\<close>

fun scan_str :: "ptext \<Rightarrow> (ptext \<times> ptext) option" where
  "scan_str [] = None"
| "scan_str (c # cs) =
     (if c = 34 then Some ([], cs)
      else if c = 92 then
        (case cs of
           [] \<Rightarrow> None
         | e # es \<Rightarrow>
             if e = 117 then
               (case hex4 es of
                  None \<Rightarrow> None
                | Some u \<Rightarrow>
                    (case low_half u (drop 4 es) of
                       Some l \<Rightarrow>
                         map_option (apfst ((#) (0x10000 + (u - 0xD800) * 1024 + (l - 0xDC00)))) (scan_str (drop 10 es))
                     | None \<Rightarrow> map_option (apfst ((#) u)) (scan_str (drop 4 es))))
             else
               (case simple_escape e of
                  None \<Rightarrow> None
                | Some x \<Rightarrow> map_option (apfst ((#) x)) (scan_str es)))
      else if c < 32 then None
      else map_option (apfst ((#) c)) (scan_str cs))"

subsection \<open>Numbers\<close>

definition dec_value :: "ptext \<Rightarrow> nat" where
  "dec_value ds = foldl (\<lambda>n d. 10 * n + (d - 48)) 0 ds"

definition float_of :: "rat \<Rightarrow> pyfloat" where
  "float_of x = (if \<bar>fl x\<bar> < 2 ^ 1024 then Finite (fl x) else Infinite (x < 0))"

text \<open>The parts of a number after its sign: integer digits, fraction digits, exponent, rest.\<close>

definition scan_int :: "ptext \<Rightarrow> (ptext \<times> ptext) option" where
  "scan_int s =
     (case s of
        [] \<Rightarrow> None
      | c # cs \<Rightarrow>
          if c = 48 then Some ([c], cs)
          else if is_digit c then Some (takeWhile is_digit s, dropWhile is_digit s)
          else None)"

definition scan_frac :: "ptext \<Rightarrow> ptext \<times> ptext" where
  "scan_frac s =
     (case s of
        c # d # cs \<Rightarrow>
          if c = 46 \<and> is_digit d then (takeWhile is_digit (d # cs), dropWhile is_digit (d # cs)) else ([], s)
      | _ \<Rightarrow> ([], s))"

definition scan_exp :: "ptext \<Rightarrow> int option \<times> ptext" where
  "scan_exp s =
     (case s of
        [] \<Rightarrow> (None, s)
      | c # cs \<Rightarrow>
          if c = 101 \<or> c = 69 then
            (let sign = (case cs of [] \<Rightarrow> [] | d # _ \<Rightarrow> if d = 43 \<or> d = 45 then [d] else []);
                 ds = drop (length sign) cs
             in if takeWhile is_digit ds = [] then (None, s)
                else (Some ((if sign = [45] then - 1 else 1) * int (dec_value (takeWhile is_digit ds))),
                      dropWhile is_digit ds))
          else (None, s))"

definition scan_number :: "ptext \<Rightarrow> json_error + json \<times> ptext" where
  "scan_number s =
     (let negative = (take 1 s = [45]); s0 = (if negative then drop 1 s else s); sign = (if negative then - 1 else 1) in
      case scan_int s0 of
        None \<Rightarrow> Inl Decode_error
      | Some (ds, s1) \<Rightarrow>
          (let (fs, s2) = scan_frac s1; (ex, s3) = scan_exp s2 in
           if fs = [] \<and> ex = None then
             (if 4300 < length ds then Inl Int_too_long else Inr (J_int (sign * int (dec_value ds)), s3))
           else
             Inr (J_float (float_of (of_int (sign * int (dec_value (ds @ fs)))
                    * power_int 10 ((case ex of None \<Rightarrow> 0 | Some e \<Rightarrow> e) - int (length fs)))), s3)))"

subsection \<open>Values\<close>

text \<open>The dictionary of a list of pairs: a later value of a key replaces an earlier one, in its place.\<close>

definition dict_of :: "('k \<times> 'v) list \<Rightarrow> ('k \<times> 'v) list" where
  "dict_of ps = foldl (\<lambda>d (k, v). AList.update k v d) [] ps"

definition json_words :: "(ptext \<times> json) list" where
  "json_words = [(asc ''null'', J_null), (asc ''true'', J_bool True), (asc ''false'', J_bool False),
     (asc ''NaN'', J_float NotANumber), (asc ''Infinity'', J_float (Infinite False)),
     (asc ''-Infinity'', J_float (Infinite True))]"

definition scan_word :: "ptext \<Rightarrow> (json \<times> ptext) option" where
  "scan_word s = map_option (\<lambda>(w, v). (v, drop (length w) s)) (find (\<lambda>(w, v). startswith s w) json_words)"

lemma skip_ws_length: "length (skip_ws s) \<le> length s"
  by (simp add: skip_ws_def length_dropWhile_le)

lemma scan_str_shorter: "scan_str s = Some (t, r) \<Longrightarrow> length r < length s"
proof (induction s arbitrary: t r rule: scan_str.induct)
  case (2 c cs)
  show ?case
    using 2(5) 2(1-4)
    by (force split: if_splits option.splits list.splits simp: apfst_def map_prod_def less_Suc_eq_le)
qed simp

text \<open>
  The three functions of the scanner. \<open>parse_items\<close> and \<open>parse_members\<close> start at the first character of an item; the
  items read before are in \<open>acc\<close>. The length tests after a value hold for every input (\<open>parse_shorter\<close>).
\<close>

function parse_value :: "ptext \<Rightarrow> json_error + json \<times> ptext"
  and parse_items :: "json list \<Rightarrow> ptext \<Rightarrow> json_error + json \<times> ptext"
  and parse_members :: "(ptext \<times> json) list \<Rightarrow> ptext \<Rightarrow> json_error + json \<times> ptext" where
  "parse_value s =
     (case s of
        [] \<Rightarrow> Inl Decode_error
      | c # cs \<Rightarrow>
          if c = 34 then
            (case scan_str cs of None \<Rightarrow> Inl Decode_error | Some (t, r) \<Rightarrow> Inr (J_str t, r))
          else if c = 123 then
            (if take 1 (skip_ws cs) = [125] then Inr (J_dict [], drop 1 (skip_ws cs)) else parse_members [] (skip_ws cs))
          else if c = 91 then
            (if take 1 (skip_ws cs) = [93] then Inr (J_list [], drop 1 (skip_ws cs)) else parse_items [] (skip_ws cs))
          else
            (case scan_word s of Some (v, r) \<Rightarrow> Inr (v, r) | None \<Rightarrow> scan_number s))"
| "parse_items acc s =
     (case parse_value s of
        Inl e \<Rightarrow> Inl e
      | Inr (v, r) \<Rightarrow>
          (case skip_ws r of
             [] \<Rightarrow> Inl Decode_error
           | c # r1 \<Rightarrow>
               if c = 93 then Inr (J_list (acc @ [v]), r1)
               else if c = 44 \<and> length (skip_ws r1) < length s then parse_items (acc @ [v]) (skip_ws r1)
               else Inl Decode_error))"
| "parse_members acc s =
     (case s of
        [] \<Rightarrow> Inl Decode_error
      | q # cs \<Rightarrow>
          if q \<noteq> 34 then Inl Decode_error
          else
            (case scan_str cs of
               None \<Rightarrow> Inl Decode_error
             | Some (k, r) \<Rightarrow>
                 if take 1 (skip_ws r) \<noteq> [58] then Inl Decode_error
                 else
                   (case parse_value (skip_ws (drop 1 (skip_ws r))) of
                      Inl e \<Rightarrow> Inl e
                    | Inr (v, r1) \<Rightarrow>
                        (case skip_ws r1 of
                           [] \<Rightarrow> Inl Decode_error
                         | c # r2 \<Rightarrow>
                             if c = 125 then Inr (J_dict (dict_of (acc @ [(k, v)])), r2)
                             else if c = 44 \<and> length (skip_ws r2) < length s
                             then parse_members (acc @ [(k, v)]) (skip_ws r2)
                             else Inl Decode_error))))"
  by pat_completeness auto
termination
proof (relation "measure (case_sum (\<lambda>s. 2 * length s) (case_sum (\<lambda>(acc, s). 2 * length s + 1) (\<lambda>(acc, s). 2 * length s + 1)))",
    goal_cases)
  case (2 s c cs)
  then show ?case by (simp add: skip_ws_length le_imp_less_Suc)
next
  case (3 s c cs)
  then show ?case by (simp add: skip_ws_length le_imp_less_Suc)
next
  case (6 acc s q cs kr k r)
  then have "length r < length cs" by (auto dest: scan_str_shorter)
  with 6 skip_ws_length[of r] skip_ws_length[of "drop 1 (skip_ws r)"] show ?case by simp
qed auto

declare parse_value.simps [simp del] parse_items.simps [simp del] parse_members.simps [simp del]

definition json_loads :: "ptext \<Rightarrow> json_error + json" where
  "json_loads s =
     (if take 1 s = [0xFEFF] then Inl Decode_error
      else
        (case parse_value (skip_ws s) of
           Inl e \<Rightarrow> Inl e
         | Inr (v, r) \<Rightarrow> if skip_ws r = [] then Inr v else Inl Decode_error))"

section \<open>Printing\<close>

definition hex_char :: "nat \<Rightarrow> nat" where
  "hex_char d = (if d < 10 then 48 + d else 87 + d)"

definition print_hex4 :: "nat \<Rightarrow> ptext" where
  "print_hex4 u = [hex_char (u div 4096 mod 16), hex_char (u div 256 mod 16), hex_char (u div 16 mod 16), hex_char (u mod 16)]"

definition print_u :: "nat \<Rightarrow> ptext" where
  "print_u u = [92, 117] @ print_hex4 u"

definition escape_char :: "nat \<Rightarrow> ptext" where
  "escape_char c =
     (if c = 34 then [92, 34] else if c = 92 then [92, 92] else if c = 10 then [92, 110] else if c = 13 then [92, 114]
      else if c = 9 then [92, 116] else if c = 12 then [92, 102] else if c = 8 then [92, 98]
      else if 32 \<le> c \<and> c \<le> 126 then [c]
      else if c < 0x10000 then print_u c
      else print_u (0xD800 + (c - 0x10000) div 1024 mod 1024) @ print_u (0xDC00 + (c - 0x10000) mod 1024))"

definition dump_str :: "ptext \<Rightarrow> ptext" where
  "dump_str t = 34 # concat (map escape_char t) @ [34]"

text \<open>\<open>float_repr\<close> is \<^verbatim>\<open>float.__repr__\<close>, with the names of the special values.\<close>

fun json_dumps :: "(pyfloat \<Rightarrow> string) \<Rightarrow> json \<Rightarrow> ptext" where
  "json_dumps float_repr J_null = asc ''null''"
| "json_dumps float_repr (J_bool b) = asc (if b then ''true'' else ''false'')"
| "json_dumps float_repr (J_int i) = asc (str_int i)"
| "json_dumps float_repr (J_float x) = asc (float_repr x)"
| "json_dumps float_repr (J_str t) = dump_str t"
| "json_dumps float_repr (J_list vs) = 91 # join_with (asc '', '') (map (json_dumps float_repr) vs) @ [93]"
| "json_dumps float_repr (J_dict ps) =
     123 # join_with (asc '', '') (map (\<lambda>(k, v). dump_str k @ asc '': '' @ json_dumps float_repr v) ps) @ [125]"

section \<open>Reading consumes its input\<close>

lemma scan_int_shorter: "scan_int s = Some (ds, r) \<Longrightarrow> length r < length s"
  by (auto simp: scan_int_def less_Suc_eq_le length_dropWhile_le split: list.splits if_splits)

lemma scan_frac_length: "scan_frac s = (fs, r) \<Longrightarrow> length r \<le> length s"
  by (auto simp: scan_frac_def le_SucI length_dropWhile_le split: list.splits if_splits)

lemma scan_exp_length: "scan_exp s = (ex, r) \<Longrightarrow> length r \<le> length s"
  by (auto simp: scan_exp_def Let_def split: list.splits if_splits)
    (meson length_dropWhile_le le_SucI order_trans diff_le_self)+

lemma scan_number_shorter:
  assumes "scan_number s = Inr (v, r)"
  shows "length r < length s"
proof -
  let ?s0 = "if take 1 s = [45] then drop 1 s else s"
  from assms obtain ds s1 fs s2 ex where parts: "scan_int ?s0 = Some (ds, s1)" "scan_frac s1 = (fs, s2)" "scan_exp s2 = (ex, r)"
    by (auto simp: scan_number_def Let_def split: option.splits prod.splits if_splits)
  have "length ?s0 \<le> length s" by simp
  with scan_int_shorter[OF parts(1)] scan_frac_length[OF parts(2)] scan_exp_length[OF parts(3)] show ?thesis by linarith
qed

lemma scan_word_shorter:
  assumes "scan_word s = Some (v, r)"
  shows "length r < length s"
proof -
  from assms obtain w where w: "(w, v) \<in> set json_words" "startswith s w" "r = drop (length w) s"
    by (auto simp: scan_word_def find_Some_iff) (metis nth_mem)
  then have "0 < length w" by (auto simp: json_words_def asc_def)
  moreover have "length w \<le> length s" using w(2) by (metis startswith_def length_take min.cobounded1)
  ultimately show ?thesis unfolding w(3) length_drop by linarith
qed

lemma parse_shorter:
  "parse_value s = Inr (v, r) \<Longrightarrow> length r < length s"
  "parse_items acc s = Inr (v, r) \<Longrightarrow> length r < length s"
  "parse_members mem s = Inr (v, r) \<Longrightarrow> length r < length s"
proof (induction s and acc s and mem s arbitrary: v r and v r and v r
    rule: parse_value_parse_items_parse_members.induct)
  case (1 s)
  have tail: "length (drop 1 (skip_ws cs)) < Suc (length cs)" for cs
    using skip_ws_length[of cs] by simp
  show ?case
    using 1(3) 1(1,2) skip_ws_length[of "tl s"] tail[of "tl s"]
    by (subst (asm) parse_value.simps)
      (fastforce split: list.splits if_splits option.splits dest: scan_str_shorter scan_word_shorter scan_number_shorter)
next
  case (2 acc s)
  then obtain v1 r1 c r2 where v1: "parse_value s = Inr (v1, r1)" "skip_ws r1 = c # r2"
    by (subst (asm) parse_items.simps) (auto split: sum.splits list.splits)
  then have "length r2 < length r1" using skip_ws_length[of r1] by simp
  moreover have "length r1 < length s" using 2(1) v1(1) by blast
  moreover have "r = r2 \<or> (length (skip_ws r2) < length s \<and> c = 44 \<and> parse_items (acc @ [v1]) (skip_ws r2) = Inr (v, r))"
    using 2(3) v1 by (subst (asm) parse_items.simps) (auto split: if_splits)
  ultimately show ?case using 2(2)[OF v1(1) refl v1(2)] by force
next
  case (3 acc s)
  from 3(3) obtain cs k r0 where k: "s = 34 # cs" "scan_str cs = Some (k, r0)" "take 1 (skip_ws r0) = [58]"
    by (subst (asm) parse_members.simps) (auto split: list.splits if_splits option.splits)
  let ?s2 = "skip_ws (drop 1 (skip_ws r0))"
  from 3(3) k obtain v1 r1 c r2 where v1: "parse_value ?s2 = Inr (v1, r1)" "skip_ws r1 = c # r2"
    by (subst (asm) parse_members.simps) (auto split: sum.splits list.splits)
  have "length ?s2 \<le> length r0" using skip_ws_length[of r0] skip_ws_length[of "drop 1 (skip_ws r0)"] by simp
  moreover have "length r0 < length cs" using scan_str_shorter k(2) by blast
  moreover have "length r2 < length r1" using skip_ws_length[of r1] v1(2) by simp
  moreover have "length r1 < length ?s2" using 3(1) k v1(1) by simp
  moreover have "r = r2 \<or> (length (skip_ws r2) < length s \<and> c = 44 \<and> parse_members (acc @ [(k, v1)]) (skip_ws r2) = Inr (v, r))"
    using 3(3) v1 k by (subst (asm) parse_members.simps) (auto split: if_splits)
  ultimately show ?case using 3(2)[OF k(1) _ k(2) refl _ v1(1) refl v1(2)] k by force
qed

section \<open>Reading inverts printing\<close>

subsection \<open>Strings\<close>

lemma hex_value_char: "d < 16 \<Longrightarrow> hex_value (hex_char d) = Some d"
  by (auto simp: hex_value_def hex_char_def is_digit_def)

lemma hex4_print:
  assumes "u < 65536"
  shows "hex4 (print_hex4 u @ rest) = Some u"
proof -
  have "u div 16 div 16 = u div 256" "u div 256 div 16 = u div 4096"
    by (simp_all only: div_mult2_eq[symmetric]) simp_all
  moreover have "u div 4096 mod 16 = u div 4096" using assms by (simp add: div_less_iff_less_mult)
  ultimately have "u div 4096 mod 16 * 4096 + u div 256 mod 16 * 256 + u div 16 mod 16 * 16 + u mod 16 = u"
    using div_mult_mod_eq[of u 16] div_mult_mod_eq[of "u div 16" 16] div_mult_mod_eq[of "u div 256" 16] by linarith
  moreover have "hex4 (print_hex4 u @ rest) =
      Some (u div 4096 mod 16 * 4096 + u div 256 mod 16 * 256 + u div 16 mod 16 * 16 + u mod 16)"
    by (simp add: hex4_def print_hex4_def hex_value_char)
  ultimately show ?thesis by (simp only:)
qed

lemma drop_print: "drop 4 (print_hex4 u @ rest) = rest"
  by (simp add: print_hex4_def)

lemma scan_print_u:
  assumes "u < 65536" "low_half u rest = None"
  shows "scan_str (print_u u @ rest) = map_option (apfst ((#) u)) (scan_str rest)"
  using hex4_print[OF assms(1), of rest] drop_print[of u rest] assms(2) by (simp add: print_u_def)

lemma scan_print_pair:
  assumes "0x10000 \<le> c" "c < 0x110000"
  shows "scan_str (print_u (0xD800 + (c - 0x10000) div 1024 mod 1024) @ print_u (0xDC00 + (c - 0x10000) mod 1024) @ rest) =
    map_option (apfst ((#) c)) (scan_str rest)"
proof -
  define q r where "q = (c - 0x10000) div 1024" and "r = (c - 0x10000) mod 1024"
  have q: "q < 1024" using assms unfolding q_def by (simp add: div_less_iff_less_mult)
  have r: "r < 1024" by (simp add: r_def)
  have c: "0x10000 + q * 1024 + r = c"
    using assms(1) div_mult_mod_eq[of "c - 0x10000" 1024] by (simp add: q_def r_def)
  let ?h = "0xD800 + q" and ?l = "0xDC00 + r"
  have "low_half ?h (print_u ?l @ rest) = Some ?l"
    using hex4_print[of ?l rest] q r by (simp add: low_half_def print_u_def)
  moreover have "drop 10 (print_hex4 ?h @ print_u ?l @ rest) = rest" by (simp add: print_u_def print_hex4_def)
  ultimately have "scan_str (print_u ?h @ print_u ?l @ rest) = map_option (apfst ((#) c)) (scan_str rest)"
    using hex4_print[of ?h "print_u ?l @ rest"] drop_print[of ?h "print_u ?l @ rest"] q c
    by (simp add: print_u_def[of ?h])
  then show ?thesis using q by (simp add: q_def r_def)
qed

lemma scan_escape_char:
  assumes "scalar c"
  shows "scan_str (escape_char c @ rest) = map_option (apfst ((#) c)) (scan_str rest)"
proof (cases "c < 0x10000")
  case True
  then have "low_half c rest = None" using assms by (auto simp: scalar_def low_half_def)
  with True scan_print_u[of c rest] show ?thesis by (simp add: escape_char_def simple_escape_def)
next
  case False
  with assms have "0x10000 \<le> c" "c < 0x110000" by (auto simp: scalar_def)
  with scan_print_pair[OF this, of rest] show ?thesis by (simp add: escape_char_def)
qed

lemma scan_dump_str: "list_all scalar t \<Longrightarrow> scan_str (concat (map escape_char t) @ 34 # rest) = Some (t, rest)"
  by (induction t) (simp_all add: scan_escape_char)

subsection \<open>Integers\<close>

lemma dec_value_snoc: "dec_value (ds @ [d]) = 10 * dec_value ds + (d - 48)"
  by (simp add: dec_value_def)

lemma of_char_digit: "of_char (digit n) = (48 + n mod 10 :: nat)"
proof -
  have "\<forall>m<10. of_char (digits ! m) = (48 + m :: nat)" by (simp add: digits_def All_less_Suc numeral_eq_Suc)
  then show ?thesis by (simp add: digit_def)
qed

lemma dec_value_str_nat: "dec_value (asc (str_nat n)) = n"
proof (induction n rule: str_nat.induct)
  case (1 n)
  then show ?case
    by (subst str_nat.simps) (auto simp: asc_def of_char_digit dec_value_snoc dec_value_def)
qed

lemma digits_str_nat: "list_all is_digit (asc (str_nat n))"
proof (induction n rule: str_nat.induct)
  case (1 n)
  then show ?case by (subst str_nat.simps) (auto simp: asc_def of_char_digit is_digit_def[of "48 + n mod 10"] is_digit_def[of "48 + n"])
qed

lemma str_nat_zero: "hd (asc (str_nat n)) = 48 \<Longrightarrow> asc (str_nat n) = [48]"
proof (induction n rule: str_nat.induct)
  case (1 n)
  show ?case
  proof (cases "n < 10")
    case True
    then show ?thesis using 1(2) by (subst str_nat.simps) (subst (asm) str_nat.simps, simp add: asc_def of_char_digit)
  next
    case False
    then have "hd (asc (str_nat (n div 10))) = 48"
      using 1(2) by (subst (asm) str_nat.simps) (simp add: asc_def hd_append)
    with 1(1)[OF False] have "asc (str_nat (n div 10)) = [48]" by simp
    with dec_value_str_nat[of "n div 10"] have "n div 10 = 0" by (simp add: dec_value_def)
    with False show ?thesis by simp
  qed
qed

definition delimited :: "ptext \<Rightarrow> bool" where
  "delimited rest = (rest = [] \<or> hd rest \<in> {44, 93, 125, 32, 9, 10, 13})"

lemma scan_int_print:
  assumes "delimited rest"
  shows "scan_int (asc (str_nat n) @ rest) = Some (asc (str_nat n), rest)"
proof -
  obtain c cs where c: "asc (str_nat n) = c # cs" by (cases "asc (str_nat n)") (auto simp: asc_def)
  have "is_digit c" "\<forall>x\<in>set cs. is_digit x" using digits_str_nat[of n] unfolding c by (auto simp: list_all_iff)
  moreover have "c = 48 \<Longrightarrow> cs = []" using str_nat_zero[of n] c by simp
  moreover have "takeWhile is_digit rest = []" "dropWhile is_digit rest = rest"
    using assms by (cases rest; auto simp: delimited_def is_digit_def)+
  ultimately show ?thesis by (auto simp: c scan_int_def takeWhile_append dropWhile_append)
qed

lemma scan_number_print:
  assumes "delimited rest" "length (str_nat (nat \<bar>i\<bar>)) \<le> 4300"
  shows "scan_number (asc (str_int i) @ rest) = Inr (J_int i, rest)"
proof -
  have tail: "scan_frac rest = ([], rest)" "scan_exp rest = (None, rest)"
    using assms(1) by (auto simp: scan_frac_def scan_exp_def delimited_def split: list.splits)
  have first: "take 1 (asc (str_nat n) @ rest) \<noteq> [45]" for n
    using digits_str_nat[of n] by (cases "asc (str_nat n)") (auto simp: is_digit_def asc_def)
  have minus: "of_char CHR ''-'' = (45 :: nat)" by simp
  show ?thesis
  proof (cases "i < 0")
    case True
    then have "asc (str_int i) = 45 # asc (str_nat (nat (- i)))" by (simp add: str_int_def asc_def)
    with True assms(2) show ?thesis
      by (simp add: scan_number_def scan_int_print[OF assms(1)] tail dec_value_str_nat) (simp add: asc_def)
  next
    case False
    then have "asc (str_int i) = asc (str_nat (nat i))" by (simp add: str_int_def)
    with False assms(2) first[of "nat i"] show ?thesis
      by (simp add: scan_number_def scan_int_print[OF assms(1)] tail dec_value_str_nat) (simp add: asc_def)
  qed
qed

subsection \<open>Values\<close>

text \<open>Values that print and read back as themselves: no floats, no lone surrogates, no repeated keys, no huge integers.\<close>

fun json_plain :: "json \<Rightarrow> bool" where
  "json_plain (J_int i) = (length (str_nat (nat \<bar>i\<bar>)) \<le> 4300)"
| "json_plain (J_float x) = False"
| "json_plain (J_str t) = list_all scalar t"
| "json_plain (J_list vs) = list_all json_plain vs"
| "json_plain (J_dict ps) =
     (distinct (map fst ps) \<and> list_all (\<lambda>(k, v). list_all scalar k \<and> json_plain v) ps)"
| "json_plain v = True"

lemma dict_of_distinct: "distinct (map fst ps) \<Longrightarrow> dict_of ps = ps"
proof (induction ps rule: rev_induct)
  case (snoc p ps)
  have "fst p \<notin> fst ` set ps \<Longrightarrow> AList.update (fst p) (snd p) ps = ps @ [p]"
    by (induction ps) auto
  with snoc show ?case by (simp add: dict_of_def case_prod_beta)
qed (simp add: dict_of_def)

definition starts_value :: "ptext \<Rightarrow> bool" where
  "starts_value s = (s \<noteq> [] \<and> \<not> json_ws (hd s) \<and> hd s \<noteq> 93 \<and> hd s \<noteq> 125 \<and> hd s \<noteq> 0xFEFF)"

lemma join_with_Cons: "join_with sep (w # ws) = w @ (if ws = [] then [] else sep @ join_with sep ws)"
  by (cases ws) simp_all

lemma starts_dump_str: "starts_value (dump_str t @ s)"
  by (simp add: starts_value_def dump_str_def json_ws_def)

lemma str_int_chars:
  obtains c cs where "asc (str_int i) = c # cs" "is_digit c \<or> (c = 45 \<and> is_digit (hd cs))"
proof -
  have "asc (str_nat n) \<noteq> []" "is_digit (hd (asc (str_nat n)))" for n
    using digits_str_nat[of n] by (cases "asc (str_nat n)"; auto simp: asc_def)+
  then have nat: "\<exists>c cs. asc (str_nat n) = c # cs \<and> is_digit c" for n by (metis list.collapse)
  show thesis
  proof (cases "i < 0")
    case True
    with nat[of "nat (- i)"] that[of 45] show thesis by (auto simp: str_int_def asc_def)
  next
    case False
    with nat[of "nat i"] that show thesis by (auto simp: str_int_def)
  qed
qed

lemma starts_str_int: "starts_value (asc (str_int i) @ s)"
  by (rule str_int_chars[of i]) (auto simp: starts_value_def is_digit_def json_ws_def)

lemma starts_dumps: "json_plain v \<Longrightarrow> starts_value (json_dumps fr v @ s)"
  by (cases v) (auto simp: starts_dump_str starts_str_int, auto simp: starts_value_def asc_def json_ws_def)

lemma skip_starts: "starts_value s \<Longrightarrow> skip_ws s = s"
  by (cases s) (auto simp: starts_value_def skip_ws_def)

lemma starts_take: "starts_value s \<Longrightarrow> take 1 s \<noteq> [93]" "starts_value s \<Longrightarrow> take 1 s \<noteq> [125]"
  "starts_value s \<Longrightarrow> take 1 s \<noteq> [0xFEFF]"
  by (cases s; simp add: starts_value_def)+

lemma skip_sep: "starts_value s \<Longrightarrow> skip_ws (32 # s) = s"
  using skip_starts[of s] by (simp add: skip_ws_def json_ws_def)

lemma startswith_Cons: "startswith (c # cs) (d # ds) \<longleftrightarrow> c = d \<and> startswith cs ds" "\<not> startswith [] (d # ds)"
  by (simp_all add: startswith_def)

lemma scan_word_None:
  assumes "c \<notin> {110, 116, 102, 78, 73}" "c \<noteq> 45 \<or> hd cs \<noteq> 73"
  shows "scan_word (c # cs) = None"
  using assms by (cases cs) (auto simp: scan_word_def json_words_def asc_def startswith_Cons)

lemma parse_int:
  assumes "delimited rest" "length (str_nat (nat \<bar>i\<bar>)) \<le> 4300"
  shows "parse_value (asc (str_int i) @ rest) = Inr (J_int i, rest)"
proof -
  obtain c cs where c: "asc (str_int i) = c # cs" "is_digit c \<or> (c = 45 \<and> is_digit (hd cs))"
    by (rule str_int_chars)
  have "cs \<noteq> []" if "c = 45"
    using c that digits_str_nat[of "nat \<bar>i\<bar>"] by (auto simp: str_int_def asc_def is_digit_def split: if_splits)
  with c(2) have "scan_word (c # cs @ rest) = None"
    by (auto simp: is_digit_def hd_append intro: scan_word_None)
  moreover have "c \<noteq> 34" "c \<noteq> 123" "c \<noteq> 91" using c(2) by (auto simp: is_digit_def)
  ultimately show ?thesis
    using scan_number_print[OF assms] unfolding c(1) by (simp add: parse_value.simps)
qed

lemma parse_str:
  "list_all scalar t \<Longrightarrow> parse_value (dump_str t @ rest) = Inr (J_str t, rest)"
  by (simp add: parse_value.simps dump_str_def scan_dump_str)

lemma parse_items_print:
  assumes "\<And>v rest. v \<in> set vs \<Longrightarrow> delimited rest \<Longrightarrow> parse_value (json_dumps fr v @ rest) = Inr (v, rest)"
    and "list_all json_plain vs" "vs \<noteq> []"
  shows "parse_items acc (join_with (asc '', '') (map (json_dumps fr) vs) @ 93 # rest) = Inr (J_list (acc @ vs), rest)"
  using assms
proof (induction vs arbitrary: acc)
  case (Cons v vs)
  show ?case
  proof (cases vs)
    case Nil
    have "parse_value (json_dumps fr v @ 93 # rest) = Inr (v, 93 # rest)"
      using Cons(2) by (simp add: delimited_def)
    with Nil show ?thesis by (subst parse_items.simps) (simp add: skip_ws_def json_ws_def)
  next
    case (Cons w ws)
    let ?more = "join_with (asc '', '') (map (json_dumps fr) vs) @ 93 # rest"
    have "starts_value ?more"
      using Cons.prems(2) by (cases ws) (simp_all add: Cons starts_dumps)
    then have skip: "skip_ws (32 # ?more) = ?more" by (rule skip_sep)
    have "parse_value (json_dumps fr v @ 44 # 32 # ?more) = Inr (v, 44 # 32 # ?more)"
      using Cons.prems(1) by (simp add: delimited_def)
    then have "parse_items acc (json_dumps fr v @ 44 # 32 # ?more) = parse_items (acc @ [v]) ?more"
      by (subst parse_items.simps) (simp add: skip_ws_def[of "44 # _"] json_ws_def skip)
    moreover have "parse_items (acc @ [v]) ?more = Inr (J_list (acc @ v # vs), rest)"
      using Cons.IH[of "acc @ [v]"] Cons.prems Cons by simp
    moreover have "join_with (asc '', '') (map (json_dumps fr) (v # vs)) @ 93 # rest = json_dumps fr v @ 44 # 32 # ?more"
      by (simp add: Cons) (simp add: asc_def)
    ultimately show ?thesis by simp
  qed
qed simp

lemma parse_members_print:
  assumes "\<And>p rest. p \<in> set ps \<Longrightarrow> delimited rest \<Longrightarrow> parse_value (json_dumps fr (snd p) @ rest) = Inr (snd p, rest)"
    and "list_all (\<lambda>(k, v). list_all scalar k \<and> json_plain v) ps" "ps \<noteq> []"
  shows "parse_members acc (join_with (asc '', '') (map (\<lambda>(k, v). dump_str k @ asc '': '' @ json_dumps fr v) ps) @ 125 # rest)
    = Inr (J_dict (dict_of (acc @ ps)), rest)"
  using assms
proof (induction ps arbitrary: acc)
  case (Cons p ps)
  obtain k v where p: "p = (k, v)" by force
  let ?pr = "\<lambda>(k, v). dump_str k @ asc '': '' @ json_dumps fr v"
  have k: "list_all scalar k" and v: "json_plain v" using Cons.prems(2) p by auto
  have head: "parse_members acc (?pr p @ s) =
      (case parse_value (json_dumps fr v @ s) of
         Inl e \<Rightarrow> Inl e
       | Inr (v, r1) \<Rightarrow>
           (case skip_ws r1 of
              [] \<Rightarrow> Inl Decode_error
            | c # r2 \<Rightarrow>
                if c = 125 then Inr (J_dict (dict_of (acc @ [(k, v)])), r2)
                else if c = 44 \<and> length (skip_ws r2) < length (?pr p @ s) then parse_members (acc @ [(k, v)]) (skip_ws r2)
                else Inl Decode_error))" for s
  proof -
    have colon: "asc '': '' @ json_dumps fr v @ s = 58 # 32 # json_dumps fr v @ s" by (simp add: asc_def)
    have printed: "?pr p @ s = 34 # concat (map escape_char k) @ 34 # 58 # 32 # json_dumps fr v @ s"
      using colon by (simp add: p dump_str_def)
    have "skip_ws (58 # 32 # json_dumps fr v @ s) = 58 # 32 # json_dumps fr v @ s" by (simp add: skip_ws_def json_ws_def)
    moreover have "skip_ws (32 # json_dumps fr v @ s) = json_dumps fr v @ s" by (rule skip_sep[OF starts_dumps[OF v]])
    ultimately show ?thesis unfolding printed by (subst parse_members.simps) (simp add: scan_dump_str[OF k])
  qed
  have val: "parse_value (json_dumps fr v @ s) = Inr (v, s)" if "delimited s" for s
    using Cons.prems(1)[of p s] that p by simp
  show ?case
  proof (cases ps)
    case Nil
    with val[of "125 # rest"] head[of "125 # rest"] show ?thesis
      by (simp add: p delimited_def skip_ws_def json_ws_def)
  next
    case (Cons q qs)
    let ?more = "join_with (asc '', '') (map ?pr ps) @ 125 # rest"
    have "starts_value ?more" by (cases qs) (simp_all add: Cons case_prod_beta starts_dump_str)
    then have skip: "skip_ws (32 # ?more) = ?more" by (rule skip_sep)
    have "parse_members acc (?pr p @ 44 # 32 # ?more) = parse_members (acc @ [(k, v)]) ?more"
      unfolding head using val[of "44 # 32 # ?more"]
      by (simp add: delimited_def skip_ws_def[of "44 # _"] json_ws_def skip)
    moreover have "parse_members (acc @ [(k, v)]) ?more = Inr (J_dict (dict_of (acc @ p # ps)), rest)"
      using Cons.IH[OF Cons.prems(1)] Cons.prems(2) Cons p by simp
    moreover have "join_with (asc '', '') (map ?pr (p # ps)) @ 125 # rest = ?pr p @ 44 # 32 # ?more"
      by (simp add: Cons) (simp add: asc_def)
    ultimately show ?thesis by simp
  qed
qed simp

lemma parse_print:
  "json_plain v \<Longrightarrow> delimited rest \<Longrightarrow> parse_value (json_dumps fr v @ rest) = Inr (v, rest)"
proof (induction fr v arbitrary: rest rule: json_dumps.induct)
  case (6 fr vs)
  show ?case
  proof (cases "vs = []")
    case True
    then show ?thesis by (simp add: parse_value.simps skip_ws_def json_ws_def)
  next
    case False
    let ?t = "join_with (asc '', '') (map (json_dumps fr) vs) @ 93 # rest"
    have ok: "list_all json_plain vs" using 6(2) by simp
    with False have "starts_value ?t" by (auto simp: neq_Nil_conv join_with_Cons starts_dumps)
    then have "skip_ws ?t = ?t" "take 1 ?t \<noteq> [93]" by (simp_all only: skip_starts starts_take not_False_eq_True)
    moreover have "parse_items [] ?t = Inr (J_list vs, rest)"
      using parse_items_print[of vs fr "[]" rest] 6(1) ok False by (simp add: list_all_iff)
    ultimately show ?thesis by (simp add: parse_value.simps)
  qed
next
  case (7 fr ps)
  show ?case
  proof (cases "ps = []")
    case True
    then show ?thesis by (simp add: parse_value.simps skip_ws_def json_ws_def)
  next
    case False
    let ?t = "join_with (asc '', '') (map (\<lambda>(k, v). dump_str k @ asc '': '' @ json_dumps fr v) ps) @ 125 # rest"
    from False have "starts_value ?t" by (auto simp: neq_Nil_conv join_with_Cons starts_dump_str)
    then have "skip_ws ?t = ?t" "take 1 ?t \<noteq> [125]" by (simp_all only: skip_starts starts_take not_False_eq_True)
    moreover have "parse_members [] ?t = Inr (J_dict ps, rest)"
      using parse_members_print[of ps fr "[]" rest] 7(1)[OF _ prod.collapse] 7(2) False
      by (auto simp: list_all_iff dict_of_distinct case_prod_beta)
    ultimately show ?thesis by (simp add: parse_value.simps)
  qed
qed (auto simp: parse_int parse_str, auto simp: parse_value.simps scan_word_def json_words_def startswith_def asc_def)

theorem json_loads_dumps: "json_plain v \<Longrightarrow> json_loads (json_dumps fr v) = Inr v"
proof -
  assume v: "json_plain v"
  then have "starts_value (json_dumps fr v)" using starts_dumps[of v fr "[]"] by simp
  then show ?thesis
    using starts_take(3) parse_print[OF v, of "[]" fr] by (simp add: json_loads_def skip_starts delimited_def) (simp add: skip_ws_def)
qed

end
