(* ===== verification/Config.thy ===== *)
theory Config
  imports Json Storage ModuleSystem
begin

text \<open>
  Configuration: \<^verbatim>\<open>app/platform/config/coerce.py\<close>, \<^verbatim>\<open>crypto.py\<close>, \<^verbatim>\<open>apply.py\<close>, the typed getters and the reload of
  \<^verbatim>\<open>reader.py\<close>, and \<^verbatim>\<open>app/platform/module/config_loader.py\<close>.

  A Python value of a setting is a \<^typ>\<open>json\<close>; an enumeration of strings is its text. The number parsers of the language
  accept every decimal digit of the Unicode database, whose values above ASCII are the argument \<open>nd\<close>; \<open>other_repr\<close> is
  \<^verbatim>\<open>str\<close> of floats, lists and dictionaries. Fernet and pydantic's table of fields are arguments.
\<close>

section \<open>Numbers from text\<close>

text \<open>The transformation both parsers start with: decimal digits and white space to ASCII, anything else to a question mark.\<close>

definition to_ascii :: "(nat \<Rightarrow> nat option) \<Rightarrow> nat \<Rightarrow> nat" where
  "to_ascii nd c =
     (if c < 127 then c else if uspace c then 32 else case nd c of Some d \<Rightarrow> 48 + d | None \<Rightarrow> 63)"

definition number_text :: "(nat \<Rightarrow> nat option) \<Rightarrow> ptext \<Rightarrow> ptext" where
  "number_text nd t = strip_by (\<lambda>c. (9 \<le> c \<and> c \<le> 13) \<or> c = 32) (map (to_ascii nd) t)"

definition split_sign :: "ptext \<Rightarrow> bool \<times> ptext" where
  "split_sign s =
     (case s of
        [] \<Rightarrow> (False, [])
      | c # cs \<Rightarrow> if c = 45 then (True, cs) else if c = 43 then (False, cs) else (False, s))"

text \<open>Digits with single underscores between them.\<close>

fun int_digits :: "ptext \<Rightarrow> ptext option" where
  "int_digits [] = None"
| "int_digits [c] = (if is_digit c then Some [c] else None)"
| "int_digits (c # d # cs) =
     (if \<not> is_digit c then None
      else if d = 95 then map_option ((#) c) (int_digits cs)
      else map_option ((#) c) (int_digits (d # cs)))"

definition invalid_int :: exn where
  "invalid_int = ValueError (asc ''invalid literal for int() with base 10'')"

definition int_of_text :: "(nat \<Rightarrow> nat option) \<Rightarrow> ptext \<Rightarrow> int res" where
  "int_of_text nd t =
     (case split_sign (number_text nd t) of (negative, body) \<Rightarrow>
        (case int_digits body of
           None \<Rightarrow> Inl invalid_int
         | Some ds \<Rightarrow>
             if 4300 < length ds then Inl (ValueError (asc ''Exceeds the limit (4300 digits) for integer string conversion''))
             else Inr ((if negative then - 1 else 1) * int (dec_value ds))))"

text \<open>Underscores may only stand between digits.\<close>

fun drop_underscores :: "bool \<Rightarrow> ptext \<Rightarrow> ptext option" where
  "drop_underscores after_digit [] = Some []"
| "drop_underscores after_digit (c # cs) =
     (if c = 95 then
        (if after_digit \<and> cs \<noteq> [] \<and> is_digit (hd cs) then drop_underscores False cs else None)
      else map_option ((#) c) (drop_underscores (is_digit c) cs))"

definition ascii_lower :: "ptext \<Rightarrow> ptext" where
  "ascii_lower t = map (\<lambda>c. if 65 \<le> c \<and> c \<le> 90 then c + 32 else c) t"

definition float_body :: "bool \<Rightarrow> ptext \<Rightarrow> pyfloat option" where
  "float_body negative s =
     (if ascii_lower s \<in> {asc ''inf'', asc ''infinity''} then Some (Infinite negative)
      else if ascii_lower s = asc ''nan'' then Some NotANumber
      else
        (let ds = takeWhile is_digit s; r = dropWhile is_digit s;
             fs = (if take 1 r = [46] then takeWhile is_digit (drop 1 r) else []);
             r1 = (if take 1 r = [46] then dropWhile is_digit (drop 1 r) else r)
         in case scan_exp r1 of (ex, r2) \<Rightarrow>
              if ds @ fs = [] \<or> r2 \<noteq> [] then None
              else Some (float_of (of_int ((if negative then - 1 else 1) * int (dec_value (ds @ fs)))
                     * power_int 10 ((case ex of None \<Rightarrow> 0 | Some e \<Rightarrow> e) - int (length fs))))))"

definition invalid_float :: exn where
  "invalid_float = ValueError (asc ''could not convert string to float'')"

definition float_of_text :: "(nat \<Rightarrow> nat option) \<Rightarrow> ptext \<Rightarrow> pyfloat res" where
  "float_of_text nd t =
     (case drop_underscores False (number_text nd t) of
        None \<Rightarrow> Inl invalid_float
      | Some s \<Rightarrow>
          (case split_sign s of (negative, body) \<Rightarrow>
             (case float_body negative body of None \<Rightarrow> Inl invalid_float | Some x \<Rightarrow> Inr x)))"

text \<open>\<^verbatim>\<open>int(v)\<close> and \<^verbatim>\<open>float(v)\<close> on a value.\<close>

definition wrong_type :: exn where
  "wrong_type = TypeError (asc ''argument must be a string or a real number'')"

definition py_int :: "(nat \<Rightarrow> nat option) \<Rightarrow> json \<Rightarrow> int res" where
  "py_int nd v =
     (case v of
        J_int i \<Rightarrow> Inr i
      | J_bool b \<Rightarrow> Inr (if b then 1 else 0)
      | J_float (Finite x) \<Rightarrow> Inr (py_trunc x)
      | J_float (Infinite _) \<Rightarrow> Inl (OverflowError (asc ''cannot convert float infinity to integer''))
      | J_float NotANumber \<Rightarrow> Inl (ValueError (asc ''cannot convert float NaN to integer''))
      | J_str t \<Rightarrow> int_of_text nd t
      | _ \<Rightarrow> Inl wrong_type)"

definition float_of_int :: "int \<Rightarrow> pyfloat res" where
  "float_of_int i =
     (case float_of (of_int i) of
        Infinite _ \<Rightarrow> Inl (OverflowError (asc ''int too large to convert to float''))
      | x \<Rightarrow> Inr x)"

definition py_float :: "(nat \<Rightarrow> nat option) \<Rightarrow> json \<Rightarrow> pyfloat res" where
  "py_float nd v =
     (case v of
        J_int i \<Rightarrow> float_of_int i
      | J_bool b \<Rightarrow> Inr (Finite (if b then 1 else 0))
      | J_float x \<Rightarrow> Inr x
      | J_str t \<Rightarrow> float_of_text nd t
      | _ \<Rightarrow> Inl wrong_type)"

definition py_str :: "(json \<Rightarrow> ptext) \<Rightarrow> json \<Rightarrow> ptext" where
  "py_str other_repr v =
     (case v of
        J_null \<Rightarrow> asc ''None''
      | J_bool b \<Rightarrow> asc (if b then ''True'' else ''False'')
      | J_int i \<Rightarrow> asc (str_int i)
      | J_str t \<Rightarrow> t
      | _ \<Rightarrow> other_repr v)"

section \<open>coerce.py\<close>

text \<open>
  The annotations the function tells apart. \<open>A_union\<close> is a union, \<open>A_none\<close> the type of \<^verbatim>\<open>None\<close>; a parametrised list or
  dictionary is \<open>A_list\<close> or \<open>A_dict\<close>; any other annotation is called on the value.
\<close>

datatype annotation =
    A_str | A_bool | A_int | A_float | A_list | A_dict | A_none
  | A_union "annotation list"
  | A_other "json \<Rightarrow> json res"

text \<open>What the language provides: digits, text of other values.\<close>

record py_env =
  pe_nd :: "nat \<Rightarrow> nat option"
  pe_other_repr :: "json \<Rightarrow> ptext"

definition coerce_bool :: "py_env \<Rightarrow> json \<Rightarrow> json" where
  "coerce_bool pe v =
     (case v of
        J_bool b \<Rightarrow> v
      | _ \<Rightarrow> J_bool (ascii_lower (ustrip (py_str (pe_other_repr pe) v))
                 \<in> asc ` {''true'', ''1'', ''yes'', ''y'', ''on''}))"

text \<open>\<^verbatim>\<open>except (TypeError, ValueError): return None\<close>\<close>

definition or_none :: "json res \<Rightarrow> json res" where
  "or_none r =
     (case r of
        Inl (TypeError _) \<Rightarrow> Inr J_null
      | Inl (ValueError _) \<Rightarrow> Inr J_null
      | _ \<Rightarrow> r)"

definition coerce_int :: "py_env \<Rightarrow> json \<Rightarrow> json res" where
  "coerce_int pe v = or_none (map_sum id J_int (py_int (pe_nd pe) v))"

definition coerce_float :: "py_env \<Rightarrow> json \<Rightarrow> json res" where
  "coerce_float pe v = or_none (map_sum id J_float (py_float (pe_nd pe) v))"

fun is_list :: "json \<Rightarrow> bool" where
  "is_list (J_list _) = True"
| "is_list _ = False"

fun is_dict :: "json \<Rightarrow> bool" where
  "is_dict (J_dict _) = True"
| "is_dict _ = False"

text \<open>A \<^verbatim>\<open>JSONDecodeError\<close> gives \<^verbatim>\<open>None\<close>; the \<^verbatim>\<open>ValueError\<close> of an over-long integer goes through.\<close>

definition coerce_json :: "py_env \<Rightarrow> (json \<Rightarrow> bool) \<Rightarrow> json \<Rightarrow> json res" where
  "coerce_json pe expected v =
     (if expected v then Inr v
      else
        (case json_loads (py_str (pe_other_repr pe) v) of
           Inl Decode_error \<Rightarrow> Inr J_null
         | Inl Int_too_long \<Rightarrow> Inl (ValueError (asc ''Exceeds the limit (4300 digits) for integer string conversion''))
         | Inr parsed \<Rightarrow> Inr (if expected parsed then parsed else J_null)))"

fun is_none_type :: "annotation \<Rightarrow> bool" where
  "is_none_type A_none = True"
| "is_none_type _ = False"

text \<open>A union with one member besides \<^verbatim>\<open>None\<close> is that member; calling any other union raises, which keeps the value.\<close>

function coerce_config_value :: "py_env \<Rightarrow> json \<Rightarrow> annotation \<Rightarrow> json res" where
  "coerce_config_value pe v ann =
     (if v = J_null then Inr J_null
      else
        (case ann of
           A_union args \<Rightarrow>
             (case filter (\<lambda>a. \<not> is_none_type a) args of [a] \<Rightarrow> coerce_config_value pe v a | _ \<Rightarrow> Inr v)
         | A_str \<Rightarrow> Inr (J_str (py_str (pe_other_repr pe) v))
         | A_bool \<Rightarrow> Inr (coerce_bool pe v)
         | A_int \<Rightarrow> coerce_int pe v
         | A_float \<Rightarrow> coerce_float pe v
         | A_list \<Rightarrow> coerce_json pe is_list v
         | A_dict \<Rightarrow> coerce_json pe is_dict v
         | A_none \<Rightarrow> Inr v
         | A_other f \<Rightarrow> (case f v of Inl _ \<Rightarrow> Inr v | Inr w \<Rightarrow> Inr w)))"
  by pat_completeness auto
termination
proof (relation "measure (\<lambda>(pe, v, ann). size ann)", goal_cases)
  case (2 pe v ann args a rest)
  then have "a \<in> set (filter (\<lambda>a. \<not> is_none_type a) args)" by simp
  then have "a \<in> set args" by simp
  with 2 show ?case by (simp add: less_Suc_eq_le size_list_estimation')
qed simp

declare coerce_config_value.simps [simp del]

section \<open>crypto.py\<close>

definition sensitive_keys :: "string set" where
  "sensitive_keys = {''auth.default_password'', ''audit_alert.webhook_secret'', ''mail.password''}"

definition storage_sensitive_columns :: "string set" where
  "storage_sensitive_columns = {''access_key'', ''secret_key''}"

text \<open>A Fernet object: encryption of bytes to a token, and decryption, which raises on anything that is not a token.\<close>

record fernet =
  fe_encrypt :: "bytes \<Rightarrow> ptext"
  fe_decrypt :: "bytes \<Rightarrow> bytes res"

text \<open>\<open>new_fernet\<close> is the constructor, which raises on a malformed key.\<close>

definition get_fernet :: "(bytes \<Rightarrow> fernet res) \<Rightarrow> string option \<Rightarrow> fernet option res" where
  "get_fernet new_fernet config_crypto_key =
     (let key = py_strip (str_or config_crypto_key []) in
      if key = [] then Inr None
      else rbind (utf8_encode (asc key)) (\<lambda>k. rbind (new_fernet k) (\<lambda>f. Inr (Some f))))"

definition is_sensitive :: "string \<Rightarrow> bool" where
  "is_sensitive config_key = (config_key \<in> sensitive_keys)"

definition encrypt_config_value ::
  "(bytes \<Rightarrow> fernet res) \<Rightarrow> string option \<Rightarrow> string \<Rightarrow> ptext option \<Rightarrow> ptext option res" where
  "encrypt_config_value new_fernet crypto_key config_key val =
     (case val of
        None \<Rightarrow> Inr None
      | Some v \<Rightarrow>
          if v = [] \<or> \<not> is_sensitive config_key then Inr (Some v)
          else rbind (get_fernet new_fernet crypto_key) (\<lambda>fernet.
            case fernet of
              None \<Rightarrow> Inl (RuntimeError (asc ''config_crypto_key is not configured''))
            | Some f \<Rightarrow> rbind (utf8_encode v) (\<lambda>b. Inr (Some (fe_encrypt f b)))))"

text \<open>Whatever fails inside the \<^verbatim>\<open>try\<close> leaves the value as it is; the final \<^verbatim>\<open>decode()\<close> is strict.\<close>

definition decrypt_config_value ::
  "(bytes \<Rightarrow> fernet res) \<Rightarrow> string option \<Rightarrow> string \<Rightarrow> ptext option \<Rightarrow> ptext option res" where
  "decrypt_config_value new_fernet crypto_key config_key val =
     (case val of
        None \<Rightarrow> Inr None
      | Some v \<Rightarrow>
          if v = [] then Inr (Some v)
          else rbind (get_fernet new_fernet crypto_key) (\<lambda>fernet.
            case fernet of
              None \<Rightarrow> Inr (Some v)
            | Some f \<Rightarrow>
                (case rbind (rbind (utf8_encode v) (fe_decrypt f)) utf8_decode_strict of
                   Inr t \<Rightarrow> Inr (Some t)
                 | Inl _ \<Rightarrow> Inr (Some v))))"

definition is_storage_sensitive :: "string \<Rightarrow> bool" where
  "is_storage_sensitive column_name = (column_name \<in> storage_sensitive_columns)"

definition encrypt_storage_value ::
  "(bytes \<Rightarrow> fernet res) \<Rightarrow> string option \<Rightarrow> string \<Rightarrow> ptext option \<Rightarrow> ptext option res" where
  "encrypt_storage_value new_fernet crypto_key column_name val =
     (case val of
        None \<Rightarrow> Inr None
      | Some v \<Rightarrow>
          if v = [] \<or> \<not> is_storage_sensitive column_name then Inr (Some v)
          else encrypt_config_value new_fernet crypto_key column_name (Some v))"

definition decrypt_storage_value ::
  "(bytes \<Rightarrow> fernet res) \<Rightarrow> string option \<Rightarrow> string \<Rightarrow> ptext option \<Rightarrow> ptext option res" where
  "decrypt_storage_value new_fernet crypto_key column_name val =
     (case val of
        None \<Rightarrow> Inr None
      | Some v \<Rightarrow> if v = [] then Inr (Some v) else decrypt_config_value new_fernet crypto_key column_name (Some v))"

section \<open>reader.py\<close>

definition reader_get :: "config_reader \<Rightarrow> string \<Rightarrow> ptext option \<Rightarrow> ptext option" where
  "reader_get r key default_value = (case map_of (rd_cache r) key of None \<Rightarrow> default_value | Some v \<Rightarrow> Some v)"

definition reader_get_int :: "py_env \<Rightarrow> config_reader \<Rightarrow> string \<Rightarrow> int \<Rightarrow> int" where
  "reader_get_int pe r key default_value =
     (case map_of (rd_cache r) key of
        None \<Rightarrow> default_value
      | Some val \<Rightarrow> (case int_of_text (pe_nd pe) val of Inl _ \<Rightarrow> default_value | Inr i \<Rightarrow> i))"

definition reader_get_bool :: "config_reader \<Rightarrow> string \<Rightarrow> bool \<Rightarrow> bool" where
  "reader_get_bool r key default_value =
     (case map_of (rd_cache r) key of
        None \<Rightarrow> default_value
      | Some val \<Rightarrow> ascii_lower val \<in> asc ` {''true'', ''1'', ''yes''})"

definition reader_get_list :: "config_reader \<Rightarrow> string \<Rightarrow> json list option \<Rightarrow> json list res" where
  "reader_get_list r key default_value =
     (let fallback = (case default_value of None \<Rightarrow> [] | Some xs \<Rightarrow> xs) in
      case map_of (rd_cache r) key of
        None \<Rightarrow> Inr fallback
      | Some val \<Rightarrow>
          (case json_loads val of
             Inl Decode_error \<Rightarrow> Inr fallback
           | Inl Int_too_long \<Rightarrow> Inl (ValueError (asc ''Exceeds the limit (4300 digits) for integer string conversion''))
           | Inr (J_list xs) \<Rightarrow> Inr xs
           | Inr _ \<Rightarrow> Inr fallback))"

definition list_storage_configs :: "config_reader \<Rightarrow> storage_config list" where
  "list_storage_configs r = map snd (rd_storage_configs r)"

definition get_active_storage :: "config_reader \<Rightarrow> storage_config option" where
  "get_active_storage r = get_default_storage r"

section \<open>apply.py\<close>

text \<open>A settings object: its fields in the order of the class, with annotation and value.\<close>

record setting_field =
  sf_annotation :: annotation
  sf_value :: json

type_synonym settings_obj = "(string \<times> setting_field) list"

definition set_setting :: "string \<Rightarrow> json \<Rightarrow> settings_obj \<Rightarrow> settings_obj" where
  "set_setting name v obj = map (\<lambda>(n, f). (n, if n = name then f\<lparr>sf_value := v\<rparr> else f)) obj"

text \<open>One assignment of an override, shared by the two loaders: \<^verbatim>\<open>None\<close> leaves the field, an exception ends the loop.\<close>

definition override_field :: "py_env \<Rightarrow> string \<Rightarrow> ptext \<Rightarrow> settings_obj \<Rightarrow> settings_obj \<times> exn option" where
  "override_field pe name raw obj =
     (case map_of obj name of
        None \<Rightarrow> (obj, Some (KeyError name))
      | Some f \<Rightarrow>
          (case coerce_config_value pe (J_str raw) (sf_annotation f) of
             Inl e \<Rightarrow> (obj, Some e)
           | Inr J_null \<Rightarrow> (obj, None)
           | Inr v \<Rightarrow> (set_setting name v obj, None)))"

text \<open>\<open>names\<close> is what \<^verbatim>\<open>vars(cls).get("model_fields", {})\<close> holds.\<close>

fun apply_from_config ::
  "py_env \<Rightarrow> config_reader \<Rightarrow> string \<Rightarrow> string list \<Rightarrow> settings_obj \<Rightarrow> settings_obj \<times> exn option" where
  "apply_from_config pe r pre [] obj = (obj, None)"
| "apply_from_config pe r pre (name # names) obj =
     (case reader_get r (pre @ ''.'' @ name) None of
        None \<Rightarrow> apply_from_config pe r pre names obj
      | Some raw \<Rightarrow>
          (case override_field pe name raw obj of
             (obj', None) \<Rightarrow> apply_from_config pe r pre names obj'
           | (obj', Some e) \<Rightarrow> (obj', Some e)))"

record config_state =
  cf_reader :: config_reader
  cf_storage :: settings_obj
  cf_mail :: settings_obj
  cf_clients :: storage_cache

definition apply_sys_config :: "py_env \<Rightarrow> (string \<Rightarrow> string list) \<Rightarrow> config_state \<Rightarrow> config_state \<times> exn option" where
  "apply_sys_config pe class_fields st =
     (case apply_from_config pe (cf_reader st) ''storage'' (class_fields ''storage'') (cf_storage st) of
        (storage, Some e) \<Rightarrow> (st\<lparr>cf_storage := storage\<rparr>, Some e)
      | (storage, None) \<Rightarrow>
          (case apply_from_config pe (cf_reader st) ''mail'' (class_fields ''mail'') (cf_mail st) of
             (mail, e) \<Rightarrow> (st\<lparr>cf_storage := storage, cf_mail := mail\<rparr>, e)))"

text \<open>\<^verbatim>\<open>ConfigReader.reload\<close>: a failure while applying leaves the cache of clients as it is.\<close>

definition reader_reload :: "py_env \<Rightarrow> (string \<Rightarrow> string list) \<Rightarrow> config_state \<Rightarrow> config_state \<times> exn option" where
  "reader_reload pe class_fields st =
     (case apply_sys_config pe class_fields (st\<lparr>cf_reader := reader_load_all (cf_reader st)\<rparr>) of
        (st', Some e) \<Rightarrow> (st', Some e)
      | (st', None) \<Rightarrow> (st'\<lparr>cf_clients := clear_storage_cache (cf_clients st')\<rparr>, None))"

section \<open>config_loader.py\<close>

text \<open>\<open>settings_class\<close> is the constructor of a value that is a subclass of \<^verbatim>\<open>BaseSettings\<close>.\<close>

definition import_config_class ::
  "(string \<Rightarrow> 'v res) \<Rightarrow> ('v \<Rightarrow> string \<Rightarrow> 'v res) \<Rightarrow> ('v \<Rightarrow> settings_obj res option) \<Rightarrow> string \<Rightarrow> settings_obj res res" where
  "import_config_class import_module getattr settings_class import_path =
     (case partition_at (CHR '':'') import_path of (module_path, _, attr) \<Rightarrow>
        if attr = [] then
          Inl (ValueError (asc (''config_model must use '' @ quoted ''module:Class'' @ '' format: '' @ import_path)))
        else
          rbind (import_module module_path) (\<lambda>m. rbind (getattr m attr) (\<lambda>cls.
            case settings_class cls of
              None \<Rightarrow> Inl (TypeError (asc (import_path @ '' is not a BaseSettings subclass'')))
            | Some new \<Rightarrow> Inr new)))"

fun apply_db_overrides ::
  "py_env \<Rightarrow> string \<Rightarrow> (string \<times> ptext) list \<Rightarrow> settings_obj \<Rightarrow> settings_obj \<times> exn option" where
  "apply_db_overrides pe pre [] obj = (obj, None)"
| "apply_db_overrides pe pre ((key, val) # items) obj =
     (let attr_name = drop (length pre) key in
      if \<not> startswith key pre \<or> map_of obj attr_name = None then apply_db_overrides pe pre items obj
      else
        (case override_field pe attr_name val obj of
           (obj', None) \<Rightarrow> apply_db_overrides pe pre items obj'
         | (obj', Some e) \<Rightarrow> (obj', Some e)))"

fun load_module_configs ::
  "py_env \<Rightarrow> (string \<Rightarrow> settings_obj res res) \<Rightarrow> config_reader \<Rightarrow> module_spec list \<Rightarrow> (string \<times> settings_obj) list
     \<Rightarrow> (string \<times> settings_obj) list \<times> exn option" where
  "load_module_configs pe import_class r [] configs = (configs, None)"
| "load_module_configs pe import_class r (spec # specs) configs =
     (if ms_config_model spec = [] then load_module_configs pe import_class r specs configs
      else
        (case rbind (import_class (ms_config_model spec)) (\<lambda>new. new) of
           Inl e \<Rightarrow> (configs, Some e)
         | Inr instance0 \<Rightarrow>
             (case (if ms_config_from_db spec
                    then apply_db_overrides pe (ms_name spec @ ''.'') (rd_cache r) instance0 else (instance0, None)) of
                (_, Some e) \<Rightarrow> (configs, Some e)
              | (obj, None) \<Rightarrow> load_module_configs pe import_class r specs (AList.update (ms_name spec) obj configs))))"

definition get_module_config :: "(string \<times> settings_obj) list \<Rightarrow> string \<Rightarrow> settings_obj option" where
  "get_module_config configs module_name = map_of configs module_name"

section \<open>Facts\<close>

subsection \<open>Coercion\<close>

text \<open>The type a value of an annotation has; \<^verbatim>\<open>Optional\<close> counts as its member, other annotations promise nothing.\<close>

function has_type :: "annotation \<Rightarrow> json \<Rightarrow> bool" where
  "has_type A_str v = (\<exists>t. v = J_str t)"
| "has_type A_bool v = (\<exists>b. v = J_bool b)"
| "has_type A_int v = (\<exists>i. v = J_int i)"
| "has_type A_float v = (\<exists>x. v = J_float x)"
| "has_type A_list v = is_list v"
| "has_type A_dict v = is_dict v"
| "has_type A_none v = True"
| "has_type (A_other f) v = True"
| "has_type (A_union args) v =
     (case filter (\<lambda>a. \<not> is_none_type a) args of [a] \<Rightarrow> has_type a v | _ \<Rightarrow> True)"
  by pat_completeness auto
termination
proof (relation "measure (\<lambda>(ann, v). size ann)", goal_cases)
  case (2 args v a rest)
  then have "a \<in> set (filter (\<lambda>a. \<not> is_none_type a) args)" by simp
  then have "a \<in> set args" by simp
  then show ?case by (simp add: less_Suc_eq_le size_list_estimation')
qed simp

lemma coerce_int_type: "coerce_int pe v = Inr w \<Longrightarrow> w = J_null \<or> (\<exists>i. w = J_int i)"
  by (auto simp: coerce_int_def or_none_def split: sum.splits exn.splits)
    (cases "py_int (pe_nd pe) v"; auto)

lemma coerce_float_type: "coerce_float pe v = Inr w \<Longrightarrow> w = J_null \<or> (\<exists>x. w = J_float x)"
  by (auto simp: coerce_float_def or_none_def split: sum.splits exn.splits)
    (cases "py_float (pe_nd pe) v"; auto)

lemma coerce_json_type: "coerce_json pe expected v = Inr w \<Longrightarrow> w = J_null \<or> expected w"
  by (auto simp: coerce_json_def split: if_splits sum.splits json_error.splits)

lemma coerce_typed:
  "coerce_config_value pe v ann = Inr w \<Longrightarrow> w = J_null \<or> has_type ann w"
proof (induction pe v ann arbitrary: w rule: coerce_config_value.induct)
  case (1 pe v ann)
  show ?case
  proof (cases ann)
    case (A_union args)
    with 1 show ?thesis
      by (auto simp: coerce_config_value.simps[of pe v] split: if_splits list.splits)
  qed (use 1(2) in \<open>auto simp: coerce_config_value.simps[of pe v] coerce_bool_def split: if_splits json.splits
      dest: coerce_int_type coerce_float_type coerce_json_type\<close>)
qed

text \<open>The text a value is written as in the configuration table.\<close>

definition setting_text :: "(pyfloat \<Rightarrow> string) \<Rightarrow> json \<Rightarrow> ptext" where
  "setting_text fr v =
     (case v of
        J_str t \<Rightarrow> t
      | J_bool b \<Rightarrow> asc (if b then ''true'' else ''false'')
      | _ \<Rightarrow> json_dumps fr v)"

lemma int_digits_all: "list_all is_digit ds \<Longrightarrow> ds \<noteq> [] \<Longrightarrow> int_digits ds = Some ds"
  by (induction ds rule: int_digits.induct) (auto simp: is_digit_def)

lemma int_of_text_print:
  assumes "length (str_nat (nat \<bar>i\<bar>)) \<le> 4300"
  shows "int_of_text nd (asc (str_int i)) = Inr i"
proof -
  have ascii: "map (to_ascii nd) (asc (str_int i)) = asc (str_int i)"
  proof (rule map_idI)
    fix c assume "c \<in> set (asc (str_int i))"
    then have "c = 45 \<or> is_digit c"
      using digits_str_nat by (auto simp: str_int_def asc_def list_all_iff split: if_splits)
    then show "to_ascii nd c = c" by (auto simp: to_ascii_def is_digit_def)
  qed
  have last: "is_digit (last (asc (str_int i)))"
    using digits_str_nat[of "nat \<bar>i\<bar>"] by (auto simp: str_int_def asc_def list_all_iff last_map)
  obtain c cs where c: "asc (str_int i) = c # cs" "is_digit c \<or> (c = 45 \<and> is_digit (hd cs))"
    by (rule str_int_chars)
  have "number_text nd (asc (str_int i)) = asc (str_int i)"
    unfolding number_text_def ascii using last c by (intro strip_by_fixed) (auto simp: is_digit_def)
  moreover have "split_sign (asc (str_int i)) = (i < 0, asc (str_nat (nat \<bar>i\<bar>)))"
    using c digits_str_nat[of "nat i"] by (auto simp: split_sign_def str_int_def asc_def is_digit_def split: if_splits)
  moreover have "asc (str_nat n) \<noteq> []" for n by (simp add: asc_def)
  ultimately show ?thesis
    using assms by (auto simp: int_of_text_def int_digits_all[OF digits_str_nat] dec_value_str_nat) (simp_all add: asc_def)
qed

lemma coerce_setting_text:
  assumes "json_plain v" "has_type ann v" "ann \<in> {A_str, A_bool, A_int, A_list, A_dict}"
  shows "coerce_config_value pe (J_str (setting_text fr v)) ann = Inr v"
proof -
  have words: "ascii_lower (ustrip (asc ''true'')) = asc ''true''" "ascii_lower (ustrip (asc ''false'')) = asc ''false''"
    by (simp_all add: ustrip_def strip_by_def lstrip_by_def rstrip_by_def uspace_def ascii_lower_def asc_def)
  have "coerce_bool pe (J_str (asc (if b then ''true'' else ''false''))) = J_bool b" for b
    by (cases b) (simp_all add: coerce_bool_def py_str_def words, simp_all add: asc_def)
  with assms json_loads_dumps[OF assms(1), of fr] show ?thesis
    by (auto simp: coerce_config_value.simps[of pe "J_str _"] setting_text_def py_str_def coerce_int_def py_int_def or_none_def
        int_of_text_print coerce_json_def elim!: is_list.elims is_dict.elims)
qed

subsection \<open>Overrides\<close>

lemma fst_set_setting [simp]: "map fst (set_setting name v obj) = map fst obj"
  by (induction obj) (auto simp: set_setting_def)

lemma map_of_set_setting:
  "map_of (set_setting name v obj) n =
     (if n = name then map_option (\<lambda>f. f\<lparr>sf_value := v\<rparr>) (map_of obj n) else map_of obj n)"
  by (induction obj) (auto simp: set_setting_def)

text \<open>What the overrides keep of a settings object: its fields and annotations, and the declared type of every value.\<close>

definition well_typed :: "settings_obj \<Rightarrow> bool" where
  "well_typed obj = (\<forall>(n, f)\<in>set obj. has_type (sf_annotation f) (sf_value f))"

definition same_fields :: "settings_obj \<Rightarrow> settings_obj \<Rightarrow> bool" where
  "same_fields obj obj' = (map (\<lambda>(n, f). (n, sf_annotation f)) obj' = map (\<lambda>(n, f). (n, sf_annotation f)) obj)"

lemma same_fields_refl [simp]: "same_fields obj obj"
  by (simp add: same_fields_def)

lemma override_keeps:
  assumes "override_field pe name raw obj = (obj', e)" "distinct (map fst obj)" "well_typed obj"
  shows "same_fields obj obj' \<and> well_typed obj'"
proof (cases "obj' = obj")
  case False
  with assms(1) obtain f v where f: "map_of obj name = Some f" "v \<noteq> J_null"
      "coerce_config_value pe (J_str raw) (sf_annotation f) = Inr v" "obj' = set_setting name v obj"
    by (auto simp: override_field_def split: option.splits sum.splits json.splits)
  have "has_type (sf_annotation f) v" using coerce_typed[OF f(3)] f(2) by blast
  moreover have "f' = f" if "(name, f') \<in> set obj" for f'
    using that f(1) assms(2) by (metis map_of_eq_Some_iff option.inject)
  ultimately have "well_typed obj'" using assms(3) by (fastforce simp: well_typed_def f(4) set_setting_def)
  then show ?thesis by (auto simp: same_fields_def f(4) set_setting_def)
qed (use assms in simp)

lemma same_fields_names: "same_fields obj obj' \<Longrightarrow> map fst obj' = map fst obj"
  unfolding same_fields_def by (drule arg_cong[where f = "map fst"]) (simp add: comp_def case_prod_beta)

lemma same_fields_trans: "same_fields a b \<Longrightarrow> same_fields b c \<Longrightarrow> same_fields a c"
  by (simp add: same_fields_def)

lemma apply_keeps:
  "apply_from_config pe r pre names obj = (obj', e) \<Longrightarrow> distinct (map fst obj) \<Longrightarrow> well_typed obj
     \<Longrightarrow> same_fields obj obj' \<and> well_typed obj'"
proof (induction names arbitrary: obj)
  case (Cons name names)
  show ?case
  proof (cases "reader_get r (pre @ ''.'' @ name) None")
    case None
    then show ?thesis using Cons by simp
  next
    case (Some raw)
    obtain obj1 e1 where o: "override_field pe name raw obj = (obj1, e1)" by force
    note keeps = override_keeps[OF o Cons.prems(2,3)]
    show ?thesis
    proof (cases e1)
      case None
      with Some o Cons.prems(1) have "apply_from_config pe r pre names obj1 = (obj', e)" by simp
      from Cons.IH[OF this] keeps same_fields_names[of obj obj1] Cons.prems(2) show ?thesis
        by (auto intro: same_fields_trans)
    qed (use Some o Cons.prems(1) keeps in simp)
  qed
qed simp

lemma db_overrides_keep:
  "apply_db_overrides pe pre items obj = (obj', e) \<Longrightarrow> distinct (map fst obj) \<Longrightarrow> well_typed obj
     \<Longrightarrow> same_fields obj obj' \<and> well_typed obj'"
proof (induction items arbitrary: obj)
  case (Cons item items)
  obtain key val where item: "item = (key, val)" by force
  show ?case
  proof (cases "\<not> startswith key pre \<or> map_of obj (drop (length pre) key) = None")
    case True
    then show ?thesis using Cons item by simp
  next
    case False
    obtain obj1 e1 where o: "override_field pe (drop (length pre) key) val obj = (obj1, e1)" by force
    note keeps = override_keeps[OF o Cons.prems(2,3)]
    show ?thesis
    proof (cases e1)
      case None
      with False o Cons.prems(1) item have "apply_db_overrides pe pre items obj1 = (obj', e)" by auto
      from Cons.IH[OF this] keeps same_fields_names[of obj obj1] Cons.prems(2) show ?thesis
        by (auto intro: same_fields_trans)
    qed (use False o Cons.prems(1) keeps item in auto)
  qed
qed simp

lemma override_other:
  "override_field pe name raw obj = (obj', e) \<Longrightarrow> n \<noteq> name \<Longrightarrow> map_of obj' n = map_of obj n"
  by (auto simp: override_field_def map_of_set_setting split: option.splits sum.splits json.splits)

lemma override_value:
  assumes "override_field pe name raw obj = (obj', None)" "map_of obj name = Some f"
    and "coerce_config_value pe (J_str raw) (sf_annotation f) = Inr v" "v \<noteq> J_null"
  shows "map_of obj' name = Some (f\<lparr>sf_value := v\<rparr>)"
  using assms by (auto simp: override_field_def map_of_set_setting split: json.splits)

lemma apply_other:
  "apply_from_config pe r pre names obj = (obj', e) \<Longrightarrow> n \<notin> set names \<Longrightarrow> map_of obj' n = map_of obj n"
  by (induction names arbitrary: obj) (auto split: option.splits prod.splits simp: override_other)

lemma apply_value:
  assumes "apply_from_config pe r pre names obj = (obj', None)" "distinct names" "name \<in> set names"
    and "map_of obj name = Some f" "map_of (rd_cache r) (pre @ ''.'' @ name) = Some raw"
    and "coerce_config_value pe (J_str raw) (sf_annotation f) = Inr v" "v \<noteq> J_null"
  shows "map_of obj' name = Some (f\<lparr>sf_value := v\<rparr>)"
  using assms
proof (induction names arbitrary: obj)
  case (Cons m names)
  show ?case
  proof (cases "m = name")
    case True
    with Cons.prems obtain obj1 where "override_field pe name raw obj = (obj1, None)"
        "apply_from_config pe r pre names obj1 = (obj', None)"
      by (auto simp: reader_get_def split: prod.splits option.splits)
    with True Cons.prems show ?thesis using override_value[of pe name raw obj obj1 f v] apply_other[of pe r pre names obj1]
      by simp
  next
    case False
    with Cons.prems obtain obj1 where "map_of obj1 name = map_of obj name"
        "apply_from_config pe r pre names obj1 = (obj', None)"
      by (auto split: prod.splits option.splits) (metis override_other)
    with False Cons show ?thesis by auto
  qed
qed simp

section \<open>Properties\<close>


definition demo_settings :: settings_obj where
  "demo_settings = [(''bucket'', \<lparr>sf_annotation = A_str, sf_value = J_str []\<rparr>),
     (''presign_expire_seconds'', \<lparr>sf_annotation = A_int, sf_value = J_int 3600\<rparr>)]"

definition demo_config :: config_state where
  "demo_config = \<lparr>cf_reader = empty_reader\<lparr>rd_cache := [(''storage.presign_expire_seconds'', asc ''60'')]\<rparr>,
     cf_storage = demo_settings, cf_mail = [], cf_clients = Map.empty\<rparr>"

definition demo_py :: py_env where
  "demo_py = \<lparr>pe_nd = (\<lambda>_. None), pe_other_repr = (\<lambda>_. [])\<rparr>"

definition demo_fields :: "string \<Rightarrow> string list" where
  "demo_fields pre = (if pre = ''storage'' then [''bucket'', ''presign_expire_seconds''] else [])"


text \<open>Fernet: a token decrypts to what was encrypted, and is printable.\<close>

definition fernet_ok :: "fernet \<Rightarrow> bool" where
  "fernet_ok f = (\<forall>b. fe_encrypt f b \<noteq> [] \<and>
     (case utf8_encode (fe_encrypt f b) of Inl _ \<Rightarrow> False | Inr t \<Rightarrow> fe_decrypt f t = Inr b))"

text \<open>A secret of the configuration survives encryption: with a key configured, what was encrypted under a
  sensitive key decrypts to the same value; without a key the encryption is refused, never skipped. The credentials
  of the storage table, however, are never encrypted: for every column the value is stored as it was given.\<close>

lemma config_secret_roundtrip:
  assumes "is_sensitive config_key" "v \<noteq> []" "list_all scalar v"
  shows "(\<forall>f c. get_fernet new_fernet key = Inr (Some f) \<and> fernet_ok f \<and> encrypt_config_value new_fernet key config_key (Some v) = Inr c
            \<longrightarrow> c \<noteq> Some [] \<and> decrypt_config_value new_fernet key config_key c = Inr (Some v))
     \<and> (get_fernet new_fernet key = Inr None
            \<longrightarrow> (\<exists>m. encrypt_config_value new_fernet key config_key (Some v) = Inl (RuntimeError m)))
     \<and> encrypt_storage_value new_fernet key column_name val = Inr val"
proof -
  have "c \<noteq> Some [] \<and> decrypt_config_value new_fernet key config_key c = Inr (Some v)"
    if a: "get_fernet new_fernet key = Inr (Some f)" "fernet_ok f" "encrypt_config_value new_fernet key config_key (Some v) = Inr c" for f c
  proof -
    obtain b where b: "utf8_encode v = Inr b" "c = Some (fe_encrypt f b)"
      using a assms by (auto simp: encrypt_config_value_def rbind_eq_Inr)
    obtain t where "utf8_encode (fe_encrypt f b) = Inr t" "fe_decrypt f t = Inr b" "fe_encrypt f b \<noteq> []"
      using a(2) by (cases "utf8_encode (fe_encrypt f b)") (auto simp: fernet_ok_def dest!: spec[of _ b])
    with a(1) utf8_strict_encode[OF b(1)] show ?thesis by (auto simp: decrypt_config_value_def b(2))
  qed
  moreover have "encrypt_storage_value new_fernet key column_name val = Inr val"
    by (auto simp: encrypt_storage_value_def encrypt_config_value_def is_sensitive_def sensitive_keys_def is_storage_sensitive_def
        storage_sensitive_columns_def split: option.split)
  moreover have "\<exists>m. encrypt_config_value new_fernet key config_key (Some v) = Inl (RuntimeError m)"
    if "get_fernet new_fernet key = Inr None"
    using that assms by (auto simp: encrypt_config_value_def)
  ultimately show ?thesis by blast
qed

text \<open>A cipher that writes bytes in unary, for the witness.\<close>

definition unary :: "bytes \<Rightarrow> ptext" where
  "unary b = 71 # concat (map (\<lambda>n. replicate n 97 @ [98]) b)"

fun unary_decode :: "nat \<Rightarrow> bytes \<Rightarrow> bytes" where
  "unary_decode n [] = []"
| "unary_decode n (c # cs) = (if c = 98 then n # unary_decode 0 cs else unary_decode (Suc n) cs)"

definition demo_fernet :: fernet where
  "demo_fernet = \<lparr>fe_encrypt = unary, fe_decrypt = (\<lambda>t. Inr (unary_decode 0 (drop 1 t)))\<rparr>"

lemma demo_fernet_ok: "fernet_ok demo_fernet"
proof -
  have ascii: "utf8_encode (unary b) = Inr (unary b)" for b
  proof -
    have small: "list_all (\<lambda>c. c < 0x80) (unary b)" by (auto simp: unary_def list_all_iff)
    then have "map encode1 (unary b) = map (\<lambda>c. [c]) (unary b)" by (auto simp: list_all_iff encode1_def)
    moreover have "list_all scalar (unary b)" using small by (auto simp: list_all_iff scalar_def)
    ultimately show ?thesis by (simp add: utf8_encode_def del: map_eq_conv)
  qed
  have "unary_decode n (replicate m 97 @ 98 # cs) = (n + m) # unary_decode 0 cs" for n m cs
    by (induction m arbitrary: n) simp_all
  then have "unary_decode 0 (concat (map (\<lambda>n. replicate n 97 @ [98]) b)) = b" for b
    by (induction b) simp_all
  then show ?thesis by (simp add: fernet_ok_def ascii demo_fernet_def) (simp add: unary_def)
qed

lemma config_secret_roundtrip_witness:
  "\<exists>c. encrypt_config_value (\<lambda>_. Inr demo_fernet) (Some ''k'') ''mail.password'' (Some [115]) = Inr c \<and> c \<noteq> Some []
     \<and> decrypt_config_value (\<lambda>_. Inr demo_fernet) (Some ''k'') ''mail.password'' c = Inr (Some [115])"
proof -
  have k: "get_fernet (\<lambda>_. Inr demo_fernet) (Some ''k'') = Inr (Some demo_fernet)"
    by (simp add: get_fernet_def utf8_encode_asc py_strip_def strip_by_def lstrip_by_def rstrip_by_def is_space_def)
  then obtain c where c: "encrypt_config_value (\<lambda>_. Inr demo_fernet) (Some ''k'') ''mail.password'' (Some [115]) = Inr c"
    by (simp add: encrypt_config_value_def is_sensitive_def sensitive_keys_def utf8_encode_def scalar_def)
  with k config_secret_roundtrip[of "''mail.password''" "[115]" "\<lambda>_. Inr demo_fernet" "Some ''k''"] show ?thesis
    by (auto simp: is_sensitive_def sensitive_keys_def scalar_def demo_fernet_ok)
qed

end
