(* ===== verification/ProcessGroup.thy ===== *)
theory ProcessGroup
  imports Config
begin

text \<open>
  The process supervisor, \<^verbatim>\<open>app/platform/runtime/process_group.py\<close>: the commands of the three processes, and their life
  from the start to the termination. What the children do is a parameter: how each one started ends by itself, and whether it
  exits in time after a SIGTERM. A SIGKILL ends every process.
\<close>

definition env_default :: "(string \<Rightarrow> string option) \<Rightarrow> string \<Rightarrow> string \<Rightarrow> string" where
  "env_default environ name default_value = (case environ name of None \<Rightarrow> default_value | Some v \<Rightarrow> v)"

text \<open>A call of \<^verbatim>\<open>_env\<close> without its default, which the function requires.\<close>

definition env_without_default :: "string \<Rightarrow> string res" where
  "env_without_default name =
     Inl (TypeError (asc (''_env() missing 1 required positional argument: '' @ quoted ''default'')))"

definition env_bool :: "(string \<Rightarrow> string option) \<Rightarrow> string \<Rightarrow> bool \<Rightarrow> bool" where
  "env_bool environ name default_value =
     (case environ name of
        None \<Rightarrow> default_value
      | Some v \<Rightarrow> py_lower (py_strip v) \<in> {''1'', ''true'', ''yes'', ''on''})"

text \<open>\<^verbatim>\<open>a or b\<close> on strings, where evaluating the left side may raise.\<close>

definition or_else :: "string res \<Rightarrow> string res \<Rightarrow> string res" where
  "or_else a b = rbind a (\<lambda>x. if x \<noteq> [] then Inr x else b)"

definition worker_command :: "(string \<Rightarrow> string option) \<Rightarrow> string list res" where
  "worker_command environ =
     (let command = [''celery'', ''-A'', ''app.worker.main:celery_app'', ''worker'']
            @ (if env_bool environ ''CELERY__WORKER_WITHOUT_MINGLE'' True then [''--without-mingle''] else [])
            @ (if env_bool environ ''CELERY__WORKER_WITHOUT_GOSSIP'' True then [''--without-gossip''] else []);
          queues = env_default environ ''CELERY__WORKER_QUEUES'' ''judge,default'';
          host_name = (let h = env_default environ ''HOSTNAME'' [] in if h \<noteq> [] then h else ''local'')
      in rbind (or_else (env_without_default ''ACOJ_CELERY_NODENAME'')
                  (or_else (env_without_default ''CELERY_NODENAME'') (Inr (''judge@'' @ host_name)))) (\<lambda>nodename.
           Inr (command @ [''-n'', nodename,
             ''--pool'', env_default environ ''CELERY__WORKER_POOL'' ''threads'',
             ''--concurrency'', env_default environ ''CELERY__WORKER_CONCURRENCY'' ''8'',
             ''-Q'', queues,
             ''--loglevel'', env_default environ ''CELERY__WORKER_LOG_LEVEL'' ''INFO''])))"

definition beat_command :: "(string \<Rightarrow> string option) \<Rightarrow> string list" where
  "beat_command environ =
     [''celery'', ''-A'', ''app.worker.main:celery_app'', ''beat'', ''--loglevel'',
      env_default environ ''CELERY__BEAT_LOG_LEVEL'' ''INFO'', ''--scheduler'', ''redbeat.RedBeatScheduler'']"

definition api_command :: "string list" where
  "api_command = [''gunicorn'', ''app.main:app'', ''-c'', ''gunicorn.conf.py'']"

text \<open>The commands are built before the first process is started: the processes started, or the exception.\<close>

definition run_all_commands :: "(string \<Rightarrow> string option) \<Rightarrow> (string \<times> string list) list res" where
  "run_all_commands environ =
     rbind (worker_command environ) (\<lambda>worker.
       Inr [(''worker'', worker), (''beat'', beat_command environ), (''api'', api_command)])"

text \<open>Whatever the environment, the supervisor raises before it starts anything.\<close>

lemma run_all_never_starts:
  "run_all_commands environ =
     Inl (TypeError (asc (''_env() missing 1 required positional argument: '' @ quoted ''default'')))"
  by (simp add: run_all_commands_def worker_command_def or_else_def env_without_default_def Let_def)

section \<open>Supervision\<close>

text \<open>
  A started process: its exit status once it has one, and its status after a SIGTERM if it exits within a given number of
  seconds.
\<close>

record child =
  ch_name :: string
  ch_returncode :: "int option"
  ch_on_terminate :: "pyfloat \<Rightarrow> int option"

definition sigterm :: "pyfloat \<Rightarrow> child \<Rightarrow> child" where
  "sigterm timeout c = (if ch_returncode c = None then c\<lparr>ch_returncode := ch_on_terminate c timeout\<rparr> else c)"

definition sigkill :: "child \<Rightarrow> child" where
  "sigkill c = (if ch_returncode c = None then c\<lparr>ch_returncode := Some (- 9)\<rparr> else c)"

text \<open>\<^verbatim>\<open>_terminate\<close>: all children get a SIGTERM; those that have not exited when the time is up are killed.\<close>

definition terminate :: "(nat \<Rightarrow> nat option) \<Rightarrow> (string \<Rightarrow> string option) \<Rightarrow> child list \<Rightarrow> unit res \<times> child list" where
  "terminate nd environ processes =
     (case float_of_text nd (asc (env_default environ ''APP__PROCESS_SHUTDOWN_TIMEOUT_SECONDS'' ''20'')) of
        Inl e \<Rightarrow> (Inl e, processes)
      | Inr timeout \<Rightarrow>
          let waited = map (sigterm timeout) processes
          in (Inr (), if list_all (\<lambda>c. ch_returncode c \<noteq> None) waited then waited else map sigkill waited))"

text \<open>Starting the commands in order, up to the first that raises.\<close>

fun start_all ::
  "(string \<Rightarrow> string list \<Rightarrow> child res) \<Rightarrow> (string \<times> string list) list \<Rightarrow> child list \<Rightarrow> exn option \<times> child list" where
  "start_all spawn [] processes = (None, processes)"
| "start_all spawn ((name, command) # commands) processes =
     (case spawn name command of
        Inl e \<Rightarrow> (Some e, processes)
      | Inr c \<Rightarrow> start_all spawn commands (processes @ [c]))"

text \<open>What the first wait returns, in the order in which the set of finished tasks is iterated.\<close>

datatype finished = Stop_requested | Exited string int

fun mark_exited :: "finished list \<Rightarrow> child \<Rightarrow> child" where
  "mark_exited [] c = c"
| "mark_exited (Stop_requested # fs) c = mark_exited fs c"
| "mark_exited (Exited name code # fs) c = mark_exited fs (if ch_name c = name then c\<lparr>ch_returncode := Some code\<rparr> else c)"

fun first_exit :: "finished list \<Rightarrow> int option" where
  "first_exit [] = None"
| "first_exit (Stop_requested # fs) = first_exit fs"
| "first_exit (Exited name code # fs) = Some code"

definition exit_code :: "finished list \<Rightarrow> int" where
  "exit_code finished = (case first_exit finished of Some code \<Rightarrow> code | None \<Rightarrow> if Stop_requested \<in> set finished then 143 else 1)"

text \<open>\<^verbatim>\<open>run_all\<close> from the commands on.\<close>

definition supervise ::
  "(nat \<Rightarrow> nat option) \<Rightarrow> (string \<Rightarrow> string option) \<Rightarrow> (string \<Rightarrow> string list \<Rightarrow> child res) \<Rightarrow> (child list \<Rightarrow> finished list)
     \<Rightarrow> (string \<times> string list) list \<Rightarrow> int res \<times> child list" where
  "supervise nd environ spawn wait_first commands =
     (case start_all spawn commands [] of
        (Some e, processes) \<Rightarrow> (case terminate nd environ processes of (r, cs) \<Rightarrow> (rbind r (\<lambda>_. Inl e), cs))
      | (None, processes) \<Rightarrow>
          let finished = wait_first processes
          in case terminate nd environ (map (mark_exited finished) processes) of
               (r, cs) \<Rightarrow> (rbind r (\<lambda>_. Inr (exit_code finished)), cs))"

definition run_all ::
  "(nat \<Rightarrow> nat option) \<Rightarrow> (string \<Rightarrow> string option) \<Rightarrow> (string \<Rightarrow> string list \<Rightarrow> child res) \<Rightarrow> (child list \<Rightarrow> finished list)
     \<Rightarrow> int res \<times> child list" where
  "run_all nd environ spawn wait_first =
     (case run_all_commands environ of
        Inl e \<Rightarrow> (Inl e, [])
      | Inr commands \<Rightarrow> supervise nd environ spawn wait_first commands)"

section \<open>Facts\<close>

abbreviation timeout_text :: "(string \<Rightarrow> string option) \<Rightarrow> ptext" where
  "timeout_text environ \<equiv> asc (env_default environ ''APP__PROCESS_SHUTDOWN_TIMEOUT_SECONDS'' ''20'')"

lemma signal_simps [simp]:
  "ch_name (sigterm t c) = ch_name c" "ch_name (sigkill c) = ch_name c" "\<exists>y. ch_returncode (sigkill c) = Some y"
  by (auto simp: sigterm_def sigkill_def)

lemma sigkill_exited: "ch_returncode c \<noteq> None \<Longrightarrow> sigkill c = c" "ch_returncode c \<noteq> None \<Longrightarrow> sigterm t c = c"
  by (auto simp: sigkill_def sigterm_def)

lemma terminate_ok:
  assumes "float_of_text nd (timeout_text environ) = Inr timeout"
  shows "terminate nd environ cs = (Inr (), map (\<lambda>c. sigkill (sigterm timeout c)) cs)"
proof -
  have "map (\<lambda>c. sigkill (sigterm timeout c)) cs = map (sigterm timeout) cs"
    if "list_all (\<lambda>c. ch_returncode c \<noteq> None) (map (sigterm timeout) cs)"
    using that sigkill_exited(1) by (simp add: list_all_iff)
  then show ?thesis by (simp add: terminate_def assms Let_def comp_def)
qed

lemma mark_exited_name [simp]: "ch_name (mark_exited fs c) = ch_name c"
  by (induction fs c rule: mark_exited.induct) auto

text \<open>The processes are started in the order of the commands, up to a failure.\<close>

lemma start_all_names:
  assumes "\<And>name command c. spawn name command = Inr c \<Longrightarrow> ch_name c = name"
  shows "case start_all spawn commands ps of
       (None, cs) \<Rightarrow> map ch_name cs = map ch_name ps @ map fst commands
     | (Some e, cs) \<Rightarrow> \<exists>pre name command post. commands = pre @ (name, command) # post \<and> spawn name command = Inl e
          \<and> map ch_name cs = map ch_name ps @ map fst pre"
  using assms
proof (induction spawn commands ps rule: start_all.induct)
  case (2 spawn name command commands processes)
  show ?case
  proof (cases "spawn name command")
    case (Inl e)
    then show ?thesis by (auto intro: exI[of _ "[]"])
  next
    case (Inr c)
    with 2(2) have "ch_name c = name" by blast
    obtain failed cs where st: "start_all spawn commands (processes @ [c]) = (failed, cs)" by fastforce
    show ?thesis
    proof (cases failed)
      case None
      then show ?thesis using 2(1)[OF Inr] 2(2) Inr st \<open>ch_name c = name\<close> by simp
    next
      case (Some e)
      with 2(1)[OF Inr] 2(2) st obtain pre name' command' post where "commands = pre @ (name', command') # post"
        "spawn name' command' = Inl e" "map ch_name cs = map ch_name processes @ [ch_name c] @ map fst pre" by auto
      then show ?thesis using Inr st Some \<open>ch_name c = name\<close>
        by (intro case_prodI2) (auto intro!: exI[of _ "(name, command) # pre"])
    qed
  qed
qed simp

section \<open>Properties\<close>


definition demo_spawn :: "string \<Rightarrow> string list \<Rightarrow> child res" where
  "demo_spawn name command = (if name = ''api'' then Inl (OSError [])
     else Inr \<lparr>ch_name = name, ch_returncode = None, ch_on_terminate = (\<lambda>_. None)\<rparr>)"


text \<open>With a timeout that is not a number nothing is terminated.\<close>

lemma bad_timeout_orphans:
  assumes "float_of_text nd (timeout_text environ) = Inl e"
  shows "terminate nd environ cs = (Inl e, cs)"
  by (simp add: terminate_def assms)

end
