(* ===== verification/Metrics.thy ===== *)
theory Metrics
  imports PyFloat Settings
begin

text \<open>
  Metrics: \<^verbatim>\<open>app/platform/observability/metrics.py\<close>, the callback of the sandbox pool in
  \<^verbatim>\<open>app/modules/judge/pool_metrics.py\<close>, and the two callers that wrap a call in a tracker,
  \<^verbatim>\<open>app/platform/tasks/base.py\<close> and \<^verbatim>\<open>app/platform/http/client.py\<close>.

  The Prometheus registry is a map from a metric and its label values to a number, for counters and gauges, and to the list
  of observations, for histograms. Counts are integers (the library's floats are exact below two to the 53rd).
\<close>

section \<open>The registry\<close>

datatype metric =
    Http_requests_total
  | Http_request_duration_seconds
  | Http_requests_in_progress
  | App_exceptions_total
  | Validation_errors_total
  | Http_client_requests_total
  | Http_client_request_duration_seconds
  | Celery_task_total
  | Celery_task_duration_seconds
  | Auth_login_total
  | Auth_login_lock_total
  | Operation_audit_total
  | File_upload_rejected_total
  | Sandbox_pool_workers
  | Sandbox_pool_borrow_total
  | Sandbox_pool_borrow_wait_ms
  | Sandbox_pool_emergency_total
  | Sandbox_pool_replaced_total
  | Sandbox_pool_queue_timeout_total

record metrics_registry =
  mx_value :: "metric \<times> string list \<Rightarrow> int"
  mx_observed :: "metric \<times> string list \<Rightarrow> rat list"

definition inc_by :: "metric \<Rightarrow> string list \<Rightarrow> int \<Rightarrow> 'z metrics_registry_scheme \<Rightarrow> 'z metrics_registry_scheme" where
  "inc_by m labels n r = r\<lparr>mx_value := (mx_value r)((m, labels) := mx_value r (m, labels) + n)\<rparr>"

definition set_gauge :: "metric \<Rightarrow> string list \<Rightarrow> int \<Rightarrow> 'z metrics_registry_scheme \<Rightarrow> 'z metrics_registry_scheme" where
  "set_gauge m labels n r = r\<lparr>mx_value := (mx_value r)((m, labels) := n)\<rparr>"

definition observe :: "metric \<Rightarrow> string list \<Rightarrow> rat \<Rightarrow> 'z metrics_registry_scheme \<Rightarrow> 'z metrics_registry_scheme" where
  "observe m labels x r = r\<lparr>mx_observed := (mx_observed r)((m, labels) := mx_observed r (m, labels) @ [x])\<rparr>"

section \<open>metrics.py\<close>

definition metrics_enabled :: "observability_settings \<Rightarrow> bool" where
  "metrics_enabled ob = (ob_enabled ob \<and> ob_metrics_enabled ob)"

text \<open>
  How the body of a \<^verbatim>\<open>with\<close> block ends: with a value, with an \<^verbatim>\<open>Exception\<close>, or with an exception that is not one, such as the
  \<^verbatim>\<open>CancelledError\<close> of a client that went away.
\<close>

datatype ('e, 'a) outcome = Returned 'a | Raised 'e | Cancelled

text \<open>A body receives \<^verbatim>\<open>finalize\<close>, whose first argument here is the time of its call.\<close>

type_synonym ('z, 'k, 'e, 'a) tracked =
  "(rat \<Rightarrow> 'k \<Rightarrow> 'z metrics_registry_scheme \<Rightarrow> 'z metrics_registry_scheme) \<Rightarrow> 'z metrics_registry_scheme \<Rightarrow> ('e, 'a) outcome \<times> 'z metrics_registry_scheme"

definition finalize_http :: "string \<Rightarrow> string \<Rightarrow> rat \<Rightarrow> rat \<Rightarrow> int \<Rightarrow> 'z metrics_registry_scheme \<Rightarrow> 'z metrics_registry_scheme" where
  "finalize_http http_method path start now status_code r =
     inc_by Http_requests_in_progress [http_method, path] (- 1)
       (inc_by Http_requests_total [http_method, path, str_int status_code] 1
         (observe Http_request_duration_seconds [http_method, path] (fsub now start) r))"

definition track_http_request ::
  "observability_settings \<Rightarrow> string \<Rightarrow> string \<Rightarrow> rat \<Rightarrow> ('z, int, 'e, 'a) tracked \<Rightarrow> 'z metrics_registry_scheme \<Rightarrow> ('e, 'a) outcome \<times> 'z metrics_registry_scheme" where
  "track_http_request ob http_method path start body r =
     (if \<not> metrics_enabled ob then body (\<lambda>_ _ r. r) r
      else
        (case body (finalize_http http_method path start) (inc_by Http_requests_in_progress [http_method, path] 1 r) of
           (Raised e, r') \<Rightarrow> (Raised e, inc_by Http_requests_in_progress [http_method, path] (- 1) r')
         | (res, r') \<Rightarrow> (res, r')))"

definition record_if :: "observability_settings \<Rightarrow> metric \<Rightarrow> string list \<Rightarrow> 'z metrics_registry_scheme \<Rightarrow> 'z metrics_registry_scheme" where
  "record_if ob m labels r = (if metrics_enabled ob then inc_by m labels 1 r else r)"

definition record_app_exception :: "observability_settings \<Rightarrow> string \<Rightarrow> 'z metrics_registry_scheme \<Rightarrow> 'z metrics_registry_scheme" where
  "record_app_exception ob exception_type = record_if ob App_exceptions_total [exception_type]"

definition record_validation_error :: "observability_settings \<Rightarrow> 'z metrics_registry_scheme \<Rightarrow> 'z metrics_registry_scheme" where
  "record_validation_error ob = record_if ob Validation_errors_total []"

definition record_login_attempt :: "observability_settings \<Rightarrow> string \<Rightarrow> string \<Rightarrow> string \<Rightarrow> 'z metrics_registry_scheme \<Rightarrow> 'z metrics_registry_scheme" where
  "record_login_attempt ob account_type result reason = record_if ob Auth_login_total [account_type, result, reason]"

definition record_login_lock :: "observability_settings \<Rightarrow> string \<Rightarrow> string \<Rightarrow> 'z metrics_registry_scheme \<Rightarrow> 'z metrics_registry_scheme" where
  "record_login_lock ob account_type scope = record_if ob Auth_login_lock_total [account_type, scope]"

definition record_operation_audit :: "observability_settings \<Rightarrow> string \<Rightarrow> string \<Rightarrow> bool \<Rightarrow> 'z metrics_registry_scheme \<Rightarrow> 'z metrics_registry_scheme" where
  "record_operation_audit ob module_name action success =
     record_if ob Operation_audit_total [module_name, action, if success then ''success'' else ''failure'']"

definition record_file_upload_rejected :: "observability_settings \<Rightarrow> string \<Rightarrow> 'z metrics_registry_scheme \<Rightarrow> 'z metrics_registry_scheme" where
  "record_file_upload_rejected ob reason = record_if ob File_upload_rejected_total [reason]"

definition track_http_client_request ::
  "observability_settings \<Rightarrow> string \<Rightarrow> string \<Rightarrow> rat \<Rightarrow> ('z, int, 'e, 'a) tracked \<Rightarrow> 'z metrics_registry_scheme \<Rightarrow> ('e, 'a) outcome \<times> 'z metrics_registry_scheme" where
  "track_http_client_request ob http_method host start body r =
     (if \<not> metrics_enabled ob then body (\<lambda>_ _ r. r) r
      else body (\<lambda>now status_code r.
        inc_by Http_client_requests_total [http_method, host, str_int status_code] 1
          (observe Http_client_request_duration_seconds [http_method, host] (fsub now start) r)) r)"

definition track_celery_task ::
  "observability_settings \<Rightarrow> string \<Rightarrow> rat \<Rightarrow> ('z, string, 'e, 'a) tracked \<Rightarrow> 'z metrics_registry_scheme \<Rightarrow> ('e, 'a) outcome \<times> 'z metrics_registry_scheme" where
  "track_celery_task ob task_name start body r =
     (if \<not> metrics_enabled ob then body (\<lambda>_ _ r. r) r
      else body (\<lambda>now status r.
        observe Celery_task_duration_seconds [task_name] (fsub now start)
          (inc_by Celery_task_total [task_name, status] 1 r)) r)"

section \<open>base.py and client.py\<close>

text \<open>\<^verbatim>\<open>BaseTask.__call__\<close>: \<open>call\<close> is the task, \<open>now\<close> the time at which it ends.\<close>

definition task_call ::
  "observability_settings \<Rightarrow> string \<Rightarrow> rat \<Rightarrow> rat \<Rightarrow> ('z metrics_registry_scheme \<Rightarrow> ('e, 'a) outcome \<times> 'z metrics_registry_scheme) \<Rightarrow> 'z metrics_registry_scheme \<Rightarrow> ('e, 'a) outcome \<times> 'z metrics_registry_scheme" where
  "task_call ob name start now call r =
     (let body = (\<lambda>finalize r.
            case call r of
              (Raised e, r') \<Rightarrow> (Raised e, finalize now ''failure'' r')
            | (Cancelled, r') \<Rightarrow> (Cancelled, r')
            | (Returned x, r') \<Rightarrow> (Returned x, finalize now ''success'' r'))
      in if ob_enabled ob \<and> ob_celery_observability_enabled ob then track_celery_task ob name start body r
         else body (\<lambda>_ _ r. r) r)"

text \<open>
  \<^verbatim>\<open>InstrumentedAsyncClient.request\<close>: httpx builds the request and sends it, or does both in its own \<open>request\<close>. Building
  can raise; its value is the host of the URL, none if empty.
\<close>

definition client_request ::
  "observability_settings \<Rightarrow> ('z metrics_registry_scheme \<Rightarrow> ('e, int) outcome \<times> 'z metrics_registry_scheme) \<Rightarrow> 'e + string option
     \<Rightarrow> ('z metrics_registry_scheme \<Rightarrow> ('e, int) outcome \<times> 'z metrics_registry_scheme) \<Rightarrow> string \<Rightarrow> rat \<Rightarrow> rat \<Rightarrow> 'z metrics_registry_scheme
     \<Rightarrow> ('e, int) outcome \<times> 'z metrics_registry_scheme" where
  "client_request ob request built send http_method start now r =
     (if \<not> (ob_enabled ob \<and> ob_http_client_observability_enabled ob) then request r
      else case built of
          Inl e \<Rightarrow> (Raised e, r)
        | Inr host \<Rightarrow>
            track_http_client_request ob (py_upper http_method) (str_or host ''unknown'') start (\<lambda>finalize r.
              case send r of
                (Returned status, r') \<Rightarrow> (Returned status, finalize now status r')
              | (res, r') \<Rightarrow> (res, r')) r)"

section \<open>pool_metrics.py\<close>

record pool_stats =
  pk_available_count :: int
  pk_active_count :: int
  pk_total_count :: int
  pk_borrow_count :: int
  pk_emergency_count :: int
  pk_replaced_count :: int
  pk_queue_timeout_count :: "int option"
  pk_borrow_last_wait_ms :: "rat option"

record pool_last =
  pl_borrow_count :: int
  pl_emergency_count :: int
  pl_replaced_count :: int
  pl_queue_timeout_count :: int

definition pool_last_init :: pool_last where
  "pool_last_init = \<lparr>pl_borrow_count = 0, pl_emergency_count = 0, pl_replaced_count = 0, pl_queue_timeout_count = 0\<rparr>"

definition queue_timeouts :: "pool_stats \<Rightarrow> int" where
  "queue_timeouts s = (case pk_queue_timeout_count s of None \<Rightarrow> 0 | Some n \<Rightarrow> n)"

definition inc_delta :: "metric \<Rightarrow> int \<Rightarrow> int \<Rightarrow> metrics_registry \<Rightarrow> metrics_registry" where
  "inc_delta m now before r = (let delta = max 0 (now - before) in if delta \<noteq> 0 then inc_by m [] delta r else r)"

text \<open>The callback \<^verbatim>\<open>on_event\<close> of a pool with the counts it saw last.\<close>

definition on_event :: "pool_stats \<Rightarrow> pool_last \<times> metrics_registry \<Rightarrow> pool_last \<times> metrics_registry" where
  "on_event s st =
     (case st of (seen, r) \<Rightarrow>
        let r1 = set_gauge Sandbox_pool_workers [''total''] (pk_total_count s)
                   (set_gauge Sandbox_pool_workers [''active''] (pk_active_count s)
                     (set_gauge Sandbox_pool_workers [''available''] (pk_available_count s) r));
            borrow_delta = max 0 (pk_borrow_count s - pl_borrow_count seen);
            r2 = (if borrow_delta \<noteq> 0
                  then observe Sandbox_pool_borrow_wait_ms [] (case pk_borrow_last_wait_ms s of None \<Rightarrow> 0 | Some x \<Rightarrow> x)
                         (inc_by Sandbox_pool_borrow_total [] borrow_delta r1)
                  else r1);
            r3 = inc_delta Sandbox_pool_emergency_total (pk_emergency_count s) (pl_emergency_count seen) r2;
            r4 = inc_delta Sandbox_pool_replaced_total (pk_replaced_count s) (pl_replaced_count seen) r3;
            r5 = inc_delta Sandbox_pool_queue_timeout_total (queue_timeouts s) (pl_queue_timeout_count seen) r4
        in (\<lparr>pl_borrow_count = pk_borrow_count s, pl_emergency_count = pk_emergency_count s,
              pl_replaced_count = pk_replaced_count s, pl_queue_timeout_count = queue_timeouts s\<rparr>, r5))"

text \<open>The pools that registered the callback, each with its last counts.\<close>

type_synonym pools = "nat \<Rightarrow> pool_last option"

definition register_sandbox_pool_metrics :: "observability_settings \<Rightarrow> nat \<Rightarrow> pools \<Rightarrow> pools" where
  "register_sandbox_pool_metrics ob pool ps = (if \<not> metrics_enabled ob then ps else ps(pool \<mapsto> pool_last_init))"

definition pool_event :: "nat \<times> pool_stats \<Rightarrow> pools \<times> metrics_registry \<Rightarrow> pools \<times> metrics_registry" where
  "pool_event ev st =
     (case (ev, st) of ((pool, s), (ps, r)) \<Rightarrow>
        (case ps pool of
           None \<Rightarrow> (ps, r)
         | Some seen \<Rightarrow> (case on_event s (seen, r) of (seen', r') \<Rightarrow> (ps(pool \<mapsto> seen'), r'))))"

text \<open>
  \<^verbatim>\<open>init\<close>: how the pool callback is installed. The client class is missing, offers a hook for pools it creates later, or
  has a pool already or not.
\<close>

datatype client_class = No_package | Has_hook | Has_pool nat | No_pool

datatype pool_init = Skipped | Hooked | Registered nat

definition pool_metrics_init :: "observability_settings \<Rightarrow> client_class \<Rightarrow> pools \<Rightarrow> pool_init \<times> pools" where
  "pool_metrics_init ob cls ps =
     (case cls of
        No_package \<Rightarrow> (Skipped, ps)
      | Has_hook \<Rightarrow> (Hooked, ps)
      | Has_pool pool \<Rightarrow> (Registered pool, register_sandbox_pool_metrics ob pool ps)
      | No_pool \<Rightarrow> (Skipped, ps))"

section \<open>Facts\<close>

definition pool_counters :: "metric set" where
  "pool_counters = {Sandbox_pool_borrow_total, Sandbox_pool_emergency_total, Sandbox_pool_replaced_total,
     Sandbox_pool_queue_timeout_total}"

fun pool_count :: "metric \<Rightarrow> pool_stats \<Rightarrow> int" where
  "pool_count Sandbox_pool_borrow_total s = pk_borrow_count s"
| "pool_count Sandbox_pool_emergency_total s = pk_emergency_count s"
| "pool_count Sandbox_pool_replaced_total s = pk_replaced_count s"
| "pool_count Sandbox_pool_queue_timeout_total s = queue_timeouts s"
| "pool_count _ s = 0"

fun pool_seen :: "metric \<Rightarrow> pool_last \<Rightarrow> int" where
  "pool_seen Sandbox_pool_borrow_total l = pl_borrow_count l"
| "pool_seen Sandbox_pool_emergency_total l = pl_emergency_count l"
| "pool_seen Sandbox_pool_replaced_total l = pl_replaced_count l"
| "pool_seen Sandbox_pool_queue_timeout_total l = pl_queue_timeout_count l"
| "pool_seen _ l = 0"

lemma mx_value_simps [simp]:
  "mx_value (inc_by m ls n r) k = (if k = (m, ls) then mx_value r k + n else mx_value r k)"
  "mx_value (set_gauge m ls n r) k = (if k = (m, ls) then n else mx_value r k)"
  "mx_value (observe m ls x r) k = mx_value r k"
  by (auto simp: inc_by_def set_gauge_def observe_def)

lemma mx_value_inc_delta [simp]:
  "mx_value (inc_delta m now before r) k = (if k = (m, []) then mx_value r k + max 0 (now - before) else mx_value r k)"
  by (auto simp: inc_delta_def Let_def)

lemma on_event_counters:
  assumes "on_event s (seen, r) = (seen', r')" "m \<in> pool_counters"
  shows "mx_value r' (m, []) = mx_value r (m, []) + max 0 (pool_count m s - pool_seen m seen)" "pool_seen m seen' = pool_count m s"
  using assms by (auto simp: on_event_def pool_counters_def Let_def)

text \<open>The latest count a pool reported.\<close>

definition latest :: "metric \<Rightarrow> (nat \<times> pool_stats) list \<Rightarrow> nat \<Rightarrow> int" where
  "latest m evs p = (let xs = filter (\<lambda>(q, s). q = p) evs in if xs = [] then 0 else pool_count m (snd (last xs)))"

lemma latest_snoc: "latest m (evs @ [(q, s)]) p = (if p = q then pool_count m s else latest m evs p)"
  by (simp add: latest_def)

text \<open>Counts of a pool never fall.\<close>

definition rising :: "metric \<Rightarrow> (nat \<times> pool_stats) list \<Rightarrow> bool" where
  "rising m evs = (sorted_wrt (\<lambda>(p, s) (q, t). p = q \<longrightarrow> pool_count m s \<le> pool_count m t) evs
     \<and> (\<forall>(p, s)\<in>set evs. 0 \<le> pool_count m s))"

lemma latest_le:
  assumes "rising m (evs @ [(q, s)])"
  shows "latest m evs q \<le> pool_count m s"
proof (cases "filter (\<lambda>(p, s). p = q) evs")
  case Nil
  then show ?thesis using assms by (simp add: latest_def rising_def)
next
  case (Cons x xs)
  then have "last (x # xs) \<in> set (filter (\<lambda>(p, s). p = q) evs)" by simp
  then obtain t where "last (x # xs) = (q, t)" "(q, t) \<in> set evs" by auto
  with assms show ?thesis by (auto simp: latest_def Cons rising_def sorted_wrt_append)
qed

definition run_pool_events :: "(nat \<times> pool_stats) list \<Rightarrow> pools \<times> metrics_registry \<Rightarrow> pools \<times> metrics_registry" where
  "run_pool_events evs st = foldl (\<lambda>st ev. pool_event ev st) st evs"

lemma pool_events_counters:
  assumes "finite P" "m \<in> pool_counters" "rising m evs"
    and "run_pool_events evs (\<lambda>p. if p \<in> P then Some pool_last_init else None, r) = (ps, r')"
  shows "mx_value r' (m, []) = mx_value r (m, []) + (\<Sum>p\<in>P. latest m evs p)
     \<and> (\<forall>p\<in>P. \<exists>seen. ps p = Some seen \<and> pool_seen m seen = latest m evs p) \<and> (\<forall>p. p \<notin> P \<longrightarrow> ps p = None)"
  using assms(3,4)
proof (induction evs arbitrary: ps r' rule: rev_induct)
  case Nil
  then show ?case using assms(2) by (auto simp: run_pool_events_def latest_def pool_last_init_def pool_counters_def)
next
  case (snoc ev evs)
  obtain q s where ev: "ev = (q, s)" by force
  let ?st0 = "(\<lambda>p. if p \<in> P then Some pool_last_init else None, r)"
  obtain ps1 r1 where st1: "run_pool_events evs ?st0 = (ps1, r1)" by force
  have "rising m evs" using snoc.prems(1) by (auto simp: rising_def sorted_wrt_append)
  note IH = snoc.IH[OF this st1]
  have last: "pool_event (q, s) (ps1, r1) = (ps, r')"
    using snoc.prems(2) st1 by (simp add: run_pool_events_def ev)
  show ?case
  proof (cases "ps1 q")
    case None
    then have "q \<notin> P" using IH by force
    then have "(\<Sum>p\<in>P. latest m (evs @ [ev]) p) = (\<Sum>p\<in>P. latest m evs p)"
      unfolding ev by (intro sum.cong refl) (auto simp: latest_snoc)
    then show ?thesis using None last IH \<open>q \<notin> P\<close>
      by (auto simp: pool_event_def ev latest_snoc split: option.splits)
  next
    case (Some seen)
    have qP: "q \<in> P" using IH Some by force
    then obtain seen0 where "ps1 q = Some seen0" "pool_seen m seen0 = latest m evs q" using IH by blast
    with Some qP have q: "q \<in> P" "pool_seen m seen = latest m evs q" by simp_all
    obtain seen' r2 where e: "on_event s (seen, r1) = (seen', r2)" by force
    with last Some have ps: "ps = ps1(q \<mapsto> seen')" "r' = r2" by (auto simp: pool_event_def)
    have "latest m evs q \<le> pool_count m s" using latest_le snoc.prems(1) ev by simp
    moreover have "(\<Sum>p\<in>P. latest m (evs @ [ev]) p) = (\<Sum>p\<in>P. latest m evs p) + (pool_count m s - latest m evs q)"
    proof -
      have "(\<Sum>p\<in>P - {q}. latest m (evs @ [ev]) p) = (\<Sum>p\<in>P - {q}. latest m evs p)"
        by (intro sum.cong refl) (auto simp: ev latest_snoc)
      then show ?thesis using q(1) assms(1) by (simp add: ev latest_snoc sum.remove[of P q])
    qed
    ultimately show ?thesis
      using on_event_counters[OF e assms(2)] IH q ps by (auto simp: ev latest_snoc)
  qed
qed

section \<open>Properties\<close>

text \<open>The counters of the sandbox pools are exact. When any number of pools report events in any interleaving and the counts
  of each pool never fall, each Prometheus counter has grown by the sum of the latest counts of the registered pools; a
  pool that did not register adds nothing.\<close>

lemma pool_counters_exact:
  assumes "finite P" "m \<in> pool_counters" "rising m evs"
  shows "mx_value (snd (run_pool_events evs (\<lambda>p. if p \<in> P then Some pool_last_init else None, r))) (m, [])
     = mx_value r (m, []) + (\<Sum>p\<in>P. latest m evs p)"
  using pool_events_counters[OF assms, of r] by (metis prod.collapse)

definition demo_stats :: "int \<Rightarrow> pool_stats" where
  "demo_stats n = \<lparr>pk_available_count = 1, pk_active_count = 2, pk_total_count = 3, pk_borrow_count = n, pk_emergency_count = 0,
     pk_replaced_count = 0, pk_queue_timeout_count = None, pk_borrow_last_wait_ms = None\<rparr>"

lemma pool_counters_exact_witness:
  "mx_value (snd (run_pool_events [(0, demo_stats 2), (1, demo_stats 5), (0, demo_stats 3)]
     (\<lambda>p. if p \<in> {0, 1} then Some pool_last_init else None, \<lparr>mx_value = (\<lambda>_. 0), mx_observed = (\<lambda>_. [])\<rparr>)))
     (Sandbox_pool_borrow_total, []) = 8"
  by (subst pool_counters_exact) (simp_all add: pool_counters_def rising_def demo_stats_def latest_def)

end
