(* ===== verification/HttpPipeline.thy ===== *)
theory HttpPipeline
  imports Metrics OperationAudit RequestAuth
begin

text \<open>
  The HTTP pipeline: the context variables of \<^verbatim>\<open>app/deps/context.py\<close>, the middleware of \<^verbatim>\<open>app/middleware/\<close> that surrounds every
  request, and the order in which \<^verbatim>\<open>create_app\<close> of \<^verbatim>\<open>app/factory.py\<close> adds it.

  An application takes a request and a world and ends with a response, an exception or a cancellation. The world extends
  the metrics registry with the context variables, the sorted sets of the rate limiter, the audit queue, the lines of the access
  log and a count of the clock readings. Starlette is not part of the repository: how it nests middleware, its CORS
  middleware, and whether \<^verbatim>\<open>call_next\<close> lets the caller see the context variables set by the callee, are parameters.
\<close>

section \<open>Context variables\<close>

record http_ctx =
  cx_request_id :: "string option"
  cx_account_id :: "string option"
  cx_account_type :: "string option"
  cx_trace_id :: "string option"
  cx_span_id :: "string option"
  cx_request_path :: "string option"
  cx_request_method :: "string option"
  cx_status_code :: "int option"
  cx_duration_ms :: "rat option"
  cx_client_ip :: "string option"
  cx_user_agent :: "string option"

definition fresh_ctx :: http_ctx where
  "fresh_ctx = \<lparr>cx_request_id = None, cx_account_id = None, cx_account_type = None, cx_trace_id = None, cx_span_id = None,
     cx_request_path = None, cx_request_method = None, cx_status_code = None, cx_duration_ms = None, cx_client_ip = None,
     cx_user_agent = None\<rparr>"

section \<open>Requests, responses and the world\<close>

record http_request = web_request +
  hr_method :: string
  hr_path :: string

text \<open>The headers of a response have lower case names; the headers the framework derives from the body are left out.\<close>

record http_response =
  rp_status :: int
  rp_headers :: "(string \<times> string) list"
  rp_error :: "(int \<times> ptext) option"

record access_entry =
  al_method :: string
  al_path :: string
  al_status_code :: int
  al_duration_ms :: rat

record http_world = metrics_registry +
  w_ctx :: http_ctx
  w_store :: zstore
  w_audit :: audit_state
  w_access :: "access_entry list"
  w_tick :: nat

text \<open>The current span: the tracing package is missing, the span is invalid, or it has a trace and a span number.\<close>

datatype span_source = No_otel | Invalid_span | Span nat nat

record 'a http_env =
  he_ob :: observability_settings
  he_ip :: "'a ip_parser"
  he_trusted_proxy_ips :: "string list"
  he_uuid_hex :: "nat \<Rightarrow> string"
  he_perf_counter :: "nat \<Rightarrow> rat"
  he_time :: "nat \<Rightarrow> rat"
  he_span :: span_source
  he_has_redis :: bool
  he_redis_broken :: bool
  he_audit_maxsize :: int
  he_share :: "http_ctx \<Rightarrow> http_ctx \<Rightarrow> http_ctx"

type_synonym http_result = "(web_exn, http_response) outcome \<times> http_world"
type_synonym http_app = "http_request \<Rightarrow> http_world \<Rightarrow> http_result"

text \<open>\<^verbatim>\<open>he_share before after\<close> is the context the caller of \<^verbatim>\<open>call_next\<close> goes on with.\<close>

definition call_next :: "'a http_env \<Rightarrow> http_app \<Rightarrow> http_app" where
  "call_next env app request w =
     (case app request w of (res, w') \<Rightarrow> (res, w'\<lparr>w_ctx := he_share env (w_ctx w) (w_ctx w')\<rparr>))"

definition perf_counter :: "'a http_env \<Rightarrow> http_world \<Rightarrow> rat \<times> http_world" where
  "perf_counter env w = (he_perf_counter env (w_tick w), w\<lparr>w_tick := Suc (w_tick w)\<rparr>)"

text \<open>\<^verbatim>\<open>response.headers[name] = value\<close>: the first header of the name gets the value, later ones go.\<close>

fun set_raw_header :: "string \<Rightarrow> string \<Rightarrow> (string \<times> string) list \<Rightarrow> (string \<times> string) list" where
  "set_raw_header key v [] = [(key, v)]"
| "set_raw_header key v ((k, x) # hs) =
     (if k = key then (key, v) # filter (\<lambda>(k', _). k' \<noteq> key) hs else (k, x) # set_raw_header key v hs)"

definition set_header :: "string \<Rightarrow> string \<Rightarrow> http_response \<Rightarrow> http_response" where
  "set_header name v resp = resp\<lparr>rp_headers := set_raw_header (py_lower name) v (rp_headers resp)\<rparr>"

section \<open>trace.py and tracing.py\<close>

text \<open>\<^verbatim>\<open>format(n, "0<width>x")\<close>.\<close>

function hex_of :: "nat \<Rightarrow> string" where
  "hex_of n = (if n < 16 then [''0123456789abcdef'' ! n] else hex_of (n div 16) @ [''0123456789abcdef'' ! (n mod 16)])"
  by auto
termination by (relation "measure id") auto

declare hex_of.simps [simp del]

definition format_hex :: "nat \<Rightarrow> nat \<Rightarrow> string" where
  "format_hex width n = replicate (width - length (hex_of n)) (CHR ''0'') @ hex_of n"

definition sync_trace_context :: "span_source \<Rightarrow> http_ctx \<Rightarrow> http_ctx" where
  "sync_trace_context current cx =
     (case current of
        Span trace_id span_id \<Rightarrow> cx\<lparr>cx_trace_id := Some (format_hex 32 trace_id), cx_span_id := Some (format_hex 16 span_id)\<rparr>
      | _ \<Rightarrow> cx\<lparr>cx_trace_id := None, cx_span_id := None\<rparr>)"

definition request_id_of :: "'a http_env \<Rightarrow> http_request \<Rightarrow> http_world \<Rightarrow> string" where
  "request_id_of env request w =
     (case rq_headers request ''x-request-id'' of None \<Rightarrow> he_uuid_hex env (w_tick w) | Some v \<Rightarrow> v)"

definition trace_enter :: "'a http_env \<Rightarrow> http_request \<Rightarrow> http_world \<Rightarrow> http_world" where
  "trace_enter env request w =
     w\<lparr>w_ctx := sync_trace_context (he_span env)
       ((w_ctx w)\<lparr>cx_request_id := Some (request_id_of env request w), cx_request_path := Some (hr_path request),
          cx_request_method := Some (hr_method request),
          cx_client_ip := get_client_ip (he_ip env) (he_trusted_proxy_ips env) (web_request.truncate request),
          cx_user_agent := rq_headers request ''user-agent''\<rparr>)\<rparr>"

text \<open>The resets of the \<^verbatim>\<open>finally\<close> block: a token holds the value from before.\<close>

definition trace_leave :: "http_ctx \<Rightarrow> http_world \<Rightarrow> http_world" where
  "trace_leave old w =
     w\<lparr>w_ctx := (w_ctx w)\<lparr>cx_request_id := cx_request_id old, cx_request_path := cx_request_path old,
       cx_request_method := cx_request_method old, cx_client_ip := cx_client_ip old, cx_user_agent := cx_user_agent old,
       cx_trace_id := None, cx_span_id := None\<rparr>\<rparr>"

definition trace_dispatch :: "'a http_env \<Rightarrow> http_app \<Rightarrow> http_app" where
  "trace_dispatch env app request w =
     (case call_next env app request (trace_enter env request w) of
        (Returned resp, w') \<Rightarrow>
          (Returned (set_header ''X-Request-Id'' (request_id_of env request w) resp), trace_leave (w_ctx w) w')
      | (e, w') \<Rightarrow> (e, trace_leave (w_ctx w) w'))"

section \<open>security\_headers.py\<close>

definition security_headers :: "(string \<times> string) list" where
  "security_headers =
     [(''Strict-Transport-Security'', ''max-age=31536000; includeSubDomains''),
      (''X-Content-Type-Options'', ''nosniff''),
      (''X-Frame-Options'', ''DENY''),
      (''Content-Security-Policy'',
         ''default-src 'self'; script-src 'self'; style-src 'self' 'unsafe-inline'; object-src 'none'; '' @
         ''img-src 'self' data: blob:; font-src 'self' data:; connect-src 'self'; frame-ancestors 'none'' @ [CHR 0x27]),
      (''Referrer-Policy'', ''strict-origin-when-cross-origin''),
      (''Permissions-Policy'', ''camera=(), microphone=(), geolocation=(), interest-cohort=()'')]"

definition security_headers_dispatch :: "'a http_env \<Rightarrow> http_app \<Rightarrow> http_app" where
  "security_headers_dispatch env app request w =
     (case call_next env app request w of
        (Returned resp, w') \<Rightarrow> (Returned (fold (\<lambda>(name, v). set_header name v) security_headers resp), w')
      | (e, w') \<Rightarrow> (e, w'))"

section \<open>access\_log.py\<close>

text \<open>\<^verbatim>\<open>round(x, 2)\<close>: to the nearest multiple of a hundredth, ties to even, then to the nearest float.\<close>

definition py_round2 :: "rat \<Rightarrow> rat" where
  "py_round2 x = fl (of_int (rne (x * 100)) / 100)"

definition access_log_dispatch :: "'a http_env \<Rightarrow> http_app \<Rightarrow> http_app" where
  "access_log_dispatch env app request w =
     (case perf_counter env w of (start, w1) \<Rightarrow>
      case perf_counter env w1 of (tracker_start, w2) \<Rightarrow>
      case track_http_request (he_ob env) (hr_method request) (hr_path request) tracker_start (\<lambda>finalize w.
             case call_next env app request w of
               (Returned resp, w3) \<Rightarrow>
                 (case perf_counter env w3 of (now, w4) \<Rightarrow>
                  case perf_counter env w4 of (finalize_now, w5) \<Rightarrow>
                    let cost_ms = py_round2 (fmul (fsub now start) 1000);
                        w6 = w5\<lparr>w_ctx := (w_ctx w5)\<lparr>cx_duration_ms := Some cost_ms, cx_status_code := Some (rp_status resp)\<rparr>\<rparr>
                    in (Returned (resp, cost_ms), finalize finalize_now (rp_status resp) w6))
             | (Raised e, w3) \<Rightarrow> (Raised e, w3)
             | (Cancelled, w3) \<Rightarrow> (Cancelled, w3)) w2 of
        (Returned (resp, cost_ms), w7) \<Rightarrow>
          (Returned resp, w7\<lparr>w_access := w_access w7 @
             [\<lparr>al_method = hr_method request, al_path = hr_path request, al_status_code = rp_status resp,
               al_duration_ms = cost_ms\<rparr>]\<rparr>)
      | (Raised e, w7) \<Rightarrow> (Raised e, w7)
      | (Cancelled, w7) \<Rightarrow> (Cancelled, w7))"

section \<open>operation\_audit.py, rate\_limit.py and auth\_context.py around an application\<close>

definition audit_context_of :: "http_ctx \<Rightarrow> audit_context" where
  "audit_context_of cx = \<lparr>ac_account_id = cx_account_id cx, ac_account_type = cx_account_type cx, ac_request_id = cx_request_id cx,
     ac_ip = cx_client_ip cx, ac_user_agent = cx_user_agent cx\<rparr>"

definition operation_audit_dispatch :: "'a http_env \<Rightarrow> http_app \<Rightarrow> http_app" where
  "operation_audit_dispatch env app request w =
     (case call_next env app request w of
        (Returned resp, w') \<Rightarrow>
          (Returned resp, w'\<lparr>w_audit := audit_dispatch (he_audit_maxsize env) (audit_context_of (w_ctx w')) (hr_method request)
             (hr_path request) (rp_status resp) (w_audit w')\<rparr>)
      | (e, w') \<Rightarrow> (e, w'))"

definition too_many_response :: "int \<Rightarrow> http_response" where
  "too_many_response window_sec =
     \<lparr>rp_status = 429, rp_headers = [(''retry-after'', str_int window_sec)],
      rp_error = Some (429, [0x8BF7, 0x6C42, 0x8FC7, 0x4E8E, 0x9891, 0x7E41, 0xFF0C, 0x8BF7, 0x7A0D, 0x540E, 0x518D, 0x8BD5])\<rparr>"

definition rate_limit_middleware :: "'a http_env \<Rightarrow> http_app \<Rightarrow> http_app" where
  "rate_limit_middleware env app request w =
     (case rate_limit_dispatch (he_has_redis env) (he_redis_broken env) (he_time env (w_tick w)) (hr_path request)
             (cx_client_ip (w_ctx w)) (cx_account_id (w_ctx w)) (w_store w) of
        (Too_many window_sec, st) \<Rightarrow> (Returned (too_many_response window_sec), w\<lparr>w_store := st, w_tick := Suc (w_tick w)\<rparr>)
      | (Passed, st) \<Rightarrow> call_next env app request (w\<lparr>w_store := st, w_tick := Suc (w_tick w)\<rparr>))"

definition auth_context_dispatch :: "'a http_env \<Rightarrow> http_app \<Rightarrow> http_app" where
  "auth_context_dispatch env app request w =
     (let old = w_ctx w;
          w1 = w\<lparr>w_ctx := old\<lparr>cx_account_id := None, cx_account_type := None, cx_status_code := None, cx_duration_ms := None\<rparr>\<rparr>
      in case call_next env app request w1 of (res, w2) \<Rightarrow>
           (res, w2\<lparr>w_ctx := (w_ctx w2)\<lparr>cx_account_id := cx_account_id old, cx_account_type := cx_account_type old,
              cx_status_code := cx_status_code old, cx_duration_ms := cx_duration_ms old\<rparr>\<rparr>))"

section \<open>factory.py\<close>

text \<open>The middleware in the order in which \<^verbatim>\<open>create_app\<close> adds it; \<^verbatim>\<open>cors\<close> is Starlette's.\<close>

definition app_middleware :: "'a http_env \<Rightarrow> (http_app \<Rightarrow> http_app) \<Rightarrow> (http_app \<Rightarrow> http_app) list" where
  "app_middleware env cors =
     [trace_dispatch env, security_headers_dispatch env, access_log_dispatch env, operation_audit_dispatch env,
      rate_limit_middleware env, auth_context_dispatch env, cors]"

text \<open>\<open>build\<close> is how Starlette nests the added middleware around the routes.\<close>

definition serve :: "((http_app \<Rightarrow> http_app) list \<Rightarrow> http_app \<Rightarrow> http_app) \<Rightarrow> 'a http_env \<Rightarrow> (http_app \<Rightarrow> http_app) \<Rightarrow> http_app \<Rightarrow> http_app" where
  "serve build env cors routes = build (app_middleware env cors) routes"

section \<open>What the parameters promise\<close>

text \<open>Starlette's documentation: the middleware added last is the outermost.\<close>

definition last_added_outermost :: "((http_app \<Rightarrow> http_app) list \<Rightarrow> http_app \<Rightarrow> http_app) \<Rightarrow> bool" where
  "last_added_outermost build = (\<forall>app. build [] app = app \<and> (\<forall>ms m. build (ms @ [m]) app = m (build ms app)))"

text \<open>The CORS middleware answers a preflight request itself, or passes the request on and adds its own headers to the response.\<close>

definition cors_header :: "string \<Rightarrow> bool" where
  "cors_header name = (startswith name ''access-control-'' \<or> name = ''vary'')"

fun cors_extends :: "(web_exn, http_response) outcome \<Rightarrow> (web_exn, http_response) outcome \<Rightarrow> bool" where
  "cors_extends (Returned resp) res =
     (\<exists>hs. res = Returned (resp\<lparr>rp_headers := hs\<rparr>)
        \<and> filter (\<lambda>(n, _). \<not> cors_header n) hs = filter (\<lambda>(n, _). \<not> cors_header n) (rp_headers resp))"
| "cors_extends e res = (res = e)"

definition preflight :: "http_request \<Rightarrow> bool" where
  "preflight request = (hr_method request = ''OPTIONS'' \<and> rq_headers request ''origin'' \<noteq> None
     \<and> rq_headers request ''access-control-request-method'' \<noteq> None)"

definition cors_law :: "(http_app \<Rightarrow> http_app) \<Rightarrow> bool" where
  "cors_law cors =
     (\<forall>app request w.
        if preflight request then snd (cors app request w) = w
        else snd (cors app request w) = snd (app request w) \<and> cors_extends (fst (app request w)) (fst (cors app request w)))"

text \<open>\<^verbatim>\<open>call_next\<close> either shares its context variables with the caller or isolates them.\<close>

definition shares_or_isolates :: "'a http_env \<Rightarrow> bool" where
  "shares_or_isolates env = (\<forall>before after. he_share env before after \<in> {before, after})"

definition isolates :: "'a http_env \<Rightarrow> bool" where
  "isolates env = (\<forall>before after. he_share env before after = before)"

text \<open>The routes count no requests, do not use the keys of the rate limiter and put nothing into the audit queue.\<close>

definition http_metric :: "metric \<Rightarrow> bool" where
  "http_metric m = (m \<in> {Http_requests_total, Http_requests_in_progress})"

definition routes_leave :: "http_app \<Rightarrow> bool" where
  "routes_leave app =
     (\<forall>request w. let w' = snd (app request w) in
        w_store w' = w_store w \<and> w_audit w' = w_audit w \<and> w_access w' = w_access w
        \<and> (\<forall>m labels. http_metric m \<longrightarrow> mx_value w' (m, labels) = mx_value w (m, labels)))"

section \<open>Facts\<close>

text \<open>What the middleware inside the CORS middleware does.\<close>

definition guarded :: "'a http_env \<Rightarrow> http_app \<Rightarrow> http_app" where
  "guarded env routes =
     auth_context_dispatch env (rate_limit_middleware env (operation_audit_dispatch env (access_log_dispatch env
       (security_headers_dispatch env (trace_dispatch env routes)))))"

lemma serve_nesting:
  assumes "last_added_outermost build"
  shows "serve build env cors routes = cors (guarded env routes)"
proof -
  have snoc: "build (ms @ [m]) routes = m (build ms routes)" and nil: "build [] routes = routes" for ms m
    using assms by (simp_all add: last_added_outermost_def)
  have "app_middleware env cors = (((((([] @ [trace_dispatch env]) @ [security_headers_dispatch env]) @ [access_log_dispatch env])
      @ [operation_audit_dispatch env]) @ [rate_limit_middleware env]) @ [auth_context_dispatch env]) @ [cors]"
    by (simp add: app_middleware_def)
  then show ?thesis unfolding serve_def guarded_def by (simp only: snoc nil)
qed

subsection \<open>Headers\<close>

lemma map_of_set_raw_header: "map_of (set_raw_header key v hs) = (map_of hs)(key \<mapsto> v)"
proof (induction hs rule: list.induct)
  case (Cons h hs)
  obtain k x where h: "h = (k, x)" by fastforce
  have "map_of (filter (\<lambda>(k', _). k' \<noteq> key) hs) = (map_of hs)(key := None)"
    by (induction hs) (auto simp: fun_eq_iff)
  then show ?case using Cons by (auto simp: h fun_eq_iff)
qed simp

lemma set_header_simps [simp]:
  "rp_status (set_header name v resp) = rp_status resp"
  "map_of (rp_headers (set_header name v resp)) = (map_of (rp_headers resp))(py_lower name \<mapsto> v)"
  by (simp_all add: set_header_def map_of_set_raw_header)

lemma map_of_fold_headers:
  "map_of (rp_headers (fold (\<lambda>(name, v). set_header name v) hs resp)) =
     map_of (rp_headers resp) ++ map_of (rev (map (\<lambda>(name, v). (py_lower name, v)) hs))"
proof (induction hs arbitrary: resp)
  case (Cons h hs)
  obtain name v where h: "h = (name, v)" by fastforce
  show ?case by (simp add: h Cons[of "set_header name v resp"] map_add_def fun_eq_iff split: option.splits)
qed simp

lemma fold_headers_status [simp]:
  "rp_status (fold (\<lambda>(name, v). set_header name v) hs resp) = rp_status resp"
  by (induction hs arbitrary: resp) (auto simp: set_header_def)

text \<open>The six names are different and none is the one of the request number.\<close>

lemma security_headers_lower:
  "map_of (rev (map (\<lambda>(name, v). (py_lower name, v)) security_headers)) (py_lower name) = Some v"
  if "(name, v) \<in> set security_headers" for name v
proof -
  have "distinct (map fst (map (\<lambda>(name, v). (py_lower name, v)) security_headers))" by code_simp
  then show ?thesis using that by (force simp: map_of_eq_Some_iff rev_map[symmetric])
qed

lemma security_headers_not_request_id:
  "map_of (rev (map (\<lambda>(name, v). (py_lower name, v)) security_headers)) (py_lower ''X-Request-Id'') = None"
  by code_simp

subsection \<open>Context variables\<close>

definition same_ids :: "http_ctx \<Rightarrow> http_ctx \<Rightarrow> bool" where
  "same_ids before after =
     (cx_request_id after = cx_request_id before \<and> cx_request_path after = cx_request_path before
      \<and> cx_request_method after = cx_request_method before \<and> cx_client_ip after = cx_client_ip before
      \<and> cx_user_agent after = cx_user_agent before
      \<and> cx_trace_id after \<in> {cx_trace_id before, None} \<and> cx_span_id after \<in> {cx_span_id before, None})"

definition leaves_ids :: "http_app \<Rightarrow> bool" where
  "leaves_ids app = (\<forall>request w. same_ids (w_ctx w) (w_ctx (snd (app request w))))"

lemma same_ids_refl [simp]: "same_ids cx cx"
  by (simp add: same_ids_def)

lemma call_next_fst [simp]: "fst (call_next env app request w) = fst (app request w)"
  by (simp add: call_next_def case_prod_beta)

lemma call_next_snd:
  "snd (call_next env app request w) =
     (snd (app request w))\<lparr>w_ctx := he_share env (w_ctx w) (w_ctx (snd (app request w)))\<rparr>"
  by (simp add: call_next_def case_prod_beta)

lemma call_next_leaves: "shares_or_isolates env \<Longrightarrow> leaves_ids app \<Longrightarrow> leaves_ids (call_next env app)"
  unfolding leaves_ids_def call_next_snd shares_or_isolates_def by (simp, metis same_ids_refl)

text \<open>What a dispatch does after \<^verbatim>\<open>call_next\<close>, by the way it ended.\<close>

lemma trace_snd: "snd (trace_dispatch env app request w) = trace_leave (w_ctx w) (snd (call_next env app request (trace_enter env request w)))"
  by (simp add: trace_dispatch_def split: prod.splits outcome.splits)

lemma security_snd: "snd (security_headers_dispatch env app request w) = snd (call_next env app request w)"
  by (simp add: security_headers_dispatch_def split: prod.splits outcome.splits)

definition access_enter :: "'a http_env \<Rightarrow> http_request \<Rightarrow> http_world \<Rightarrow> http_world" where
  "access_enter env request w =
     (let w2 = w\<lparr>w_tick := Suc (Suc (w_tick w))\<rparr>
      in if metrics_enabled (he_ob env) then inc_by Http_requests_in_progress [hr_method request, hr_path request] 1 w2 else w2)"

lemma access_fst: "fst (access_log_dispatch env app request w) = fst (app request (access_enter env request w))"
  by (auto simp: access_log_dispatch_def perf_counter_def track_http_request_def access_enter_def call_next_def Let_def
      split: prod.splits outcome.splits)

lemmas access_unfold = access_log_dispatch_def perf_counter_def track_http_request_def access_enter_def finalize_http_def Let_def

lemma access_ctx:
  "\<exists>d s. w_ctx (snd (access_log_dispatch env app request w)) =
     (w_ctx (snd (call_next env app request (access_enter env request w))))\<lparr>cx_duration_ms := d, cx_status_code := s\<rparr>"
proof (cases "call_next env app request (access_enter env request w)")
  case (Pair res w3)
  have keep: "\<exists>d s. w_ctx w3 = (w_ctx w3)\<lparr>cx_duration_ms := d, cx_status_code := s\<rparr>"
    by (rule exI[of _ "cx_duration_ms (w_ctx w3)"], rule exI[of _ "cx_status_code (w_ctx w3)"]) simp
  then show ?thesis using Pair
    by (cases res) (auto simp: access_unfold inc_by_def observe_def split: if_splits)
qed

lemma access_world:
  assumes "call_next env app request (access_enter env request w) = (res, w3)" "snd (access_log_dispatch env app request w) = w7"
  shows "w_store w7 = w_store w3" "w_audit w7 = w_audit w3"
  using assms by (cases res; auto simp: access_unfold inc_by_def observe_def split: if_splits)+

lemma audit_ctx: "w_ctx (snd (operation_audit_dispatch env app request w)) = w_ctx (snd (call_next env app request w))"
  by (simp add: operation_audit_dispatch_def split: prod.splits outcome.splits)

lemma limit_ctx:
  "w_ctx (snd (rate_limit_middleware env app request w)) = w_ctx w
     \<or> (\<exists>st n. w_ctx (snd (rate_limit_middleware env app request w)) =
          w_ctx (snd (call_next env app request (w\<lparr>w_store := st, w_tick := n\<rparr>))))"
  by (auto simp: rate_limit_middleware_def split: prod.splits rl_outcome.splits)

lemma trace_leaves_ids: "leaves_ids (trace_dispatch env app)"
  by (simp add: leaves_ids_def trace_snd trace_leave_def same_ids_def)

lemma middleware_leaves_ids:
  assumes "shares_or_isolates env" "leaves_ids app"
  shows "leaves_ids (security_headers_dispatch env app)" "leaves_ids (access_log_dispatch env app)"
    "leaves_ids (operation_audit_dispatch env app)" "leaves_ids (rate_limit_middleware env app)"
proof -
  note next_ids = call_next_leaves[OF assms, unfolded leaves_ids_def, rule_format]
  show "leaves_ids (security_headers_dispatch env app)" by (simp add: leaves_ids_def security_snd next_ids)
  show "leaves_ids (operation_audit_dispatch env app)" by (simp add: leaves_ids_def audit_ctx next_ids)
  show "leaves_ids (rate_limit_middleware env app)"
    unfolding leaves_ids_def
  proof (intro allI)
    fix request w
    show "same_ids (w_ctx w) (w_ctx (snd (rate_limit_middleware env app request w)))"
      using limit_ctx[of env app request w] next_ids[of "w\<lparr>w_store := st, w_tick := n\<rparr>" request for st n] by auto
  qed
  show "leaves_ids (access_log_dispatch env app)"
    unfolding leaves_ids_def
  proof (intro allI)
    fix request w
    obtain d s where a: "w_ctx (snd (access_log_dispatch env app request w)) =
        (w_ctx (snd (call_next env app request (access_enter env request w))))\<lparr>cx_duration_ms := d, cx_status_code := s\<rparr>"
      using access_ctx by blast
    have "w_ctx (access_enter env request w) = w_ctx w" by (simp add: access_enter_def Let_def inc_by_def)
    then show "same_ids (w_ctx w) (w_ctx (snd (access_log_dispatch env app request w)))"
      using next_ids[of "access_enter env request w" request] unfolding a by (simp add: same_ids_def)
  qed
qed

lemma auth_context_restores:
  assumes "shares_or_isolates env" "leaves_ids app"
  shows "\<exists>t s. t \<in> {cx_trace_id (w_ctx w), None} \<and> s \<in> {cx_span_id (w_ctx w), None}
     \<and> w_ctx (snd (auth_context_dispatch env app request w)) = (w_ctx w)\<lparr>cx_trace_id := t, cx_span_id := s\<rparr>"
proof -
  let ?w1 = "w\<lparr>w_ctx := (w_ctx w)\<lparr>cx_account_id := None, cx_account_type := None, cx_status_code := None, cx_duration_ms := None\<rparr>\<rparr>"
  let ?c = "w_ctx (snd (call_next env app request ?w1))"
  have "same_ids (w_ctx ?w1) ?c" using call_next_leaves[OF assms, unfolded leaves_ids_def] by blast
  moreover have "w_ctx (snd (auth_context_dispatch env app request w)) =
      ?c\<lparr>cx_account_id := cx_account_id (w_ctx w), cx_account_type := cx_account_type (w_ctx w),
        cx_status_code := cx_status_code (w_ctx w), cx_duration_ms := cx_duration_ms (w_ctx w)\<rparr>"
    by (simp add: auth_context_dispatch_def Let_def split: prod.splits)
  ultimately show ?thesis
    by (intro exI[of _ "cx_trace_id ?c"] exI[of _ "cx_span_id ?c"]) (auto simp: same_ids_def)
qed

lemma guarded_restores:
  assumes "shares_or_isolates env"
  shows "\<exists>t s. t \<in> {cx_trace_id (w_ctx w), None} \<and> s \<in> {cx_span_id (w_ctx w), None}
     \<and> w_ctx (snd (guarded env routes request w)) = (w_ctx w)\<lparr>cx_trace_id := t, cx_span_id := s\<rparr>"
  unfolding guarded_def using assms by (intro auth_context_restores middleware_leaves_ids trace_leaves_ids)

subsection \<open>The limiter and the audit see no identity\<close>

definition anonymous :: audit_context where
  "anonymous = \<lparr>ac_account_id = None, ac_account_type = None, ac_request_id = None, ac_ip = None, ac_user_agent = None\<rparr>"

lemma trace_world:
  assumes "routes_leave routes"
  shows "w_store (snd (trace_dispatch env routes request w)) = w_store w" "w_audit (snd (trace_dispatch env routes request w)) = w_audit w"
    "w_access (snd (trace_dispatch env routes request w)) = w_access w"
    "http_metric m \<Longrightarrow> mx_value (snd (trace_dispatch env routes request w)) (m, labels) = mx_value w (m, labels)"
  using assms by (simp_all add: trace_snd trace_leave_def call_next_snd routes_leave_def Let_def trace_enter_def)

lemma routes_leave_trace: "routes_leave routes \<Longrightarrow> routes_leave (trace_dispatch env routes)"
  by (simp add: routes_leave_def trace_world Let_def)

lemma routes_leave_security: "routes_leave app \<Longrightarrow> routes_leave (security_headers_dispatch env app)"
  by (simp add: routes_leave_def security_snd call_next_snd Let_def)

lemma access_leaves:
  assumes "routes_leave app"
  shows "w_store (snd (access_log_dispatch env app request w)) = w_store w" "w_audit (snd (access_log_dispatch env app request w)) = w_audit w"
proof -
  obtain res w3 where c: "call_next env app request (access_enter env request w) = (res, w3)" by fastforce
  have "w3 = snd (call_next env app request (access_enter env request w))" by (simp add: c)
  then have "w_store w3 = w_store w" "w_audit w3 = w_audit w"
    using assms by (simp_all add: call_next_snd routes_leave_def Let_def access_enter_def inc_by_def)
  with access_world[OF c refl] show "w_store (snd (access_log_dispatch env app request w)) = w_store w"
    "w_audit (snd (access_log_dispatch env app request w)) = w_audit w" by simp_all
qed

text \<open>An application that the limiter lets through, seen from the limiter.\<close>

lemma audited:
  assumes "isolates env" "routes_leave routes"
  defines "app \<equiv> operation_audit_dispatch env (access_log_dispatch env (security_headers_dispatch env (trace_dispatch env routes)))"
  shows "w_store (snd (app request w)) = w_store w"
    and "fst (app request w) = Returned resp \<Longrightarrow>
       w_audit (snd (app request w)) =
         audit_dispatch (he_audit_maxsize env) (audit_context_of (w_ctx w)) (hr_method request) (hr_path request) (rp_status resp) (w_audit w)"
    and "\<forall>resp. fst (app request w) \<noteq> Returned resp \<Longrightarrow> w_audit (snd (app request w)) = w_audit w"
proof -
  let ?inner = "access_log_dispatch env (security_headers_dispatch env (trace_dispatch env routes))"
  have leaves: "w_store (snd (?inner request w)) = w_store w" "w_audit (snd (?inner request w)) = w_audit w"
    using access_leaves routes_leave_security routes_leave_trace assms(2) by blast+
  have ctx: "w_ctx (snd (call_next env ?inner request w)) = w_ctx w"
    using assms(1) by (simp add: call_next_snd isolates_def)
  obtain res w' where c: "call_next env ?inner request w = (res, w')" by fastforce
  have w': "w_store w' = w_store w" "w_audit w' = w_audit w" "w_ctx w' = w_ctx w"
    using leaves ctx call_next_snd[of env ?inner request w] unfolding c by simp_all
  show "w_store (snd (app request w)) = w_store w"
    "fst (app request w) = Returned resp \<Longrightarrow> w_audit (snd (app request w)) =
       audit_dispatch (he_audit_maxsize env) (audit_context_of (w_ctx w)) (hr_method request) (hr_path request) (rp_status resp) (w_audit w)"
    "\<forall>resp. fst (app request w) \<noteq> Returned resp \<Longrightarrow> w_audit (snd (app request w)) = w_audit w"
    using w' by (cases res; simp add: app_def operation_audit_dispatch_def c)+
qed

text \<open>The whole stack, on a request whose variables are still unset.\<close>

lemma guarded_anonymous:
  assumes "isolates env" "routes_leave routes" "w_ctx w = fresh_ctx"
    and "rate_limit_dispatch (he_has_redis env) (he_redis_broken env) (he_time env (w_tick w)) (hr_path request) None None (w_store w)
       = (verdict, st)"
  shows "w_store (snd (guarded env routes request w)) = st"
    and "verdict = Too_many s \<Longrightarrow> fst (guarded env routes request w) = Returned (too_many_response s)
       \<and> w_audit (snd (guarded env routes request w)) = w_audit w"
    and "verdict = Passed \<Longrightarrow> fst (guarded env routes request w) = Returned resp \<Longrightarrow>
       w_audit (snd (guarded env routes request w)) =
         audit_dispatch (he_audit_maxsize env) anonymous (hr_method request) (hr_path request) (rp_status resp) (w_audit w)"
proof -
  let ?inner = "operation_audit_dispatch env (access_log_dispatch env (security_headers_dispatch env (trace_dispatch env routes)))"
  let ?w1 = "w\<lparr>w_ctx := fresh_ctx\<rparr>"
  let ?w2 = "?w1\<lparr>w_store := st, w_tick := Suc (w_tick w)\<rparr>"
  have fresh: "fresh_ctx\<lparr>cx_account_id := None, cx_account_type := None, cx_status_code := None, cx_duration_ms := None\<rparr> = fresh_ctx"
    "cx_client_ip fresh_ctx = None" "cx_account_id fresh_ctx = None" "audit_context_of fresh_ctx = anonymous"
    by (simp_all add: fresh_ctx_def audit_context_of_def anonymous_def)
  have fst: "fst (guarded env routes request w) = fst (rate_limit_middleware env ?inner request ?w1)"
    using fresh assms(3) by (simp add: guarded_def auth_context_dispatch_def Let_def case_prod_beta)
  have snd: "w_store (snd (guarded env routes request w)) = w_store (snd (rate_limit_middleware env ?inner request ?w1))"
    "w_audit (snd (guarded env routes request w)) = w_audit (snd (rate_limit_middleware env ?inner request ?w1))"
    using fresh assms(3) by (simp_all add: guarded_def auth_context_dispatch_def Let_def case_prod_beta call_next_snd)
  have limit: "rate_limit_middleware env ?inner request ?w1 =
      (case verdict of Too_many window_sec \<Rightarrow> (Returned (too_many_response window_sec), ?w2) | Passed \<Rightarrow> call_next env ?inner request ?w2)"
    using assms(4) fresh by (simp add: rate_limit_middleware_def split: rl_outcome.splits)
  note audited = audited[OF assms(1,2), of request ?w2]
  show "w_store (snd (guarded env routes request w)) = st"
    using audited(1) by (cases verdict) (simp_all add: snd limit call_next_snd)
  show "verdict = Too_many s \<Longrightarrow> fst (guarded env routes request w) = Returned (too_many_response s)
       \<and> w_audit (snd (guarded env routes request w)) = w_audit w"
    by (simp add: fst snd limit)
  show "verdict = Passed \<Longrightarrow> fst (guarded env routes request w) = Returned resp \<Longrightarrow>
       w_audit (snd (guarded env routes request w)) =
         audit_dispatch (he_audit_maxsize env) anonymous (hr_method request) (hr_path request) (rp_status resp) (w_audit w)"
    using audited(2) fresh by (simp add: fst snd limit call_next_snd)
qed

subsection \<open>Headers of the responses\<close>

lemma trace_returned:
  assumes "fst (trace_dispatch env app request w) = Returned resp"
  shows "map_of (rp_headers resp) (py_lower ''X-Request-Id'') = Some (request_id_of env request w)"
  using assms by (auto simp: trace_dispatch_def split: prod.splits outcome.splits)

lemma security_returned:
  assumes "fst (security_headers_dispatch env app request w) = Returned resp"
  obtains r where "fst (app request w) = Returned r"
    "map_of (rp_headers resp) = map_of (rp_headers r) ++ map_of (rev (map (\<lambda>(name, v). (py_lower name, v)) security_headers))"
  using assms by (auto simp: security_headers_dispatch_def call_next_def map_of_fold_headers split: prod.splits outcome.splits)

definition carries_headers :: "http_response \<Rightarrow> bool" where
  "carries_headers resp = (\<forall>(name, v)\<in>set security_headers. map_of (rp_headers resp) (py_lower name) = Some v)"

lemma audit_fst: "fst (operation_audit_dispatch env app request w) = fst (app request w)"
  by (auto simp: operation_audit_dispatch_def call_next_def split: prod.splits outcome.splits)

lemma guarded_headers:
  assumes "fst (guarded env routes request w) = Returned resp"
  shows "(\<exists>s. resp = too_many_response s)
     \<or> carries_headers resp \<and> (\<exists>n. map_of (rp_headers resp) ''x-request-id'' =
          Some (case rq_headers request ''x-request-id'' of None \<Rightarrow> he_uuid_hex env n | Some v \<Rightarrow> v))"
proof -
  let ?sec = "security_headers_dispatch env (trace_dispatch env routes)"
  obtain w1 where limit: "fst (rate_limit_middleware env (operation_audit_dispatch env (access_log_dispatch env ?sec)) request w1) = Returned resp"
    using assms unfolding guarded_def auth_context_dispatch_def Let_def case_prod_beta fst_conv call_next_fst by blast
  then consider s where "resp = too_many_response s" | w2 where "fst (?sec request w2) = Returned resp"
    by (auto simp: rate_limit_middleware_def audit_fst access_fst split: prod.splits rl_outcome.splits)
  then show ?thesis
  proof cases
    case 2
    then obtain r where r: "fst (trace_dispatch env routes request w2) = Returned r"
      "map_of (rp_headers resp) = map_of (rp_headers r) ++ map_of (rev (map (\<lambda>(name, v). (py_lower name, v)) security_headers))"
      by (rule security_returned)
    have "map_of (rp_headers resp) (py_lower ''X-Request-Id'') = Some (request_id_of env request w2)"
      using trace_returned[OF r(1)] security_headers_not_request_id unfolding r(2) map_add_def by simp
    moreover have "py_lower ''X-Request-Id'' = ''x-request-id''" by code_simp
    moreover have "carries_headers resp"
      unfolding carries_headers_def r(2) using security_headers_lower by (auto simp: map_add_def)
    ultimately show ?thesis by (auto simp: request_id_of_def)
  qed blast
qed

subsection \<open>Metrics and access log\<close>

text \<open>What a finished request adds to a metric.\<close>

definition request_delta :: "bool \<Rightarrow> http_request \<Rightarrow> (web_exn, http_response) outcome \<Rightarrow> metric \<times> string list \<Rightarrow> int" where
  "request_delta enabled request res key =
     (if \<not> enabled then 0
      else case res of
          Returned resp \<Rightarrow> if key = (Http_requests_total, [hr_method request, hr_path request, str_int (rp_status resp)]) then 1 else 0
        | Raised e \<Rightarrow> 0
        | Cancelled \<Rightarrow> if key = (Http_requests_in_progress, [hr_method request, hr_path request]) then 1 else 0)"

lemma access_metrics:
  assumes "routes_leave app" "http_metric m"
  shows "mx_value (snd (access_log_dispatch env app request w)) (m, labels) =
     mx_value w (m, labels) + request_delta (metrics_enabled (he_ob env)) request (fst (access_log_dispatch env app request w)) (m, labels)"
proof -
  obtain res w3 where c: "call_next env app request (access_enter env request w) = (res, w3)" by fastforce
  have "w3 = snd (call_next env app request (access_enter env request w))" by (simp add: c)
  then have w3: "mx_value w3 (m, labels) = mx_value (access_enter env request w) (m, labels)"
    using assms by (simp add: call_next_snd routes_leave_def Let_def)
  show ?thesis using c w3 assms(2)
    by (cases res) (auto simp: access_unfold request_delta_def http_metric_def)
qed

lemma access_entries:
  assumes "routes_leave app"
  shows "map (\<lambda>e. (al_method e, al_path e, al_status_code e)) (w_access (snd (access_log_dispatch env app request w))) =
     map (\<lambda>e. (al_method e, al_path e, al_status_code e)) (w_access w)
     @ (case fst (access_log_dispatch env app request w) of
          Returned resp \<Rightarrow> [(hr_method request, hr_path request, rp_status resp)] | _ \<Rightarrow> [])"
proof -
  obtain res w3 where c: "call_next env app request (access_enter env request w) = (res, w3)" by fastforce
  have "w3 = snd (call_next env app request (access_enter env request w))" by (simp add: c)
  then have w3: "w_access w3 = w_access w"
    using assms by (simp add: call_next_snd routes_leave_def Let_def access_enter_def inc_by_def)
  show ?thesis using c w3
    by (cases res) (auto simp: access_unfold inc_by_def observe_def split: if_splits)
qed

lemma guarded_metrics:
  assumes "routes_leave routes" "http_metric m"
  shows "mx_value (snd (guarded env routes request w)) (m, labels) = mx_value w (m, labels)
     \<and> (\<exists>s. fst (guarded env routes request w) = Returned (too_many_response s))
     \<or> mx_value (snd (guarded env routes request w)) (m, labels) = mx_value w (m, labels)
       + request_delta (metrics_enabled (he_ob env)) request (fst (guarded env routes request w)) (m, labels)"
proof -
  let ?acc = "access_log_dispatch env (security_headers_dispatch env (trace_dispatch env routes))"
  note acc = access_metrics[OF routes_leave_security[OF routes_leave_trace[OF assms(1)]] assms(2)]
  have audit: "mx_value (snd (operation_audit_dispatch env app request w')) = mx_value (snd (app request w'))" for app w'
    by (auto simp: operation_audit_dispatch_def call_next_def split: prod.splits outcome.splits)
  let ?w1 = "w\<lparr>w_ctx := (w_ctx w)\<lparr>cx_account_id := None, cx_account_type := None, cx_status_code := None, cx_duration_ms := None\<rparr>\<rparr>"
  let ?limit = "rate_limit_middleware env (operation_audit_dispatch env ?acc) request ?w1"
  have auth: "mx_value (snd (guarded env routes request w)) = mx_value (snd ?limit)" "fst (guarded env routes request w) = fst ?limit"
    by (simp_all add: guarded_def auth_context_dispatch_def Let_def case_prod_beta call_next_snd)
  show ?thesis unfolding auth
    by (auto simp: rate_limit_middleware_def call_next_snd audit audit_fst acc split: prod.splits rl_outcome.splits)
qed

lemma map_of_filter_key: "P k \<Longrightarrow> map_of (filter (\<lambda>(n, _). P n) hs) k = map_of hs k"
  by (induction hs) auto

lemma cors_keeps_header:
  assumes "cors_extends (Returned r) (Returned resp)" "\<not> cors_header name"
  shows "map_of (rp_headers resp) name = map_of (rp_headers r) name"
proof -
  from assms(1) have "filter (\<lambda>(n, _). \<not> cors_header n) (rp_headers resp) = filter (\<lambda>(n, _). \<not> cors_header n) (rp_headers r)"
    by auto
  with map_of_filter_key[of "\<lambda>n. \<not> cors_header n" name] assms(2) show ?thesis by metis
qed

lemma serve_guarded:
  assumes "last_added_outermost build" "cors_law cors" "\<not> preflight request"
  shows "snd (serve build env cors routes request w) = snd (guarded env routes request w)"
    "cors_extends (fst (guarded env routes request w)) (fst (serve build env cors routes request w))"
  using assms by (simp_all add: serve_nesting cors_law_def)

lemma cors_extends_returned: "cors_extends res (Returned resp) \<Longrightarrow> \<exists>r. res = Returned r \<and> rp_status resp = rp_status r"
  by (cases res) auto

lemma security_header_names: "(name, v) \<in> set security_headers \<Longrightarrow> \<not> cors_header (py_lower name)"
proof -
  have "list_all (\<lambda>(name, v). \<not> cors_header (py_lower name)) security_headers" by code_simp
  then show "(name, v) \<in> set security_headers \<Longrightarrow> \<not> cors_header (py_lower name)" by (auto simp: list_all_iff)
qed

section \<open>Properties\<close>

text \<open>No request leaves its identity behind: however the request ends, with a response, an exception or a cancellation,
  whatever the routes did to the context variables, and whether or not \<^verbatim>\<open>call_next\<close> shares them, all eleven variables
  are afterwards as before, but for the trace and span numbers, which may have been cleared.\<close>

lemma pipeline_restores_context:
  assumes "last_added_outermost build" "cors_law cors" "shares_or_isolates env"
  shows "\<exists>t s. t \<in> {cx_trace_id (w_ctx w), None} \<and> s \<in> {cx_span_id (w_ctx w), None}
     \<and> w_ctx (snd (serve build env cors routes request w)) = (w_ctx w)\<lparr>cx_trace_id := t, cx_span_id := s\<rparr>"
proof (cases "preflight request")
  case True
  then have "w_ctx (snd (serve build env cors routes request w)) = w_ctx w"
    using assms(1,2) by (simp add: serve_nesting cors_law_def)
  then show ?thesis
    by (intro exI[of _ "cx_trace_id (w_ctx w)"] exI[of _ "cx_span_id (w_ctx w)"]) simp
next
  case False
  show ?thesis unfolding serve_guarded(1)[OF assms(1,2) False] by (rule guarded_restores[OF assms(3)])
qed

definition demo_http_env :: "string http_env" where
  "demo_http_env = \<lparr>he_ob = observability_settings_default\<lparr>ob_enabled := True, ob_metrics_enabled := True\<rparr>, he_ip = demo_ip, he_trusted_proxy_ips = [], he_uuid_hex = (\<lambda>n. ''u'' @ str_int (int n)),
     he_perf_counter = of_nat, he_time = of_nat, he_span = No_otel, he_has_redis = True, he_redis_broken = False,
     he_audit_maxsize = 10, he_share = (\<lambda>before after. before)\<rparr>"

definition demo_http_request :: "string \<Rightarrow> http_request" where
  "demo_http_request host = \<lparr>rq_client_host = Some host, rq_headers = Map.empty, hr_method = ''POST'', hr_path = ''/api/v1/portal/orders''\<rparr>"

definition demo_http_world :: http_world where
  "demo_http_world = \<lparr>mx_value = (\<lambda>_. 0), mx_observed = (\<lambda>_. []), w_ctx = fresh_ctx, w_store = (\<lambda>_. zempty),
     w_audit = queue_start audit_init, w_access = [], w_tick = 0\<rparr>"

definition demo_routes :: http_app where
  "demo_routes request w = (Returned \<lparr>rp_status = 201, rp_headers = [], rp_error = None\<rparr>, w\<lparr>w_ctx := (w_ctx w)\<lparr>cx_account_id := Some ''a''\<rparr>\<rparr>)"

definition demo_cors :: "http_app \<Rightarrow> http_app" where
  "demo_cors app request w =
     (if preflight request then (Returned \<lparr>rp_status = 200, rp_headers = [], rp_error = None\<rparr>, w) else app request w)"

definition demo_build :: "(http_app \<Rightarrow> http_app) list \<Rightarrow> http_app \<Rightarrow> http_app" where
  "demo_build ms app = foldl (\<lambda>app m. m app) app ms"

lemma demo_laws:
  "last_added_outermost demo_build" "cors_law demo_cors" "isolates demo_http_env" "routes_leave demo_routes"
  "shares_or_isolates demo_http_env" "\<not> preflight (demo_http_request host)" "w_ctx demo_http_world = fresh_ctx"
proof -
  have "cors_extends res res" for res
    by (cases res) (auto intro!: exI[of _ "rp_headers r" for r])
  then show "cors_law demo_cors"
    by (simp add: cors_law_def demo_cors_def)
qed (auto simp: last_added_outermost_def demo_build_def isolates_def routes_leave_def shares_or_isolates_def preflight_def demo_http_env_def
      demo_routes_def demo_http_request_def demo_http_world_def)

lemma pipeline_restores_context_witness:
  "cx_account_id (w_ctx (snd (serve demo_build demo_http_env demo_cors demo_routes
     (demo_http_request ''10.0.0.1'') demo_http_world))) = None"
  using pipeline_restores_context[OF demo_laws(1,2,5), of demo_http_world demo_routes "demo_http_request ''10.0.0.1''"]
  by (auto simp: demo_laws(7) fresh_ctx_def)

text \<open>C21: The limiter and the audit never learn who asks. The trace middleware, which sets the client address, and the
  routes, which set the account, are nested inside both; so a request that arrives with unset variables is limited under
  the key of the unknown client, together with everybody else, and is audited without account, request number, address
  and user agent.\<close>

theorem pipeline_anonymous:
  assumes "last_added_outermost build" "cors_law cors" "isolates env" "routes_leave routes" "w_ctx w = fresh_ctx" "\<not> preflight request"
    and "rate_limit_dispatch (he_has_redis env) (he_redis_broken env) (he_time env (w_tick w)) (hr_path request) None None (w_store w)
       = (verdict, st)"
    and "serve build env cors routes request w = (res, w')"
  shows "w_store w' = st
     \<and> (\<forall>s. verdict = Too_many s \<longrightarrow> w_audit w' = w_audit w \<and> (\<exists>resp. res = Returned resp \<and> rp_status resp = 429))
     \<and> (\<forall>resp. verdict = Passed \<and> res = Returned resp \<longrightarrow>
          w_audit w' = audit_dispatch (he_audit_maxsize env) anonymous (hr_method request) (hr_path request) (rp_status resp) (w_audit w))"
proof -
  note anon = guarded_anonymous[OF assms(3,4,5,7)]
  note through = serve_guarded[OF assms(1,2,6), of env routes w, unfolded assms(8) fst_conv snd_conv]
  show ?thesis
  proof (intro conjI allI impI)
    show "w_store w' = st" using anon(1) through(1) by simp
  next
    fix s
    assume "verdict = Too_many s"
    with anon(2) have g: "fst (guarded env routes request w) = Returned (too_many_response s)"
      "w_audit (snd (guarded env routes request w)) = w_audit w" by blast+
    then show "w_audit w' = w_audit w" using through(1) by simp
    show "\<exists>resp. res = Returned resp \<and> rp_status resp = 429"
      using through(2) g(1) by (auto simp: too_many_response_def)
  next
    fix resp
    assume v: "verdict = Passed \<and> res = Returned resp"
    then obtain r where "fst (guarded env routes request w) = Returned r" "rp_status resp = rp_status r"
      using through(2) cors_extends_returned by metis
    with anon(3) v through(1) show "w_audit w' =
        audit_dispatch (he_audit_maxsize env) anonymous (hr_method request) (hr_path request) (rp_status resp) (w_audit w)" by simp
  qed
qed

theorem pipeline_anonymous_witness:
  "w_store (snd (serve demo_build demo_http_env demo_cors demo_routes (demo_http_request ''10.0.0.1'') demo_http_world))
   = w_store (snd (serve demo_build demo_http_env demo_cors demo_routes (demo_http_request ''10.0.0.2'') demo_http_world))"
proof -
  have path: "hr_path (demo_http_request h) = ''/api/v1/portal/orders''" for h by (simp add: demo_http_request_def)
  note anon = pipeline_anonymous[OF demo_laws(1,2,3,4,7,6)]
  show ?thesis
    using anon[of "''10.0.0.1''", OF prod.collapse[symmetric] prod.collapse[symmetric]]
      anon[of "''10.0.0.2''", OF prod.collapse[symmetric] prod.collapse[symmetric]]
    by (simp add: path)
qed


lemma demo_returned:
  "fst (serve demo_build (demo_http_env\<lparr>he_has_redis := False\<rparr>) demo_cors demo_routes (demo_http_request host) demo_http_world) =
     Returned (fold (\<lambda>(name, v). set_header name v) security_headers
       (set_header ''X-Request-Id'' (he_uuid_hex demo_http_env 3) \<lparr>rp_status = 201, rp_headers = [], rp_error = None\<rparr>))"
  unfolding serve_nesting[OF demo_laws(1)]
  by (simp add: demo_cors_def preflight_def guarded_def auth_context_dispatch_def rate_limit_middleware_def rate_limit_dispatch_def
      demo_http_env_def Let_def case_prod_beta audit_fst access_fst access_enter_def security_headers_dispatch_def trace_dispatch_def
      call_next_def demo_routes_def request_id_of_def trace_enter_def demo_http_request_def demo_http_world_def inc_by_def metrics_enabled_def)


text \<open>C23: The request metrics are exact for every request that ends: a response adds one to the counter of its method, path and
  status and nothing else, an exception adds nothing, and the gauge of running requests is back where it was. Only a
  cancelled request is counted as running for ever. A refusal of the limiter, which is answered further out, is not counted at all.\<close>

theorem pipeline_metrics:
  assumes "last_added_outermost build" "cors_law cors" "routes_leave routes" "\<not> preflight request" "http_metric m"
    and "serve build env cors routes request w = (res, w')"
  shows "mx_value w' (m, labels) = mx_value w (m, labels)
     \<and> (\<exists>resp. res = Returned resp \<and> rp_status resp = 429 \<and> map_of (rp_headers resp) ''retry-after'' \<noteq> None)
     \<or> mx_value w' (m, labels) = mx_value w (m, labels) + request_delta (metrics_enabled (he_ob env)) request res (m, labels)"
proof -
  note through = serve_guarded[OF assms(1,2,4), of env routes w, unfolded assms(6) fst_conv snd_conv]
  have "\<not> cors_header ''retry-after''" by code_simp
  have refused: "\<exists>resp. res = Returned resp \<and> rp_status resp = 429 \<and> map_of (rp_headers resp) ''retry-after'' \<noteq> None"
    if g: "fst (guarded env routes request w) = Returned (too_many_response s)" for s
  proof -
    from through(2) g obtain hs where res: "res = Returned ((too_many_response s)\<lparr>rp_headers := hs\<rparr>)" by auto
    from cors_keeps_header[OF through(2)[unfolded g res] \<open>\<not> cors_header ''retry-after''\<close>] show ?thesis
      unfolding res by (simp add: too_many_response_def)
  qed
  have same: "request_delta en request res key = request_delta en request (fst (guarded env routes request w)) key" for en key
    using through(2) by (cases "fst (guarded env routes request w)") (auto simp: request_delta_def)
  show ?thesis using guarded_metrics[OF assms(3,5), of env request w labels] refused unfolding through(1) same by blast
qed

theorem pipeline_metrics_witness:
  "mx_value (snd (serve demo_build (demo_http_env\<lparr>he_has_redis := False\<rparr>) demo_cors demo_routes (demo_http_request ''10.0.0.1'') demo_http_world))
     (Http_requests_total, [''POST'', ''/api/v1/portal/orders'', ''201'']) = 1"
proof -
  have "str_int 201 = ''201''" by code_simp
  then show ?thesis
    using pipeline_metrics[OF demo_laws(1,2,4,6) _ prod.collapse[symmetric], of Http_requests_total "demo_http_env\<lparr>he_has_redis := False\<rparr>"
        "''10.0.0.1''" demo_http_world "[''POST'', ''/api/v1/portal/orders'', ''201'']"]
    unfolding demo_returned
    by (simp add: http_metric_def request_delta_def demo_http_request_def metrics_enabled_def demo_http_env_def demo_http_world_def observability_settings_default_def)
qed

end
