(* ===== verification/LogFile.thy ===== *)
theory LogFile
  imports PyText Settings "HOL-Library.AList"
begin

text \<open>
  The log file handler, \<^verbatim>\<open>app/core/logger/file_handler.py\<close>: one file per day and process, renamed with a counter
  when it has grown too large.

  The log directory is an association list from paths to contents; the handler of a process is the only writer of its
  files. A file opened for appending is positioned at its end, so \<^verbatim>\<open>tell()\<close> is its length. Opening a file and renaming
  one may fail, which the environment of a call says; creating a directory has no effect on the files.
\<close>

type_synonym log_fs = "(string \<times> bytes) list"

record log_handler =
  lh_log_dir :: string
  lh_max_bytes :: int
  lh_pid :: nat
  lh_file :: "string option"
  lh_current_path :: "string option"

definition handler_init :: "observability_settings \<Rightarrow> nat \<Rightarrow> string option \<Rightarrow> log_handler" where
  "handler_init st pid log_dir = \<lparr>lh_log_dir = str_or log_dir (ob_log_dir st),
     lh_max_bytes = ob_log_file_max_mb st * 1024 * 1024, lh_pid = pid, lh_file = None, lh_current_path = None\<rparr>"

section \<open>Paths\<close>

text \<open>\<^verbatim>\<open>f"{n:02d}"\<close>\<close>

definition two_digits :: "nat \<Rightarrow> string" where
  "two_digits n = (if n < 10 then ''0'' else []) @ str_nat n"

text \<open>\<^verbatim>\<open>os.path.join\<close> with relative components.\<close>

definition join_path :: "string \<Rightarrow> string \<Rightarrow> string" where
  "join_path a b = (if a = [] \<or> last a = CHR ''/'' then a @ b else a @ ''/'' @ b)"

definition daily_path :: "log_handler \<Rightarrow> nat \<times> nat \<times> nat \<Rightarrow> string" where
  "daily_path h day =
     (case day of (year, month, d) \<Rightarrow>
        join_path (join_path (join_path (lh_log_dir h) (str_nat year)) (two_digits month))
          (two_digits d @ ''-'' @ str_nat (lh_pid h) @ ''.log''))"

definition rotated :: "string \<Rightarrow> nat \<Rightarrow> string" where
  "rotated path counter = path @ ''.'' @ str_nat counter"

lemma rotated_inj: "rotated path m = rotated path n \<Longrightarrow> m = n"
  by (auto simp: rotated_def dest: str_nat_inj)

section \<open>Files\<close>

definition log_exists :: "log_fs \<Rightarrow> string \<Rightarrow> bool" where
  "log_exists fs path = (path \<in> fst ` set fs)"

definition log_content :: "log_fs \<Rightarrow> string \<Rightarrow> bytes" where
  "log_content fs path = (case map_of fs path of None \<Rightarrow> [] | Some b \<Rightarrow> b)"

text \<open>\<^verbatim>\<open>open(path, "a")\<close> creates the file.\<close>

definition open_append :: "string \<Rightarrow> log_fs \<Rightarrow> log_fs" where
  "open_append path fs = (if log_exists fs path then fs else AList.update path [] fs)"

definition append_bytes :: "string \<Rightarrow> bytes \<Rightarrow> log_fs \<Rightarrow> log_fs" where
  "append_bytes path b fs = AList.update path (log_content fs path @ b) fs"

definition rename_file :: "string \<Rightarrow> string \<Rightarrow> log_fs \<Rightarrow> log_fs" where
  "rename_file a b fs = AList.update b (log_content fs a) (AList.delete a fs)"

text \<open>The \<^verbatim>\<open>while\<close> loop of \<^verbatim>\<open>_rotate\<close>: it ends because the directory is finite.\<close>

function free_counter :: "log_fs \<Rightarrow> string \<Rightarrow> nat \<Rightarrow> nat" where
  "free_counter fs path counter =
     (if log_exists fs (rotated path counter) then free_counter fs path (Suc counter) else counter)"
  by pat_completeness auto
termination
proof (relation "measure (\<lambda>(fs, path, counter). card {m. counter \<le> m \<and> log_exists fs (rotated path m)})", goal_cases)
  case (2 fs path counter)
  have "finite {m. counter \<le> m \<and> log_exists fs (rotated path m)}"
    by (rule finite_subset[of _ "rotated path -` (fst ` set fs)"])
      (auto simp: log_exists_def intro!: finite_vimageI injI dest: rotated_inj)
  moreover have "counter \<in> {m. counter \<le> m \<and> log_exists fs (rotated path m)}"
      "counter \<notin> {m. Suc counter \<le> m \<and> log_exists fs (rotated path m)}" using 2 by auto
  moreover have "{m. Suc counter \<le> m \<and> log_exists fs (rotated path m)} \<subseteq> {m. counter \<le> m \<and> log_exists fs (rotated path m)}"
    by auto
  ultimately show ?case by (auto intro!: psubset_card_mono simp del: mem_Collect_eq)
qed simp

declare free_counter.simps [simp del]

definition rotate :: "bool \<Rightarrow> string \<Rightarrow> log_fs \<Rightarrow> log_fs" where
  "rotate rename_ok path fs =
     (if rename_ok then rename_file path (rotated path (free_counter fs path 1)) fs else fs)"

section \<open>The handler\<close>

definition check_rollover :: "log_handler \<Rightarrow> log_fs \<Rightarrow> bool" where
  "check_rollover h fs =
     (case lh_file h of None \<Rightarrow> False | Some path \<Rightarrow> lh_max_bytes h \<le> int (length (log_content fs path)))"

definition close_file :: "log_handler \<Rightarrow> log_handler" where
  "close_file h = h\<lparr>lh_file := None\<rparr>"

text \<open>
  What the environment of a call decides: the day, whether the two calls of \<^verbatim>\<open>open\<close> succeed, whether the file can be renamed,
  and the formatted record, or that formatting or writing raised and was handed to \<^verbatim>\<open>handleError\<close>.
\<close>

record emit_env =
  ee_day :: "nat \<times> nat \<times> nat"
  ee_open_ok :: bool
  ee_reopen_ok :: bool
  ee_rename_ok :: bool
  ee_message :: "ptext option"

definition cannot_open :: exn where
  "cannot_open = OSError (asc ''cannot open the log file'')"

definition line_bytes :: "ptext \<Rightarrow> bytes" where
  "line_bytes msg = concat (map encode1 (msg @ [10]))"

text \<open>The three parts of \<^verbatim>\<open>emit\<close>: choosing the file of the day, rotating it, writing.\<close>

definition emit_open :: "emit_env \<Rightarrow> log_handler \<times> log_fs \<Rightarrow> (log_handler \<times> log_fs) \<times> exn option" where
  "emit_open e st =
     (case st of (h, fs) \<Rightarrow>
        let path = daily_path h (ee_day e) in
        if Some path = lh_current_path h then (st, None)
        else
          let h1 = (close_file h)\<lparr>lh_current_path := Some path\<rparr> in
          if ee_open_ok e then ((h1\<lparr>lh_file := Some path\<rparr>, open_append path fs), None)
          else ((h1, fs), Some cannot_open))"

definition emit_rotate :: "emit_env \<Rightarrow> log_handler \<times> log_fs \<Rightarrow> (log_handler \<times> log_fs) \<times> exn option" where
  "emit_rotate e st =
     (case st of (h, fs) \<Rightarrow>
        let path = daily_path h (ee_day e) in
        if \<not> check_rollover h fs then (st, None)
        else
          let fs1 = rotate (ee_rename_ok e) path fs in
          if ee_reopen_ok e then ((h\<lparr>lh_file := Some path\<rparr>, open_append path fs1), None)
          else ((close_file h, fs1), Some cannot_open))"

definition emit_write :: "emit_env \<Rightarrow> log_handler \<times> log_fs \<Rightarrow> log_handler \<times> log_fs" where
  "emit_write e st =
     (case st of (h, fs) \<Rightarrow>
        (case (lh_file h, ee_message e) of
           (Some path, Some msg) \<Rightarrow> (h, append_bytes path (line_bytes msg) fs)
         | _ \<Rightarrow> st))"

definition log_emit :: "emit_env \<Rightarrow> log_handler \<times> log_fs \<Rightarrow> (log_handler \<times> log_fs) \<times> exn option" where
  "log_emit e st =
     (case emit_open e st of
        (st1, Some x) \<Rightarrow> (st1, Some x)
      | (st1, None) \<Rightarrow>
          (case emit_rotate e st1 of
             (st2, Some x) \<Rightarrow> (st2, Some x)
           | (st2, None) \<Rightarrow> (emit_write e st2, None)))"

definition handler_close :: "log_handler \<Rightarrow> log_handler" where
  "handler_close h = close_file h"

section \<open>Facts\<close>

lemma map_of_delete_file: "map_of (AList.delete a fs) p = (if p = a then None else map_of fs p)"
  by (simp add: delete_conv')

lemma log_exists_map_of: "log_exists fs q \<longleftrightarrow> map_of fs q \<noteq> None"
  by (simp add: log_exists_def map_of_eq_None_iff)

lemma log_content_simps:
  "log_content (append_bytes path b fs) q = (if q = path then log_content fs path @ b else log_content fs q)"
  "log_content (open_append path fs) q = log_content fs q"
  "log_content (rename_file a c fs) q = (if q = c then log_content fs a else if q = a then [] else log_content fs q)"
  by (auto simp: log_content_def append_bytes_def open_append_def rename_file_def update_conv' map_of_delete_file
      log_exists_map_of)

lemma log_exists_simps:
  "log_exists (append_bytes path b fs) q \<longleftrightarrow> q = path \<or> log_exists fs q"
  "log_exists (open_append path fs) q \<longleftrightarrow> q = path \<or> log_exists fs q"
  "log_exists (rename_file a c fs) q \<longleftrightarrow> q = c \<or> (q \<noteq> a \<and> log_exists fs q)"
  by (auto simp: append_bytes_def open_append_def rename_file_def update_conv' map_of_delete_file log_exists_map_of)

subsection \<open>Names\<close>

lemma dot_not_digit: "CHR ''.'' \<notin> set (str_nat n)"
  using str_nat_digits[of n] by (auto simp: digits_def)

lemma rotated_eq_iff: "rotated p m = rotated q n \<longleftrightarrow> p = q \<and> m = n"
proof
  assume eq: "rotated p m = rotated q n"
  have parts: "takeWhile (\<lambda>c. c \<noteq> CHR ''.'') (rev (rotated r i)) = rev (str_nat i)"
      "dropWhile (\<lambda>c. c \<noteq> CHR ''.'') (rev (rotated r i)) = CHR ''.'' # rev r" for r i
    using dot_not_digit[of i] by (simp_all add: rotated_def takeWhile_append dropWhile_append)
  show "p = q \<and> m = n"
    using parts[of p m] parts[of q n] eq str_nat_inj by auto
qed simp

definition daily :: "string \<Rightarrow> bool" where
  "daily p = endswith p ''.log''"

lemma daily_path_daily: "daily (daily_path h day)"
proof -
  have "join_path a (b @ c) = join_path a b @ c" for a b c by (simp add: join_path_def)
  then show ?thesis unfolding daily_def daily_path_def by (metis (no_types, lifting) append.assoc case_prod_beta endswith_append)
qed

lemma rotated_not_daily: "\<not> daily (rotated p n)"
proof
  assume "daily (rotated p n)"
  then obtain s where "rotated p n = s @ ''.log''" unfolding daily_def endswith_def by (metis append_take_drop_id)
  then have "last (rotated p n) = CHR ''g''" by simp
  moreover have "last (rotated p n) \<in> set (str_nat n)" by (simp add: rotated_def)
  ultimately show False using str_nat_digits[of n] by (auto simp: digits_def)
qed

lemma daily_neq_rotated [simp]: "daily p \<Longrightarrow> p \<noteq> rotated q n" "daily p \<Longrightarrow> rotated q n \<noteq> p"
  using rotated_not_daily by auto

subsection \<open>The log of a day\<close>

text \<open>The rotated files in the order of their counters, then the current one.\<close>

definition rotated_files :: "log_fs \<Rightarrow> string \<Rightarrow> string list" where
  "rotated_files fs p = map (rotated p) [1..<free_counter fs p 1]"

definition day_log :: "log_fs \<Rightarrow> string \<Rightarrow> bytes" where
  "day_log fs p = concat (map (log_content fs) (rotated_files fs p)) @ log_content fs p"

text \<open>The counters of a path are used without gaps.\<close>

definition no_gaps :: "log_fs \<Rightarrow> string \<Rightarrow> nat \<Rightarrow> bool" where
  "no_gaps fs p k = (\<forall>m. log_exists fs (rotated p m) \<longleftrightarrow> 1 \<le> m \<and> m \<le> k)"

lemma free_counter_no_gaps:
  assumes "no_gaps fs p k"
  shows "free_counter fs p 1 = Suc k"
proof -
  have "free_counter fs p c = Suc k" if "1 \<le> c" "c \<le> Suc k" for c
    using that
  proof (induction "Suc k - c" arbitrary: c)
    case 0
    then show ?case using assms by (subst free_counter.simps) (auto simp: no_gaps_def)
  next
    case (Suc n)
    then have "free_counter fs p (Suc c) = Suc k" by auto
    moreover have "log_exists fs (rotated p c)" using Suc assms by (auto simp: no_gaps_def)
    ultimately show ?case by (subst free_counter.simps) simp
  qed
  then show ?thesis by simp
qed

lemma free_counter_cong:
  "(\<And>m. log_exists fs (rotated p m) = log_exists fs' (rotated p m)) \<Longrightarrow> free_counter fs p c = free_counter fs' p c"
proof (induction fs p c rule: free_counter.induct)
  case (1 fs p c)
  then show ?case by (subst (1 2) free_counter.simps) simp
qed

lemma day_log_append:
  assumes "daily p" "daily q"
  shows "day_log (append_bytes q b fs) p = (if p = q then day_log fs p @ b else day_log fs p)"
proof -
  have "free_counter (append_bytes q b fs) p 1 = free_counter fs p 1"
    by (rule free_counter_cong) (simp add: log_exists_simps assms)
  then show ?thesis by (simp add: day_log_def rotated_files_def log_content_simps assms comp_def)
qed

lemma day_log_open:
  assumes "daily p" "daily q"
  shows "day_log (open_append q fs) p = day_log fs p"
proof -
  have "free_counter (open_append q fs) p 1 = free_counter fs p 1"
    by (rule free_counter_cong) (simp add: log_exists_simps assms)
  then show ?thesis by (simp add: day_log_def rotated_files_def log_content_simps comp_def)
qed

lemma no_gaps_renamed: "daily q \<Longrightarrow> no_gaps fs q k \<Longrightarrow> no_gaps (rename_file q (rotated q (Suc k)) fs) q (Suc k)"
  unfolding no_gaps_def log_exists_simps rotated_eq_iff by (simp add: le_Suc_eq) auto

lemma rotate_day_log:
  assumes "daily p" "daily q" "no_gaps fs q k"
  shows "day_log (rotate ok q fs) p = day_log fs p"
proof (cases "ok \<and> p = q")
  case True
  let ?fs = "rename_file q (rotated q (Suc k)) fs"
  have r: "rotate ok q fs = ?fs" using True free_counter_no_gaps[OF assms(3)] by (simp add: rotate_def)
  from no_gaps_renamed[OF assms(2,3)] have "rotated_files ?fs q = rotated_files fs q @ [rotated q (Suc k)]"
    using free_counter_no_gaps assms(3) by (simp add: rotated_files_def)
  moreover have "map (log_content ?fs) (rotated_files fs q) = map (log_content fs) (rotated_files fs q)"
    using free_counter_no_gaps[OF assms(3)] assms(2) by (auto simp: rotated_files_def log_content_simps rotated_eq_iff)
  ultimately show ?thesis
    unfolding r using True assms(2) by (simp add: day_log_def log_content_simps del: map_eq_conv)
next
  case False
  have "free_counter (rotate ok q fs) p 1 = free_counter fs p 1"
    using False assms by (intro free_counter_cong) (auto simp: rotate_def log_exists_simps rotated_eq_iff)
  moreover have "log_content (rotate ok q fs) (rotated p m) = log_content fs (rotated p m)" for m
    using False assms(1,2) by (auto simp: rotate_def log_content_simps rotated_eq_iff)
  moreover have "log_content (rotate ok q fs) p = log_content fs p"
    using False assms(1) by (auto simp: rotate_def log_content_simps)
  ultimately show ?thesis by (simp add: day_log_def rotated_files_def comp_def)
qed

lemma no_gaps_rotate:
  assumes "daily p" "daily q" "no_gaps fs p j" "no_gaps fs q k"
  shows "\<exists>j. no_gaps (rotate ok q fs) p j"
proof (cases "ok \<and> p = q")
  case True
  show ?thesis using no_gaps_renamed[OF assms(2,4)] True free_counter_no_gaps[OF assms(4)] by (auto simp: rotate_def)
next
  case False
  then have "log_exists (rotate ok q fs) (rotated p m) = log_exists fs (rotated p m)" for m
    using assms(1,2) by (auto simp: rotate_def log_exists_simps rotated_eq_iff)
  then show ?thesis using assms(3) by (auto simp: no_gaps_def)
qed

subsection \<open>Runs of the handler\<close>

fun log_run :: "emit_env list \<Rightarrow> log_handler \<times> log_fs \<Rightarrow> log_handler \<times> log_fs" where
  "log_run [] st = st"
| "log_run (e # es) st = log_run es (fst (log_emit e st))"

text \<open>The lines a list of calls writes for a path.\<close>

definition lines_for :: "log_handler \<Rightarrow> string \<Rightarrow> emit_env list \<Rightarrow> bytes" where
  "lines_for h p es =
     concat (map (\<lambda>e. if daily_path h (ee_day e) = p then (case ee_message e of None \<Rightarrow> [] | Some msg \<Rightarrow> line_bytes msg) else []) es)"

definition handler_inv :: "log_handler \<times> log_fs \<Rightarrow> bool" where
  "handler_inv st =
     (case st of (h, fs) \<Rightarrow>
        lh_file h = lh_current_path h \<and> (\<forall>p. daily p \<longrightarrow> (\<exists>k. no_gaps fs p k)) \<and> (\<forall>p. lh_file h = Some p \<longrightarrow> daily p))"

lemma daily_path_cong [simp]:
  "daily_path (h\<lparr>lh_file := f\<rparr>) day = daily_path h day"
  "daily_path (h\<lparr>lh_current_path := f\<rparr>) day = daily_path h day"
  by (simp_all add: daily_path_def)

lemma no_gaps_open: "daily p \<Longrightarrow> daily q \<Longrightarrow> no_gaps (open_append q fs) p = no_gaps fs p"
  by (simp add: fun_eq_iff no_gaps_def log_exists_simps)

lemma no_gaps_append: "daily p \<Longrightarrow> daily q \<Longrightarrow> no_gaps (append_bytes q b fs) p = no_gaps fs p"
  by (simp add: fun_eq_iff no_gaps_def log_exists_simps)

text \<open>After the first part of a call the file of the day is open; no log has changed.\<close>

lemma emit_open_inv:
  assumes "emit_open e (h, fs) = ((h1, fs1), x)" "handler_inv (h, fs)" "ee_open_ok e"
  shows "x = None \<and> handler_inv (h1, fs1) \<and> lh_file h1 = Some (daily_path h (ee_day e)) \<and> daily_path h1 = daily_path h
    \<and> (\<forall>p. daily p \<longrightarrow> day_log fs1 p = day_log fs p)"
  using assms daily_path_daily[of h "ee_day e"]
  by (auto simp: emit_open_def handler_inv_def close_file_def Let_def no_gaps_open day_log_open fun_eq_iff split: if_splits)

lemma emit_rotate_inv:
  assumes "emit_rotate e (h, fs) = ((h1, fs1), x)" "handler_inv (h, fs)" "ee_reopen_ok e" "lh_file h = Some (daily_path h (ee_day e))"
  shows "x = None \<and> handler_inv (h1, fs1) \<and> lh_file h1 = Some (daily_path h (ee_day e)) \<and> daily_path h1 = daily_path h
    \<and> (\<forall>p. daily p \<longrightarrow> day_log fs1 p = day_log fs p)"
proof -
  let ?q = "daily_path h (ee_day e)"
  have q: "daily ?q" by (rule daily_path_daily)
  then obtain k where k: "no_gaps fs ?q k" using assms(2) by (auto simp: handler_inv_def)
  have "\<exists>j. no_gaps (open_append ?q (rotate (ee_rename_ok e) ?q fs)) p j" if p: "daily p" for p
    using no_gaps_rotate[OF p q _ k] assms(2) p q by (auto simp: handler_inv_def no_gaps_open)
  with q k assms show ?thesis
    by (auto simp: emit_rotate_def Let_def handler_inv_def fun_eq_iff day_log_open rotate_day_log split: if_splits)
qed

lemma log_emit_inv:
  assumes "handler_inv (h, fs)" "ee_open_ok e" "ee_reopen_ok e" "log_emit e (h, fs) = ((h', fs'), x)"
  shows "x = None \<and> handler_inv (h', fs') \<and> daily_path h' = daily_path h
    \<and> (\<forall>p. daily p \<longrightarrow> day_log fs' p = day_log fs p @ lines_for h p [e])"
proof -
  obtain h1 fs1 x1 where o: "emit_open e (h, fs) = ((h1, fs1), x1)" by (metis prod.collapse)
  note op = emit_open_inv[OF o assms(1,2)]
  obtain h2 fs2 x2 where r: "emit_rotate e (h1, fs1) = ((h2, fs2), x2)" by (metis prod.collapse)
  have "lh_file h1 = Some (daily_path h1 (ee_day e))" using op by simp
  note ro = emit_rotate_inv[OF r _ assms(3) this]
  let ?q = "daily_path h (ee_day e)"
  have "(h', fs') = emit_write e (h2, fs2)" "x = None" using assms(4) o r op ro by (simp_all add: log_emit_def)
  moreover have "lh_file h2 = Some ?q" "daily ?q" using op ro daily_path_daily by auto
  ultimately show ?thesis
    using op ro by (cases "ee_message e")
      (auto simp: emit_write_def handler_inv_def lines_for_def day_log_append no_gaps_append)
qed

lemma log_run_lossless:
  assumes "handler_inv (h, fs)" "\<forall>e\<in>set es. ee_open_ok e \<and> ee_reopen_ok e" "daily p"
  shows "day_log (snd (log_run es (h, fs))) p = day_log fs p @ lines_for h p es"
  using assms(1,2)
proof (induction es arbitrary: h fs)
  case (Cons e es)
  obtain h1 fs1 x where e: "log_emit e (h, fs) = ((h1, fs1), x)" by (metis prod.collapse)
  note inv = log_emit_inv[OF Cons.prems(1) _ _ e]
  from inv Cons.prems(2) Cons.IH[of h1 fs1] assms(3) e show ?case by (simp add: lines_for_def)
qed (simp add: lines_for_def)

subsection \<open>Sizes\<close>

definition sized :: "int \<Rightarrow> log_handler \<times> log_fs \<Rightarrow> bool" where
  "sized limit st = (\<forall>q. int (length (log_content (snd st) q)) < lh_max_bytes (fst st) + limit)"

lemma emit_sized:
  assumes "handler_inv (h, fs)" "sized limit (h, fs)" "0 < lh_max_bytes h" "0 \<le> limit"
    and "ee_open_ok e" "ee_reopen_ok e" "ee_rename_ok e"
    and "\<forall>msg. ee_message e = Some msg \<longrightarrow> int (length (line_bytes msg)) \<le> limit"
    and "log_emit e (h, fs) = ((h', fs'), x)"
  shows "sized limit (h', fs') \<and> lh_max_bytes h' = lh_max_bytes h"
proof -
  let ?q = "daily_path h (ee_day e)"
  obtain h1 fs1 x1 where o: "emit_open e (h, fs) = ((h1, fs1), x1)" by (metis prod.collapse)
  note op = emit_open_inv[OF o assms(1,5)]
  have s1: "sized limit (h1, fs1)" "lh_max_bytes h1 = lh_max_bytes h"
    using o assms(2) by (auto simp: emit_open_def close_file_def Let_def sized_def log_content_simps split: if_splits)
  obtain h2 fs2 x2 where r: "emit_rotate e (h1, fs1) = ((h2, fs2), x2)" by (metis prod.collapse)
  have opened: "lh_file h1 = Some (daily_path h1 (ee_day e))" using op by simp
  note ro = emit_rotate_inv[OF r _ assms(6) opened]
  have s2: "sized limit (h2, fs2) \<and> lh_max_bytes h2 = lh_max_bytes h \<and> int (length (log_content fs2 ?q)) < lh_max_bytes h"
    using r op s1 assms(3,4,6,7) daily_path_daily[of h "ee_day e"]
    by (auto simp: emit_rotate_def check_rollover_def Let_def rotate_def sized_def log_content_simps split: if_splits)
  have "(h', fs') = emit_write e (h2, fs2)" using assms(9) o r op ro by (simp add: log_emit_def)
  moreover have "lh_file h2 = Some ?q" using op ro by simp
  ultimately show ?thesis
    using s2 assms(8) by (cases "ee_message e") (auto simp: emit_write_def sized_def log_content_simps)
qed

lemma log_run_sized:
  assumes "handler_inv (h, fs)" "sized limit (h, fs)" "0 < lh_max_bytes h" "0 \<le> limit"
    and "\<forall>e\<in>set es. ee_open_ok e \<and> ee_reopen_ok e \<and> ee_rename_ok e
           \<and> (\<forall>msg. ee_message e = Some msg \<longrightarrow> int (length (line_bytes msg)) \<le> limit)"
  shows "int (length (log_content (snd (log_run es (h, fs))) q)) < lh_max_bytes h + limit"
  using assms
proof (induction es arbitrary: h fs)
  case Nil
  then show ?case by (simp add: sized_def)
next
  case (Cons e es)
  obtain h1 fs1 x where e: "log_emit e (h, fs) = ((h1, fs1), x)" by (metis prod.collapse)
  have "sized limit (h1, fs1) \<and> lh_max_bytes h1 = lh_max_bytes h" using Cons.prems e by (intro emit_sized) auto
  moreover have "handler_inv (h1, fs1)" using log_emit_inv[OF Cons.prems(1) _ _ e] Cons.prems(5) by simp
  ultimately show ?case using Cons.IH[of h1 fs1] Cons.prems e by simp
qed

text \<open>When the file of a new day cannot be opened, the handler raises once and then drops every record of the day in silence.\<close>

lemma log_silent_after_failure:
  assumes "\<not> ee_open_ok e" "Some (daily_path h (ee_day e)) \<noteq> lh_current_path h" "ee_day e' = ee_day e"
    and "log_emit e (h, fs) = (st, x)"
  shows "x = Some cannot_open \<and> snd st = fs \<and> log_emit e' st = (st, None)"
  using assms
  by (auto simp: log_emit_def emit_open_def Let_def close_file_def emit_rotate_def check_rollover_def emit_write_def)

text \<open>A handler that starts with an empty directory.\<close>

lemma handler_init_inv: "handler_inv (handler_init st pid log_dir, [])"
  by (auto simp: handler_inv_def handler_init_def no_gaps_def log_exists_def intro!: exI[of _ 0])

lemma log_run_day:
  assumes "\<forall>e\<in>set es. ee_open_ok e \<and> ee_reopen_ok e" "h = handler_init st pid log_dir"
  shows "day_log (snd (log_run es (h, []))) (daily_path h day) = lines_for h (daily_path h day) es"
proof -
  have "day_log [] p = []" for p
    by (simp add: day_log_def rotated_files_def free_counter.simps log_exists_def log_content_def)
  then show ?thesis
    using log_run_lossless[OF handler_init_inv[of st pid log_dir] assms(1) daily_path_daily] assms(2) by simp
qed

section \<open>Properties\<close>

text \<open>C20: Rotation loses nothing. When the files can be opened, then for every day the rotated files in the order of their
  counters followed by the current file hold exactly the lines emitted on that day, in order, whether renaming worked or
  not; and when it always worked, no file is longer than the limit plus the longest line.\<close>

theorem log_rotation_lossless:
  assumes "h = handler_init st pid log_dir" "0 < ob_log_file_max_mb st"
    and "\<forall>e\<in>set es. ee_open_ok e \<and> ee_reopen_ok e"
  shows "day_log (snd (log_run es (h, []))) (daily_path h day) = lines_for h (daily_path h day) es
     \<and> ((\<forall>e\<in>set es. ee_rename_ok e \<and> (\<forall>msg. ee_message e = Some msg \<longrightarrow> int (length (line_bytes msg)) \<le> limit)) \<and> 0 \<le> limit
          \<longrightarrow> (\<forall>q. int (length (log_content (snd (log_run es (h, []))) q)) < ob_log_file_max_mb st * 1024 * 1024 + limit))"
proof -
  have "sized limit (h, [])" if "0 \<le> limit"
    using assms(1,2) that by (simp add: sized_def log_content_def handler_init_def)
  then show ?thesis
    using log_run_day[OF assms(3,1)] log_run_sized[OF handler_init_inv[of st pid log_dir], of limit es] assms
    by (auto simp: handler_init_def)
qed

definition demo_emit :: "bool \<Rightarrow> emit_env" where
  "demo_emit ok = \<lparr>ee_day = (2025, 1, 2), ee_open_ok = True, ee_reopen_ok = True, ee_rename_ok = ok, ee_message = Some [104]\<rparr>"

theorem log_rotation_lossless_witness:
  "day_log (snd (log_run [demo_emit True, demo_emit False] (handler_init observability_settings_default 7 None, [])))
       (daily_path (handler_init observability_settings_default 7 None) (2025, 1, 2)) = [104, 10, 104, 10]"
  using log_rotation_lossless[OF refl, of "observability_settings_default" "[demo_emit True, demo_emit False]"
      7 None "(2025, 1, 2)" 0]
  by (simp add: demo_emit_def lines_for_def line_bytes_def encode1_def observability_settings_default_def)

end
