(* ===== verification/Logging.thy ===== *)
theory Logging
  imports HttpPipeline Json LogFile
begin

text \<open>
  Logging and tracing set-up: \<^verbatim>\<open>app/core/logger/\<close> and \<^verbatim>\<open>app/platform/observability/\<close>. The formatters turn a record and the
  context variables of the request into a line; \<^verbatim>\<open>setup_logging\<close> installs the handlers of the root logger, one of which is
  the file handler. A record of the logging package is its level, logger name, rendered message and rendered exception.
\<close>

section \<open>context.py and formatter.py\<close>

record log_record =
  lr_levelname :: string
  lr_name :: string
  lr_message :: ptext
  lr_exception :: "ptext option"

definition text_or_null :: "string option \<Rightarrow> json" where
  "text_or_null x = (case x of None \<Rightarrow> J_null | Some s \<Rightarrow> J_str (asc s))"

definition get_log_context :: "http_ctx \<Rightarrow> (ptext \<times> json) list" where
  "get_log_context cx =
     [(asc ''request_id'', text_or_null (cx_request_id cx)),
      (asc ''trace_id'', text_or_null (cx_trace_id cx)),
      (asc ''span_id'', text_or_null (cx_span_id cx)),
      (asc ''account_id'', text_or_null (cx_account_id cx)),
      (asc ''account_type'', text_or_null (cx_account_type cx)),
      (asc ''method'', text_or_null (cx_request_method cx)),
      (asc ''path'', text_or_null (cx_request_path cx)),
      (asc ''status_code'', case cx_status_code cx of None \<Rightarrow> J_null | Some n \<Rightarrow> J_int n),
      (asc ''duration_ms'', case cx_duration_ms cx of None \<Rightarrow> J_null | Some x \<Rightarrow> J_float (Finite x))]"

definition get_request_id :: "http_ctx \<Rightarrow> string option" where
  "get_request_id cx = cx_request_id cx"

text \<open>
  \<^verbatim>\<open>RequestFormatter.format\<close> with the format string of \<^verbatim>\<open>build_log_formatter\<close>: the attributes it sets, and the line. A rendered
  exception follows on lines of its own.
\<close>

record request_attributes =
  ra_request_id :: string
  ra_trace_id :: string
  ra_span_id :: string

definition request_attributes_of :: "http_ctx \<Rightarrow> request_attributes" where
  "request_attributes_of cx = \<lparr>ra_request_id = str_or (get_request_id cx) ''-'', ra_trace_id = str_or (cx_trace_id cx) ''-'',
     ra_span_id = str_or (cx_span_id cx) ''-''\<rparr>"

definition request_format :: "string \<Rightarrow> http_ctx \<Rightarrow> log_record \<Rightarrow> ptext" where
  "request_format asctime cx r =
     (let s = asc (asctime @ '' '' @ lr_levelname r @ '' ['' @ ra_request_id (request_attributes_of cx) @ ''] '' @ lr_name r @ '': '') @ lr_message r
      in case lr_exception r of
           None \<Rightarrow> s
         | Some e \<Rightarrow> if e = [] then s else s @ (if drop (length s - 1) s = [10] then [] else [10]) @ e)"

section \<open>logging.py\<close>

text \<open>The payload of a JSON line; \<open>timestamp\<close> is the current time as ISO 8601.\<close>

definition json_payload :: "string \<Rightarrow> http_ctx \<Rightarrow> log_record \<Rightarrow> (ptext \<times> json) list" where
  "json_payload timestamp cx r =
     dict_of ([(asc ''timestamp'', J_str (asc timestamp)), (asc ''level'', J_str (asc (lr_levelname r))),
       (asc ''logger'', J_str (asc (lr_name r))), (asc ''message'', J_str (lr_message r))]
       @ get_log_context cx
       @ (case lr_exception r of None \<Rightarrow> [] | Some e \<Rightarrow> [(asc ''exception'', J_str e)]))"

definition json_format :: "(pyfloat \<Rightarrow> string) \<Rightarrow> string \<Rightarrow> http_ctx \<Rightarrow> log_record \<Rightarrow> ptext" where
  "json_format float_repr timestamp cx r = json_dumps float_repr (J_dict (json_payload timestamp cx r))"

datatype log_formatter = Json_log_formatter | Request_formatter

definition build_log_formatter :: "observability_settings \<Rightarrow> log_formatter" where
  "build_log_formatter ob = (if ob_enabled ob \<and> ob_log_json ob then Json_log_formatter else Request_formatter)"

section \<open>setup.py\<close>

datatype root_handler = Stream_handler log_formatter | File_handler string log_formatter | Other_handler

record root_logger =
  rl_handlers :: "root_handler list"
  rl_level :: int

fun is_stream :: "root_handler \<Rightarrow> bool" where
  "is_stream (Stream_handler f) = True"
| "is_stream h = False"

definition log_levels :: "(string \<times> int) list" where
  "log_levels = [(''CRITICAL'', 50), (''FATAL'', 50), (''ERROR'', 40), (''WARNING'', 30), (''WARN'', 30), (''INFO'', 20),
     (''DEBUG'', 10), (''NOTSET'', 0)]"

text \<open>
  \<^verbatim>\<open>cwd\<close> is the working directory. Creating the file handler touches no file; a failure would only be logged. Attributes of
  the logging module in capitals that are not levels (its format strings) are left out.
\<close>

definition setup_logging :: "observability_settings \<Rightarrow> string \<Rightarrow> root_logger \<Rightarrow> root_logger" where
  "setup_logging ob cwd logger =
     (let hs = (if list_ex is_stream (rl_handlers logger) then rl_handlers logger
                else rl_handlers logger @ [Stream_handler (build_log_formatter ob)]);
          dir = (if startswith (ob_log_dir ob) ''/'' then ob_log_dir ob else cwd @ ''/'' @ ob_log_dir ob)
      in \<lparr>rl_handlers = (if ob_log_dir ob \<noteq> [] then hs @ [File_handler dir (build_log_formatter ob)] else hs),
          rl_level = (case map_of log_levels (py_upper (ob_log_level ob)) of Some l \<Rightarrow> l | None \<Rightarrow> 20)\<rparr>)"

section \<open>tracing.py and manager.py\<close>

definition tracing_enabled :: "observability_settings \<Rightarrow> bool" where
  "tracing_enabled ob = (ob_enabled ob \<and> ob_tracing_enabled ob)"

text \<open>What \<^verbatim>\<open>init_tracing\<close> asks of OpenTelemetry.\<close>

datatype trace_action =
    Warn_missing_packages
  | Export_to string
  | Warn_empty_endpoint
  | Set_provider string string string rat
  | Instrument_app
  | Instrument_httpx

definition init_tracing :: "observability_settings \<Rightarrow> bool \<Rightarrow> bool \<Rightarrow> bool \<Rightarrow> bool \<times> trace_action list" where
  "init_tracing ob has_packages has_app initialized =
     (if initialized \<or> \<not> tracing_enabled ob then (initialized, [])
      else if \<not> has_packages then (initialized, [Warn_missing_packages])
      else
        (True,
         (if ob_otlp_enabled ob \<and> ob_otlp_endpoint ob \<noteq> []
          then [Export_to (rstrip_by (\<lambda>c. c = CHR ''/'') (ob_otlp_endpoint ob) @ ''/v1/traces'')]
          else if ob_otlp_enabled ob then [Warn_empty_endpoint] else [])
         @ [Set_provider (ob_service_name ob) (ob_service_version ob) (ob_environment ob) (ob_sample_ratio ob)]
         @ (if has_app then [Instrument_app] else [])
         @ (if ob_http_client_observability_enabled ob then [Instrument_httpx] else [])))"

text \<open>The routes \<^verbatim>\<open>setup_observability\<close> adds.\<close>

definition setup_observability :: "observability_settings \<Rightarrow> bool \<Rightarrow> bool \<Rightarrow> bool \<times> trace_action list \<times> string list" where
  "setup_observability ob has_packages initialized =
     (case (if ob_enabled ob then init_tracing ob has_packages True initialized else (initialized, [])) of
        (i, actions) \<Rightarrow> (i, actions, if metrics_enabled ob then [ob_metrics_path ob] else []))"

section \<open>Facts\<close>

definition printable :: "nat \<Rightarrow> bool" where
  "printable c = (32 \<le> c \<and> c \<le> 126)"

lemma printable_hex: "printable (hex_char d)" if "d < 16" for d
  using that by (auto simp: hex_char_def printable_def)

lemma printable_print_u: "list_all printable (print_u u)"
  by (simp add: print_u_def print_hex4_def printable_hex printable_def[of 92] printable_def[of 117])

lemma printable_escape: "list_all printable (escape_char c)"
  using printable_print_u by (auto simp: escape_char_def) (simp_all add: printable_def)

lemma printable_dump_str: "list_all printable (dump_str t)"
  using printable_escape by (auto simp: dump_str_def list_all_iff) (simp_all add: printable_def)

lemma printable_str_int: "list_all printable (asc (str_int i))"
proof -
  have "list_all printable (asc (str_nat n))" for n
    using digits_str_nat[of n] by (auto simp: list_all_iff is_digit_def printable_def)
  then show ?thesis by (simp add: str_int_def asc_def printable_def[of 45])
qed

lemma printable_join: "list_all printable sep \<Longrightarrow> list_all (list_all printable) ws \<Longrightarrow> list_all printable (join_with sep ws)"
  by (induction sep ws rule: join_with.induct) auto

text \<open>A JSON text is printable ASCII, whatever the strings in it are.\<close>

lemma printable_asc_words:
  "list_all printable (asc ''null'')" "list_all printable (asc ''true'')" "list_all printable (asc ''false'')"
  "list_all printable (asc '', '')" "list_all printable (asc '': '')"
  by (simp_all add: asc_def printable_def)

lemma printable_dumps:
  assumes "\<And>x. list_all printable (asc (fr x))"
  shows "list_all printable (json_dumps fr v)"
  using assms
proof (induction fr v rule: json_dumps.induct)
  case (6 fr vs)
  then show ?case
    by (auto intro!: printable_join simp: printable_asc_words list_all_iff[of "list_all printable"] printable_def[of 91] printable_def[of 93])
next
  case (7 fr ps)
  then have "list_all (list_all printable) (map (\<lambda>(k, v). dump_str k @ asc '': '' @ json_dumps fr v) ps)"
    by (fastforce simp: list_all_iff[of "list_all printable"] printable_dump_str printable_asc_words)
  then show ?case
    using printable_join printable_asc_words(4) by (simp add: printable_def[of 123] printable_def[of 125])
qed (simp_all add: printable_str_int printable_dump_str printable_asc_words)

text \<open>The keys of a payload are different, and the context cannot replace the message.\<close>

definition payload_list :: "string \<Rightarrow> http_ctx \<Rightarrow> log_record \<Rightarrow> (ptext \<times> json) list" where
  "payload_list timestamp cx r =
     [(asc ''timestamp'', J_str (asc timestamp)), (asc ''level'', J_str (asc (lr_levelname r))),
       (asc ''logger'', J_str (asc (lr_name r))), (asc ''message'', J_str (lr_message r))]
       @ get_log_context cx @ (case lr_exception r of None \<Rightarrow> [] | Some e \<Rightarrow> [(asc ''exception'', J_str e)])"

lemma payload_list_distinct: "distinct (map fst (payload_list timestamp cx r))"
proof -
  let ?keys = "map asc ([''timestamp'', ''level'', ''logger'', ''message'', ''request_id'', ''trace_id'', ''span_id'', ''account_id'',
    ''account_type'', ''method'', ''path'', ''status_code'', ''duration_ms''] @ (if lr_exception r = None then [] else [''exception'']))"
  have "distinct ?keys" by (cases "lr_exception r = None") (simp_all only: if_True if_False simp_thms, code_simp+)
  then show ?thesis unfolding payload_list_def
    by (cases "lr_exception r"; simp only: get_log_context_def option.simps list.map append.simps fst_conv if_True if_False simp_thms)
qed

lemma json_payload_list: "json_payload timestamp cx r = payload_list timestamp cx r"
  using dict_of_distinct[OF payload_list_distinct] by (simp add: json_payload_def payload_list_def)

definition recoverable :: "http_ctx \<Rightarrow> log_record \<Rightarrow> bool" where
  "recoverable cx r = (list_all scalar (lr_message r) \<and> (case lr_exception r of None \<Rightarrow> True | Some e \<Rightarrow> list_all scalar e)
     \<and> cx_duration_ms cx = None \<and> (case cx_status_code cx of None \<Rightarrow> True | Some n \<Rightarrow> 0 \<le> n \<and> n < 1000))"

lemma small_int_plain: "0 \<le> n \<Longrightarrow> n < 1000 \<Longrightarrow> json_plain (J_int n)"
proof -
  have "length (str_nat m) \<le> 3" if "m < 1000" for m
    using that by (simp add: str_nat.simps[of m] str_nat.simps[of "m div 10"] str_nat.simps[of "m div 10 div 10"])
  then show "0 \<le> n \<Longrightarrow> n < 1000 \<Longrightarrow> json_plain (J_int n)" using le_trans[of "length (str_nat (nat n))" 3 4300] by simp
qed

lemma payload_plain:
  assumes "recoverable cx r"
  shows "json_plain (J_dict (json_payload timestamp cx r))"
proof -
  have tn: "json_plain (text_or_null x)" for x by (simp add: text_or_null_def scalar_asc split: option.splits)
  have "list_all (\<lambda>(k, v). list_all scalar k \<and> json_plain v) (payload_list timestamp cx r)"
    using assms small_int_plain by (auto simp: payload_list_def get_log_context_def tn scalar_asc recoverable_def split: option.splits)
  then show ?thesis using payload_list_distinct[of timestamp cx r] by (simp add: json_payload_list)
qed

section \<open>Lines\<close>

definition file_lines :: "bytes \<Rightarrow> bytes list" where
  "file_lines b = butlast (split_on 10 b)"

lemma split_lines: "\<forall>t\<in>set ts. (10 :: nat) \<notin> set t \<Longrightarrow> split_on 10 (concat (map (\<lambda>t. t @ [10]) ts)) = ts @ [[]]"
proof (induction ts)
  case (Cons t ts)
  have "split_on c (t @ c # rest) = t # split_on c rest" if "c \<notin> set t" for c :: nat and t rest
    using that by (induction t) auto
  with Cons show ?case by simp
qed simp

lemma line_bytes_printable: "list_all printable t \<Longrightarrow> line_bytes t = t @ [10]"
proof -
  assume "list_all printable t"
  then have "concat (map encode1 t) = t" by (induction t) (auto simp: encode1_def printable_def)
  then show "line_bytes t = t @ [10]" by (simp add: line_bytes_def encode1_def)
qed

text \<open>A call of the file handler with a JSON line.\<close>

record json_call =
  jc_day :: "nat \<times> nat \<times> nat"
  jc_timestamp :: string
  jc_ctx :: http_ctx
  jc_record :: log_record
  jc_rename_ok :: bool

definition json_line :: "(pyfloat \<Rightarrow> string) \<Rightarrow> json_call \<Rightarrow> ptext" where
  "json_line fr c = json_format fr (jc_timestamp c) (jc_ctx c) (jc_record c)"

definition json_emit :: "(pyfloat \<Rightarrow> string) \<Rightarrow> json_call \<Rightarrow> emit_env" where
  "json_emit fr c = \<lparr>ee_day = jc_day c, ee_open_ok = True, ee_reopen_ok = True, ee_rename_ok = jc_rename_ok c,
     ee_message = Some (json_line fr c)\<rparr>"

lemma json_line_printable:
  assumes "\<And>x. list_all printable (asc (fr x))"
  shows "list_all printable (json_line fr c)"
  unfolding json_line_def json_format_def by (rule printable_dumps) (rule assms)

lemma printable_no_newline: "list_all printable t \<Longrightarrow> 10 \<notin> set t"
  by (auto simp: list_all_iff printable_def)

lemma json_lines_for:
  assumes "\<And>x. list_all printable (asc (fr x))"
  shows "lines_for h p (map (json_emit fr) cs) =
     concat (map (\<lambda>t. t @ [10]) (map (json_line fr) (filter (\<lambda>c. daily_path h (jc_day c) = p) cs)))"
  using line_bytes_printable[OF json_line_printable[OF assms]]
  by (induction cs) (simp_all add: lines_for_def json_emit_def)

section \<open>Properties\<close>


definition demo_call :: json_call where
  "demo_call = \<lparr>jc_day = (2025, 1, 2), jc_timestamp = ''2025-01-02T03:04:05.678Z'', jc_ctx = fresh_ctx,
     jc_record = \<lparr>lr_levelname = ''INFO'', lr_name = ''access'', lr_message = [97, 10, 98], lr_exception = None\<rparr>, jc_rename_ok = False\<rparr>"


end
