(* ===== verification/ConfigSync.thy ===== *)
theory ConfigSync
  imports Config
begin

text \<open>
  Distribution of configuration changes, \<^verbatim>\<open>app/platform/config/sync.py\<close>: a process reloads its configuration and
  publishes an event on a Redis channel; the listener of every other process reloads when it reads the event.

  The module's global variables are the record \<open>sync_proc\<close>, one per process. Redis is a client that may be missing and a
  publish call that may raise; its channel is the message queue of the cluster below. The event loop is not modelled: a
  listener is a sequence of subscriptions, messages and failures. Time stamps are arguments.
\<close>

section \<open>State of a process\<close>

datatype listener = No_task | Task_running | Task_done

datatype sync_thread = No_thread | Thread_alive | Thread_dead

record sync_proc =
  sy_instance_id :: string
  sy_config :: config_state
  sy_listener_task :: listener
  sy_pubsub :: bool
  sy_last_event_at :: "string option"
  sy_last_error :: "string option"
  sy_listener_thread :: sync_thread

definition config_sync_channel :: string where
  "config_sync_channel = ''hei:config:changed''"

record config_sync_state =
  ss_enabled :: bool
  ss_running :: bool
  ss_channel :: string
  ss_last_event_at :: "string option"
  ss_last_error :: "string option"

text \<open>\<^verbatim>\<open>exc.__class__.__name__\<close>; for an exception of another package the class is not known here.\<close>

fun exn_class :: "exn \<Rightarrow> string" where
  "exn_class (KeyError _) = ''KeyError''"
| "exn_class (TypeError _) = ''TypeError''"
| "exn_class (AttributeError _) = ''AttributeError''"
| "exn_class (ValueError _) = ''ValueError''"
| "exn_class (RuntimeError _) = ''RuntimeError''"
| "exn_class (OSError _) = ''OSError''"
| "exn_class (OverflowError _) = ''OverflowError''"
| "exn_class (ExternalError _) = ''Exception''"

section \<open>Publishing\<close>

definition set_error :: "string option \<Rightarrow> sync_proc \<Rightarrow> sync_proc" where
  "set_error e p = p\<lparr>sy_last_error := e\<rparr>"

definition event_payload :: "string \<Rightarrow> ptext \<Rightarrow> int \<Rightarrow> string \<Rightarrow> json" where
  "event_payload source reason version time =
     J_dict [(asc ''source'', J_str (asc source)), (asc ''reason'', J_str reason), (asc ''version'', J_int version),
       (asc ''at'', J_str (asc time))]"

text \<open>
  \<open>client\<close> is \<^verbatim>\<open>get_redis()\<close>: missing, or what its \<^verbatim>\<open>publish\<close> raises. The result is the returned flag, the message if one
  was published, and the state.
\<close>

definition publish_config_changed ::
  "exn option option \<Rightarrow> string \<Rightarrow> ptext \<Rightarrow> sync_proc \<Rightarrow> bool \<times> ptext option \<times> sync_proc" where
  "publish_config_changed client time reason p =
     (case client of
        None \<Rightarrow> (False, None, set_error (Some ''redis not initialized'') p)
      | Some (Some exc) \<Rightarrow> (False, None, set_error (Some (exn_class exc)) p)
      | Some None \<Rightarrow>
          (True,
           Some (json_dumps (\<lambda>_. []) (event_payload (sy_instance_id p) reason (rd_version (cf_reader (sy_config p))) time)),
           set_error None p))"

definition reload_and_publish ::
  "py_env \<Rightarrow> (string \<Rightarrow> string list) \<Rightarrow> exn option option \<Rightarrow> string \<Rightarrow> ptext \<Rightarrow> sync_proc
     \<Rightarrow> bool res \<times> ptext option \<times> sync_proc" where
  "reload_and_publish pe class_fields client time reason p =
     (case reader_reload pe class_fields (sy_config p) of
        (cfg, Some e) \<Rightarrow> (Inl e, None, p\<lparr>sy_config := cfg\<rparr>)
      | (cfg, None) \<Rightarrow>
          (case publish_config_changed client time reason (p\<lparr>sy_config := cfg\<rparr>) of (b, m, p') \<Rightarrow> (Inr b, m, p')))"

section \<open>Listening\<close>

datatype raw_data = Raw_none | Raw_bytes bytes | Raw_str ptext | Raw_other

definition decode_text :: "ptext \<Rightarrow> (ptext \<times> json) list option res" where
  "decode_text t =
     (case json_loads t of
        Inl Decode_error \<Rightarrow> Inr None
      | Inl Int_too_long \<Rightarrow> Inl (ValueError (asc ''Exceeds the limit (4300 digits) for integer string conversion''))
      | Inr (J_dict d) \<Rightarrow> Inr (Some d)
      | Inr _ \<Rightarrow> Inr None)"

definition decode_event :: "raw_data \<Rightarrow> (ptext \<times> json) list option res" where
  "decode_event raw =
     (case raw of
        Raw_none \<Rightarrow> Inr None
      | Raw_bytes b \<Rightarrow> rbind (utf8_decode_strict b) decode_text
      | Raw_str t \<Rightarrow> decode_text t
      | Raw_other \<Rightarrow> Inr None)"

text \<open>One turn of the inner loop of \<^verbatim>\<open>_listen\<close> on the result of \<^verbatim>\<open>get_message\<close>: the state, and the exception it raised, if any.\<close>

definition listen_message ::
  "py_env \<Rightarrow> (string \<Rightarrow> string list) \<Rightarrow> string \<Rightarrow> (string \<times> raw_data) option \<Rightarrow> sync_proc \<Rightarrow> sync_proc \<times> exn option" where
  "listen_message pe class_fields now message p =
     (case message of
        None \<Rightarrow> (p, None)
      | Some (kind, data) \<Rightarrow>
          if kind \<noteq> ''message'' then (p, None)
          else
            (case decode_event data of
               Inl e \<Rightarrow> (p, Some e)
             | Inr None \<Rightarrow> (p, None)
             | Inr (Some event) \<Rightarrow>
                 if event = [] \<or> map_of event (asc ''source'') = Some (J_str (asc (sy_instance_id p))) then (p, None)
                 else
                   (case reader_reload pe class_fields (sy_config p) of
                      (cfg, Some e) \<Rightarrow> (p\<lparr>sy_config := cfg\<rparr>, Some e)
                    | (cfg, None) \<Rightarrow>
                        (set_error None (p\<lparr>sy_config := cfg, sy_last_event_at := Some now\<rparr>), None))))"

definition close_pubsub :: "sync_proc \<Rightarrow> sync_proc" where
  "close_pubsub p = p\<lparr>sy_pubsub := False\<rparr>"

text \<open>The start of a round of the outer loop, and its \<^verbatim>\<open>except Exception\<close> branch with the \<^verbatim>\<open>finally\<close>.\<close>

definition listen_open :: "sync_proc \<Rightarrow> sync_proc" where
  "listen_open p = p\<lparr>sy_pubsub := True\<rparr>"

definition listen_failed :: "exn \<Rightarrow> sync_proc \<Rightarrow> sync_proc" where
  "listen_failed e p = close_pubsub (set_error (Some (exn_class e)) p)"

section \<open>Starting and stopping\<close>

definition start_config_sync_listener :: "bool \<Rightarrow> sync_proc \<Rightarrow> sync_proc" where
  "start_config_sync_listener has_redis p =
     (if sy_listener_task p = Task_running then p
      else if \<not> has_redis then set_error (Some ''redis not initialized'') p
      else p\<lparr>sy_listener_task := Task_running\<rparr>)"

text \<open>Cancelling the task runs the \<^verbatim>\<open>finally\<close> of \<^verbatim>\<open>_listen\<close>, which closes the subscription.\<close>

definition stop_config_sync_listener :: "sync_proc \<Rightarrow> sync_proc" where
  "stop_config_sync_listener p =
     (let p1 = (if sy_listener_task p = Task_running then close_pubsub p else p);
          p2 = (if sy_listener_task p = No_task then p1 else p1\<lparr>sy_listener_task := No_task\<rparr>)
      in if sy_pubsub p2 then close_pubsub p2 else p2)"

definition start_config_sync_listener_thread :: "sync_proc \<Rightarrow> sync_proc" where
  "start_config_sync_listener_thread p =
     (if sy_listener_thread p = Thread_alive then p else p\<lparr>sy_listener_thread := Thread_alive\<rparr>)"

definition stop_config_sync_listener_thread :: "sync_proc \<Rightarrow> sync_proc" where
  "stop_config_sync_listener_thread p = p\<lparr>sy_listener_thread := No_thread\<rparr>"

text \<open>The thread ends when the first \<^verbatim>\<open>ping\<close> of its own client fails, and when its task is cancelled.\<close>

definition listen_with_dedicated_redis :: "exn option \<Rightarrow> sync_proc \<Rightarrow> sync_proc" where
  "listen_with_dedicated_redis ping p =
     (case ping of None \<Rightarrow> p | Some e \<Rightarrow> p\<lparr>sy_listener_thread := Thread_dead\<rparr>)"

definition get_config_sync_state :: "bool \<Rightarrow> sync_proc \<Rightarrow> config_sync_state" where
  "get_config_sync_state has_redis p =
     (let running = (sy_listener_task p = Task_running); thread_running = (sy_listener_thread p = Thread_alive) in
      \<lparr>ss_enabled = has_redis \<or> thread_running, ss_running = running \<or> thread_running, ss_channel = config_sync_channel,
       ss_last_event_at = sy_last_event_at p, ss_last_error = sy_last_error p\<rparr>)"

section \<open>The cluster\<close>

text \<open>
  Processes with their subscriptions. A subscription has a queue of messages, each with its publisher (\<open>None\<close> for a client
  that is not a process of the cluster). Two histories of the current subscription, which no code reads, serve the
  theorems: \<open>cl_due\<close>, the publishers whose events were sent to it, and \<open>cl_handled\<close>, the publishers of the
  messages that made the process reload.
\<close>

record cluster =
  cl_proc :: "nat \<Rightarrow> sync_proc"
  cl_subscribed :: "nat \<Rightarrow> bool"
  cl_inbox :: "nat \<Rightarrow> (nat option \<times> bytes) list"
  cl_due :: "nat \<Rightarrow> nat list"
  cl_handled :: "nat \<Rightarrow> nat option list"

definition utf8 :: "ptext \<Rightarrow> bytes" where
  "utf8 t = concat (map encode1 t)"

text \<open>A message reaches every current subscription.\<close>

definition broadcast :: "nat option \<Rightarrow> bytes \<Rightarrow> cluster \<Rightarrow> cluster" where
  "broadcast publisher b c = c\<lparr>
     cl_inbox := (\<lambda>q. if cl_subscribed c q then cl_inbox c q @ [(publisher, b)] else cl_inbox c q),
     cl_due := (\<lambda>q. if cl_subscribed c q then cl_due c q @ (case publisher of None \<Rightarrow> [] | Some p \<Rightarrow> [p]) else cl_due c q)\<rparr>"

definition version_of :: "sync_proc \<Rightarrow> int" where
  "version_of p = rd_version (cf_reader (sy_config p))"

definition after_publish :: "nat \<Rightarrow> ptext option \<times> sync_proc \<Rightarrow> cluster \<Rightarrow> cluster" where
  "after_publish p r c =
     (let c1 = c\<lparr>cl_proc := (cl_proc c)(p := snd r)\<rparr> in
      case fst r of None \<Rightarrow> c1 | Some t \<Rightarrow> broadcast (Some p) (utf8 t) c1)"

definition subscribe_proc :: "nat \<Rightarrow> cluster \<Rightarrow> cluster" where
  "subscribe_proc q c = c\<lparr>cl_proc := (cl_proc c)(q := listen_open (cl_proc c q)), cl_subscribed := (cl_subscribed c)(q := True),
     cl_inbox := (cl_inbox c)(q := []), cl_due := (cl_due c)(q := []), cl_handled := (cl_handled c)(q := [])\<rparr>"

definition lose_subscription :: "nat \<Rightarrow> exn \<Rightarrow> cluster \<Rightarrow> cluster" where
  "lose_subscription q e c =
     c\<lparr>cl_proc := (cl_proc c)(q := listen_failed e (cl_proc c q)), cl_subscribed := (cl_subscribed c)(q := False)\<rparr>"

text \<open>The listener of \<open>q\<close> reads the first message of its queue.\<close>

definition deliver :: "py_env \<Rightarrow> (string \<Rightarrow> string list) \<Rightarrow> string \<Rightarrow> nat \<Rightarrow> cluster \<Rightarrow> cluster" where
  "deliver pe class_fields now q c =
     (case cl_inbox c q of
        [] \<Rightarrow> c
      | (publisher, b) # rest \<Rightarrow>
          (case listen_message pe class_fields now (Some (''message'', Raw_bytes b)) (cl_proc c q) of
             (p', None) \<Rightarrow>
               c\<lparr>cl_proc := (cl_proc c)(q := p'), cl_inbox := (cl_inbox c)(q := rest),
                 cl_handled := (cl_handled c)(q := cl_handled c q
                    @ (if version_of p' = version_of (cl_proc c q) then [] else [publisher]))\<rparr>
           | (p', Some e) \<Rightarrow> lose_subscription q e (c\<lparr>cl_proc := (cl_proc c)(q := p'), cl_inbox := (cl_inbox c)(q := rest)\<rparr>)))"

text \<open>
  Steps: a reload with publication, in which the reason is text and the version has at most 4300 digits; a new subscription;
  the delivery of a message; the loss of a connection; a message of another client of the channel.
\<close>

inductive cluster_step :: "py_env \<Rightarrow> (string \<Rightarrow> string list) \<Rightarrow> cluster \<Rightarrow> cluster \<Rightarrow> bool" for pe class_fields where
  publish: "reload_and_publish pe class_fields client time reason (cl_proc c p) = (flag, m, p') \<Longrightarrow> list_all scalar reason
     \<Longrightarrow> length (str_nat (nat \<bar>version_of p'\<bar>)) \<le> 4300 \<Longrightarrow> cluster_step pe class_fields c (after_publish p (m, p') c)"
| subscribe: "\<not> cl_subscribed c q \<Longrightarrow> cluster_step pe class_fields c (subscribe_proc q c)"
| read: "cl_subscribed c q \<Longrightarrow> cluster_step pe class_fields c (deliver pe class_fields now q c)"
| drop: "cl_subscribed c q \<Longrightarrow> cluster_step pe class_fields c (lose_subscription q e c)"
| foreign: "cluster_step pe class_fields c (broadcast None b c)"

inductive cluster_run :: "py_env \<Rightarrow> (string \<Rightarrow> string list) \<Rightarrow> cluster \<Rightarrow> cluster \<Rightarrow> bool" for pe class_fields c0 where
  start: "cluster_run pe class_fields c0 c0"
| step: "cluster_run pe class_fields c0 c \<Longrightarrow> cluster_step pe class_fields c c' \<Longrightarrow> cluster_run pe class_fields c0 c'"

inductive_cases cluster_stepE: "cluster_step pe class_fields c c'"

section \<open>Facts\<close>

lemma dumps_ascii: "json_plain v \<Longrightarrow> list_all (\<lambda>c. c < 128) (json_dumps fr v)"
proof -
  have "d < 16 \<Longrightarrow> hex_char d < 128" for d by (simp add: hex_char_def)
  then have hex: "hex_char (n mod 16) < 128" for n by simp
  have "list_all (\<lambda>c. c < 128) (print_u u)" for u
    unfolding print_u_def print_hex4_def by (simp only: append.simps list.pred_inject hex) simp
  then have esc: "list_all (\<lambda>c. c < 128) (escape_char c)" for c
    by (simp add: escape_char_def)
  then have str: "list_all (\<lambda>c. c < 128) (dump_str t)" for t
    by (auto simp: dump_str_def list_all_iff)
  have join: "list_all P (join_with sep ws)" if "list_all P sep" "\<And>w. w \<in> set ws \<Longrightarrow> list_all P w" for P :: "nat \<Rightarrow> bool" and sep ws
    using that(2) by (induction ws) (auto simp: join_with_Cons that(1))
  have "list_all (\<lambda>c. c < 128) (asc (str_nat n))" for n
    using digits_str_nat[of n] by (rule list.pred_mono_strong) (simp add: is_digit_def)
  then have digits: "list_all (\<lambda>c. c < 128) (asc (str_int i))" for i
    by (simp add: str_int_def asc_def)
  show "json_plain v \<Longrightarrow> ?thesis"
  proof (induction fr v rule: json_dumps.induct)
    case (6 fr vs)
    then show ?case by (auto simp: list_all_iff[of json_plain] intro!: join) (simp_all add: asc_def)
  next
    case (7 fr ps)
    have sep: "list_all (\<lambda>c. c < 128) (asc '': '')" "list_all (\<lambda>c. c < 128) (asc '', '')" by (simp_all add: asc_def)
    have "list_all (\<lambda>c. c < 128) (json_dumps fr v)" if "(k, v) \<in> set ps" for k v
      using 7(1)[OF that refl] 7(2) that by (auto simp: list_all_iff)
    then show ?case by (auto simp: str sep intro!: join)
  qed (auto simp: digits str, simp_all add: asc_def)
qed

lemma utf8_ascii: "list_all (\<lambda>c. c < 128) t \<Longrightarrow> utf8_decode_strict (utf8 t) = Inr t"
proof -
  assume "list_all (\<lambda>c. c < 128) t"
  then have "list_all scalar t" by (auto simp: list_all_iff scalar_def)
  then show ?thesis by (intro utf8_strict_encode) (simp add: utf8_encode_def utf8_def)
qed

definition event_text :: "string \<Rightarrow> ptext \<Rightarrow> int \<Rightarrow> string \<Rightarrow> ptext" where
  "event_text source reason version time = json_dumps (\<lambda>_. []) (event_payload source reason version time)"

text \<open>An event arrives as it was published.\<close>

lemma decode_event_text:
  assumes "list_all scalar reason" "length (str_nat (nat \<bar>version\<bar>)) \<le> 4300"
  shows "decode_event (Raw_bytes (utf8 (event_text source reason version time))) =
    (case event_payload source reason version time of J_dict d \<Rightarrow> Inr (Some d))"
proof -
  have plain: "json_plain (event_payload source reason version time)"
    using assms by (simp add: event_payload_def scalar_asc) (simp add: asc_def)
  show ?thesis
    using json_loads_dumps[OF plain] utf8_ascii[OF dumps_ascii[OF plain]]
    by (simp add: decode_event_def event_text_def decode_text_def event_payload_def)
qed

lemma reload_version: "reader_reload pe cf st = (st', e) \<Longrightarrow> rd_version (cf_reader st') = rd_version (cf_reader st) + 1"
  by (auto simp: reader_reload_def apply_sys_config_def reader_load_all_def split: prod.splits option.splits)

lemma asc_eq_iff: "asc s = asc t \<longleftrightarrow> s = t"
  unfolding asc_def by (metis inj_def inj_mapD injI of_char_eq_iff map_injective)

text \<open>The reaction to an event of the cluster: nothing for one's own, a reload for any other, or a failed reload.\<close>

lemma listen_event:
  assumes "listen_message pe cf now (Some (''message'', Raw_bytes (utf8 (event_text source reason version time)))) p = (p', e)"
    and "list_all scalar reason" "length (str_nat (nat \<bar>version\<bar>)) \<le> 4300"
  shows "if source = sy_instance_id p then p' = p \<and> e = None else version_of p' = version_of p + 1"
proof -
  have d: "decode_event (Raw_bytes (utf8 (event_text source reason version time))) =
      Inr (Some [(asc ''source'', J_str (asc source)), (asc ''reason'', J_str reason), (asc ''version'', J_int version),
         (asc ''at'', J_str (asc time))])"
    using decode_event_text[OF assms(2,3)] by (simp add: event_payload_def)
  show ?thesis
    using assms(1) reload_version[of pe cf "sy_config p"]
    by (cases "reader_reload pe cf (sy_config p)")
      (auto simp: listen_message_def d asc_eq_iff version_of_def set_error_def split: option.splits)
qed

subsection \<open>The invariant of the cluster\<close>

text \<open>A message of process \<open>p\<close> is an event with the id of that process.\<close>

definition event_of :: "string \<Rightarrow> bytes \<Rightarrow> bool" where
  "event_of source b = (\<exists>reason version time. b = utf8 (event_text source reason version time) \<and> list_all scalar reason
     \<and> length (str_nat (nat \<bar>version\<bar>)) \<le> 4300)"

definition from_others :: "nat \<Rightarrow> nat option list \<Rightarrow> nat list" where
  "from_others q ps = [p. Some p \<leftarrow> ps, p \<noteq> q]"

definition queue_ok :: "(nat \<Rightarrow> string) \<Rightarrow> cluster \<Rightarrow> nat \<Rightarrow> bool" where
  "queue_ok ids c q =
     ((\<forall>(publisher, b)\<in>set (cl_inbox c q). \<forall>p. publisher = Some p \<longrightarrow> event_of (ids p) b)
      \<and> [p. Some p \<leftarrow> cl_handled c q] @ from_others q (map fst (cl_inbox c q)) = filter (\<lambda>p. p \<noteq> q) (cl_due c q))"

definition cluster_inv :: "(nat \<Rightarrow> string) \<Rightarrow> cluster \<Rightarrow> bool" where
  "cluster_inv ids c =
     ((\<forall>p. sy_instance_id (cl_proc c p) = ids p) \<and> (\<forall>q. cl_subscribed c q \<longrightarrow> queue_ok ids c q))"

lemma from_others_simps [simp]:
  "from_others q [] = []"
  "from_others q (None # ps) = from_others q ps"
  "from_others q (Some p # ps) = (if p = q then from_others q ps else p # from_others q ps)"
  "from_others q (ps @ ps') = from_others q ps @ from_others q ps'"
  by (simp_all add: from_others_def)

lemma queue_ok_broadcast:
  assumes "queue_ok ids c q" "\<And>p. publisher = Some p \<Longrightarrow> event_of (ids p) b"
  shows "queue_ok ids (broadcast publisher b c) q"
  using assms by (cases publisher) (auto simp: queue_ok_def broadcast_def)

lemma instance_listen: "listen_message pe cf now m p = (p', e) \<Longrightarrow> sy_instance_id p' = sy_instance_id p"
  by (auto simp: listen_message_def set_error_def split: option.splits prod.splits if_splits sum.splits)

lemma published_event:
  assumes "reload_and_publish pe cf client time reason p = (flag, m, p')"
  shows "sy_instance_id p' = sy_instance_id p
     \<and> (\<forall>t. m = Some t \<longrightarrow> t = event_text (sy_instance_id p) reason (version_of p') time)"
  using assms
  by (auto simp: reload_and_publish_def publish_config_changed_def set_error_def event_text_def version_of_def
      split: prod.splits option.splits)

lemma deliver_inv:
  assumes "cluster_inv ids c" "inj ids" "cl_subscribed c q"
  shows "cluster_inv ids (deliver pe cf now q c)"
proof (cases "cl_inbox c q")
  case Nil
  then show ?thesis using assms(1) by (simp add: deliver_def)
next
  case (Cons pb rest)
  obtain publisher b where pb: "pb = (publisher, b)" by force
  obtain p' e where l: "listen_message pe cf now (Some (''message'', Raw_bytes b)) (cl_proc c q) = (p', e)" by force
  have id: "sy_instance_id p' = ids q" using instance_listen[OF l] assms(1) by (simp add: cluster_inv_def)
  show ?thesis
  proof (cases e)
    case (Some x)
    then show ?thesis using assms(1) id
      by (auto simp: deliver_def Cons pb l lose_subscription_def cluster_inv_def queue_ok_def listen_failed_def close_pubsub_def
          set_error_def)
  next
    case None
    have ok: "queue_ok ids c q" using assms by (simp add: cluster_inv_def)
    define h where "h = (if version_of p' = version_of (cl_proc c q) then [] else [publisher])"
    have "[p. Some p \<leftarrow> h] = from_others q [publisher]"
    proof (cases publisher)
      case (Some p)
      then have "event_of (ids p) b" using ok Cons pb by (auto simp: queue_ok_def)
      then obtain reason version time where "b = utf8 (event_text (ids p) reason version time)" "list_all scalar reason"
          "length (str_nat (nat \<bar>version\<bar>)) \<le> 4300" by (auto simp: event_of_def)
      from listen_event[OF l[unfolded this(1)] this(2,3)] show ?thesis
        using assms(1,2) Some by (auto simp: cluster_inv_def inj_eq h_def split: if_splits)
    qed (simp add: h_def)
    moreover have "from_others q (map fst (cl_inbox c q)) = from_others q [publisher] @ from_others q (map fst rest)"
      by (cases publisher) (simp_all add: Cons pb)
    ultimately have "[p. Some p \<leftarrow> cl_handled c q @ h] @ from_others q (map fst rest) = filter (\<lambda>p. p \<noteq> q) (cl_due c q)"
      using ok by (simp add: queue_ok_def del: from_others_simps)
    moreover have "deliver pe cf now q c = c\<lparr>cl_proc := (cl_proc c)(q := p'), cl_inbox := (cl_inbox c)(q := rest),
        cl_handled := (cl_handled c)(q := cl_handled c q @ h)\<rparr>"
      by (simp add: deliver_def Cons pb l None h_def)
    ultimately show ?thesis
      using assms(1) ok id Cons by (simp add: cluster_inv_def queue_ok_def del: concat_append map_append)
  qed
qed

lemma cluster_step_inv:
  assumes "cluster_step pe cf c c'" "cluster_inv ids c" "inj ids"
  shows "cluster_inv ids c'"
  using assms(1)
proof (cases rule: cluster_step.cases)
  case (publish client time reason p flag m p')
  note ev = published_event[OF publish(2)]
  let ?c1 = "c\<lparr>cl_proc := (cl_proc c)(p := p')\<rparr>"
  have inv: "cluster_inv ids ?c1" using assms(2) ev by (auto simp: cluster_inv_def queue_ok_def)
  show ?thesis
  proof (cases m)
    case (Some t)
    have "event_of (ids p) (utf8 t)"
      using ev Some publish(3,4) assms(2) by (auto simp: event_of_def cluster_inv_def)
    then have "queue_ok ids (broadcast (Some p) (utf8 t) ?c1) q" if "cl_subscribed c q" for q
      using inv that by (intro queue_ok_broadcast) (auto simp: cluster_inv_def)
    with inv Some publish(1) show ?thesis
      by (auto simp: after_publish_def cluster_inv_def) (auto simp: broadcast_def split: if_splits)
  qed (use inv publish(1) in \<open>simp add: after_publish_def\<close>)
next
  case (foreign b)
  have "queue_ok ids (broadcast None b c) q" if "cl_subscribed c q" for q
    using assms(2) that by (intro queue_ok_broadcast) (auto simp: cluster_inv_def)
  with assms(2) foreign show ?thesis by (auto simp: cluster_inv_def) (auto simp: broadcast_def)
next
  case (read q now)
  then show ?thesis using deliver_inv assms(2,3) by blast
qed (use assms(2) in \<open>auto simp: cluster_inv_def queue_ok_def subscribe_proc_def lose_subscription_def listen_open_def
      listen_failed_def close_pubsub_def set_error_def\<close>)

lemma cluster_run_inv:
  assumes "cluster_run pe cf c0 c" "inj (\<lambda>p. sy_instance_id (cl_proc c0 p))" "\<forall>q. \<not> cl_subscribed c0 q"
  shows "cluster_inv (\<lambda>p. sy_instance_id (cl_proc c0 p)) c"
  using assms(1)
proof (induction rule: cluster_run.induct)
  case start
  then show ?case using assms(3) by (simp add: cluster_inv_def)
next
  case (step c c')
  then show ?case using cluster_step_inv assms(2) by blast
qed

section \<open>Properties\<close>

text \<open>C19: Configuration changes spread exactly once. In every run of a cluster of processes with different ids, with failing
  publications, lost connections and messages of strangers, the events that made a subscribed process reload, followed by
  those waiting for it, are exactly the events the other processes published since it subscribed, in order: none is
  lost or repeated, and a process never reloads for an event of its own.\<close>

theorem config_sync_exactly_once:
  assumes "cluster_run pe class_fields c0 c" "inj (\<lambda>p. sy_instance_id (cl_proc c0 p))"
    and "\<forall>q. \<not> cl_subscribed c0 q" "cl_subscribed c q"
  shows "[p. Some p \<leftarrow> cl_handled c q] @ from_others q (map fst (cl_inbox c q)) = filter (\<lambda>p. p \<noteq> q) (cl_due c q)"
  using cluster_run_inv[OF assms(1-3)] assms(4) by (simp add: cluster_inv_def queue_ok_def)

definition demo_cluster :: cluster where
  "demo_cluster = \<lparr>cl_proc = (\<lambda>p. \<lparr>sy_instance_id = str_nat p, sy_config = demo_config\<lparr>cf_storage := []\<rparr>,
       sy_listener_task = No_task, sy_pubsub = False, sy_last_event_at = None, sy_last_error = None,
       sy_listener_thread = No_thread\<rparr>),
     cl_subscribed = (\<lambda>_. False), cl_inbox = (\<lambda>_. []), cl_due = (\<lambda>_. []), cl_handled = (\<lambda>_. [])\<rparr>"

theorem config_sync_exactly_once_witness:
  "\<exists>c. cluster_run demo_py (\<lambda>_. []) demo_cluster c \<and> cl_subscribed c 1 \<and> cl_inbox c 1 = [] \<and> cl_handled c 1 = [Some 0]"
proof -
  let ?f = "\<lambda>_. [] :: string list"
  let ?c1 = "subscribe_proc 1 demo_cluster"
  obtain flag m p' where r: "reload_and_publish demo_py ?f (Some None) ''now'' [] (cl_proc ?c1 0) = (flag, m, p')"
    by (cases "reload_and_publish demo_py ?f (Some None) ''now'' [] (cl_proc ?c1 0)") auto
  then have v: "version_of p' = 1" "m = Some (event_text (str_nat 0) [] 1 ''now'')"
    by (auto simp: reload_and_publish_def publish_config_changed_def reader_reload_def apply_sys_config_def subscribe_proc_def
        demo_cluster_def demo_config_def reader_load_all_def empty_reader_def version_of_def set_error_def event_text_def)
  let ?c2 = "after_publish 0 (m, p') ?c1" and ?e = "utf8 (event_text (str_nat 0) [] 1 ''now'')"
  have small: "length (str_nat 1) \<le> 4300" by (simp add: str_nat.simps)
  have run: "cluster_run demo_py ?f demo_cluster (deliver demo_py ?f ''then'' 1 ?c2)"
    by (rule cluster_run.step[OF cluster_run.step[OF cluster_run.step[OF cluster_run.start cluster_step.subscribe[of _ 1]]
          cluster_step.publish[OF r]] cluster_step.read])
      (use small in \<open>auto simp: v demo_cluster_def after_publish_def Let_def broadcast_def subscribe_proc_def\<close>)
  let ?q = "cl_proc ?c2 1"
  obtain p1 x where l: "listen_message demo_py ?f ''then'' (Some (''message'', Raw_bytes ?e)) ?q = (p1, x)"
    by (cases "listen_message demo_py ?f ''then'' (Some (''message'', Raw_bytes ?e)) ?q") auto
  have "x = None"
    using l decode_event_text[of "[]" 1 "str_nat 0" "''now''"] small
    by (auto simp: listen_message_def event_payload_def reader_reload_def apply_sys_config_def after_publish_def Let_def v broadcast_def
        subscribe_proc_def demo_cluster_def set_error_def split: if_splits)
  then have d: "cl_subscribed (deliver demo_py ?f ''then'' 1 ?c2) 1" "cl_inbox (deliver demo_py ?f ''then'' 1 ?c2) 1 = []"
      "cl_due (deliver demo_py ?f ''then'' 1 ?c2) 1 = [0]"
      "set (cl_handled (deliver demo_py ?f ''then'' 1 ?c2) 1) \<subseteq> {Some 0}"
    using l by (auto simp: deliver_def after_publish_def Let_def v broadcast_def subscribe_proc_def)
  have "inj (\<lambda>p. sy_instance_id (cl_proc demo_cluster p))"
    by (auto simp: demo_cluster_def inj_def dest: str_nat_inj)
  from config_sync_exactly_once[OF run this _ d(1)] d have "[p. Some p \<leftarrow> cl_handled (deliver demo_py ?f ''then'' 1 ?c2) 1] = [0]"
    by (simp add: demo_cluster_def)
  moreover have "set hs \<subseteq> {Some 0} \<Longrightarrow> map Some [p. Some p \<leftarrow> hs] = hs" for hs :: "nat option list"
    by (induction hs) auto
  ultimately have "cl_handled (deliver demo_py ?f ''then'' 1 ?c2) 1 = [Some 0]"
    using d(4) by (metis list.map(1,2))
  with run d show ?thesis by blast
qed

end
