(* ===== verification/Lifespan.thy ===== *)
theory Lifespan
  imports ConfigSync Metrics PermissionRegistry OperationAudit
begin

text \<open>
  The life of a process: \<^verbatim>\<open>app/lifespan.py\<close> for the API, the signal handlers of \<^verbatim>\<open>app/platform/tasks/celery_app.py\<close> for a
  worker, and the global clients they open and close, \<^verbatim>\<open>app/platform/cache/redis.py\<close> and \<^verbatim>\<open>app/platform/http/client.py\<close>.

  The state holds the globals of the components that are started: whether the clients are open, the audit queue, the
  configuration with its listener, module configurations, services, the Redis contents, and a record of the hooks that
  ran, each with whether the two clients were there. What the clients and hooks raise is part of the environment.
\<close>

record ('s, 'v) app_state =
  ap_redis :: bool
  ap_http :: bool
  ap_audit :: audit_state
  ap_sync :: sync_proc
  ap_module_configs :: "(string \<times> settings_obj) list"
  ap_services :: "'v registry"
  ap_store :: 's
  ap_hooks :: "(string \<times> bool \<times> bool) list"
  ap_emitted :: "string list"

record ('s, 'v) life_env =
  le_specs :: "module_spec list res"
  le_ping :: "exn option"
  le_redis_close :: "exn option"
  le_http_close :: "exn option"
  le_tracing_shutdown :: "exn option"
  le_hook :: "string \<Rightarrow> unit res"
  le_import :: "string \<Rightarrow> 'v res"
  le_import_class :: "string \<Rightarrow> settings_obj res res"
  le_py :: py_env
  le_class_fields :: "string \<Rightarrow> string list"
  le_redis_api :: "('s, registry_json) redis"
  le_routes :: "route_node list"
  le_drained :: nat

type_synonym ('s, 'v) stage = "('s, 'v) app_state \<Rightarrow> unit web \<times> ('s, 'v) app_state"

definition raising :: "exn option \<Rightarrow> unit web" where
  "raising e = (case e of None \<Rightarrow> Inr () | Some x \<Rightarrow> Inl (Unexpected x))"

definition of_res :: "'a res \<Rightarrow> unit web" where
  "of_res r = (case r of Inl e \<Rightarrow> Inl (Unexpected e) | Inr _ \<Rightarrow> Inr ())"

section \<open>redis.py and client.py\<close>

text \<open>The client is stored before the \<^verbatim>\<open>ping\<close>, so a failed \<^verbatim>\<open>ping\<close> leaves it behind.\<close>

definition init_redis :: "exn option \<Rightarrow> ('s, 'v) stage" where
  "init_redis ping st = (if ap_redis st then (Inr (), st) else (raising ping, st\<lparr>ap_redis := True\<rparr>))"

definition close_redis :: "exn option \<Rightarrow> ('s, 'v) stage" where
  "close_redis aclose st =
     (if \<not> ap_redis st then (Inr (), st)
      else case aclose of None \<Rightarrow> (Inr (), st\<lparr>ap_redis := False\<rparr>) | Some e \<Rightarrow> (Inl (Unexpected e), st))"

definition init_http_client :: "('s, 'v) stage" where
  "init_http_client st = (Inr (), if ap_http st then st else st\<lparr>ap_http := True\<rparr>)"

definition get_http_client :: "('s, 'v) app_state \<Rightarrow> unit res" where
  "get_http_client st = (if ap_http st then Inr () else Inl (RuntimeError (asc ''HTTP client is not initialized'')))"

definition close_http_client :: "exn option \<Rightarrow> ('s, 'v) stage" where
  "close_http_client aclose st =
     (if \<not> ap_http st then (Inr (), st)
      else case aclose of None \<Rightarrow> (Inr (), st\<lparr>ap_http := False\<rparr>) | Some e \<Rightarrow> (Inl (Unexpected e), st))"

section \<open>Stopping the audit queue\<close>

text \<open>The stop of \<^verbatim>\<open>queue.py\<close> in one go: the worker records \<open>n\<close> more events before the queue is empty or the time is up.\<close>

definition queue_stop :: "nat \<Rightarrow> audit_state \<Rightarrow> audit_state" where
  "queue_stop n st =
     (case as_live st of
        None \<Rightarrow> st
      | Some q \<Rightarrow> st\<lparr>as_live := None, as_recorded := as_recorded st @ take n q, as_lost := as_lost st @ drop n q\<rparr>)"

section \<open>lifespan.py\<close>

definition on_audit :: "(audit_state \<Rightarrow> audit_state) \<Rightarrow> ('s, 'v) stage" where
  "on_audit f st = (Inr (), st\<lparr>ap_audit := f (ap_audit st)\<rparr>)"

definition on_sync :: "(sync_proc \<Rightarrow> sync_proc) \<Rightarrow> ('s, 'v) stage" where
  "on_sync f st = (Inr (), st\<lparr>ap_sync := f (ap_sync st)\<rparr>)"

definition load_config :: "('s, 'v) stage" where
  "load_config = on_sync (\<lambda>p. p\<lparr>sy_config := (sy_config p)\<lparr>cf_reader := reader_load_all (cf_reader (sy_config p))\<rparr>\<rparr>)"

definition apply_all_config :: "('s, 'v) life_env \<Rightarrow> ('s, 'v) stage" where
  "apply_all_config env st =
     (case apply_sys_config (le_py env) (le_class_fields env) (sy_config (ap_sync st)) of
        (cfg, e) \<Rightarrow> (raising e, st\<lparr>ap_sync := (ap_sync st)\<lparr>sy_config := cfg\<rparr>\<rparr>))"

definition start_listener :: "('s, 'v) stage" where
  "start_listener st = (Inr (), st\<lparr>ap_sync := start_config_sync_listener (ap_redis st) (ap_sync st)\<rparr>)"

definition module_configs_stage :: "('s, 'v) life_env \<Rightarrow> module_spec list \<Rightarrow> ('s, 'v) stage" where
  "module_configs_stage env specs st =
     (case load_module_configs (le_py env) (le_import_class env) (cf_reader (sy_config (ap_sync st))) specs (ap_module_configs st) of
        (configs, e) \<Rightarrow> (raising e, st\<lparr>ap_module_configs := configs\<rparr>))"

definition hooks_stage :: "string list \<times> unit res \<Rightarrow> ('s, 'v) stage" where
  "hooks_stage hooks st =
     (of_res (snd hooks), st\<lparr>ap_hooks := ap_hooks st @ map (\<lambda>h. (h, ap_redis st, ap_http st)) (fst hooks)\<rparr>)"

definition services_stage :: "('s, 'v) life_env \<Rightarrow> module_spec list \<Rightarrow> ('s, 'v) stage" where
  "services_stage env specs st =
     (case register_services (le_import env) specs (ap_services st) of (r, reg) \<Rightarrow> (of_res r, st\<lparr>ap_services := reg\<rparr>))"

definition permissions_stage :: "('s, 'v) life_env \<Rightarrow> ('s, 'v) stage" where
  "permissions_stage env st =
     (case sync_permission_registry (if ap_redis st then Some (le_redis_api env) else None) (le_routes env) (ap_store st) of
        (r, s) \<Rightarrow> (map_sum id (\<lambda>_. ()) r, st\<lparr>ap_store := s\<rparr>))"

text \<open>\<^verbatim>\<open>emit\<close> logs what a handler raises.\<close>

definition emit_stage :: "string \<Rightarrow> ('s, 'v) stage" where
  "emit_stage event_name st = (Inr (), st\<lparr>ap_emitted := ap_emitted st @ [event_name]\<rparr>)"

fun run_stages :: "('s, 'v) stage list \<Rightarrow> ('s, 'v) stage" where
  "run_stages [] st = (Inr (), st)"
| "run_stages (f # fs) st = (case f st of (Inl e, st') \<Rightarrow> (Inl e, st') | (Inr _, st') \<Rightarrow> run_stages fs st')"

definition startup :: "('s, 'v) life_env \<Rightarrow> module_spec list \<Rightarrow> ('s, 'v) stage list" where
  "startup env specs =
     [init_redis (le_ping env), on_audit queue_start, load_config, apply_all_config env, start_listener,
      module_configs_stage env specs, hooks_stage (run_event_handlers (le_hook env) specs), services_stage env specs,
      permissions_stage env, init_http_client, hooks_stage (run_startup_hooks (le_hook env) specs), emit_stage ''on_config_loaded'']"

definition shutdown :: "('s, 'v) life_env \<Rightarrow> module_spec list \<Rightarrow> ('s, 'v) stage list" where
  "shutdown env specs =
     [hooks_stage (run_shutdown_hooks (le_hook env) specs), on_sync stop_config_sync_listener, on_audit (queue_stop (le_drained env)),
      close_http_client (le_http_close env), close_redis (le_redis_close env), (\<lambda>st. (raising (le_tracing_shutdown env), st))]"

text \<open>\<open>serving\<close> is what happens at the \<^verbatim>\<open>yield\<close>.\<close>

definition lifespan ::
  "('s, 'v) life_env \<Rightarrow> (('s, 'v) app_state \<Rightarrow> (web_exn, unit) outcome \<times> ('s, 'v) app_state) \<Rightarrow> ('s, 'v) app_state
     \<Rightarrow> (web_exn, unit) outcome \<times> ('s, 'v) app_state" where
  "lifespan env serving st =
     (case le_specs env of
        Inl e \<Rightarrow> (Raised (Unexpected e), st)
      | Inr specs \<Rightarrow>
          (case run_stages (startup env specs) st of
             (Inl e, st1) \<Rightarrow> (Raised e, st1)
           | (Inr _, st1) \<Rightarrow>
               (case serving st1 of (res, st2) \<Rightarrow>
                  (case run_stages (shutdown env specs) st2 of
                     (Inl e, st3) \<Rightarrow> (Raised e, st3)
                   | (Inr _, st3) \<Rightarrow> (res, st3)))))"

section \<open>celery\_app.py\<close>

definition worker_process_init :: "('s, 'v) life_env \<Rightarrow> ('s, 'v) stage" where
  "worker_process_init env = init_redis (le_ping env)"

text \<open>What the shutdown raises is only logged.\<close>

definition worker_process_shutdown :: "('s, 'v) life_env \<Rightarrow> ('s, 'v) app_state \<Rightarrow> ('s, 'v) app_state" where
  "worker_process_shutdown env st = snd (close_redis (le_redis_close env) st)"

section \<open>Facts\<close>

lemma raising_simps [simp]: "raising None = Inr ()" "raising (Some e) = Inl (Unexpected e)"
  by (simp_all add: raising_def)

lemma of_res_simps [simp]: "of_res (Inl e) = Inl (Unexpected e)" "of_res (Inr x) = Inr ()"
  by (simp_all add: of_res_def)

text \<open>The stop is a run of the queue's own steps: detach, drain, then join or time out.\<close>

lemma drain_run:
  assumes "audit_run m st" "as_draining st = xs @ [q]"
  shows "audit_run m (st\<lparr>as_draining := xs @ [drop n q], as_recorded := as_recorded st @ take n q\<rparr>)"
  using assms
proof (induction n arbitrary: st q)
  case 0
  then have eq: "st\<lparr>as_draining := xs @ [drop 0 q], as_recorded := as_recorded st @ take 0 q\<rparr> = st" by simp
  show ?case unfolding eq by (rule 0(1))
next
  case (Suc n)
  show ?case
  proof (cases q)
    case Nil
    with Suc show ?thesis using Suc.IH[OF Suc.prems] by simp
  next
    case (Cons e q')
    let ?st = "st\<lparr>as_draining := xs @ [q'], as_recorded := as_recorded st @ [e]\<rparr>"
    have "audit_step m st ?st" using audit_step.drain[of st xs e q' "[]" m] Suc.prems(2) Cons by simp
    then have "audit_run m ?st" using Suc.prems(1) audit_run.step by blast
    from Suc.IH[OF this, of q'] show ?thesis by (simp add: Cons)
  qed
qed

lemma queue_stop_run:
  assumes "audit_run m st"
  shows "audit_run m (queue_stop n st)"
proof (cases "as_live st")
  case (Some q)
  let ?st1 = "queue_detach st"
  let ?st2 = "?st1\<lparr>as_draining := as_draining st @ [drop n q], as_recorded := as_recorded st @ take n q\<rparr>"
  have "audit_run m ?st1" using assms audit_step.detach audit_run.step by blast
  from drain_run[OF this, of "as_draining st" q n] have run: "audit_run m ?st2" using Some by (simp add: queue_detach_def)
  have "audit_step m ?st2 (?st2\<lparr>as_draining := as_draining st @ [], as_lost := as_lost ?st2 @ drop n q\<rparr>)"
    using audit_step.timeout[of ?st2 "as_draining st" "drop n q" "[]" m] by simp
  moreover have "?st2\<lparr>as_draining := as_draining st @ [], as_lost := as_lost ?st2 @ drop n q\<rparr> = queue_stop n st"
    using Some by (simp add: queue_detach_def queue_stop_def)
  ultimately show ?thesis using audit_run.step[OF run] by simp
qed (use assms in \<open>simp add: queue_stop_def\<close>)

lemma run_hooks_ok: "(\<And>h. h \<in> set hs \<Longrightarrow> call h = Inr ()) \<Longrightarrow> run_hooks call hs = (hs, Inr ())"
  by (induction hs) simp_all

lemma run_hooks_stage_ok:
  "fst (hooks_stage (run_hooks call hs) st) = Inr () \<Longrightarrow> fst (run_hooks call hs) = hs"
  using run_hooks_all[of call hs] by (cases "run_hooks call hs") (auto simp: hooks_stage_def of_res_def split: sum.splits)

text \<open>A stage that leaves the clients alone, and the hooks.\<close>

lemmas stage_defs = on_audit_def on_sync_def load_config_def apply_all_config_def start_listener_def module_configs_stage_def
  services_stage_def permissions_stage_def emit_stage_def

definition quiet :: "('s, 'v) stage \<Rightarrow> bool" where
  "quiet f = (\<forall>st. ap_redis (snd (f st)) = ap_redis st \<and> ap_http (snd (f st)) = ap_http st \<and> ap_hooks (snd (f st)) = ap_hooks st)"

lemma quiet_stages:
  "quiet (on_audit g)" "quiet (on_sync h)" "quiet load_config" "quiet (apply_all_config env)" "quiet start_listener"
  "quiet (module_configs_stage env specs)" "quiet (services_stage env specs)" "quiet (permissions_stage env)" "quiet (emit_stage event_name)"
  by (simp_all add: quiet_def stage_defs case_prod_beta)

lemma run_stages_append:
  "run_stages (fs @ gs) st = (Inr (), st') \<longleftrightarrow> (\<exists>st1. run_stages fs st = (Inr (), st1) \<and> run_stages gs st1 = (Inr (), st'))"
  by (induction fs arbitrary: st) (auto split: prod.splits sum.splits)

lemma run_stages_single: "run_stages [f] st = (Inr (), st') \<longleftrightarrow> f st = (Inr (), st')"
  by (auto split: prod.splits sum.splits)

lemma run_quiet:
  assumes "list_all quiet fs" "run_stages fs st = (r, st')"
  shows "ap_redis st' = ap_redis st \<and> ap_http st' = ap_http st \<and> ap_hooks st' = ap_hooks st"
  using assms
proof (induction fs arbitrary: st)
  case (Cons f fs)
  obtain r1 st1 where f: "f st = (r1, st1)" by fastforce
  have "ap_redis (snd (f st)) = ap_redis st \<and> ap_http (snd (f st)) = ap_http st \<and> ap_hooks (snd (f st)) = ap_hooks st"
    using Cons.prems(1) unfolding list.pred_inject quiet_def by blast
  then have st1: "ap_redis st1 = ap_redis st \<and> ap_http st1 = ap_http st \<and> ap_hooks st1 = ap_hooks st" by (simp add: f)
  have "st1 = st' \<or> run_stages fs st1 = (r, st')" using Cons.prems(2) f by (auto split: sum.splits)
  then show ?case using Cons.IH[of st1] Cons.prems(1) st1 by auto
qed simp

lemma hooks_run:
  assumes "hooks_stage (run_hooks call hs) st = (Inr (), st')"
  shows "st' = st\<lparr>ap_hooks := ap_hooks st @ map (\<lambda>h. (h, ap_redis st, ap_http st)) hs\<rparr>"
  using assms run_hooks_stage_ok[of call hs st] by (auto simp: hooks_stage_def)

lemma startup_ok:
  assumes "run_stages (startup env specs) st = (Inr (), st')"
  shows "ap_redis st' \<and> ap_http st'
     \<and> ap_hooks st' = ap_hooks st @ map (\<lambda>h. (h, True, ap_http st)) (concat (map ms_event_handlers specs))
         @ map (\<lambda>h. (h, True, True)) (concat (map ms_startup_hooks specs))"
proof -
  let ?q1 = "[on_audit queue_start, load_config, apply_all_config env, start_listener, module_configs_stage env specs]"
  let ?q2 = "[services_stage env specs, permissions_stage env]"
  have "startup env specs = [init_redis (le_ping env)] @ ?q1 @ [hooks_stage (run_event_handlers (le_hook env) specs)] @ ?q2
      @ [init_http_client] @ [hooks_stage (run_startup_hooks (le_hook env) specs)] @ [emit_stage ''on_config_loaded'']"
    by (simp add: startup_def)
  with assms obtain s1 s2 s3 s4 s5 s6 where
    init: "init_redis (le_ping env) st = (Inr (), s1)" and q1: "run_stages ?q1 s1 = (Inr (), s2)"
    and h1: "hooks_stage (run_event_handlers (le_hook env) specs) s2 = (Inr (), s3)" and q2: "run_stages ?q2 s3 = (Inr (), s4)"
    and http: "init_http_client s4 = (Inr (), s5)" and h2: "hooks_stage (run_startup_hooks (le_hook env) specs) s5 = (Inr (), s6)"
    and q3: "emit_stage ''on_config_loaded'' s6 = (Inr (), st')"
    by (simp only: run_stages_append run_stages_single) (elim exE conjE, rule that)
  have "ap_redis s1" "ap_http s1 = ap_http st" "ap_hooks s1 = ap_hooks st"
    using init by (auto simp: init_redis_def split: if_splits)
  moreover note run_quiet[OF _ q1, simplified quiet_stages list.pred_inject simp_thms]
    hooks_run[OF h1[unfolded run_event_handlers_def]] run_quiet[OF _ q2, simplified quiet_stages list.pred_inject simp_thms]
    hooks_run[OF h2[unfolded run_startup_hooks_def]]
  moreover have "ap_redis st' = ap_redis s6" "ap_http st' = ap_http s6" "ap_hooks st' = ap_hooks s6" using q3 by (auto simp: emit_stage_def)
  moreover have "ap_http s5" "ap_redis s5 = ap_redis s4" "ap_hooks s5 = ap_hooks s4" using http by (auto simp: init_http_client_def split: if_splits)
  ultimately show ?thesis by simp
qed

text \<open>The stop of the listener and of the queue.\<close>

lemma listener_stopped:
  "sy_listener_task (stop_config_sync_listener p) = No_task" "\<not> sy_pubsub (stop_config_sync_listener p)"
  by (cases "sy_listener_task p"; simp add: stop_config_sync_listener_def close_pubsub_def Let_def)+

lemma queue_stopped [simp]: "as_live (queue_stop n st) = None"
  by (simp add: queue_stop_def split: option.splits)

lemma shutdown_ok:
  assumes "\<And>h. h \<in> set (concat (map ms_shutdown_hooks specs)) \<Longrightarrow> le_hook env h = Inr ()"
    and "le_http_close env = None" "le_redis_close env = None" "le_tracing_shutdown env = None"
  obtains st' where "run_stages (shutdown env specs) st = (Inr (), st')" "\<not> ap_redis st'" "\<not> ap_http st'"
    "ap_audit st' = queue_stop (le_drained env) (ap_audit st)" "sy_listener_task (ap_sync st') = No_task" "\<not> sy_pubsub (ap_sync st')"
    "ap_hooks st' = ap_hooks st @ map (\<lambda>h. (h, ap_redis st, ap_http st)) (concat (map ms_shutdown_hooks (rev specs)))"
proof -
  have hooks: "run_shutdown_hooks (le_hook env) specs = (concat (map ms_shutdown_hooks (rev specs)), Inr ())"
    unfolding run_shutdown_hooks_def by (rule run_hooks_ok) (use assms(1) in auto)
  show ?thesis
  proof (rule that)
    show "run_stages (shutdown env specs) st = (Inr (), st\<lparr>ap_hooks := ap_hooks st
        @ map (\<lambda>h. (h, ap_redis st, ap_http st)) (concat (map ms_shutdown_hooks (rev specs))),
        ap_sync := stop_config_sync_listener (ap_sync st), ap_audit := queue_stop (le_drained env) (ap_audit st),
        ap_http := False, ap_redis := False\<rparr>)"
      using assms(2-) by (auto simp: shutdown_def hooks hooks_stage_def on_sync_def on_audit_def close_http_client_def close_redis_def)
  qed (simp_all add: listener_stopped)
qed

lemma run_keeps_redis:
  assumes "\<And>f st. f \<in> set fs \<Longrightarrow> ap_redis st \<Longrightarrow> ap_redis (snd (f st))" "ap_redis st" "run_stages fs st = (r, st')"
  shows "ap_redis st'"
  using assms
proof (induction fs arbitrary: st)
  case (Cons f fs)
  obtain r1 st1 where f: "f st = (r1, st1)" by fastforce
  have "ap_redis st1" using Cons.prems(1)[of f st] Cons.prems(2) f by simp
  moreover have "st1 = st' \<or> run_stages fs st1 = (r, st')" using Cons.prems(3) f by (auto split: sum.splits)
  ultimately show ?case using Cons.IH[of st1] Cons.prems(1) by auto
qed simp

lemma startup_keeps_redis:
  assumes "run_stages (startup env specs) st = (r, st')"
  shows "ap_redis st'"
proof -
  obtain r1 st1 where init: "init_redis (le_ping env) st = (r1, st1)" by fastforce
  have st1: "ap_redis st1" using init by (auto simp: init_redis_def split: if_splits)
  have "st1 = st' \<or> run_stages (tl (startup env specs)) st1 = (r, st')"
    using assms init by (auto simp: startup_def split: sum.splits)
  then show ?thesis
  proof
    assume "run_stages (tl (startup env specs)) st1 = (r, st')"
    moreover have "ap_redis (snd (f st))" if "f \<in> set (tl (startup env specs))" "ap_redis st" for f st
      using that by (auto simp: startup_def stage_defs hooks_stage_def init_http_client_def case_prod_beta)
    ultimately show ?thesis using run_keeps_redis[of "tl (startup env specs)", OF _ st1] by blast
  qed (use st1 in simp)
qed

section \<open>Properties\<close>

text \<open>C24: A process that started and may stop leaves nothing open. After a successful start, however serving ends, and when nothing
  raises during the shutdown, the result of serving is passed on, both clients are closed, the listener is stopped and its
  subscription closed, and the audit queue is detached with every accepted event recorded or reported lost. All startup hooks, in
  the order of the modules, and all shutdown hooks, in the reverse order, ran while both clients were open; the event handlers
  ran with Redis.\<close>

theorem lifespan_orderly:
  assumes "le_specs env = Inr specs" "run_stages (startup env specs) st = (Inr (), st1)" "serving st1 = (res, st2)"
    and "ap_redis st2" "ap_http st2" "ap_hooks st2 = ap_hooks st1" "audit_run m (ap_audit st2)"
    and "\<And>h. h \<in> set (concat (map ms_shutdown_hooks specs)) \<Longrightarrow> le_hook env h = Inr ()"
    and "le_http_close env = None" "le_redis_close env = None" "le_tracing_shutdown env = None"
  shows "\<exists>st3. lifespan env serving st = (res, st3) \<and> \<not> ap_redis st3 \<and> \<not> ap_http st3
     \<and> sy_listener_task (ap_sync st3) = No_task \<and> \<not> sy_pubsub (ap_sync st3)
     \<and> as_live (ap_audit st3) = None \<and> audit_run m (ap_audit st3)
     \<and> ap_hooks st3 = ap_hooks st @ map (\<lambda>h. (h, True, ap_http st)) (concat (map ms_event_handlers specs))
         @ map (\<lambda>h. (h, True, True)) (concat (map ms_startup_hooks specs) @ concat (map ms_shutdown_hooks (rev specs)))"
proof -
  obtain st3 where st3: "run_stages (shutdown env specs) st2 = (Inr (), st3)" "\<not> ap_redis st3" "\<not> ap_http st3"
    "ap_audit st3 = queue_stop (le_drained env) (ap_audit st2)" "sy_listener_task (ap_sync st3) = No_task" "\<not> sy_pubsub (ap_sync st3)"
    "ap_hooks st3 = ap_hooks st2 @ map (\<lambda>h. (h, ap_redis st2, ap_http st2)) (concat (map ms_shutdown_hooks (rev specs)))"
    using shutdown_ok[OF assms(8-11)] by blast
  have "lifespan env serving st = (res, st3)" by (simp add: lifespan_def assms(1-3) st3(1))
  moreover have "ap_hooks st3 = ap_hooks st @ map (\<lambda>h. (h, True, ap_http st)) (concat (map ms_event_handlers specs))
         @ map (\<lambda>h. (h, True, True)) (concat (map ms_startup_hooks specs) @ concat (map ms_shutdown_hooks (rev specs)))"
    using startup_ok[OF assms(2)] st3(7) assms(4-6) by simp
  ultimately show ?thesis using st3 queue_stop_run[OF assms(7)] by auto
qed

definition demo_life :: "(registry_json redis_data, unit) life_env" where
  "demo_life = \<lparr>le_specs = Inr [demo_module ''b'' [] 2, demo_module ''a'' [''b''] 1], le_ping = None, le_redis_close = None,
     le_http_close = None, le_tracing_shutdown = None, le_hook = (\<lambda>_. Inr ()), le_import = (\<lambda>_. Inr ()),
     le_import_class = (\<lambda>_. Inl (ValueError [])), le_py = demo_py, le_class_fields = (\<lambda>_. []), le_redis_api = redis_impl,
     le_routes = [Other_route, Route_group [Api_route demo_route]], le_drained = 0\<rparr>"

definition demo_app :: "(registry_json redis_data, unit) app_state" where
  "demo_app = \<lparr>ap_redis = False, ap_http = False, ap_audit = audit_init, ap_sync = cl_proc demo_cluster 0, ap_module_configs = [],
     ap_services = Map.empty, ap_store = redis_empty, ap_hooks = [], ap_emitted = []\<rparr>"

lemmas demo_stages = startup_def init_redis_def on_audit_def load_config_def on_sync_def apply_all_config_def apply_sys_config_def
  start_listener_def module_configs_stage_def hooks_stage_def run_event_handlers_def services_stage_def register_services_def
  permissions_stage_def sync_permission_registry_def init_http_client_def run_startup_hooks_def emit_stage_def demo_life_def
  demo_app_def demo_module_def

lemma demo_started:
  "\<exists>st1. run_stages (startup demo_life [demo_module ''b'' [] 2, demo_module ''a'' [''b''] 1]) demo_app = (Inr (), st1)
     \<and> audit_run 0 (ap_audit st1)"
proof -
  have "audit_run 0 (queue_start audit_init)" by (rule audit_run.step[OF audit_run.init audit_step.start])
  then show ?thesis by (simp add: demo_stages demo_scan Let_def)
qed

theorem lifespan_orderly_witness:
  "case lifespan demo_life (\<lambda>st. (Returned (), st)) demo_app of (res, st) \<Rightarrow>
     res = Returned () \<and> \<not> ap_redis st \<and> \<not> ap_http st
     \<and> ap_hooks st = [(''b:start'', True, True), (''a:start'', True, True), (''a:stop'', True, True), (''b:stop'', True, True)]"
proof -
  let ?specs = "[demo_module ''b'' [] 2, demo_module ''a'' [''b''] 1]"
  obtain st1 where st1: "run_stages (startup demo_life ?specs) demo_app = (Inr (), st1)" "audit_run 0 (ap_audit st1)"
    using demo_started by blast
  have "le_specs demo_life = Inr ?specs" by (simp add: demo_life_def)
  moreover have "(\<lambda>st. (Returned (), st)) st1 = (Returned (), st1)" by simp
  ultimately obtain st3 where st3: "lifespan demo_life (\<lambda>st. (Returned (), st)) demo_app = (Returned (), st3)"
    "\<not> ap_redis st3" "\<not> ap_http st3"
    "ap_hooks st3 = ap_hooks demo_app @ map (\<lambda>h. (h, True, ap_http demo_app)) (concat (map ms_event_handlers ?specs))
         @ map (\<lambda>h. (h, True, True)) (concat (map ms_startup_hooks ?specs) @ concat (map ms_shutdown_hooks (rev ?specs)))"
    using lifespan_orderly[of demo_life ?specs demo_app st1 "\<lambda>st. (Returned (), st)" "Returned ()" st1 0] st1 startup_ok[OF st1(1)]
    by (auto simp: demo_life_def)
  then show ?thesis by (simp add: demo_module_def demo_app_def)
qed

text \<open>A failed start is passed on and cleans nothing up: whichever stage raises, the application never serves, the
  exception leaves the lifespan, and the Redis client stays open, since the stages run before the \<^verbatim>\<open>try\<close>.\<close>

lemma lifespan_failed_start:
  assumes "le_specs env = Inr specs" "run_stages (startup env specs) st = (Inl e, st1)"
  shows "lifespan env serving st = (Raised e, st1) \<and> ap_redis st1"
  using assms(2) startup_keeps_redis[OF assms(2)] by (simp add: lifespan_def assms(1))

lemma lifespan_failed_start_witness:
  "ap_redis (snd (lifespan (demo_life\<lparr>le_routes := []\<rparr>) (\<lambda>st. (Returned (), st)) demo_app))"
proof -
  let ?specs = "[demo_module ''b'' [] 2, demo_module ''a'' [''b''] 1]"
  have scan: "scan_permission_registry [] = []" by code_simp
  obtain e st1 where "run_stages (startup (demo_life\<lparr>le_routes := []\<rparr>) ?specs) demo_app = (Inl e, st1)"
    by (simp add: demo_stages scan Let_def)
  moreover have "le_specs (demo_life\<lparr>le_routes := []\<rparr>) = Inr ?specs" by (simp add: demo_life_def)
  ultimately show ?thesis using lifespan_failed_start[of "demo_life\<lparr>le_routes := []\<rparr>" ?specs demo_app e st1] by simp
qed

end
