(* ===== verification/CeleryApp.thy ===== *)
theory CeleryApp
  imports Orchestrator ModuleSystem Settings
begin

text \<open>
  The Celery application of \<^verbatim>\<open>app/platform/tasks/celery_app.py\<close>, which the judge configures further (\<^verbatim>\<open>celery_setup.py\<close>), and
  the copy of the declared schedules to redbeat, \<^verbatim>\<open>app/platform/tasks/redbeat_scheduler.py\<close>. Celery's own defaults are a
  parameter; an entry of redbeat is saved by name, and saving may raise.
\<close>

section \<open>celery\_app.py\<close>

record celery_app_conf = celery_conf +
  ca_name :: string
  ca_broker :: string
  ca_backend :: string
  ca_include :: "string list"
  ca_worker_enable_remote_control :: bool
  ca_worker_cancel_long_running_tasks_on_connection_loss :: bool
  ca_visibility_timeout :: int
  ca_broker_connection_retry_on_startup :: bool
  ca_task_compression :: string
  ca_redbeat_redis_url :: string
  ca_redbeat_decode_responses :: bool
  ca_redbeat_lock_key :: string

definition celery_app :: "celery_settings \<Rightarrow> redis_settings \<Rightarrow> celery_app_conf \<Rightarrow> celery_app_conf" where
  "celery_app cs rs defaults = defaults\<lparr>
     ca_name := ''hei-fastapi'',
     ca_broker := cs_broker_url cs,
     ca_backend := (if cs_result_backend cs \<noteq> [] then cs_result_backend cs else re_url rs),
     ca_include := [''app.worker.tasks''],
     ce_task_default_queue := ''default'',
     ca_worker_enable_remote_control := cs_worker_remote_control_enabled cs,
     ca_worker_cancel_long_running_tasks_on_connection_loss := cs_worker_cancel_long_running_tasks_on_connection_loss cs,
     ce_worker_prefetch_multiplier := cs_worker_prefetch_multiplier cs,
     ca_visibility_timeout := cs_broker_visibility_timeout cs,
     ca_broker_connection_retry_on_startup := True,
     ca_task_compression := ''gzip'',
     ca_redbeat_redis_url := re_url rs,
     ca_redbeat_decode_responses := True,
     ca_redbeat_lock_key := ''redbeat:lock''\<rparr>"

section \<open>redbeat\_scheduler.py\<close>

text \<open>The stored entries by name; \<open>save\<close> says what constructing and saving an entry raises.\<close>

type_synonym redbeat = "string \<rightharpoonup> string \<times> rat"

definition save_entry :: "(string \<Rightarrow> unit res) \<Rightarrow> string \<times> string \<times> rat \<Rightarrow> redbeat \<Rightarrow> redbeat" where
  "save_entry save entry store =
     (case entry of (name, task, schedule) \<Rightarrow>
        (case save name of Inl e \<Rightarrow> store | Inr _ \<Rightarrow> store(name \<mapsto> (task, schedule))))"

definition sync_to_redbeat :: "module_spec list res \<Rightarrow> (string \<Rightarrow> unit res) \<Rightarrow> redbeat \<Rightarrow> redbeat" where
  "sync_to_redbeat specs save store =
     (case rbind specs collect_beat_schedule of
        Inl e \<Rightarrow> store
      | Inr schedule \<Rightarrow> fold (save_entry save) schedule store)"

section \<open>Facts\<close>

lemma add_schedules_distinct:
  "add_schedules items schedule = Inr out \<Longrightarrow> distinct (map fst schedule) \<Longrightarrow>
     distinct (map fst out) \<and> out = schedule @ map (\<lambda>i. (bs_name i, bs_task i, bs_schedule i)) items"
  by (induction items arbitrary: schedule) (fastforce split: if_splits)+

lemma fold_save:
  "distinct (map fst schedule) \<Longrightarrow>
     fold (save_entry save) schedule store name =
       (case map_of schedule name of Some e \<Rightarrow> if save name = Inr () then Some e else store name | None \<Rightarrow> store name)"
proof (induction schedule arbitrary: store)
  case (Cons entry schedule)
  obtain n task sched where e: "entry = (n, task, sched)" by (cases entry)
  have "map_of schedule n = None" using Cons.prems by (auto simp: e map_of_eq_None_iff)
  then show ?case using Cons by (auto simp: e save_entry_def split: option.splits sum.splits)
qed simp

text \<open>The declared schedules arrive in redbeat: when they can be collected, their names are all different and exactly the ones
  that can be saved are stored, with the task and the schedule declared; everything else in redbeat stays, and nothing is
  raised.\<close>

lemma redbeat_synced:
  assumes "specs = Inr modules" "collect_beat_schedule modules = Inr schedule"
  shows "distinct (map fst schedule)
     \<and> sync_to_redbeat specs save store name =
         (case map_of schedule name of Some e \<Rightarrow> if save name = Inr () then Some e else store name | None \<Rightarrow> store name)"
proof -
  have d: "distinct (map fst schedule)"
    using add_schedules_distinct[of _ "[]" schedule] assms(2) by (simp add: collect_beat_schedule_def)
  then show ?thesis using fold_save[OF d, of save store name] by (simp add: sync_to_redbeat_def assms)
qed

text \<open>The configuration a worker of the judge ends with: it consumes the judge's queue only, takes one task at a time, and a task that
  runs into its time limit is not delivered a second time by the broker, given the declared defaults.\<close>

lemma worker_configuration:
  fixes conf :: celery_app_conf
  defines "final \<equiv> snd (configure_celery_app judge_settings_default (False, celery_app celery_settings_default redis_settings_default conf))"
  shows "map fst (ce_task_queues final) = [cs_worker_queues celery_settings_default]" "ce_worker_prefetch_multiplier final = 1"
    "ce_task_soft_time_limit final < ce_task_time_limit final" "ce_task_time_limit final < ca_visibility_timeout final"
  by (simp_all add: final_def configure_celery_app_def celery_app_def judge_settings_default_def celery_settings_default_def)

end
