(* ===== verification/StorageUrl.thy ===== *)
theory StorageUrl
  imports Config
begin

text \<open>
  File URLs: \<^verbatim>\<open>app/platform/storage/url.py\<close> and the URL methods of the storages, over a model of the functions of
  \<^verbatim>\<open>urllib.parse\<close> (Python 3.11) they use: \<^verbatim>\<open>quote\<close>, \<^verbatim>\<open>urlsplit\<close>, \<^verbatim>\<open>urlparse\<close> and \<^verbatim>\<open>urljoin\<close>.

  Texts are lists of code points. The validation of a network location beyond unbalanced brackets (numeric addresses in
  brackets, Unicode normalisation) is a parameter, \<open>check_netloc\<close>.
\<close>

section \<open>urllib.parse\<close>

subsection \<open>quote\<close>

definition url_safe :: "nat \<Rightarrow> bool" where
  "url_safe b = (b \<in> set (asc ''ABCDEFGHIJKLMNOPQRSTUVWXYZabcdefghijklmnopqrstuvwxyz0123456789_.-~/''))"

definition upper_hex :: "nat \<Rightarrow> nat" where
  "upper_hex d = (if d < 10 then 48 + d else 55 + d)"

definition quote_byte :: "nat \<Rightarrow> ptext" where
  "quote_byte b = (if url_safe b then [b] else [37, upper_hex (b div 16), upper_hex (b mod 16)])"

definition url_quote :: "ptext \<Rightarrow> ptext res" where
  "url_quote t = rbind (utf8_encode t) (\<lambda>bs. Inr (concat (map quote_byte bs)))"

subsection \<open>urlsplit and urlparse\<close>

record url_parts =
  ur_scheme :: ptext
  ur_netloc :: ptext
  ur_path :: ptext
  ur_params :: ptext
  ur_query :: ptext
  ur_fragment :: ptext

definition schemes :: "string list \<Rightarrow> ptext set" where
  "schemes ss = asc ` set ss"

definition uses_relative :: "ptext set" where
  "uses_relative = schemes ['''', ''ftp'', ''http'', ''gopher'', ''nntp'', ''imap'', ''wais'', ''file'', ''https'', ''shttp'', ''mms'',
     ''prospero'', ''rtsp'', ''rtsps'', ''rtspu'', ''sftp'', ''svn'', ''svn+ssh'', ''ws'', ''wss'']"

definition uses_netloc :: "ptext set" where
  "uses_netloc = schemes ['''', ''ftp'', ''http'', ''gopher'', ''nntp'', ''telnet'', ''imap'', ''wais'', ''file'', ''mms'', ''https'',
     ''shttp'', ''snews'', ''prospero'', ''rtsp'', ''rtsps'', ''rtspu'', ''rsync'', ''svn'', ''svn+ssh'', ''sftp'', ''nfs'', ''git'',
     ''git+ssh'', ''ws'', ''wss'']"

definition uses_params :: "ptext set" where
  "uses_params = schemes ['''', ''ftp'', ''hdl'', ''prospero'', ''http'', ''imap'', ''https'', ''shttp'', ''rtsp'', ''rtsps'', ''rtspu'',
     ''sip'', ''sips'', ''mms'', ''sftp'', ''tel'']"

definition ascii_alpha :: "nat \<Rightarrow> bool" where
  "ascii_alpha c = (65 \<le> c \<and> c \<le> 90 \<or> 97 \<le> c \<and> c \<le> 122)"

definition scheme_char :: "nat \<Rightarrow> bool" where
  "scheme_char c = (ascii_alpha c \<or> is_digit c \<or> c \<in> set (asc ''+-.''))"

text \<open>\<^verbatim>\<open>s.split(c, 1)\<close> as the part before the separator and, if there is one, the part after it.\<close>

definition cut_at :: "nat \<Rightarrow> ptext \<Rightarrow> ptext \<times> ptext option" where
  "cut_at c s = (let head = takeWhile (\<lambda>x. x \<noteq> c) s
     in (head, if length head < length s then Some (drop (Suc (length head)) s) else None))"

definition opt_text :: "ptext option \<Rightarrow> ptext" where
  "opt_text x = (case x of None \<Rightarrow> [] | Some t \<Rightarrow> t)"

definition split_scheme :: "ptext \<Rightarrow> ptext \<Rightarrow> ptext \<times> ptext" where
  "split_scheme default_scheme url =
     (case cut_at 58 url of
        (head, Some rest) \<Rightarrow>
          if head \<noteq> [] \<and> ascii_alpha (hd head) \<and> list_all scheme_char head then (ascii_lower head, rest) else (default_scheme, url)
      | (head, None) \<Rightarrow> (default_scheme, url))"

definition split_netloc :: "ptext \<Rightarrow> ptext \<times> ptext" where
  "split_netloc s = (takeWhile (\<lambda>c. c \<notin> set (asc ''/?#'')) s, dropWhile (\<lambda>c. c \<notin> set (asc ''/?#'')) s)"

text \<open>The characters \<^verbatim>\<open>urlsplit\<close> drops: leading control characters and blanks, and line breaks and tabs anywhere.\<close>

definition clean_url :: "ptext \<Rightarrow> ptext" where
  "clean_url url = filter (\<lambda>c. c \<notin> {9, 10, 13}) (dropWhile (\<lambda>c. c \<le> 32) url)"

definition split_params :: "ptext \<Rightarrow> ptext \<times> ptext" where
  "split_params path =
     (let directory = (if 47 \<in> set path then rev (dropWhile (\<lambda>c. c \<noteq> 47) (rev path)) else []);
          name = drop (length directory) path
      in case cut_at 59 name of (head, rest) \<Rightarrow> (directory @ head, opt_text rest))"

definition urlparse :: "(ptext \<Rightarrow> exn option) \<Rightarrow> ptext \<Rightarrow> ptext \<Rightarrow> url_parts res" where
  "urlparse check_netloc default_scheme url =
     (case split_scheme default_scheme (clean_url url) of (scheme, rest) \<Rightarrow>
      case (if take 2 rest = [47, 47] then split_netloc (drop 2 rest) else ([], rest)) of (netloc, rest1) \<Rightarrow>
      case cut_at 35 rest1 of (rest2, fragment) \<Rightarrow>
      case cut_at 63 rest2 of (path, query) \<Rightarrow>
        if (91 \<in> set netloc) \<noteq> (93 \<in> set netloc) then Inl (ValueError (asc ''Invalid IPv6 URL''))
        else case check_netloc netloc of
            Some e \<Rightarrow> Inl e
          | None \<Rightarrow>
              (case (if scheme \<in> uses_params \<and> 59 \<in> set path then split_params path else (path, [])) of (path', params) \<Rightarrow>
                 Inr \<lparr>ur_scheme = scheme, ur_netloc = netloc, ur_path = path', ur_params = params,
                   ur_query = opt_text query, ur_fragment = opt_text fragment\<rparr>))"

subsection \<open>urlunparse and urljoin\<close>

definition urlunparse :: "url_parts \<Rightarrow> ptext" where
  "urlunparse u =
     (let url0 = (if ur_params u \<noteq> [] then ur_path u @ [59] @ ur_params u else ur_path u);
          url1 = (if ur_netloc u \<noteq> [] \<or> (ur_scheme u \<noteq> [] \<and> ur_scheme u \<in> uses_netloc) \<or> take 2 url0 = [47, 47]
                  then [47, 47] @ ur_netloc u @ (if url0 \<noteq> [] \<and> hd url0 \<noteq> 47 then 47 # url0 else url0)
                  else url0)
      in (if ur_scheme u \<noteq> [] then ur_scheme u @ [58] else []) @ url1
         @ (if ur_query u \<noteq> [] then 63 # ur_query u else [])
         @ (if ur_fragment u \<noteq> [] then 35 # ur_fragment u else []))"

fun resolve_segment :: "ptext list \<Rightarrow> ptext \<Rightarrow> ptext list" where
  "resolve_segment acc seg = (if seg = [46, 46] then butlast acc else if seg = [46] then acc else acc @ [seg])"

definition join_paths :: "ptext \<Rightarrow> ptext \<Rightarrow> ptext" where
  "join_paths bpath path =
     (let parts = split_on 47 bpath;
          base_parts = (if last parts \<noteq> [] then butlast parts else parts);
          all = base_parts @ split_on 47 path;
          segments = (if take 1 path = [47] then split_on 47 path
                      else if length all \<le> 2 then all
                      else hd all # filter (\<lambda>s. s \<noteq> []) (butlast (tl all)) @ [last all]);
          resolved = foldl resolve_segment [] segments;
          joined = join_with [47] (if last segments \<in> {[46], [46, 46]} then resolved @ [[]] else resolved)
      in if joined \<noteq> [] then joined else [47])"

definition urljoin :: "(ptext \<Rightarrow> exn option) \<Rightarrow> ptext \<Rightarrow> ptext \<Rightarrow> ptext res" where
  "urljoin check_netloc base url =
     (if base = [] then Inr url
      else if url = [] then Inr base
      else
        rbind (urlparse check_netloc [] base) (\<lambda>b.
        rbind (urlparse check_netloc (ur_scheme b) url) (\<lambda>u.
          if ur_scheme u \<noteq> ur_scheme b \<or> ur_scheme u \<notin> uses_relative then Inr url
          else if ur_scheme u \<in> uses_netloc \<and> ur_netloc u \<noteq> [] then Inr (urlunparse u)
          else
            let u1 = (if ur_scheme u \<in> uses_netloc then u\<lparr>ur_netloc := ur_netloc b\<rparr> else u)
            in if ur_path u = [] \<and> ur_params u = []
               then Inr (urlunparse (u1\<lparr>ur_path := ur_path b, ur_params := ur_params b,
                      ur_query := (if ur_query u \<noteq> [] then ur_query u else ur_query b)\<rparr>))
               else Inr (urlunparse (u1\<lparr>ur_path := join_paths (ur_path b) (ur_path u)\<rparr>)))))"

section \<open>url.py\<close>

definition strip_slash_text :: "ptext \<Rightarrow> ptext" where
  "strip_slash_text t = strip_by (\<lambda>c. c = 47) t"

definition rstrip_slash :: "ptext \<Rightarrow> ptext" where
  "rstrip_slash t = rstrip_by (\<lambda>c. c = 47) t"

definition quote_object_name :: "ptext \<Rightarrow> ptext res" where
  "quote_object_name object_name =
     rbind (mapr url_quote (filter (\<lambda>p. p \<noteq> []) (split_on 47 (strip_slash_text object_name)))) (\<lambda>parts.
       Inr (join_with [47] parts))"

text \<open>The storage settings these functions read.\<close>

record url_settings =
  us_base_url :: ptext
  us_public_path :: ptext

definition build_file_access_url ::
  "(ptext \<Rightarrow> exn option) \<Rightarrow> url_settings \<Rightarrow> ptext option \<Rightarrow> ptext option \<Rightarrow> ptext \<Rightarrow> ptext res" where
  "build_file_access_url check_netloc us base_url public_path object_name =
     rbind (quote_object_name object_name) (\<lambda>quoted_name.
       let resolved_base_url = (case base_url of None \<Rightarrow> us_base_url us | Some b \<Rightarrow> b);
           resolved_public_path = (case public_path of None \<Rightarrow> us_public_path us | Some p \<Rightarrow> p)
       in if resolved_base_url \<noteq> [] then urljoin check_netloc (rstrip_slash resolved_base_url @ [47]) quoted_name
          else Inr (rstrip_slash resolved_public_path @ [47] @ quoted_name))"

definition is_external_url :: "(ptext \<Rightarrow> exn option) \<Rightarrow> ptext \<Rightarrow> bool res" where
  "is_external_url check_netloc v =
     rbind (urlparse check_netloc [] v) (\<lambda>u. Inr (ur_scheme u \<in> schemes [''http'', ''https'', ''data'', ''blob'']))"

definition normalize_object_name ::
  "(ptext \<Rightarrow> exn option) \<Rightarrow> url_settings \<Rightarrow> ptext option \<Rightarrow> ptext option \<Rightarrow> ptext option res" where
  "normalize_object_name check_netloc us public_path v =
     (case v of
        None \<Rightarrow> Inr None
      | Some val \<Rightarrow>
          let raw_value = ustrip val in
          if raw_value = [] then Inr None
          else
            rbind (is_external_url check_netloc raw_value) (\<lambda>external.
              if external then Inr (Some raw_value)
              else
                let resolved_public_path = (case public_path of None \<Rightarrow> us_public_path us | Some p \<Rightarrow> if p = [] then us_public_path us else p);
                    public_prefix = rstrip_slash resolved_public_path @ [47]
                in if startswith raw_value public_prefix
                   then Inr (Some (lstrip_by (\<lambda>c. c = 47) (drop (length public_prefix) raw_value)))
                   else Inr (Some (lstrip_by (\<lambda>c. c = 47) (map (\<lambda>c. if c = 92 then 47 else c) raw_value)))))"

definition resolve_file_url ::
  "(ptext \<Rightarrow> exn option) \<Rightarrow> url_settings \<Rightarrow> ptext option \<Rightarrow> ptext option \<Rightarrow> ptext option \<Rightarrow> ptext option res" where
  "resolve_file_url check_netloc us base_url public_path v =
     rbind (normalize_object_name check_netloc us public_path v) (\<lambda>name.
       case name of
         None \<Rightarrow> Inr None
       | Some object_name \<Rightarrow>
           if object_name = [] then Inr None
           else
             rbind (is_external_url check_netloc object_name) (\<lambda>external.
               if external then Inr (Some object_name)
               else rbind (build_file_access_url check_netloc us base_url public_path object_name) (\<lambda>url. Inr (Some url))))"

section \<open>Facts\<close>

subsection \<open>Quoting\<close>

text \<open>What a client does with a quoted path: percent escapes are bytes, which are decoded as UTF-8.\<close>

definition hex_digit_value :: "nat \<Rightarrow> nat" where
  "hex_digit_value c = (if c \<le> 57 then c - 48 else c - 55)"

fun unquote_bytes :: "ptext \<Rightarrow> bytes" where
  "unquote_bytes (c # x # y # rest) =
     (if c = 37 then (16 * hex_digit_value x + hex_digit_value y) # unquote_bytes rest else c # unquote_bytes (x # y # rest))"
| "unquote_bytes t = t"

definition url_unquote :: "ptext \<Rightarrow> ptext" where
  "url_unquote t = utf8_decode (unquote_bytes t)"

lemma url_safe_not_percent: "url_safe b \<Longrightarrow> b \<noteq> 37"
proof -
  have "\<not> url_safe 37" by code_simp
  then show "url_safe b \<Longrightarrow> b \<noteq> 37" by blast
qed

lemma hex_digit_value_upper: "d < 16 \<Longrightarrow> hex_digit_value (upper_hex d) = d"
  by (auto simp: hex_digit_value_def upper_hex_def)

lemma unquote_safe: "url_safe b \<Longrightarrow> unquote_bytes (b # rest) = b # unquote_bytes rest"
  using url_safe_not_percent by (cases rest rule: unquote_bytes.cases) auto

lemma unquote_quote_bytes: "list_all (\<lambda>b. b < 256) bs \<Longrightarrow> unquote_bytes (concat (map quote_byte bs) @ []) = bs"
proof (induction bs)
  case (Cons b bs)
  have "b div 16 < 16" "b mod 16 < 16" using Cons.prems by auto
  then show ?case using Cons
    by (auto simp: quote_byte_def unquote_safe hex_digit_value_upper)
qed simp

lemma encode1_bytes: "scalar c \<Longrightarrow> list_all (\<lambda>b. b < 256) (encode1 c)"
  by (auto simp: encode1_def scalar_def)

lemma url_unquote_quote:
  assumes "url_quote t = Inr q"
  shows "url_unquote q = t"
proof -
  from assms have t: "list_all scalar t" and q: "q = concat (map quote_byte (concat (map encode1 t)))"
    by (auto simp: url_quote_def rbind_eq_Inr utf8_encode_def split: if_splits)
  have "list_all (\<lambda>b. b < 256) (concat (map encode1 t))" using t encode1_bytes by (auto simp: list_all_iff)
  from unquote_quote_bytes[OF this] utf8_decode_concat[OF t] show ?thesis by (simp add: url_unquote_def q)
qed

lemma url_quote_total: "list_all scalar t \<Longrightarrow> \<exists>q. url_quote t = Inr q"
  by (auto simp: url_quote_def utf8_encode_def)

lemma url_safe_range: "url_safe c \<Longrightarrow> 45 \<le> c \<and> c \<le> 126 \<and> c \<noteq> 58"
proof -
  have "list_all (\<lambda>c. 45 \<le> c \<and> c \<le> 126 \<and> c \<noteq> 58)
      (asc ''ABCDEFGHIJKLMNOPQRSTUVWXYZabcdefghijklmnopqrstuvwxyz0123456789_.-~/'')"
    by code_simp
  then show "url_safe c \<Longrightarrow> 45 \<le> c \<and> c \<le> 126 \<and> c \<noteq> 58" by (auto simp: url_safe_def list_all_iff)
qed

lemma url_quote_safe: "list_all url_safe t \<Longrightarrow> url_quote t = Inr t"
proof -
  assume t: "list_all url_safe t"
  then have "list_all scalar t" "concat (map encode1 t) = t"
    by (induction t) (auto simp: scalar_def encode1_def dest: url_safe_range)
  moreover have "concat (map quote_byte t) = t" using t by (induction t) (auto simp: quote_byte_def)
  ultimately show ?thesis by (simp add: url_quote_def utf8_encode_def)
qed

text \<open>The characters of a quoted text: safe ones, percent signs and hexadecimal digits.\<close>

definition quoted_char :: "nat \<Rightarrow> bool" where
  "quoted_char c = (url_safe c \<or> c = 37)"

lemma upper_hex_safe: "d < 16 \<Longrightarrow> url_safe (upper_hex d)"
proof -
  have "\<forall>d\<in>set [0..<16]. url_safe (upper_hex d)" by code_simp
  then show "d < 16 \<Longrightarrow> url_safe (upper_hex d)" by simp
qed

lemma quote_byte_chars: "b < 256 \<Longrightarrow> list_all quoted_char (quote_byte b)"
  by (auto simp: quote_byte_def quoted_char_def intro!: upper_hex_safe)

text \<open>Quoting as a plain function, for texts that encode.\<close>

definition quote_text :: "ptext \<Rightarrow> ptext" where
  "quote_text t = concat (map quote_byte (concat (map encode1 t)))"

lemma url_quote_scalar: "list_all scalar t \<Longrightarrow> url_quote t = Inr (quote_text t)"
  by (simp add: url_quote_def utf8_encode_def quote_text_def)

lemma quote_text_append: "quote_text (a @ b) = quote_text a @ quote_text b"
  by (simp add: quote_text_def)

lemma quote_text_slash: "quote_text [47] = [47]"
  by code_simp

lemma quote_text_join: "quote_text (join_with [47] ws) = join_with [47] (map quote_text ws)"
proof (induction ws)
  case Nil
  show ?case by (simp add: quote_text_def)
next
  case (Cons w ws)
  then show ?case using quote_text_append[of "[47]"] by (simp add: join_with_Cons quote_text_append quote_text_slash) (simp add: quote_text_def)
qed

lemma quote_text_chars: "list_all scalar t \<Longrightarrow> list_all quoted_char (quote_text t)"
proof (induction t)
  case (Cons c t)
  have "list_all quoted_char (concat (map quote_byte bs))" if "list_all (\<lambda>b. b < 256) bs" for bs
    using that by (induction bs) (auto simp: quote_byte_chars)
  with Cons encode1_bytes[of c] show ?case by (simp add: quote_text_def)
qed (simp add: quote_text_def)

lemma quote_text_hd: "quote_text (c # t) \<noteq> [] \<and> (c \<noteq> 47 \<longrightarrow> hd (quote_text (c # t)) \<noteq> 47)"
proof -
  obtain b bs where b: "encode1 c = b # bs" "c \<noteq> 47 \<longrightarrow> b \<noteq> 47"
    by (cases "c < 128"; cases "c < 2048"; cases "c < 65536") (auto simp: encode1_def)
  have "quote_byte b \<noteq> []" "b \<noteq> 47 \<longrightarrow> hd (quote_byte b) \<noteq> 47" by (auto simp: quote_byte_def)
  with b show ?thesis by (auto simp: quote_text_def)
qed

subsection \<open>Object names\<close>

text \<open>An object name in canonical form: Unicode scalar values, and no empty path segment.\<close>

definition canonical_name :: "ptext \<Rightarrow> bool" where
  "canonical_name name = (list_all scalar name \<and> [] \<notin> set (split_on 47 name))"

lemma split_on_append: "split_on c (s @ c # t) = split_on c s @ split_on c t"
proof (induction s)
  case Nil
  show ?case by (cases "split_on c t") auto
next
  case (Cons x s)
  then show ?case by (cases "split_on c s") auto
qed

lemma split_on_subset: "w \<in> set (split_on c s) \<Longrightarrow> set w \<subseteq> set s"
  by (induction s arbitrary: w) (fastforce split: list.splits if_splits)+

lemma canonical_ends:
  assumes "canonical_name name"
  shows "name \<noteq> []" "hd name \<noteq> 47" "last name \<noteq> 47"
proof -
  have ne: "[] \<notin> set (split_on 47 name)" using assms by (simp add: canonical_name_def)
  then show n: "name \<noteq> []" by auto
  show "hd name \<noteq> 47" using ne n split_on_append[of 47 "[]" "tl name"] by (cases name) auto
  show "last name \<noteq> 47"
  proof
    assume "last name = 47"
    then have "name = butlast name @ [47]" using n by (metis append_butlast_last_id)
    then have "split_on 47 name = split_on 47 (butlast name) @ [[]]" using split_on_append[of 47 "butlast name" "[]"] by simp
    with ne show False by simp
  qed
qed

text \<open>For a canonical name, quoting the segments is quoting the name.\<close>

lemma quote_object_name_canonical:
  assumes "canonical_name name"
  shows "quote_object_name name = Inr (quote_text name)"
proof -
  note ends = canonical_ends[OF assms]
  have strip: "strip_slash_text name = name" unfolding strip_slash_text_def by (rule strip_by_fixed) (use ends in auto)
  let ?ws = "split_on 47 name"
  have filter: "filter (\<lambda>p. p \<noteq> []) ?ws = ?ws" using assms by (auto simp: canonical_name_def filter_id_conv)
  have "list_all scalar w" if "w \<in> set ?ws" for w
    using that assms split_on_subset[of w 47 name] by (auto simp: canonical_name_def list_all_iff)
  then have "mapr url_quote ?ws = Inr (map quote_text ?ws)"
    by (auto simp: mapr_eq_Inr list_all2_map2 url_quote_scalar intro!: list.rel_refl_strong)
  then show ?thesis by (simp add: quote_object_name_def strip filter flip: quote_text_join) (simp add: join_split_on)
qed


subsection \<open>Resolving\<close>

lemma cut_at_absent: "c \<notin> set s \<Longrightarrow> cut_at c s = (s, None)"
proof -
  assume "c \<notin> set s"
  then have "takeWhile (\<lambda>x. x \<noteq> c) s = s" by (auto simp: takeWhile_eq_all_conv)
  then show ?thesis unfolding cut_at_def Let_def by (simp del: takeWhile_eq_all_conv)
qed

text \<open>A text without a colon that does not start with two slashes is not an external URL.\<close>

lemma not_external:
  assumes "58 \<notin> set v" "take 2 (clean_url v) \<noteq> [47, 47]" "check_netloc [] = None"
  shows "is_external_url check_netloc v = Inr False"
proof -
  have "58 \<notin> set (clean_url v)" using assms(1) set_dropWhileD[of 58] by (auto simp: clean_url_def)
  then have "split_scheme [] (clean_url v) = ([], clean_url v)"
    by (simp add: split_scheme_def cut_at_absent)
  moreover have "[] \<notin> schemes [''http'', ''https'', ''data'', ''blob'']" by (simp add: schemes_def asc_def)
  ultimately show ?thesis using assms(2,3)
    by (auto simp: is_external_url_def urlparse_def split: prod.splits)
qed

lemma clean_url_hd: "v \<noteq> [] \<Longrightarrow> 32 < hd v \<Longrightarrow> clean_url v \<noteq> [] \<and> hd (clean_url v) = hd v"
  by (cases v) (auto simp: clean_url_def)

lemma clean_url_printable: "list_all (\<lambda>c. 32 < c) v \<Longrightarrow> clean_url v = v"
  by (cases v) (auto simp: clean_url_def list_all_iff intro!: filter_True)

lemma quoted_char_range: "quoted_char c \<Longrightarrow> 37 \<le> c \<and> c \<le> 126 \<and> c \<noteq> 58"
  by (auto simp: quoted_char_def dest: url_safe_range)

text \<open>A public path that is an absolute path of the same host, and the prefix of the URLs under it.\<close>

definition local_path :: "ptext \<Rightarrow> bool" where
  "local_path path = (path \<noteq> [] \<and> hd path = 47 \<and> take 2 path \<noteq> [47, 47] \<and> list_all (\<lambda>c. 32 < c) path \<and> 58 \<notin> set path)"

definition public_prefix :: "url_settings \<Rightarrow> ptext" where
  "public_prefix us = rstrip_slash (us_public_path us) @ [47]"

lemma public_prefix_props:
  assumes "local_path (us_public_path us)"
  shows "public_prefix us \<noteq> []" "hd (public_prefix us) = 47" "list_all (\<lambda>c. 32 < c) (public_prefix us)"
    "58 \<notin> set (public_prefix us)" "q \<noteq> [] \<Longrightarrow> hd q \<noteq> 47 \<Longrightarrow> take 2 (public_prefix us @ q) \<noteq> [47, 47]"
proof -
  let ?p = "us_public_path us" and ?r = "rstrip_slash (us_public_path us)"
  obtain z where z: "?p = ?r @ z" using rstrip_by_prefix[of "\<lambda>c. c = 47" ?p] by (auto simp: rstrip_slash_def prefix_def)
  have path: "hd ?p = 47" "take 2 ?p \<noteq> [47, 47]" "list_all (\<lambda>c. 32 < c) (?r @ z)" "58 \<notin> set (?r @ z)"
    using assms z by (auto simp: local_path_def)
  show "public_prefix us \<noteq> []" by (simp add: public_prefix_def)
  have hd: "?r \<noteq> [] \<Longrightarrow> hd ?r = 47" using z path(1) by (metis hd_append2)
  then show "hd (public_prefix us) = 47" by (cases "?r = []") (auto simp: public_prefix_def)
  show "list_all (\<lambda>c. 32 < c) (public_prefix us)" "58 \<notin> set (public_prefix us)" using path by (auto simp: public_prefix_def)
  have last: "?r \<noteq> [] \<Longrightarrow> last ?r \<noteq> 47"
    unfolding rstrip_slash_def rstrip_by_def by (metis (mono_tags, lifting) hd_dropWhile last_rev rev_is_Nil_conv)
  show "take 2 (public_prefix us @ q) \<noteq> [47, 47]" if "q \<noteq> []" "hd q \<noteq> 47"
  proof (cases ?r)
    case Nil
    then show ?thesis using that by (cases q) (auto simp: public_prefix_def)
  next
    case (Cons c cs)
    then obtain d ds where "cs = d # ds" using hd last by (cases cs) auto
    with Cons z path(2) show ?thesis by (auto simp: public_prefix_def)
  qed
qed

lemma resolve_named:
  assumes "normalize_object_name check_netloc us None v = Inr (Some n)"
    and "canonical_name n" "32 < hd n" "58 \<notin> set n" "us_base_url us = []" "check_netloc [] = None"
  shows "resolve_file_url check_netloc us None None v = Inr (Some (public_prefix us @ quote_text n))"
proof -
  note ends = canonical_ends[OF assms(2)]
  have "take 2 (clean_url n) \<noteq> [47, 47]" using clean_url_hd[OF ends(1) assms(3)] ends(2) by (cases "clean_url n") auto
  with not_external[of n check_netloc] assms(4,6) have "is_external_url check_netloc n = Inr False" by simp
  then show ?thesis
    using assms(1,5) ends(1) quote_object_name_canonical[OF assms(2)]
    by (simp add: resolve_file_url_def build_file_access_url_def public_prefix_def)
qed

lemma normalize_plain:
  assumes "canonical_name name" "ustrip name = name" "32 < hd name" "58 \<notin> set name" "92 \<notin> set name"
    and "local_path (us_public_path us)" "check_netloc [] = None"
  shows "normalize_object_name check_netloc us None (Some name) = Inr (Some name)"
proof -
  note ends = canonical_ends[OF assms(1)] and pre = public_prefix_props[OF assms(6)]
  have "take 2 (clean_url name) \<noteq> [47, 47]"
    using clean_url_hd[OF ends(1) assms(3)] ends(2) by (cases "clean_url name") auto
  with not_external[of name check_netloc] assms(4,7) have ext: "is_external_url check_netloc name = Inr False" by simp
  have "\<not> startswith name (public_prefix us)"
    using pre(1,2) ends(1,2) by (cases name; cases "public_prefix us") (auto simp: startswith_def)
  moreover have "map (\<lambda>c. if c = 92 then 47 else c) name = name" using assms(5) by (intro map_idI) auto
  ultimately show ?thesis using ext ends(1,2) assms(2)
    by (simp add: normalize_object_name_def public_prefix_def lstrip_by_def dropWhile_hd)
qed

lemma normalize_public:
  assumes "local_path (us_public_path us)" "list_all quoted_char q" "q \<noteq> []" "hd q \<noteq> 47" "check_netloc [] = None"
  shows "normalize_object_name check_netloc us None (Some (public_prefix us @ q)) = Inr (Some q)"
proof -
  let ?url = "public_prefix us @ q"
  note pre = public_prefix_props[OF assms(1)]
  have q: "list_all (\<lambda>c. 32 < c) q" "58 \<notin> set q" using assms(2) by (auto simp: list_all_iff dest!: quoted_char_range)
  have "clean_url ?url = ?url" by (rule clean_url_printable) (use pre(3) q in simp)
  with not_external[of ?url check_netloc] pre(4) pre(5)[OF assms(3,4)] q assms(5)
  have ext: "is_external_url check_netloc ?url = Inr False" by simp
  have "quoted_char (last q)" using assms(2,3) by (simp add: list_all_iff)
  from quoted_char_range[OF this] have "\<not> uspace (last q)" by (auto simp: uspace_def)
  moreover have "\<not> uspace 47" by (simp add: uspace_def)
  ultimately have "ustrip ?url = ?url" unfolding ustrip_def by (intro strip_by_fixed) (use pre(1,2) assms(3) in simp)
  with ext pre(1) assms(4) show ?thesis
    by (simp add: normalize_object_name_def lstrip_by_def dropWhile_hd flip: public_prefix_def)
qed

text \<open>C31: File URLs under the public path of the service (no base URL) round-trip. Resolving an object name without a colon,
  backslash or outer blanks gives the public prefix followed by a quoted name that unquotes to the object name; normalising
  that URL gives the quoted name; and where the name needs no quoting, that is the name itself and resolving the URL
  again changes nothing.\<close>

theorem file_url_roundtrip:
  assumes "canonical_name name" "ustrip name = name" "32 < hd name" "58 \<notin> set name" "92 \<notin> set name"
    and "local_path (us_public_path us)" "us_base_url us = []" "check_netloc [] = None"
  shows "\<exists>q url. resolve_file_url check_netloc us None None (Some name) = Inr (Some url)
           \<and> url = rstrip_slash (us_public_path us) @ [47] @ q \<and> url_unquote q = name
           \<and> normalize_object_name check_netloc us None (Some url) = Inr (Some q)
           \<and> (list_all url_safe name \<longrightarrow> q = name \<and> resolve_file_url check_netloc us None None (Some url) = Inr (Some url))"
proof -
  note ends = canonical_ends[OF assms(1)]
  have sc: "list_all scalar name" using assms(1) by (simp add: canonical_name_def)
  define q where "q = quote_text name"
  define url where "url = public_prefix us @ q"
  have q: "url_unquote q = name" "q \<noteq> []" "hd q \<noteq> 47" "list_all quoted_char q"
    using url_unquote_quote[OF url_quote_scalar[OF sc]] quote_text_chars[OF sc] quote_text_hd[of "hd name" "tl name"] ends
    by (auto simp: q_def)
  have "normalize_object_name check_netloc us None (Some name) = Inr (Some name)"
    using normalize_plain assms by blast
  then have r: "resolve_file_url check_netloc us None None (Some name) = Inr (Some url)"
    unfolding url_def q_def by (rule resolve_named) (use assms in auto)
  have n: "normalize_object_name check_netloc us None (Some url) = Inr (Some q)"
    unfolding url_def using normalize_public assms(6,8) q by blast
  have "q = name \<and> resolve_file_url check_netloc us None None (Some url) = Inr (Some url)" if "list_all url_safe name"
  proof -
    have "q = name" using url_quote_safe[OF that] url_quote_scalar[OF sc] by (simp add: q_def)
    with resolve_named[OF n] assms show ?thesis by (simp add: url_def q_def)
  qed
  with r n q(1) show ?thesis by (auto simp: url_def public_prefix_def)
qed

definition demo_url_settings :: url_settings where
  "demo_url_settings = \<lparr>us_base_url = [], us_public_path = asc ''/files/''\<rparr>"

lemmas url_eval = demo_url_settings_def asc_def scalar_def strip_by_def lstrip_by_def rstrip_by_def rstrip_slash_def uspace_def

theorem file_url_roundtrip_witness:
  "\<exists>q. resolve_file_url (\<lambda>_. None) demo_url_settings None None (Some (asc ''avatar/my pic.png'')) = Inr (Some (asc ''/files/'' @ q))
     \<and> url_unquote q = asc ''avatar/my pic.png''"
proof -
  have "canonical_name (asc ''avatar/my pic.png'')" "ustrip (asc ''avatar/my pic.png'') = asc ''avatar/my pic.png''"
    "32 < hd (asc ''avatar/my pic.png'')" "58 \<notin> set (asc ''avatar/my pic.png'')" "92 \<notin> set (asc ''avatar/my pic.png'')"
    "local_path (us_public_path demo_url_settings)" "us_base_url demo_url_settings = []"
    "rstrip_slash (us_public_path demo_url_settings) @ [47] = asc ''/files/''"
    by (simp_all add: url_eval canonical_name_def local_path_def ustrip_def)
  from file_url_roundtrip[OF this(1-7), of "\<lambda>_. None"] this(8) show ?thesis by (metis append.assoc)
qed

text \<open>A URL whose name was quoted is quoted again when it is resolved again, and then names another object.\<close>

lemma resolve_quotes_twice:
  "resolve_file_url (\<lambda>_. None) demo_url_settings None None (Some (asc ''a b'')) = Inr (Some (asc ''/files/a%20b''))"
  "resolve_file_url (\<lambda>_. None) demo_url_settings None None (Some (asc ''/files/a%20b'')) = Inr (Some (asc ''/files/a%2520b''))"
proof -
  have path: "local_path (us_public_path demo_url_settings)" by (simp add: url_eval local_path_def)
  have pre: "public_prefix demo_url_settings = asc ''/files/''" by (simp add: url_eval public_prefix_def)
  have base: "us_base_url demo_url_settings = []" by (simp add: demo_url_settings_def)
  have c: "canonical_name (asc ''a b'')" "canonical_name (asc ''a%20b'')" by (simp_all add: url_eval canonical_name_def)
  have quote: "quote_text (asc ''a b'') = asc ''a%20b''" "quote_text (asc ''a%20b'') = asc ''a%2520b''"
    by (simp_all add: quote_text_def encode1_def quote_byte_def url_safe_def upper_hex_def asc_def)
  have "ustrip (asc ''a b'') = asc ''a b''" by (simp add: url_eval ustrip_def)
  from resolve_named[OF normalize_plain[OF c(1) this], of demo_url_settings "\<lambda>_. None"] c path base pre quote
  show "resolve_file_url (\<lambda>_. None) demo_url_settings None None (Some (asc ''a b'')) = Inr (Some (asc ''/files/a%20b''))"
    by (simp add: asc_def)
  have "list_all quoted_char (asc ''a%20b'')" by (simp add: quoted_char_def url_safe_def asc_def)
  from normalize_public[OF path this, of "\<lambda>_. None"] pre
  have "normalize_object_name (\<lambda>_. None) demo_url_settings None (Some (asc ''/files/a%20b'')) = Inr (Some (asc ''a%20b''))"
    by (simp add: asc_def)
  from resolve_named[OF this c(2)] base pre quote
  show "resolve_file_url (\<lambda>_. None) demo_url_settings None None (Some (asc ''/files/a%20b'')) = Inr (Some (asc ''/files/a%2520b''))"
    by (simp add: asc_def)
qed

subsection \<open>Joining to a base URL\<close>

text \<open>A plain base URL: scheme and host, and path segments that are neither empty nor dots.\<close>

definition plain_segment :: "ptext \<Rightarrow> bool" where
  "plain_segment s = (s \<notin> {[], [46], [46, 46]} \<and> list_all (\<lambda>c. 32 < c \<and> c \<notin> {35, 47, 59, 63}) s)"

definition plain_base :: "string \<Rightarrow> ptext \<Rightarrow> ptext list \<Rightarrow> ptext" where
  "plain_base scheme host dirs = asc scheme @ [58, 47, 47] @ host @ concat (map (\<lambda>s. 47 # s) dirs)"

lemma cut_at_present: "c \<notin> set a \<Longrightarrow> cut_at c (a @ c # b) = (a, Some b)"
proof -
  assume "c \<notin> set a"
  then have "takeWhile (\<lambda>x. x \<noteq> c) (a @ c # b) = a" by (subst takeWhile_append2) auto
  then show ?thesis unfolding cut_at_def Let_def by simp
qed

lemma urlparse_relative:
  assumes "list_all quoted_char q" "q \<noteq> []" "hd q \<noteq> 47" "check_netloc [] = None"
  shows "urlparse check_netloc scheme q
    = Inr \<lparr>ur_scheme = scheme, ur_netloc = [], ur_path = q, ur_params = [], ur_query = [], ur_fragment = []\<rparr>"
proof -
  have c: "c \<notin> set q" if "\<not> quoted_char c" for c using assms(1) that by (auto simp: list_all_iff)
  have "\<not> quoted_char 58" "\<not> quoted_char 35" "\<not> quoted_char 63" "\<not> quoted_char 59"
    by (simp_all add: quoted_char_def url_safe_def asc_def)
  note absent = this[THEN c]
  have "list_all (\<lambda>c. 32 < c) q" using assms(1) by (auto simp: list_all_iff dest!: quoted_char_range)
  then have "clean_url q = q" by (rule clean_url_printable)
  moreover have "take 2 q \<noteq> [47, 47]" using assms(2,3) by (cases q) auto
  ultimately show ?thesis using assms(4) absent
    by (simp add: urlparse_def split_scheme_def cut_at_absent opt_text_def)
qed

lemma http_scheme:
  "58 \<notin> set (asc ''http'')" "asc ''http'' \<noteq> []" "ascii_alpha (hd (asc ''http''))" "list_all scheme_char (asc ''http'')"
  "ascii_lower (asc ''http'') = asc ''http''" "list_all (\<lambda>c. 32 < c) (asc ''http'')"
  "58 \<notin> set (asc ''https'')" "asc ''https'' \<noteq> []" "ascii_alpha (hd (asc ''https''))" "list_all scheme_char (asc ''https'')"
  "ascii_lower (asc ''https'') = asc ''https''" "list_all (\<lambda>c. 32 < c) (asc ''https'')"
  by (simp_all add: asc_def ascii_alpha_def scheme_char_def ascii_lower_def)

lemma urlparse_base:
  assumes "scheme = ''http'' \<or> scheme = ''https''" "host \<noteq> []" "list_all (\<lambda>c. 32 < c \<and> c \<notin> {35, 47, 63, 91, 93}) host"
    and "path = [] \<or> hd path = 47" "list_all (\<lambda>c. 32 < c \<and> c \<notin> {35, 59, 63}) path" "check_netloc host = None"
  shows "urlparse check_netloc [] (asc scheme @ [58, 47, 47] @ host @ path)
    = Inr \<lparr>ur_scheme = asc scheme, ur_netloc = host, ur_path = path, ur_params = [], ur_query = [], ur_fragment = []\<rparr>"
proof -
  let ?url = "asc scheme @ 58 # [47, 47] @ host @ path"
  have "list_all (\<lambda>c. 32 < c) (asc scheme)" using http_scheme assms(1) by (elim disjE; simp)
  then have "list_all (\<lambda>c. 32 < c) ?url" using assms(3,5) by (auto simp: list_all_iff)
  then have clean: "clean_url ?url = ?url" by (rule clean_url_printable)
  have sch: "58 \<notin> set (asc scheme)" "asc scheme \<noteq> []" "ascii_alpha (hd (asc scheme))" "list_all scheme_char (asc scheme)"
      "ascii_lower (asc scheme) = asc scheme"
    using http_scheme assms(1) by (elim disjE; simp)+
  have split: "split_scheme [] ?url = (asc scheme, [47, 47] @ host @ path)"
    using sch by (simp add: split_scheme_def cut_at_present)
  have host: "\<forall>c\<in>set host. c \<notin> set (asc ''/?#'')" using assms(3) by (auto simp: list_all_iff asc_def)
  have "split_netloc (host @ path) = (host, path)"
    using host assms(4) by (cases path) (auto simp: split_netloc_def takeWhile_append dropWhile_append asc_def)
  moreover have "35 \<notin> set path" "63 \<notin> set path" "59 \<notin> set path" using assms(5) by (auto simp: list_all_iff)
  moreover have "91 \<notin> set host" "93 \<notin> set host" using assms(3) by (auto simp: list_all_iff)
  ultimately show ?thesis using clean split assms(6)
    by (simp add: urlparse_def cut_at_absent opt_text_def)
qed

lemma foldl_resolve_plain: "list_all (\<lambda>s. s \<notin> {[46], [46, 46]}) segs \<Longrightarrow> foldl resolve_segment acc segs = acc @ segs"
  by (induction segs arbitrary: acc) auto

lemma split_on_dirs: "\<forall>s\<in>set dirs. 47 \<notin> set s \<Longrightarrow> split_on 47 (concat (map (\<lambda>s. 47 # s) dirs)) = [] # dirs" for dirs :: "ptext list"
proof (induction dirs)
  case (Cons d dirs)
  have "split_on 47 (47 # d @ concat (map (\<lambda>s. 47 # s) dirs)) = [] # split_on 47 (d @ concat (map (\<lambda>s. 47 # s) dirs))"
    using split_on_append[of 47 "[]"] by simp
  moreover have "split_on 47 (d @ concat (map (\<lambda>s. 47 # s) dirs)) = d # dirs"
  proof (cases dirs)
    case Nil
    then show ?thesis using Cons.prems by (simp add: split_on_no_sep)
  next
    case (Cons e es)
    then have "split_on 47 (d @ 47 # e @ concat (map (\<lambda>s. 47 # s) es)) = d # dirs"
      using Cons.IH Cons.prems split_on_append[of 47 d] split_on_append[of 47 "[]" "e @ concat (map (\<lambda>s. 47 # s) es)"]
      by (simp add: split_on_no_sep)
    then show ?thesis using Cons by simp
  qed
  ultimately show ?case by simp
qed simp

lemma join_dirs: "segs \<noteq> [] \<Longrightarrow> join_with [47] ([] # dirs @ segs) = concat (map (\<lambda>s. 47 # s) dirs) @ 47 # join_with [47] segs" for dirs :: "ptext list"
  by (induction dirs) (auto simp: join_with_Cons)

lemma join_paths_plain:
  assumes "list_all plain_segment dirs" "[] \<notin> set (split_on 47 q)" "list_all (\<lambda>s. s \<notin> {[46], [46, 46]}) (split_on 47 q)"
  shows "join_paths (concat (map (\<lambda>s. 47 # s) dirs) @ [47]) q = concat (map (\<lambda>s. 47 # s) dirs) @ 47 # q"
proof -
  let ?segs = "split_on 47 q"
  have dirs: "[] \<notin> set dirs" "list_all (\<lambda>s. s \<notin> {[46], [46, 46]}) dirs" "\<forall>s\<in>set dirs. 47 \<notin> set s"
    using assms(1) by (auto simp: list_all_iff plain_segment_def)
  have parts: "split_on 47 (concat (map (\<lambda>s. 47 # s) dirs) @ [47]) = ([] # dirs) @ [[]]"
    using split_on_append[of 47 "concat (map (\<lambda>s. 47 # s) dirs)" "[]"] split_on_dirs[OF dirs(3)] by simp
  have no_slash: "take 1 q \<noteq> [47]"
    using assms(2) split_on_append[of 47 "[]" "tl q"] by (cases q) auto
  obtain ss s where ss: "?segs = ss @ [s]" by (metis append_butlast_last_id split_on_not_Nil)
  have filters: "filter (\<lambda>s. s \<noteq> []) dirs = dirs" "filter (\<lambda>s. s \<noteq> []) ss = ss"
    using dirs(1) assms(2) ss by (auto simp: filter_id_conv)
  have plain: "list_all (\<lambda>s. s \<notin> {[46], [46, 46]}) ([] # dirs @ ?segs)" using dirs(2) assms(3) by simp
  have last: "last ([] # dirs @ ?segs) \<notin> {[46], [46, 46]}" using plain ss by auto
  have seg: "hd ((([] # dirs) @ [[]]) @ ?segs) # filter (\<lambda>s. s \<noteq> []) (butlast (tl ((([] # dirs) @ [[]]) @ ?segs)))
      @ [last ((([] # dirs) @ [[]]) @ ?segs)] = [] # dirs @ ?segs"
    using filters by (simp add: ss butlast_append)
  have "join_with [47] ([] # dirs @ ?segs) = concat (map (\<lambda>s. 47 # s) dirs) @ 47 # q"
    using join_dirs[OF split_on_not_Nil] by (simp add: join_split_on)
  then show ?thesis
    unfolding join_paths_def Let_def parts using no_slash last seg foldl_resolve_plain[OF plain, of "[]"]
    by (simp add: ss)
qed

lemma urljoin_plain:
  assumes "scheme = ''http'' \<or> scheme = ''https''" "host \<noteq> []" "list_all (\<lambda>c. 32 < c \<and> c \<notin> {35, 47, 63, 91, 93}) host"
    and "list_all plain_segment dirs" "check_netloc host = None" "check_netloc [] = None"
    and "list_all quoted_char q" "[] \<notin> set (split_on 47 q)" "list_all (\<lambda>s. s \<notin> {[46], [46, 46]}) (split_on 47 q)"
  shows "urljoin check_netloc (plain_base scheme host dirs @ [47]) q = Inr (plain_base scheme host dirs @ 47 # q)"
proof -
  let ?path = "concat (map (\<lambda>s. 47 # s) dirs) @ [47]"
  have path: "hd ?path = 47" "list_all (\<lambda>c. 32 < c \<and> c \<notin> {35, 59, 63}) ?path"
    using assms(4) by (cases dirs; auto simp: list_all_iff plain_segment_def)+
  have base: "urlparse check_netloc [] (plain_base scheme host dirs @ [47])
    = Inr \<lparr>ur_scheme = asc scheme, ur_netloc = host, ur_path = ?path, ur_params = [], ur_query = [], ur_fragment = []\<rparr>"
    using urlparse_base[OF assms(1-3) _ path(2), of check_netloc] path(1) assms(5) by (simp add: plain_base_def)
  have q: "q \<noteq> []" "hd q \<noteq> 47" using assms(8) split_on_append[of 47 "[]" "tl q"] by (cases q; auto)+
  have rel: "urlparse check_netloc (asc scheme) q
    = Inr \<lparr>ur_scheme = asc scheme, ur_netloc = [], ur_path = q, ur_params = [], ur_query = [], ur_fragment = []\<rparr>"
    using urlparse_relative assms(6,7) q by blast
  have "asc scheme \<in> uses_relative" "asc scheme \<in> uses_netloc" "asc scheme \<noteq> []"
    using assms(1) by (elim disjE; simp add: uses_relative_def uses_netloc_def schemes_def asc_def)+
  then have "urljoin check_netloc (plain_base scheme host dirs @ [47]) q
    = Inr (urlunparse \<lparr>ur_scheme = asc scheme, ur_netloc = host, ur_path = join_paths ?path q, ur_params = [], ur_query = [], ur_fragment = []\<rparr>)"
    using base rel q by (simp add: urljoin_def)
  also have "\<dots> = Inr (plain_base scheme host dirs @ 47 # q)"
    unfolding join_paths_plain[OF assms(4,8,9)] urlunparse_def Let_def plain_base_def
    using \<open>asc scheme \<noteq> []\<close> assms(2) by (cases dirs) auto
  finally show ?thesis .
qed

lemma quote_text_slash_free: "list_all scalar t \<Longrightarrow> 47 \<notin> set t \<Longrightarrow> 47 \<notin> set (quote_text t)"
proof (induction t)
  case (Cons c t)
  have "47 \<notin> set (quote_byte b)" if "b \<noteq> 47" for b using that by (auto simp: quote_byte_def upper_hex_def)
  moreover have "47 \<notin> set (encode1 c)" using Cons.prems by (auto simp: encode1_def)
  ultimately show ?case using Cons by (auto simp: quote_text_def) (metis (full_types))
qed (simp add: quote_text_def)

lemma split_join: "ws \<noteq> [] \<Longrightarrow> \<forall>w\<in>set ws. c \<notin> set w \<Longrightarrow> split_on c (join_with [c] ws) = ws"
proof (induction ws)
  case (Cons w ws)
  then show ?case by (cases ws) (auto simp: split_on_no_sep split_on_append)
qed simp

lemma quote_text_inj: "list_all scalar a \<Longrightarrow> list_all scalar b \<Longrightarrow> quote_text a = quote_text b \<longleftrightarrow> a = b"
  using url_unquote_quote[OF url_quote_scalar] by metis

lemma quote_text_segments:
  assumes "canonical_name name" "list_all (\<lambda>s. s \<notin> {[46], [46, 46]}) (split_on 47 name)"
  shows "[] \<notin> set (split_on 47 (quote_text name))"
    "list_all (\<lambda>s. s \<notin> {[46], [46, 46]}) (split_on 47 (quote_text name))"
proof -
  let ?ws = "split_on 47 name"
  have sc: "list_all scalar w" if "w \<in> set ?ws" for w
    using that assms split_on_subset[of w 47 name] by (auto simp: canonical_name_def list_all_iff)
  have "47 \<notin> set (quote_text w)" if "w \<in> set ?ws" for w
    using quote_text_slash_free[OF sc[OF that]] split_on_parts[OF that] by blast
  then have "split_on 47 (join_with [47] (map quote_text ?ws)) = map quote_text ?ws" by (intro split_join) auto
  then have q: "split_on 47 (quote_text name) = map quote_text ?ws" using quote_text_join[of ?ws] by (simp add: join_split_on)
  have dots: "quote_text [] = []" "quote_text [46] = [46]" "quote_text [46, 46] = [46, 46]"
    by (simp_all add: quote_text_def encode1_def quote_byte_def url_safe_def asc_def)
  have "quote_text w \<notin> {[], [46], [46, 46]}" if "w \<in> set ?ws" for w
  proof
    let ?S = "{[], [46], [46, 46]} :: ptext set"
    assume "quote_text w \<in> ?S"
    then have "quote_text (quote_text w) = quote_text w" "list_all scalar (quote_text w)" using dots by (auto simp: scalar_def)
    with quote_text_inj[OF sc[OF that]] have "w = quote_text w" by metis
    with \<open>quote_text w \<in> ?S\<close> have "w \<in> ?S" by simp
    with that assms show False by (auto simp: canonical_name_def list_all_iff)
  qed
  then show "[] \<notin> set (split_on 47 (quote_text name))"
    "list_all (\<lambda>s. s \<notin> {[46], [46, 46]}) (split_on 47 (quote_text name))"
    by (fastforce simp: q list_all_iff)+
qed

end
