(* ===== verification/ObjectStore.thy ===== *)
theory ObjectStore
  imports StorageUrl
begin

text \<open>
  The storage back ends: \<^verbatim>\<open>LocalStorage\<close> of \<^verbatim>\<open>app/platform/storage/local.py\<close> with files and directories,
  \<^verbatim>\<open>S3CompatibleStorage\<close> of \<^verbatim>\<open>s3.py\<close> and \<^verbatim>\<open>OSSStorage\<close> of \<^verbatim>\<open>oss.py\<close> over the calls of their packages, which are
  arguments.

  The locale \<open>object_store\<close> is what the application expects of a storage; the local storage is shown to have it.
\<close>

section \<open>local.py\<close>

record local_fs =
  lo_files :: local_files
  lo_dirs :: "lpath set"

definition is_file :: "local_fs \<Rightarrow> lpath \<Rightarrow> bool" where
  "is_file fs p = (lo_files fs p \<noteq> None)"

text \<open>\<^verbatim>\<open>Path.mkdir(parents=True, exist_ok=True)\<close>: a file on the way is an error, and nothing is created then.\<close>

definition mkdir_parents :: "lpath \<Rightarrow> local_fs \<Rightarrow> unit res \<times> local_fs" where
  "mkdir_parents p fs =
     (if is_file fs p then (Inl (OSError (asc ''File exists'')), fs)
      else if list_ex (is_file fs) (prefixes p) then (Inl (OSError (asc ''Not a directory'')), fs)
      else (Inr (), fs\<lparr>lo_dirs := lo_dirs fs \<union> set (prefixes p)\<rparr>))"

definition write_bytes :: "int \<Rightarrow> lpath \<Rightarrow> bytes \<Rightarrow> local_fs \<Rightarrow> unit res \<times> local_fs" where
  "write_bytes now_ns target content fs =
     (if target \<in> lo_dirs fs then (Inl (OSError (asc ''Is a directory'')), fs)
      else (Inr (), fs\<lparr>lo_files := (lo_files fs)(target \<mapsto> \<lparr>lf_content = content, lf_mtime_ns = now_ns\<rparr>)\<rparr>))"

definition read_bytes :: "lpath \<Rightarrow> local_fs \<Rightarrow> bytes res" where
  "read_bytes target fs =
     (case lo_files fs target of
        Some f \<Rightarrow> Inr (lf_content f)
      | None \<Rightarrow>
          if target \<in> lo_dirs fs then Inl (OSError (asc ''Is a directory''))
          else if list_ex (is_file fs) (prefixes target) then Inl (OSError (asc ''Not a directory''))
          else Inl (OSError (asc ''No such file or directory'')))"

text \<open>The constructor: the root is relative to the project, resolved and created.\<close>

definition local_init :: "lpath \<Rightarrow> string \<Rightarrow> local_fs \<Rightarrow> lpath res \<times> local_fs" where
  "local_init project_root root_dir fs =
     (let path = join_resolve project_root root_dir in
      case mkdir_parents path fs of
        (Inl e, fs') \<Rightarrow> (Inl e, fs')
      | (Inr _, fs') \<Rightarrow> (Inr path, fs'))"

text \<open>The parameters a storage's URLs depend on: the network location check and the settings.\<close>

definition local_get_object_url ::
  "(ptext \<Rightarrow> exn option) \<Rightarrow> url_settings \<Rightarrow> storage_config option \<Rightarrow> string \<Rightarrow> ptext res" where
  "local_get_object_url check_netloc us config object_name =
     (case config of
        None \<Rightarrow> build_file_access_url check_netloc us None None (asc object_name)
      | Some c \<Rightarrow> build_file_access_url check_netloc us (Some (asc (sg_base_url c))) (Some (asc (sg_public_path c))) (asc object_name))"

definition local_get_presigned_url ::
  "(ptext \<Rightarrow> exn option) \<Rightarrow> url_settings \<Rightarrow> storage_config option \<Rightarrow> string \<Rightarrow> ptext res" where
  "local_get_presigned_url check_netloc us config object_name = local_get_object_url check_netloc us config object_name"

definition local_upload_bytes ::
  "lpath \<Rightarrow> (string \<Rightarrow> ptext res) \<Rightarrow> int \<Rightarrow> string \<Rightarrow> bytes \<Rightarrow> local_fs \<Rightarrow> ptext res \<times> local_fs" where
  "local_upload_bytes base object_url now_ns object_name content fs =
     (case get_path base object_name of
        Inl e \<Rightarrow> (Inl e, fs)
      | Inr target \<Rightarrow>
          (case mkdir_parents (butlast target) fs of
             (Inl e, fs1) \<Rightarrow> (Inl e, fs1)
           | (Inr _, fs1) \<Rightarrow>
               (case write_bytes now_ns target content fs1 of
                  (Inl e, fs2) \<Rightarrow> (Inl e, fs2)
                | (Inr _, fs2) \<Rightarrow> (object_url object_name, fs2))))"

definition local_download_bytes :: "lpath \<Rightarrow> string \<Rightarrow> local_fs \<Rightarrow> bytes res" where
  "local_download_bytes base object_name fs = rbind (get_path base object_name) (\<lambda>target. read_bytes target fs)"

definition local_head_object :: "lpath \<Rightarrow> string \<Rightarrow> local_fs \<Rightarrow> object_head option res" where
  "local_head_object base object_name fs =
     rbind (get_path base object_name) (\<lambda>target.
       case lo_files fs target of
         None \<Rightarrow> Inr None
       | Some f \<Rightarrow>
           (let size = int (length (lf_content f)) in
            Inr (Some \<lparr>oh_etag = str_int (lf_mtime_ns f) @ ''-'' @ str_int size, oh_content_length = size\<rparr>)))"

definition local_delete_object :: "lpath \<Rightarrow> string \<Rightarrow> local_fs \<Rightarrow> unit res \<times> local_fs" where
  "local_delete_object base object_name fs =
     (case get_path base object_name of
        Inl e \<Rightarrow> (Inl e, fs)
      | Inr target \<Rightarrow>
          if target \<in> lo_dirs fs then (Inl (OSError (asc ''Is a directory'')), fs)
          else (Inr (), fs\<lparr>lo_files := (lo_files fs)(target := None)\<rparr>))"

section \<open>s3.py\<close>

text \<open>What is passed to \<^verbatim>\<open>boto3.client\<close>.\<close>

record s3_client_args =
  s3_endpoint :: string
  s3_access_key :: string
  s3_secret_key :: string
  s3_region :: string
  s3_signature_version :: string
  s3_addressing_style :: "string option"

definition s3_client :: "storage_config \<Rightarrow> bool \<Rightarrow> s3_client_args" where
  "s3_client config force_path_style =
     \<lparr>s3_endpoint = s3_endpoint_url (sg_use_ssl config) (sg_endpoint config), s3_access_key = sg_access_key config,
      s3_secret_key = sg_secret_key config, s3_region = sg_region config, s3_signature_version = ''s3v4'',
      s3_addressing_style = (if force_path_style then Some ''path'' else None)\<rparr>"

definition minio_client :: "storage_config \<Rightarrow> s3_client_args" where
  "minio_client config = s3_client config True"

text \<open>The calls of the client on a state of the service; a body is opened, read and closed.\<close>

record ('s, 'b) s3_api =
  s3_put_object :: "string \<Rightarrow> string \<Rightarrow> bytes \<Rightarrow> string \<Rightarrow> 's \<Rightarrow> unit res \<times> 's"
  s3_get_object :: "string \<Rightarrow> string \<Rightarrow> 's \<Rightarrow> 'b res \<times> 's"
  s3_read_body :: "'b \<Rightarrow> 's \<Rightarrow> bytes res \<times> 's"
  s3_close_body :: "'b \<Rightarrow> 's \<Rightarrow> 's"
  s3_delete :: "string \<Rightarrow> string \<Rightarrow> 's \<Rightarrow> unit res \<times> 's"
  s3_generate_presigned_url :: "string \<Rightarrow> string \<Rightarrow> int \<Rightarrow> ptext res"

definition s3_get_presigned_url :: "('s, 'b) s3_api \<Rightarrow> storage_config \<Rightarrow> string \<Rightarrow> ptext res" where
  "s3_get_presigned_url api config object_name =
     s3_generate_presigned_url api (sg_bucket config) object_name (sg_presign_expire_seconds config)"

definition s3_get_object_url ::
  "(ptext \<Rightarrow> exn option) \<Rightarrow> ('s, 'b) s3_api \<Rightarrow> storage_config \<Rightarrow> string \<Rightarrow> ptext res" where
  "s3_get_object_url check_netloc api config object_name =
     (if sg_base_url config \<noteq> []
      then rbind (quote_object_name (asc object_name)) (\<lambda>quoted_name.
             urljoin check_netloc (rstrip_slash (asc (sg_base_url config)) @ [47]) quoted_name)
      else s3_get_presigned_url api config object_name)"

definition s3_upload_bytes ::
  "(ptext \<Rightarrow> exn option) \<Rightarrow> ('s, 'b) s3_api \<Rightarrow> storage_config \<Rightarrow> string \<Rightarrow> bytes \<Rightarrow> string \<Rightarrow> 's \<Rightarrow> ptext res \<times> 's" where
  "s3_upload_bytes check_netloc api config object_name content content_type s =
     (case s3_put_object api (sg_bucket config) object_name content content_type s of
        (Inl e, s') \<Rightarrow> (Inl e, s')
      | (Inr _, s') \<Rightarrow> (s3_get_object_url check_netloc api config object_name, s'))"

definition s3_download_bytes :: "('s, 'b) s3_api \<Rightarrow> storage_config \<Rightarrow> string \<Rightarrow> 's \<Rightarrow> bytes res \<times> 's" where
  "s3_download_bytes api config object_name s =
     (case s3_get_object api (sg_bucket config) object_name s of
        (Inl e, s') \<Rightarrow> (Inl e, s')
      | (Inr body, s1) \<Rightarrow> (case s3_read_body api body s1 of (r, s2) \<Rightarrow> (r, s3_close_body api body s2)))"

definition s3_delete_object :: "('s, 'b) s3_api \<Rightarrow> storage_config \<Rightarrow> string \<Rightarrow> 's \<Rightarrow> unit res \<times> 's" where
  "s3_delete_object api config object_name s = s3_delete api (sg_bucket config) object_name s"

section \<open>oss.py\<close>

text \<open>The bucket of \<^verbatim>\<open>oss2\<close>, bound to an endpoint and a name by the constructor.\<close>

record oss_bucket_args =
  ob_access_key :: string
  ob_secret_key :: string
  ob_endpoint :: string
  ob_bucket_name :: string

definition oss_bucket :: "storage_config \<Rightarrow> oss_bucket_args" where
  "oss_bucket config =
     \<lparr>ob_access_key = sg_access_key config, ob_secret_key = sg_secret_key config,
      ob_endpoint = rstrip_by (\<lambda>c. c = CHR ''/'') (sg_endpoint config), ob_bucket_name = sg_bucket config\<rparr>"

record 's oss_api =
  oss_put_object :: "string \<Rightarrow> bytes \<Rightarrow> (string \<times> string) list \<Rightarrow> 's \<Rightarrow> unit res \<times> 's"
  oss_get_object :: "string \<Rightarrow> 's \<Rightarrow> bytes res res \<times> 's"
  oss_delete :: "string \<Rightarrow> 's \<Rightarrow> unit res \<times> 's"
  oss_sign_url :: "string \<Rightarrow> string \<Rightarrow> int \<Rightarrow> ptext res"

definition oss_get_presigned_url :: "'s oss_api \<Rightarrow> storage_config \<Rightarrow> string \<Rightarrow> ptext res" where
  "oss_get_presigned_url api config object_name = oss_sign_url api ''GET'' object_name (sg_presign_expire_seconds config)"

definition oss_get_object_url ::
  "(ptext \<Rightarrow> exn option) \<Rightarrow> 's oss_api \<Rightarrow> storage_config \<Rightarrow> string \<Rightarrow> ptext res" where
  "oss_get_object_url check_netloc api config object_name =
     (if sg_base_url config \<noteq> []
      then rbind (quote_object_name (asc object_name)) (\<lambda>quoted_name.
             urljoin check_netloc (rstrip_slash (asc (sg_base_url config)) @ [47]) quoted_name)
      else oss_get_presigned_url api config object_name)"

definition oss_upload_bytes ::
  "(ptext \<Rightarrow> exn option) \<Rightarrow> 's oss_api \<Rightarrow> storage_config \<Rightarrow> string \<Rightarrow> bytes \<Rightarrow> string \<Rightarrow> 's \<Rightarrow> ptext res \<times> 's" where
  "oss_upload_bytes check_netloc api config object_name content content_type s =
     (case oss_put_object api object_name content [(''Content-Type'', content_type)] s of
        (Inl e, s') \<Rightarrow> (Inl e, s')
      | (Inr _, s') \<Rightarrow> (oss_get_object_url check_netloc api config object_name, s'))"

definition oss_download_bytes :: "'s oss_api \<Rightarrow> string \<Rightarrow> 's \<Rightarrow> bytes res \<times> 's" where
  "oss_download_bytes api object_name s =
     (case oss_get_object api object_name s of (result, s') \<Rightarrow> (rbind result (\<lambda>read. read), s'))"

definition oss_delete_object :: "'s oss_api \<Rightarrow> string \<Rightarrow> 's \<Rightarrow> unit res \<times> 's" where
  "oss_delete_object api object_name s = oss_delete api object_name s"

section \<open>The contract of a storage\<close>

definition found :: "'a res \<Rightarrow> 'a option" where
  "found r = (case r of Inl _ \<Rightarrow> None | Inr x \<Rightarrow> Some x)"

text \<open>A client's sequence of operations, up to the first that fails, and the map from objects to contents it means.\<close>

datatype store_op = Store string bytes | Remove string

fun run_ops ::
  "(string \<Rightarrow> bytes \<Rightarrow> 's \<Rightarrow> ptext res \<times> 's) \<Rightarrow> (string \<Rightarrow> 's \<Rightarrow> unit res \<times> 's) \<Rightarrow> store_op list \<Rightarrow> 's \<Rightarrow> unit res \<times> 's" where
  "run_ops upload delete [] s = (Inr (), s)"
| "run_ops upload delete (Store n c # ops) s =
     (case upload n c s of (Inl e, s') \<Rightarrow> (Inl e, s') | (Inr _, s') \<Rightarrow> run_ops upload delete ops s')"
| "run_ops upload delete (Remove n # ops) s =
     (case delete n s of (Inl e, s') \<Rightarrow> (Inl e, s') | (Inr _, s') \<Rightarrow> run_ops upload delete ops s')"

fun apply_op :: "(string \<Rightarrow> 'k) \<Rightarrow> store_op \<Rightarrow> ('k \<rightharpoonup> bytes) \<Rightarrow> ('k \<rightharpoonup> bytes)" where
  "apply_op key (Store n c) m = m(key n \<mapsto> c)"
| "apply_op key (Remove n) m = m(key n := None)"

locale object_store =
  fixes inv :: "'s \<Rightarrow> bool"
    and upload :: "string \<Rightarrow> bytes \<Rightarrow> 's \<Rightarrow> ptext res \<times> 's"
    and download :: "string \<Rightarrow> 's \<Rightarrow> bytes res"
    and delete :: "string \<Rightarrow> 's \<Rightarrow> unit res \<times> 's"
    and key :: "string \<Rightarrow> 'k"
  assumes upload_inv: "inv s \<Longrightarrow> inv (snd (upload n c s))"
    and delete_inv: "inv s \<Longrightarrow> inv (snd (delete n s))"
    and upload_read: "inv s \<Longrightarrow> upload n c s = (Inr u, s') \<Longrightarrow>
      found (download m s') = (if key m = key n then Some c else found (download m s))"
    and delete_read: "inv s \<Longrightarrow> delete n s = (Inr x, s') \<Longrightarrow>
      found (download m s') = (if key m = key n then None else found (download m s))"
begin

lemma run_inv: "inv s \<Longrightarrow> inv (snd (run_ops upload delete ops s))"
proof (induction ops arbitrary: s)
  case (Cons op ops)
  show ?case
  proof (cases op)
    case (Store n c)
    then show ?thesis using Cons upload_inv[of s n c] by (auto split: prod.split sum.split)
  next
    case (Remove n)
    then show ?thesis using Cons delete_inv[of s n] by (auto split: prod.split sum.split)
  qed
qed simp

text \<open>The storage refines the map: what a name downloads is what the map has for its object.\<close>

lemma run_refines:
  assumes "inv s" "run_ops upload delete ops s = (Inr (), s')" "\<And>n. found (download n s) = m (key n)"
  shows "found (download n s') = fold (apply_op key) ops m (key n)"
  using assms
proof (induction ops arbitrary: s m)
  case (Cons op ops)
  show ?case
  proof (cases op)
    case (Store x c)
    then obtain u s1 where s1: "upload x c s = (Inr u, s1)" "run_ops upload delete ops s1 = (Inr (), s')"
      using Cons.prems(2) by (auto split: prod.splits sum.splits)
    then show ?thesis
      using Cons.IH[of s1 "apply_op key op m"] upload_inv[OF Cons.prems(1), of x c] upload_read[OF Cons.prems(1) s1(1)] Cons.prems(3) Store
      by (simp add: fun_upd_def)
  next
    case (Remove x)
    then obtain u s1 where s1: "delete x s = (Inr u, s1)" "run_ops upload delete ops s1 = (Inr (), s')"
      using Cons.prems(2) by (auto split: prod.splits sum.splits)
    then show ?thesis
      using Cons.IH[of s1 "apply_op key op m"] delete_inv[OF Cons.prems(1), of x] delete_read[OF Cons.prems(1) s1(1)] Cons.prems(3) Remove
      by (simp add: fun_upd_def)
  qed
qed simp

end

section \<open>The local storage\<close>

text \<open>The invariant of the directory tree: the root exists, directories have their parents, files have directories as
  parents and are not directories.\<close>

definition local_ok :: "lpath \<Rightarrow> local_fs \<Rightarrow> bool" where
  "local_ok base fs = (base \<in> lo_dirs fs \<and> (\<forall>p\<in>lo_dirs fs. set (prefixes p) \<subseteq> lo_dirs fs)
     \<and> (\<forall>p. is_file fs p \<longrightarrow> p \<notin> lo_dirs fs \<and> butlast p \<in> lo_dirs fs))"

lemma mkdir_ok:
  assumes "mkdir_parents p fs = (Inr x, fs')"
  shows "lo_files fs' = lo_files fs" "lo_dirs fs' = lo_dirs fs \<union> set (prefixes p)" "\<forall>q\<in>set (prefixes p). \<not> is_file fs q"
  using assms by (auto simp: mkdir_parents_def list_ex_iff split: if_splits)

lemma mkdir_local_ok: "local_ok base fs \<Longrightarrow> local_ok base (snd (mkdir_parents p fs))"
proof (cases "fst (mkdir_parents p fs)")
  case (Inr x)
  assume ok: "local_ok base fs"
  obtain fs' where m: "mkdir_parents p fs = (Inr x, fs')" using Inr by (metis prod.collapse)
  have "q \<in> set (prefixes p) \<Longrightarrow> set (prefixes q) \<subseteq> set (prefixes p)" for q by (auto intro: prefix_order.trans)
  with ok mkdir_ok[OF m] show ?thesis by (auto simp: m local_ok_def is_file_def)
next
  case (Inl e)
  then have "snd (mkdir_parents p fs) = fs" by (auto simp: mkdir_parents_def split: if_splits)
  then show "local_ok base fs \<Longrightarrow> ?thesis" by simp
qed

lemma mkdir_error: "mkdir_parents p fs = (Inl e, fs') \<Longrightarrow> fs' = fs"
  by (auto simp: mkdir_parents_def split: if_splits)

lemma upload_local_ok:
  assumes "local_ok base fs"
  shows "local_ok base (snd (local_upload_bytes base url t n c fs))"
proof (cases "get_path base n")
  case (Inr target)
  obtain r fs1 where m: "mkdir_parents (butlast target) fs = (r, fs1)" by fastforce
  have ok1: "local_ok base fs1" using mkdir_local_ok[OF assms] m by (metis snd_conv)
  show ?thesis
  proof (cases r)
    case (Inr x)
    then have "butlast target \<in> lo_dirs fs1" using mkdir_ok(2)[of "butlast target" fs x fs1] m by simp
    with ok1 show ?thesis using \<open>get_path base n = Inr target\<close> m Inr
      by (auto simp: local_upload_bytes_def write_bytes_def local_ok_def is_file_def)
  qed (use ok1 m Inr in \<open>simp add: local_upload_bytes_def\<close>)
qed (use assms in \<open>simp add: local_upload_bytes_def\<close>)

lemma delete_local_ok: "local_ok base fs \<Longrightarrow> local_ok base (snd (local_delete_object base n fs))"
  by (auto simp: local_delete_object_def local_ok_def is_file_def split: sum.split)

lemma upload_files:
  assumes "local_upload_bytes base url t n c fs = (Inr u, fs')"
  obtains target where "get_path base n = Inr target" "lo_files fs' = (lo_files fs)(target \<mapsto> \<lparr>lf_content = c, lf_mtime_ns = t\<rparr>)"
  using assms mkdir_ok(1)
  by (auto simp: local_upload_bytes_def write_bytes_def split: sum.splits prod.splits if_splits)

lemma found_local:
  "found (local_download_bytes base n fs) = (case get_path base n of Inl _ \<Rightarrow> None | Inr p \<Rightarrow> map_option lf_content (lo_files fs p))"
  by (auto simp: found_def local_download_bytes_def read_bytes_def rbind_def split: sum.split option.split)

interpretation local_store: object_store "local_ok base" "local_upload_bytes base url t" "local_download_bytes base"
  "local_delete_object base" "get_path base" for base url t
proof
  fix fs n c u fs' m
  show "found (local_download_bytes base m fs') = (if get_path base m = get_path base n then Some c else found (local_download_bytes base m fs))"
    if "local_upload_bytes base url t n c fs = (Inr u, fs')"
    using that by (rule upload_files) (auto simp: found_local split: sum.split)
next
  fix fs n x fs' m
  show "found (local_download_bytes base m fs') = (if get_path base m = get_path base n then None else found (local_download_bytes base m fs))"
    if "local_delete_object base n fs = (Inr x, fs')"
    using that by (auto simp: found_local local_delete_object_def split: sum.splits if_splits)
qed (auto intro: upload_local_ok delete_local_ok)

section \<open>Properties\<close>

text \<open>C28: No operation of the local storage reaches outside its root: a name whose resolved path leaves
  the root is refused with an error and nothing changes, and an accepted upload or deletion changes at most the one file
  below the root the name resolves to and creates directories only above it.\<close>

theorem local_storage_confined:
  "case get_path base object_name of
      Inr target \<Rightarrow> prefix base target
        \<and> lo_files (snd (local_upload_bytes base url t object_name content fs))
            \<in> {lo_files fs, (lo_files fs)(target \<mapsto> \<lparr>lf_content = content, lf_mtime_ns = t\<rparr>)}
        \<and> lo_dirs (snd (local_upload_bytes base url t object_name content fs)) \<subseteq> lo_dirs fs \<union> {d. prefix d (butlast target)}
        \<and> snd (local_delete_object base object_name fs) \<in> {fs, fs\<lparr>lo_files := (lo_files fs)(target := None)\<rparr>}
    | Inl e \<Rightarrow> e = ValueError (asc ''Invalid object name'') \<and> \<not> prefix base (join_resolve base object_name)
        \<and> local_upload_bytes base url t object_name content fs = (Inl e, fs)
        \<and> local_delete_object base object_name fs = (Inl e, fs)
        \<and> local_download_bytes base object_name fs = Inl e \<and> local_head_object base object_name fs = Inl e"
proof (cases "get_path base object_name")
  case (Inl e)
  then have "e = ValueError (asc ''Invalid object name'') \<and> \<not> prefix base (join_resolve base object_name)"
    by (auto simp: get_path_def Let_def in_parents_def prefix_def split: if_splits)
  with Inl show ?thesis
    by (simp add: local_upload_bytes_def local_delete_object_def local_download_bytes_def local_head_object_def rbind_def)
next
  case (Inr target)
  obtain r fs1 where m: "mkdir_parents (butlast target) fs = (r, fs1)" by fastforce
  have "lo_files fs1 = lo_files fs" "lo_dirs fs1 \<subseteq> lo_dirs fs \<union> {d. prefix d (butlast target)}"
    using m mkdir_ok[of "butlast target" fs _ fs1] mkdir_error[of "butlast target" fs _ fs1] by (cases r; auto)+
  with Inr m show ?thesis
    by (auto simp: local_upload_bytes_def write_bytes_def local_delete_object_def get_path_inside split: sum.split)
qed

text \<open>C29: The local storage refines a map from objects to contents: after any sequence of uploads and deletions that all
  succeed on a well-formed directory tree, the tree is well-formed, and a name downloads what the last operation on its object
  left, or what it had before if there was none. An object without content has no head either.\<close>

theorem local_storage_refines:
  assumes "local_ok base fs" "run_ops (local_upload_bytes base url t) (local_delete_object base) ops fs = (Inr (), fs')"
  shows "local_ok base fs'
    \<and> found (local_download_bytes base name fs')
        = fold (apply_op (get_path base)) ops
            (\<lambda>k. case k of Inl _ \<Rightarrow> None | Inr p \<Rightarrow> map_option lf_content (lo_files fs p)) (get_path base name)
    \<and> (found (local_download_bytes base name fs') = None \<longleftrightarrow> (\<forall>h. local_head_object base name fs' \<noteq> Inr (Some h)))"
proof (intro conjI)
  show "local_ok base fs'" using local_store.run_inv[OF assms(1), of url t ops] assms(2) by simp
  show "found (local_download_bytes base name fs') = fold (apply_op (get_path base)) ops
            (\<lambda>k. case k of Inl _ \<Rightarrow> None | Inr p \<Rightarrow> map_option lf_content (lo_files fs p)) (get_path base name)"
    by (rule local_store.run_refines[OF assms]) (simp add: found_local)
  show "found (local_download_bytes base name fs') = None \<longleftrightarrow> (\<forall>h. local_head_object base name fs' \<noteq> Inr (Some h))"
    by (auto simp: found_local local_head_object_def rbind_def Let_def split: sum.splits option.splits)
qed

definition empty_root :: local_fs where
  "empty_root = \<lparr>lo_files = Map.empty, lo_dirs = {[], [''srv'']}\<rparr>"

theorem local_storage_refines_witness:
  "\<exists>fs'. run_ops (local_upload_bytes [''srv''] (\<lambda>_. Inr []) 7) (local_delete_object [''srv''])
       [Store ''a/b'' [1], Store ''c'' [2], Store ''a/./b'' [3], Remove ''c''] empty_root = (Inr (), fs')
     \<and> found (local_download_bytes [''srv''] ''a/b'' fs') = Some [3]
     \<and> found (local_download_bytes [''srv''] ''c'' fs') = None"
proof -
  let ?ops = "[Store ''a/b'' [1], Store ''c'' [2], Store ''a/./b'' [3], Remove ''c'']"
  have ok: "local_ok [''srv''] empty_root" by (simp add: local_ok_def empty_root_def is_file_def)
  have path: "get_path [''srv''] ''a/b'' = Inr [''srv'', ''a'', ''b'']" "get_path [''srv''] ''a/./b'' = Inr [''srv'', ''a'', ''b'']"
    "get_path [''srv''] ''c'' = Inr [''srv'', ''c'']"
    by (simp_all add: get_path_def join_resolve_def in_parents_def startswith_def path_parts_def)
  obtain fs' where r: "run_ops (local_upload_bytes [''srv''] (\<lambda>_. Inr []) 7) (local_delete_object [''srv'']) ?ops empty_root = (Inr (), fs')"
    by (simp add: path local_upload_bytes_def mkdir_parents_def write_bytes_def local_delete_object_def is_file_def empty_root_def)
  from local_storage_refines[OF ok r, of "''a/b''"] local_storage_refines[OF ok r, of "''c''"] r show ?thesis
    by (simp add: path)
qed

text \<open>C30: With a plain HTTP base URL (with or without trailing slashes) every storage gives an object the same URL: the
  base, a slash and a quoted name that unquotes to the object name. It holds for object names without empty or dot
  segments.\<close>

theorem object_url_uniform:
  assumes "scheme = ''http'' \<or> scheme = ''https''" "host \<noteq> []" "list_all (\<lambda>c. 32 < c \<and> c \<notin> {35, 47, 63, 91, 93}) host"
    and "list_all plain_segment dirs" "check_netloc host = None" "check_netloc [] = None"
    and "rstrip_slash (asc (sg_base_url config)) = plain_base scheme host dirs"
    and "canonical_name (asc object_name)" "list_all (\<lambda>s. s \<notin> {[46], [46, 46]}) (split_on 47 (asc object_name))"
  shows "\<exists>q. local_get_object_url check_netloc us (Some config) object_name = Inr (plain_base scheme host dirs @ 47 # q)
     \<and> s3_get_object_url check_netloc s3 config object_name = Inr (plain_base scheme host dirs @ 47 # q)
     \<and> oss_get_object_url check_netloc oss config object_name = Inr (plain_base scheme host dirs @ 47 # q)
     \<and> url_unquote q = asc object_name"
proof -
  let ?q = "quote_text (asc object_name)"
  have sc: "list_all scalar (asc object_name)" using assms(8) by (simp add: canonical_name_def)
  have join: "urljoin check_netloc (plain_base scheme host dirs @ [47]) ?q = Inr (plain_base scheme host dirs @ 47 # ?q)"
    by (rule urljoin_plain[OF assms(1-6) quote_text_chars[OF sc] quote_text_segments[OF assms(8,9)]])
  have ne: "asc (sg_base_url config) \<noteq> []" using assms(2,7) by (auto simp: plain_base_def rstrip_slash_def)
  then have "sg_base_url config \<noteq> []" by (auto simp: asc_def)
  with join ne assms(7) quote_object_name_canonical[OF assms(8)] url_unquote_quote[OF url_quote_scalar[OF sc]]
  show ?thesis
    by (simp add: local_get_object_url_def s3_get_object_url_def oss_get_object_url_def build_file_access_url_def)
qed

definition demo_storage_config :: storage_config where
  "demo_storage_config = \<lparr>sg_id = ''s3'', sg_name = ''s3'', sg_provider = Provider_s3, sg_bucket = ''data'', sg_endpoint = ''s3.test'',
     sg_access_key = ''k'', sg_secret_key = ''s'', sg_region = [], sg_use_ssl = True, sg_base_url = ''https://cdn.test/files//'',
     sg_public_path = ''/files'', sg_local_root = ''storage'', sg_is_default = True, sg_presign_expire_seconds = 60\<rparr>"

text \<open>Clients of an empty service, whose signed URLs are empty.\<close>

definition demo_s3_api :: "(unit, unit) s3_api" where
  "demo_s3_api = \<lparr>s3_put_object = (\<lambda>_ _ _ _ s. (Inr (), s)), s3_get_object = (\<lambda>_ _ s. (Inr (), s)),
     s3_read_body = (\<lambda>_ s. (Inr [], s)), s3_close_body = (\<lambda>_ s. s), s3_delete = (\<lambda>_ _ s. (Inr (), s)),
     s3_generate_presigned_url = (\<lambda>_ _ _. Inr [])\<rparr>"

definition demo_oss_api :: "unit oss_api" where
  "demo_oss_api = \<lparr>oss_put_object = (\<lambda>_ _ _ s. (Inr (), s)), oss_get_object = (\<lambda>_ s. (Inr (Inr []), s)),
     oss_delete = (\<lambda>_ s. (Inr (), s)), oss_sign_url = (\<lambda>_ _ _. Inr [])\<rparr>"

theorem object_url_uniform_witness:
  "\<exists>q. local_get_object_url (\<lambda>_. None) demo_url_settings (Some demo_storage_config) ''a b/c'' = Inr (asc ''https://cdn.test/files/'' @ q)
     \<and> s3_get_object_url (\<lambda>_. None) demo_s3_api demo_storage_config ''a b/c'' = Inr (asc ''https://cdn.test/files/'' @ q)
     \<and> oss_get_object_url (\<lambda>_. None) demo_oss_api demo_storage_config ''a b/c'' = Inr (asc ''https://cdn.test/files/'' @ q)
     \<and> url_unquote q = asc ''a b/c''"
proof -
  have b: "plain_base ''https'' (asc ''cdn.test'') [asc ''files''] = asc ''https://cdn.test/files''"
    by (simp add: plain_base_def asc_def)
  have h: "list_all (\<lambda>c. 32 < c \<and> c \<notin> {35, 47, 63, 91, 93}) (asc ''cdn.test'')" "list_all plain_segment [asc ''files'']"
    "asc ''cdn.test'' \<noteq> []" by (simp_all add: asc_def plain_segment_def)
  have r: "rstrip_slash (asc (sg_base_url demo_storage_config)) = plain_base ''https'' (asc ''cdn.test'') [asc ''files'']"
    unfolding b by (simp add: demo_storage_config_def url_eval)
  have n: "canonical_name (asc ''a b/c'')" "list_all (\<lambda>s. s \<notin> {[46], [46, 46]}) (split_on 47 (asc ''a b/c''))"
    by (simp_all add: url_eval canonical_name_def)
  have s: "asc ''https://cdn.test/files'' @ 47 # q = asc ''https://cdn.test/files/'' @ q" for q by (simp add: asc_def)
  show ?thesis
    using object_url_uniform[OF disjI2[OF refl] h(3,1,2) refl refl r n, of demo_url_settings demo_s3_api demo_oss_api, unfolded b s] .
qed

end
