(* ===== verification/AsyncRunner.thy ===== *)
theory AsyncRunner
  imports Prelude
begin

text \<open>
  The event loop of the worker's tasks: \<^verbatim>\<open>WorkerAsyncRunner\<close> of \<^verbatim>\<open>app/platform/tasks/async_runner.py\<close>, called from several
  threads, as a machine whose actions are the atomic steps of the callers and of the loop threads.

  A caller is in \<^verbatim>\<open>run\<close> (waiting for the lock, holding it, waiting for the new thread's event, submitting, waiting for the
  result) or in \<^verbatim>\<open>close\<close>. A loop is fresh, has set its \<^verbatim>\<open>ready\<close> event, is running in \<^verbatim>\<open>run_forever\<close>, or is closed; the
  loop and its thread have the same number. What a coroutine computes is left out.
\<close>

section \<open>The machine\<close>

datatype loop_state = Loop_fresh | Loop_ready | Loop_running | Loop_closed

datatype caller_state =
    Idle
  | Entering
  | Checking
  | Waiting nat
  | Got nat
  | Submitted nat
  | Returned
  | Failed
  | Stopping nat
  | Joining nat

record runner =
  ar_lock :: "nat option"
  ar_loop :: "nat option"
  ar_next :: nat
  ar_loops :: "nat \<Rightarrow> loop_state"
  ar_stops :: "nat set"
  ar_pc :: "nat \<Rightarrow> caller_state"

definition runner_init :: runner where
  "runner_init = \<lparr>ar_lock = None, ar_loop = None, ar_next = 0, ar_loops = (\<lambda>_. Loop_fresh), ar_stops = {}, ar_pc = (\<lambda>_. Idle)\<rparr>"

datatype runner_action =
    Call nat
  | Acquire nat
  | Ensure nat
  | Publish nat
  | Submit nat
  | Complete nat
  | Take nat
  | Stop nat
  | Join nat
  | Set_ready nat
  | Run_forever nat
  | Finish nat

definition set_pc :: "nat \<Rightarrow> caller_state \<Rightarrow> runner \<Rightarrow> runner" where
  "set_pc c p r = r\<lparr>ar_pc := (ar_pc r)(c := p)\<rparr>"

definition set_loop_state :: "nat \<Rightarrow> loop_state \<Rightarrow> runner \<Rightarrow> runner" where
  "set_loop_state l x r = r\<lparr>ar_loops := (ar_loops r)(l := x)\<rparr>"

definition loop_usable :: "runner \<Rightarrow> nat option" where
  "loop_usable r = (case ar_loop r of None \<Rightarrow> None | Some l \<Rightarrow> if ar_loops r l = Loop_running then Some l else None)"

text \<open>\<^verbatim>\<open>_ensure_loop\<close> under the lock: the running loop, or a new one whose thread is started.\<close>

definition ensure_loop :: "nat \<Rightarrow> runner \<Rightarrow> runner" where
  "ensure_loop c r =
     (case loop_usable r of
        Some l \<Rightarrow> set_pc c (Got l) (r\<lparr>ar_lock := None\<rparr>)
      | None \<Rightarrow> set_pc c (Waiting (ar_next r)) (r\<lparr>ar_next := Suc (ar_next r)\<rparr>))"

text \<open>\<^verbatim>\<open>ready.wait()\<close> returns once the thread has set the event.\<close>

definition publish_loop :: "nat \<Rightarrow> nat \<Rightarrow> runner \<Rightarrow> runner option" where
  "publish_loop c l r =
     (if ar_loops r l = Loop_fresh then None
      else Some (set_pc c (Got l) (r\<lparr>ar_loop := Some l, ar_lock := None\<rparr>)))"

text \<open>\<^verbatim>\<open>run_coroutine_threadsafe\<close> raises on a closed loop.\<close>

definition submit :: "nat \<Rightarrow> nat \<Rightarrow> runner \<Rightarrow> runner" where
  "submit c l r = (if ar_loops r l = Loop_closed then set_pc c Failed r else set_pc c (Submitted l) r)"

text \<open>\<^verbatim>\<open>close\<close>: take the loop under the lock, ask it to stop, and wait at most five seconds for its thread.\<close>

definition take_loop :: "nat \<Rightarrow> runner \<Rightarrow> runner" where
  "take_loop c r =
     (case ar_loop r of
        None \<Rightarrow> set_pc c Returned r
      | Some l \<Rightarrow> set_pc c (Stopping l) (r\<lparr>ar_loop := None\<rparr>))"

definition stop_loop :: "nat \<Rightarrow> nat \<Rightarrow> runner \<Rightarrow> runner" where
  "stop_loop c l r =
     (if ar_loops r l = Loop_closed then set_pc c Failed r else set_pc c (Joining l) (r\<lparr>ar_stops := insert l (ar_stops r)\<rparr>))"

fun runner_step :: "runner_action \<Rightarrow> runner \<Rightarrow> runner option" where
  "runner_step (Call c) r = (if ar_pc r c \<in> {Idle, Returned, Failed} then Some (set_pc c Entering r) else None)"
| "runner_step (Acquire c) r =
     (if ar_pc r c = Entering \<and> ar_lock r = None then Some (set_pc c Checking (r\<lparr>ar_lock := Some c\<rparr>)) else None)"
| "runner_step (Ensure c) r = (if ar_pc r c = Checking then Some (ensure_loop c r) else None)"
| "runner_step (Publish c) r = (case ar_pc r c of Waiting l \<Rightarrow> publish_loop c l r | _ \<Rightarrow> None)"
| "runner_step (Submit c) r = (case ar_pc r c of Got l \<Rightarrow> Some (submit c l r) | _ \<Rightarrow> None)"
| "runner_step (Complete c) r =
     (case ar_pc r c of Submitted l \<Rightarrow> if ar_loops r l = Loop_running then Some (set_pc c Returned r) else None | _ \<Rightarrow> None)"
| "runner_step (Take c) r =
     (if ar_pc r c \<in> {Idle, Returned, Failed} \<and> ar_lock r = None then Some (take_loop c r) else None)"
| "runner_step (Stop c) r = (case ar_pc r c of Stopping l \<Rightarrow> Some (stop_loop c l r) | _ \<Rightarrow> None)"
| "runner_step (Join c) r = (case ar_pc r c of Joining l \<Rightarrow> Some (set_pc c Returned r) | _ \<Rightarrow> None)"
| "runner_step (Set_ready l) r =
     (if l < ar_next r \<and> ar_loops r l = Loop_fresh then Some (set_loop_state l Loop_ready r) else None)"
| "runner_step (Run_forever l) r = (if ar_loops r l = Loop_ready then Some (set_loop_state l Loop_running r) else None)"
| "runner_step (Finish l) r =
     (if ar_loops r l = Loop_running \<and> l \<in> ar_stops r then Some (set_loop_state l Loop_closed r) else None)"

fun runner_steps :: "runner_action list \<Rightarrow> runner \<Rightarrow> runner option" where
  "runner_steps [] r = Some r"
| "runner_steps (a # as) r = (case runner_step a r of None \<Rightarrow> None | Some r' \<Rightarrow> runner_steps as r')"

inductive runner_reachable :: "runner \<Rightarrow> bool" where
  start: "runner_reachable runner_init"
| step: "runner_reachable r \<Longrightarrow> runner_step a r = Some r' \<Longrightarrow> runner_reachable r'"

section \<open>The invariant\<close>

text \<open>The caller that is checking or waits for a new thread is the one that holds the lock.\<close>

fun holds_lock :: "caller_state \<Rightarrow> bool" where
  "holds_lock Checking = True"
| "holds_lock (Waiting l) = True"
| "holds_lock p = False"

definition lock_inv :: "runner \<Rightarrow> bool" where
  "lock_inv r = (\<forall>c. holds_lock (ar_pc r c) \<longleftrightarrow> ar_lock r = Some c)"

text \<open>Loops are numbered in the order of creation, and only a loop that was asked to stop ends.\<close>

definition loops_inv :: "runner \<Rightarrow> bool" where
  "loops_inv r = ((\<forall>l\<ge>ar_next r. ar_loops r l = Loop_fresh) \<and> (\<forall>l\<in>ar_stops r. l < ar_next r)
     \<and> (\<forall>l. ar_loops r l = Loop_closed \<longrightarrow> l \<in> ar_stops r))"

text \<open>A loop outside the object is waited for by its creator, or was taken by one closer, or is out of use.\<close>

definition owner_inv :: "runner \<Rightarrow> bool" where
  "owner_inv r = ((\<forall>c l. ar_pc r c = Waiting l \<longrightarrow> l < ar_next r \<and> l \<notin> ar_stops r \<and> ar_loop r \<noteq> Some l)
     \<and> (\<forall>c l. ar_pc r c = Stopping l \<longrightarrow> l < ar_next r \<and> l \<notin> ar_stops r \<and> ar_loop r \<noteq> Some l)
     \<and> (\<forall>c d l. ar_pc r c = Stopping l \<longrightarrow> ar_pc r d \<noteq> Waiting l \<and> (ar_pc r d = Stopping l \<longrightarrow> d = c)))"

text \<open>The loop of the object is started and not asked to stop, and so is every loop a caller was given.\<close>

definition started_inv :: "runner \<Rightarrow> bool" where
  "started_inv r = ((\<forall>l. ar_loop r = Some l \<longrightarrow> l < ar_next r \<and> ar_loops r l \<noteq> Loop_fresh \<and> l \<notin> ar_stops r)
     \<and> (\<forall>c l. ar_pc r c \<in> {Got l, Submitted l, Stopping l, Joining l} \<longrightarrow> ar_loops r l \<noteq> Loop_fresh))"

definition failed_inv :: "runner \<Rightarrow> bool" where
  "failed_inv r = (\<forall>c. ar_pc r c = Failed \<longrightarrow> ar_stops r \<noteq> {})"

definition runner_inv :: "runner \<Rightarrow> bool" where
  "runner_inv r = (lock_inv r \<and> loops_inv r \<and> owner_inv r \<and> started_inv r \<and> failed_inv r)"

text \<open>The effects of an action.\<close>

lemma runner_step_cases:
  assumes "runner_step a r = Some r'"
  obtains
    (entry) c where "\<not> holds_lock (ar_pc r c)" "r' = set_pc c Entering r"
  | (acquire) c where "ar_pc r c = Entering" "ar_lock r = None" "r' = set_pc c Checking (r\<lparr>ar_lock := Some c\<rparr>)"
  | (reuse) c l where "ar_pc r c = Checking" "ar_loop r = Some l" "r' = set_pc c (Got l) (r\<lparr>ar_lock := None\<rparr>)"
  | (create) c where "ar_pc r c = Checking" "r' = set_pc c (Waiting (ar_next r)) (r\<lparr>ar_next := Suc (ar_next r)\<rparr>)"
  | (publish) c l where "ar_pc r c = Waiting l" "ar_loops r l \<noteq> Loop_fresh"
      "r' = set_pc c (Got l) (r\<lparr>ar_loop := Some l, ar_lock := None\<rparr>)"
  | (submit) c l where "ar_pc r c = Got l" "ar_loops r l \<noteq> Loop_closed" "r' = set_pc c (Submitted l) r"
  | (fail) c l where "ar_pc r c \<in> {Got l, Stopping l}" "ar_loops r l = Loop_closed" "r' = set_pc c Failed r"
  | (return) c where "\<not> holds_lock (ar_pc r c)" "r' = set_pc c Returned r"
  | (take) c l where "\<not> holds_lock (ar_pc r c)" "ar_lock r = None" "ar_loop r = Some l" "r' = set_pc c (Stopping l) (r\<lparr>ar_loop := None\<rparr>)"
  | (stop) c l where "ar_pc r c = Stopping l" "r' = set_pc c (Joining l) (r\<lparr>ar_stops := insert l (ar_stops r)\<rparr>)"
  | (ready) l where "l < ar_next r" "ar_loops r l = Loop_fresh" "r' = set_loop_state l Loop_ready r"
  | (run) l where "ar_loops r l = Loop_ready" "r' = set_loop_state l Loop_running r"
  | (finish) l where "ar_loops r l = Loop_running" "l \<in> ar_stops r" "r' = set_loop_state l Loop_closed r"
proof (cases a)
  case (Call c)
  with assms show ?thesis by (intro entry[of c]) (auto split: if_splits)
next
  case (Acquire c)
  with assms show ?thesis by (intro acquire[of c]) (auto split: if_splits)
next
  case (Ensure c)
  with assms show ?thesis using reuse[of c] create[of c]
    by (auto simp: ensure_loop_def loop_usable_def split: if_splits option.splits)
next
  case (Publish c)
  with assms show ?thesis using publish[of c] by (cases "ar_pc r c") (auto simp: publish_loop_def split: if_splits)
next
  case (Submit c)
  with assms show ?thesis using submit[of c] fail[of c] by (cases "ar_pc r c") (auto simp: submit_def split: if_splits)
next
  case (Complete c)
  with assms show ?thesis using return[of c] by (cases "ar_pc r c") (auto split: if_splits)
next
  case (Take c)
  with assms show ?thesis using return[of c] take[of c] by (auto simp: take_loop_def split: if_splits option.splits)
next
  case (Stop c)
  with assms show ?thesis using stop[of c] fail[of c] by (cases "ar_pc r c") (auto simp: stop_loop_def split: if_splits)
next
  case (Join c)
  with assms show ?thesis using return[of c] by (cases "ar_pc r c") auto
next
  case (Set_ready l)
  with assms show ?thesis using ready[of l] by (auto split: if_splits)
next
  case (Run_forever l)
  with assms show ?thesis using run[of l] by (auto split: if_splits)
next
  case (Finish l)
  with assms show ?thesis using finish[of l] by (auto split: if_splits)
qed

lemma runner_fields [simp]:
  "ar_pc (set_pc c p r) = (ar_pc r)(c := p)" "ar_lock (set_pc c p r) = ar_lock r" "ar_loop (set_pc c p r) = ar_loop r"
  "ar_next (set_pc c p r) = ar_next r" "ar_loops (set_pc c p r) = ar_loops r" "ar_stops (set_pc c p r) = ar_stops r"
  "ar_pc (set_loop_state l x r) = ar_pc r" "ar_lock (set_loop_state l x r) = ar_lock r" "ar_loop (set_loop_state l x r) = ar_loop r"
  "ar_next (set_loop_state l x r) = ar_next r" "ar_loops (set_loop_state l x r) = (ar_loops r)(l := x)"
  "ar_stops (set_loop_state l x r) = ar_stops r"
  by (simp_all add: set_pc_def set_loop_state_def)

lemma lock_step: "runner_step a r = Some r' \<Longrightarrow> lock_inv r \<Longrightarrow> lock_inv r'"
  by (erule runner_step_cases) (force simp: lock_inv_def)+

lemma loops_step: "runner_step a r = Some r' \<Longrightarrow> loops_inv r \<Longrightarrow> owner_inv r \<Longrightarrow> loops_inv r'"
  by (erule runner_step_cases) (auto simp: loops_inv_def owner_inv_def)

lemma failed_step: "runner_step a r = Some r' \<Longrightarrow> failed_inv r \<Longrightarrow> loops_inv r \<Longrightarrow> failed_inv r'"
  by (erule runner_step_cases) (auto simp: failed_inv_def loops_inv_def)

lemma started_step: "runner_step a r = Some r' \<Longrightarrow> started_inv r \<Longrightarrow> owner_inv r \<Longrightarrow> started_inv r'"
  by (erule runner_step_cases) (auto simp: started_inv_def owner_inv_def)

lemma owner_step:
  assumes "runner_step a r = Some r'" "owner_inv r" "lock_inv r" "loops_inv r" "started_inv r"
  shows "owner_inv r'"
proof -
  from assms(2) have w: "\<And>c l. ar_pc r c = Waiting l \<Longrightarrow> l < ar_next r \<and> l \<notin> ar_stops r \<and> ar_loop r \<noteq> Some l"
    and s: "\<And>c l. ar_pc r c = Stopping l \<Longrightarrow> l < ar_next r \<and> l \<notin> ar_stops r \<and> ar_loop r \<noteq> Some l"
    and u: "\<And>c d l. ar_pc r c = Stopping l \<Longrightarrow> ar_pc r d \<noteq> Waiting l \<and> (ar_pc r d = Stopping l \<longrightarrow> d = c)"
    by (auto simp: owner_inv_def)
  from assms(3) have k: "\<And>c. holds_lock (ar_pc r c) \<longleftrightarrow> ar_lock r = Some c" by (simp add: lock_inv_def)
  from assms(4,5) have l: "\<And>l. l \<in> ar_stops r \<Longrightarrow> l < ar_next r" "\<And>l. ar_loop r = Some l \<Longrightarrow> l < ar_next r \<and> l \<notin> ar_stops r"
    by (auto simp: loops_inv_def started_inv_def)
  from assms(1) show ?thesis
  proof (cases rule: runner_step_cases)
    case (create c)
    have "d = c" if "ar_pc r d = Waiting l" for d l using k[of d] k[of c] that create by simp
    then have W: "d = c \<and> l = ar_next r" if "ar_pc r' d = Waiting l" for d l using that create by (auto split: if_splits)
    have S: "ar_pc r d = Stopping l" if "ar_pc r' d = Stopping l" for d l using that create by (auto split: if_splits)
    have "ar_next r \<notin> ar_stops r" "ar_loop r \<noteq> Some (ar_next r)" using l by (metis less_irrefl)+
    then have w': "l < ar_next r' \<and> l \<notin> ar_stops r' \<and> ar_loop r' \<noteq> Some l" if "ar_pc r' d = Waiting l" for d l
      using W[OF that] create by simp
    have s': "l < ar_next r' \<and> l \<notin> ar_stops r' \<and> ar_loop r' \<noteq> Some l" if "ar_pc r' d = Stopping l" for d l
      using s[OF S[OF that]] create by simp
    have u': "ar_pc r' d \<noteq> Waiting l \<and> (ar_pc r' d = Stopping l \<longrightarrow> d = e)" if "ar_pc r' e = Stopping l" for d e l
      using u[OF S[OF that], of d] s[OF S[OF that]] W[of d l] S[of d l] by auto
    show ?thesis unfolding owner_inv_def using w' s' u' by blast
  next
    case (publish c m)
    have W: "ar_pc r' d \<noteq> Waiting l" for d l
    proof (cases "d = c")
      case False
      then have "ar_pc r d \<noteq> Waiting l" using k[of d] k[of c] publish by auto
      with False publish show ?thesis by simp
    qed (simp add: publish)
    have S: "ar_pc r d = Stopping l" if "ar_pc r' d = Stopping l" for d l using that publish by (auto split: if_splits)
    have s': "l < ar_next r' \<and> l \<notin> ar_stops r' \<and> ar_loop r' \<noteq> Some l" if "ar_pc r' d = Stopping l" for d l
      using s[OF S[OF that]] u[OF S[OF that], of c] publish by auto
    have u': "ar_pc r' d = Stopping l \<longrightarrow> d = e" if "ar_pc r' e = Stopping l" for d e l
      using u[OF S[OF that], of d] S[of d l] by auto
    show ?thesis unfolding owner_inv_def using W s' u' by blast
  next
    case (take c m)
    have "ar_pc r d \<noteq> Waiting m" "ar_pc r d \<noteq> Stopping m" for d using k[of d] s[of d m] take by auto
    then show ?thesis using take w s u l by (auto simp: owner_inv_def)
  next
    case (stop c m)
    then show ?thesis using w s u by (auto simp: owner_inv_def)
  qed (use w s u in \<open>auto simp: owner_inv_def\<close>)
qed

lemma runner_inv_step: "runner_step a r = Some r' \<Longrightarrow> runner_inv r \<Longrightarrow> runner_inv r'"
  by (auto simp: runner_inv_def intro: lock_step loops_step owner_step started_step failed_step)

lemma runner_inv_init: "runner_inv runner_init"
  by (simp add: runner_inv_def runner_init_def lock_inv_def loops_inv_def owner_inv_def started_inv_def failed_inv_def)

lemma runner_invariant: "runner_reachable r \<Longrightarrow> runner_inv r"
  by (induction rule: runner_reachable.induct) (auto intro: runner_inv_init runner_inv_step)

lemma runner_steps_reachable: "runner_steps as r = Some r' \<Longrightarrow> runner_reachable r \<Longrightarrow> runner_reachable r'"
  by (induction as arbitrary: r) (auto split: option.splits intro: runner_reachable.step)

section \<open>Properties\<close>

text \<open>C34: In every interleaving of tasks, closers and loop threads: at most one caller is inside the locked section; the
  loop of the runner, and every loop a task was given, has a started thread; the loop of the runner has not ended; a loop
  ends only after a request to stop, and without such a request no call fails. A task whose coroutine is on a loop
  that was not asked to stop gets its result after at most two more steps.\<close>

theorem runner_safe:
  assumes "runner_reachable r"
  shows "(\<forall>c d. holds_lock (ar_pc r c) \<longrightarrow> holds_lock (ar_pc r d) \<longrightarrow> c = d)
     \<and> (\<forall>l. ar_loop r = Some l \<longrightarrow> ar_loops r l \<in> {Loop_ready, Loop_running} \<and> l \<notin> ar_stops r)
     \<and> (\<forall>c l. ar_pc r c \<in> {Got l, Submitted l} \<longrightarrow> ar_loops r l \<noteq> Loop_fresh)
     \<and> (\<forall>l. ar_loops r l = Loop_closed \<longrightarrow> l \<in> ar_stops r)
     \<and> (ar_stops r = {} \<longrightarrow> (\<forall>c. ar_pc r c \<noteq> Failed))
     \<and> (\<forall>c l. ar_pc r c = Submitted l \<and> l \<notin> ar_stops r \<longrightarrow>
          (\<exists>r'. runner_steps (if ar_loops r l = Loop_ready then [Run_forever l, Complete c] else [Complete c]) r = Some r'
             \<and> ar_pc r' c = Returned))"
proof -
  from runner_invariant[OF assms]
  have lock: "\<And>c. holds_lock (ar_pc r c) \<longleftrightarrow> ar_lock r = Some c"
    and loop: "\<And>l. ar_loop r = Some l \<Longrightarrow> ar_loops r l \<noteq> Loop_fresh \<and> l \<notin> ar_stops r"
    and given: "\<And>c l. ar_pc r c \<in> {Got l, Submitted l, Stopping l, Joining l} \<Longrightarrow> ar_loops r l \<noteq> Loop_fresh"
    and closed: "\<And>l. ar_loops r l = Loop_closed \<Longrightarrow> l \<in> ar_stops r"
    and failed: "\<And>c. ar_pc r c = Failed \<Longrightarrow> ar_stops r \<noteq> {}"
    by (auto simp: runner_inv_def lock_inv_def started_inv_def loops_inv_def failed_inv_def)
  have started: "ar_loops r l \<in> {Loop_ready, Loop_running}" if "ar_loops r l \<noteq> Loop_fresh" "l \<notin> ar_stops r" for l
    using that closed[of l] by (cases "ar_loops r l") auto
  have "\<exists>r'. runner_steps (if ar_loops r l = Loop_ready then [Run_forever l, Complete c] else [Complete c]) r = Some r'
      \<and> ar_pc r' c = Returned" if "ar_pc r c = Submitted l" "l \<notin> ar_stops r" for c l
    using started[OF given[of c l]] that by auto
  moreover have "\<forall>c d. holds_lock (ar_pc r c) \<longrightarrow> holds_lock (ar_pc r d) \<longrightarrow> c = d" by (simp add: lock)
  moreover have "\<forall>l. ar_loop r = Some l \<longrightarrow> ar_loops r l \<in> {Loop_ready, Loop_running} \<and> l \<notin> ar_stops r"
    using loop started by blast
  moreover have "\<forall>c l. ar_pc r c \<in> {Got l, Submitted l} \<longrightarrow> ar_loops r l \<noteq> Loop_fresh" using given by blast
  moreover have "\<forall>l. ar_loops r l = Loop_closed \<longrightarrow> l \<in> ar_stops r" using closed by blast
  moreover have "ar_stops r = {} \<longrightarrow> (\<forall>c. ar_pc r c \<noteq> Failed)" using failed by blast
  ultimately show ?thesis by blast
qed

text \<open>A task that was given a new loop, before its thread runs it.\<close>

definition one_task :: "runner_action list" where
  "one_task = [Call 0, Acquire 0, Ensure 0, Set_ready 0, Publish 0, Submit 0]"

theorem runner_safe_witness:
  "\<exists>r r'. runner_steps one_task runner_init = Some r \<and> ar_pc r 0 = Submitted 0
     \<and> runner_steps [Run_forever 0, Complete 0] r = Some r' \<and> ar_pc r' 0 = Returned"
proof -
  obtain r where r: "runner_steps one_task runner_init = Some r" "ar_pc r 0 = Submitted 0" "ar_loops r 0 = Loop_ready" "ar_stops r = {}"
    by (simp add: one_task_def runner_init_def ensure_loop_def publish_loop_def submit_def loop_usable_def set_pc_def set_loop_state_def)
  from runner_safe[OF runner_steps_reachable[OF r(1) runner_reachable.start]] r
  have "\<exists>r'. runner_steps [Run_forever 0, Complete 0] r = Some r' \<and> ar_pc r' 0 = Returned" by force
  with r show ?thesis by blast
qed

text \<open>The thread sets the event before it enters \<^verbatim>\<open>run_forever\<close>, so a second task that checks in between creates a
  second loop, which replaces the first; both run, and \<^verbatim>\<open>close\<close> reaches only the second.\<close>

lemma runner_two_loops:
  "\<exists>r. runner_steps (one_task @ [Call 1, Acquire 1, Ensure 1, Set_ready 1, Publish 1, Submit 1, Run_forever 0, Run_forever 1]) runner_init = Some r
     \<and> ar_loops r 0 = Loop_running \<and> ar_loops r 1 = Loop_running \<and> ar_loop r = Some 1"
  by (simp add: one_task_def runner_init_def ensure_loop_def publish_loop_def submit_def loop_usable_def set_pc_def set_loop_state_def)

text \<open>A task whose coroutine is on a loop that ended waits for ever, whatever happens.\<close>

lemma submitted_stuck:
  assumes "runner_step a r = Some r'" "ar_pc r c = Submitted l" "ar_loops r l = Loop_closed"
  shows "ar_pc r' c = Submitted l \<and> ar_loops r' l = Loop_closed"
proof (cases "a = Complete c")
  case False
  have "ar_pc r' c = ar_pc r c \<or> a \<in> {Call c, Acquire c, Ensure c, Publish c, Submit c, Complete c, Take c, Stop c, Join c}"
    using assms(1) by (cases a) (auto simp: ensure_loop_def publish_loop_def submit_def take_loop_def stop_loop_def
      split: if_splits option.splits caller_state.splits)
  moreover have "ar_loops r' l = Loop_closed"
    using assms(1,3) by (cases rule: runner_step_cases) auto
  ultimately show ?thesis using False assms by auto
qed (use assms in auto)

end
