(* ===== verification/ResponseTimes.thy ===== *)
theory ResponseTimes
  imports Prelude
begin

text \<open>
  Times in schemas: \<^verbatim>\<open>app/core/schema/datetime.py\<close> and \<^verbatim>\<open>base.py\<close>.

  A \<^verbatim>\<open>datetime\<close> is its calendar fields and, where it has a time zone, the offset from UTC in microseconds. The calendar of
  the standard library is the proleptic Gregorian one for the years 1 to 9999. What pydantic does besides is an argument.
\<close>

section \<open>The calendar of the standard library\<close>

definition is_leap :: "int \<Rightarrow> bool" where
  "is_leap y = (y mod 4 = 0 \<and> (y mod 100 \<noteq> 0 \<or> y mod 400 = 0))"

definition days_before_year :: "int \<Rightarrow> int" where
  "days_before_year y = (y - 1) * 365 + (y - 1) div 4 - (y - 1) div 100 + (y - 1) div 400"

definition days_in_month :: "int \<Rightarrow> int \<Rightarrow> int" where
  "days_in_month y m = (if m = 2 then (if is_leap y then 29 else 28) else if m \<in> {4, 6, 9, 11} then 30 else 31)"

definition days_before_month :: "int \<Rightarrow> int \<Rightarrow> int" where
  "days_before_month y m = [0, 31, 59, 90, 120, 151, 181, 212, 243, 273, 304, 334] ! nat (m - 1) + (if 2 < m \<and> is_leap y then 1 else 0)"

definition ymd2ord :: "int \<Rightarrow> int \<Rightarrow> int \<Rightarrow> int" where
  "ymd2ord y m d = days_before_year y + days_before_month y m + d"

lemma div_step: "0 < k \<Longrightarrow> y div k = (y - 1) div k + (if y mod k = 0 then 1 else 0)" for k :: int
proof -
  assume k: "0 < k"
  have y: "y = k * (y div k) + y mod k" by simp
  show ?thesis
  proof (cases "y mod k = 0")
    case True
    then have "y - 1 = k * (y div k - 1) + (k - 1)" using y by (simp add: algebra_simps)
    from int_div_pos_eq[OF this] k have "(y - 1) div k = y div k - 1" by simp
    with True show ?thesis by simp
  next
    case False
    have "0 \<le> y mod k" using k by simp
    with False have "0 \<le> y mod k - 1" by linarith
    moreover have "y - 1 = k * (y div k) + (y mod k - 1)" using y by simp
    note int_div_pos_eq[OF this]
    moreover have "y mod k - 1 < k" using pos_mod_bound[OF k, of y] by simp
    ultimately have "(y - 1) div k = y div k" by blast
    with False show ?thesis by simp
  qed
qed

lemma leap_count:
  fixes y :: int
  assumes "a4 = b4 + (if p4 then 1 else 0)" "a100 = b100 + (if p100 then 1 else 0)" "a400 = b400 + (if p400 then 1 else 0)"
    and "p400 \<Longrightarrow> p100" "p100 \<Longrightarrow> p4"
  shows "y * 365 + a4 - a100 + a400 = (y - 1) * 365 + b4 - b100 + b400 + (if p4 \<and> (\<not> p100 \<or> p400) then 366 else 365)"
  using assms by auto

lemma days_before_year_Suc: "days_before_year (y + 1) = days_before_year y + (if is_leap y then 366 else 365)"
proof -
  have m: "y mod 400 = 0 \<Longrightarrow> y mod 100 = 0" "y mod 100 = 0 \<Longrightarrow> y mod 4 = 0" by presburger+
  have d: "y div 4 = (y - 1) div 4 + (if y mod 4 = 0 then 1 else 0)" "y div 100 = (y - 1) div 100 + (if y mod 100 = 0 then 1 else 0)"
    "y div 400 = (y - 1) div 400 + (if y mod 400 = 0 then 1 else 0)"
    by (rule div_step, simp)+
  have s: "y + 1 - 1 = y" by simp
  show ?thesis unfolding days_before_year_def is_leap_def s by (rule leap_count[OF d m])
qed

text \<open>The year of an ordinal, upwards from a year that is not later.\<close>

function year_up :: "int \<Rightarrow> int \<Rightarrow> int" where
  "year_up y n = (if n \<le> days_before_year (y + 1) then y else year_up (y + 1) n)"
  by auto
termination
  by (relation "measure (\<lambda>(y, n). nat (n - days_before_year y))")
     (auto simp: days_before_year_Suc split: if_splits)

declare year_up.simps [simp del]

lemma year_up_spec:
  "days_before_year y < n \<Longrightarrow> y \<le> year_up y n \<and> days_before_year (year_up y n) < n \<and> n \<le> days_before_year (year_up y n + 1)"
proof (induction y n rule: year_up.induct)
  case (1 y n)
  show ?case
  proof (cases "n \<le> days_before_year (y + 1)")
    case True
    then show ?thesis using 1 by (simp add: year_up.simps[of y n])
  next
    case False
    then show ?thesis using 1 by (simp add: year_up.simps[of y n])
  qed
qed

definition year_of :: "int \<Rightarrow> int" where
  "year_of n = year_up ((n - 1) div 366 + 1) n"

lemma year_of_spec:
  assumes "1 \<le> n"
  shows "1 \<le> year_of n" "days_before_year (year_of n) < n" "n \<le> days_before_year (year_of n + 1)"
proof -
  let ?k = "(n - 1) div 366"
  have "0 \<le> ?k" using assms by simp
  then have "days_before_year (?k + 1) \<le> ?k * 366" by (simp add: days_before_year_def) (simp add: field_simps)?
  also have "\<dots> < n" using assms by presburger
  finally show "1 \<le> year_of n" "days_before_year (year_of n) < n" "n \<le> days_before_year (year_of n + 1)"
    using year_up_spec[of "?k + 1" n] \<open>0 \<le> ?k\<close> by (auto simp: year_of_def)
qed

text \<open>The month of a day of the year.\<close>

function month_up :: "int \<Rightarrow> int \<Rightarrow> int \<Rightarrow> int" where
  "month_up y m day = (if 12 \<le> m \<or> day \<le> days_before_month y (m + 1) then m else month_up y (m + 1) day)"
  by auto
termination
  by (relation "measure (\<lambda>(y, m, day). nat (12 - m))") auto

declare month_up.simps [simp del]

lemma days_before_month_Suc:
  assumes "1 \<le> m" "m < 12"
  shows "days_before_month y (m + 1) = days_before_month y m + days_in_month y m"
proof -
  have "m \<in> {1, 2, 3, 4, 5, 6, 7, 8, 9, 10, 11}" using assms by simp presburger
  then show ?thesis by (elim insertE emptyE) (simp_all add: days_before_month_def days_in_month_def)
qed

lemma days_in_year: "days_before_month y 12 + days_in_month y 12 = (if is_leap y then 366 else 365)"
  by (simp add: days_before_month_def days_in_month_def)

lemma month_within:
  assumes "1 \<le> m" "m \<le> 12"
  shows "0 \<le> days_before_month y m \<and> days_before_month y m + days_in_month y m \<le> (if is_leap y then 366 else 365)"
proof -
  have "m \<in> {1, 2, 3, 4, 5, 6, 7, 8, 9, 10, 11, 12}" using assms by simp presburger
  then show ?thesis by (elim insertE emptyE) (simp_all add: days_before_month_def days_in_month_def)
qed

lemma month_up_spec:
  assumes "1 \<le> m" "m \<le> 12" "days_before_month y m < day" "day \<le> (if is_leap y then 366 else 365)"
  shows "1 \<le> month_up y m day \<and> month_up y m day \<le> 12 \<and> days_before_month y (month_up y m day) < day
    \<and> day \<le> days_before_month y (month_up y m day) + days_in_month y (month_up y m day)"
  using assms
proof (induction y m day rule: month_up.induct)
  case (1 y m day)
  show ?case
  proof (cases "12 \<le> m \<or> day \<le> days_before_month y (m + 1)")
    case True
    then show ?thesis using 1 days_before_month_Suc[of m y] days_in_year[of y]
      by (cases "m = 12") (simp_all add: month_up.simps[of y _ day])
  next
    case False
    then show ?thesis using 1 by (simp add: month_up.simps[of y m day])
  qed
qed

definition month_of :: "int \<Rightarrow> int \<Rightarrow> int" where
  "month_of y day = month_up y 1 day"

lemma month_of_spec:
  assumes "1 \<le> day" "day \<le> (if is_leap y then 366 else 365)"
  shows "1 \<le> month_of y day \<and> month_of y day \<le> 12 \<and> days_before_month y (month_of y day) < day
    \<and> day \<le> days_before_month y (month_of y day) + days_in_month y (month_of y day)"
  using month_up_spec[of 1 y day] assms by (simp add: month_of_def days_before_month_def)

section \<open>Datetimes\<close>

record datetime =
  dt_year :: int
  dt_month :: int
  dt_day :: int
  dt_hour :: int
  dt_minute :: int
  dt_second :: int
  dt_micro :: int
  dt_offset :: "int option"

definition datetime_valid :: "datetime \<Rightarrow> bool" where
  "datetime_valid v =
     (1 \<le> dt_year v \<and> dt_year v \<le> 9999 \<and> 1 \<le> dt_month v \<and> dt_month v \<le> 12
      \<and> 1 \<le> dt_day v \<and> dt_day v \<le> days_in_month (dt_year v) (dt_month v)
      \<and> 0 \<le> dt_hour v \<and> dt_hour v < 24 \<and> 0 \<le> dt_minute v \<and> dt_minute v < 60
      \<and> 0 \<le> dt_second v \<and> dt_second v < 60 \<and> 0 \<le> dt_micro v \<and> dt_micro v < 1000000
      \<and> (case dt_offset v of None \<Rightarrow> True | Some w \<Rightarrow> \<bar>w\<bar> < 86400000000))"

text \<open>The microseconds of the clock, counted from the day before the first, and the datetime of such a count.\<close>

definition clock_micros :: "datetime \<Rightarrow> int" where
  "clock_micros v =
     ((ymd2ord (dt_year v) (dt_month v) (dt_day v) * 24 + dt_hour v) * 60 + dt_minute v) * 60000000 + dt_second v * 1000000 + dt_micro v"

definition max_ordinal :: int where
  "max_ordinal = 3652059"

definition of_clock_micros :: "int \<Rightarrow> int option \<Rightarrow> datetime res" where
  "of_clock_micros m offset =
     (let n = m div 86400000000; r = m mod 86400000000
      in if n < 1 \<or> max_ordinal < n then Inl (OverflowError (asc ''date value out of range''))
         else let y = year_of n; day = n - days_before_year y; mon = month_of y day
              in Inr \<lparr>dt_year = y, dt_month = mon, dt_day = day - days_before_month y mon,
                   dt_hour = r div 3600000000, dt_minute = r div 60000000 mod 60, dt_second = r div 1000000 mod 60,
                   dt_micro = r mod 1000000, dt_offset = offset\<rparr>)"

definition astimezone_utc :: "datetime \<Rightarrow> int \<Rightarrow> datetime res" where
  "astimezone_utc v w = of_clock_micros (clock_micros v - w) (Some 0)"

section \<open>datetime.py\<close>

definition ensure_utc_datetime :: "datetime \<Rightarrow> datetime res" where
  "ensure_utc_datetime v =
     (case dt_offset v of
        None \<Rightarrow> Inl (ValueError (asc ''datetime values must include timezone information''))
      | Some w \<Rightarrow> astimezone_utc v w)"

text \<open>\<^verbatim>\<open>isoformat(timespec="milliseconds")\<close> of a time in UTC, and the replacement of its suffix.\<close>

definition digit_char :: "int \<Rightarrow> char" where
  "digit_char d = char_of (nat (48 + d))"

definition pad2 :: "int \<Rightarrow> string" where
  "pad2 n = [digit_char (n div 10), digit_char (n mod 10)]"

definition pad3 :: "int \<Rightarrow> string" where
  "pad3 n = digit_char (n div 100) # pad2 (n mod 100)"

definition pad4 :: "int \<Rightarrow> string" where
  "pad4 n = digit_char (n div 1000) # pad3 (n mod 1000)"

definition isoformat_millis :: "datetime \<Rightarrow> string" where
  "isoformat_millis v =
     pad4 (dt_year v) @ ''-'' @ pad2 (dt_month v) @ ''-'' @ pad2 (dt_day v) @ ''T'' @ pad2 (dt_hour v) @ '':'' @ pad2 (dt_minute v)
     @ '':'' @ pad2 (dt_second v) @ ''.'' @ pad3 (dt_micro v div 1000)"

definition format_utc_iso8601 :: "datetime \<Rightarrow> string res" where
  "format_utc_iso8601 v =
     rbind (case dt_offset v of None \<Rightarrow> Inr (v\<lparr>dt_offset := Some 0\<rparr>) | Some w \<Rightarrow> astimezone_utc v w) (\<lambda>u.
       Inr (isoformat_millis u @ ''Z''))"

text \<open>The values a response is made of; a set is the list of its elements in the order of iteration.\<close>

datatype 'a pyvalue =
    V_datetime datetime
  | V_dict "(string \<times> 'a pyvalue) list"
  | V_list "'a pyvalue list"
  | V_tuple "'a pyvalue list"
  | V_set "'a pyvalue list"
  | V_text string
  | V_none
  | V_other 'a

fun serialize_datetime_value :: "'a pyvalue \<Rightarrow> 'a pyvalue res"
  and serialize_items :: "(string \<times> 'a pyvalue) list \<Rightarrow> (string \<times> 'a pyvalue) list res"
  and serialize_values :: "'a pyvalue list \<Rightarrow> 'a pyvalue list res" where
  "serialize_datetime_value (V_datetime v) = rbind (format_utc_iso8601 v) (\<lambda>t. Inr (V_text t))"
| "serialize_datetime_value (V_dict kvs) = rbind (serialize_items kvs) (\<lambda>kvs'. Inr (V_dict kvs'))"
| "serialize_datetime_value (V_list vs) = rbind (serialize_values vs) (\<lambda>vs'. Inr (V_list vs'))"
| "serialize_datetime_value (V_tuple vs) = rbind (serialize_values vs) (\<lambda>vs'. Inr (V_tuple vs'))"
| "serialize_datetime_value (V_set vs) = rbind (serialize_values vs) (\<lambda>vs'. Inr (V_list vs'))"
| "serialize_datetime_value (V_text t) = Inr (V_text t)"
| "serialize_datetime_value V_none = Inr V_none"
| "serialize_datetime_value (V_other x) = Inr (V_other x)"
| "serialize_items [] = Inr []"
| "serialize_items ((k, v) # kvs) =
     rbind (serialize_datetime_value v) (\<lambda>v'. rbind (serialize_items kvs) (\<lambda>kvs'. Inr ((k, v') # kvs')))"
| "serialize_values [] = Inr []"
| "serialize_values (v # vs) = rbind (serialize_datetime_value v) (\<lambda>v'. rbind (serialize_values vs) (\<lambda>vs'. Inr (v' # vs')))"

text \<open>A naive time of an ORM object is taken to be in UTC.\<close>

definition normalize_orm_datetimes :: "(string \<times> 'a pyvalue) list \<Rightarrow> (string \<times> 'a pyvalue) list" where
  "normalize_orm_datetimes values =
     map (\<lambda>(field, v). (field, case v of V_datetime d \<Rightarrow> if dt_offset d = None then V_datetime (d\<lparr>dt_offset := Some 0\<rparr>) else v | _ \<Rightarrow> v)) values"

text \<open>An annotation is a type, or a generic one or union with arguments.\<close>

datatype type_annotation = Ann_datetime | Ann_type string | Ann_generic string "type_annotation list"

fun is_datetime_annotation :: "type_annotation \<Rightarrow> bool" where
  "is_datetime_annotation Ann_datetime = True"
| "is_datetime_annotation (Ann_type _) = False"
| "is_datetime_annotation (Ann_generic _ args) = (Ann_datetime \<in> set args)"

section \<open>base.py\<close>

text \<open>The validator of a schema with the given fields; a value that is not a \<^verbatim>\<open>datetime\<close> has no time zone attribute.\<close>

fun ensure_utc_value :: "'a pyvalue \<Rightarrow> 'a pyvalue res" where
  "ensure_utc_value (V_datetime d) = rbind (ensure_utc_datetime d) (\<lambda>d'. Inr (V_datetime d'))"
| "ensure_utc_value v = Inl (AttributeError (asc ''tzinfo''))"

fun normalize_datetimes ::
  "(string \<times> type_annotation) list \<Rightarrow> (string \<rightharpoonup> 'a pyvalue) \<Rightarrow> (string \<rightharpoonup> 'a pyvalue) res" where
  "normalize_datetimes [] attrs = Inr attrs"
| "normalize_datetimes ((field, ann) # fs) attrs =
     (if \<not> is_datetime_annotation ann then normalize_datetimes fs attrs
      else case attrs field of
          None \<Rightarrow> normalize_datetimes fs attrs
        | Some V_none \<Rightarrow> normalize_datetimes fs attrs
        | Some v \<Rightarrow> rbind (ensure_utc_value v) (\<lambda>v'. normalize_datetimes fs (attrs(field \<mapsto> v'))))"

text \<open>\<open>validate\<close> is what \<^verbatim>\<open>model_validate\<close> does before the validator.\<close>

definition to_schema ::
  "((string \<times> 'a pyvalue) list \<Rightarrow> (string \<rightharpoonup> 'a pyvalue) res) \<Rightarrow> (string \<times> type_annotation) list
     \<Rightarrow> (string \<times> 'a pyvalue) list \<Rightarrow> (string \<rightharpoonup> 'a pyvalue) res" where
  "to_schema validate fs item = rbind (validate (normalize_orm_datetimes item)) (normalize_datetimes fs)"

definition to_schema_list ::
  "((string \<times> 'a pyvalue) list \<Rightarrow> (string \<rightharpoonup> 'a pyvalue) res) \<Rightarrow> (string \<times> type_annotation) list
     \<Rightarrow> (string \<times> 'a pyvalue) list list \<Rightarrow> (string \<rightharpoonup> 'a pyvalue) list res" where
  "to_schema_list validate fs items = mapr (to_schema validate fs) items"

section \<open>Facts\<close>

lemma clock_sum1:
  fixes r :: int
  assumes "a * 60 + b = c" "c * 60 + d = q" "q * 1000000 + e = r"
  shows "(a * 60 + b) * 60000000 + d * 1000000 + e = r"
  unfolding assms(1) assms(3)[symmetric] assms(2)[symmetric] by simp

lemma clock_sum2:
  fixes r :: int
  assumes "(h * 60 + i) * 60000000 + s * 1000000 + u = r" "n * 86400000000 + r = m"
  shows "((n * 24 + h) * 60 + i) * 60000000 + s * 1000000 + u = m"
  unfolding assms(2)[symmetric] assms(1)[symmetric] by (simp add: distrib_right)

lemma clock_split:
  "((r div 3600000000) * 60 + r div 60000000 mod 60) * 60000000 + (r div 1000000 mod 60) * 1000000 + r mod 1000000 = r" for r :: int
proof -
  let ?q = "r div 1000000"
  have h: "r div 60000000 = ?q div 60" using zdiv_zmult2_eq[of 60 r 1000000] by simp
  have hh: "r div 3600000000 = ?q div 60 div 60" using zdiv_zmult2_eq[of 60 r 60000000] h by simp
  have "(?q div 60 div 60) * 60 + ?q div 60 mod 60 = ?q div 60" by (rule div_mult_mod_eq)
  moreover have "(?q div 60) * 60 + ?q mod 60 = ?q" by (rule div_mult_mod_eq)
  moreover have "?q * 1000000 + r mod 1000000 = r" by (rule div_mult_mod_eq)
  ultimately show ?thesis unfolding h hh by (rule clock_sum1)
qed

lemma days_before_year_mono: "a \<le> b \<Longrightarrow> days_before_year a \<le> days_before_year b"
  by (induction b rule: int_ge_induct) (auto simp: days_before_year_Suc)

lemma year_of_bound:
  assumes "1 \<le> n" "n \<le> max_ordinal"
  shows "year_of n \<le> 9999"
proof (rule ccontr)
  assume "\<not> year_of n \<le> 9999"
  then have "days_before_year 10000 \<le> days_before_year (year_of n)" by (intro days_before_year_mono) simp
  moreover have "days_before_year 10000 = max_ordinal" by (simp add: days_before_year_def max_ordinal_def)
  ultimately show False using year_of_spec(2)[OF assms(1)] assms(2) by simp
qed

lemma of_clock_micros_spec:
  assumes "of_clock_micros m offset = Inr v" "case offset of None \<Rightarrow> True | Some w \<Rightarrow> \<bar>w\<bar> < 86400000000"
  shows "datetime_valid v \<and> clock_micros v = m \<and> dt_offset v = offset"
proof -
  let ?n = "m div 86400000000" and ?r = "m mod 86400000000"
  let ?y = "year_of ?n"
  let ?day = "?n - days_before_year ?y"
  let ?mon = "month_of ?y ?day"
  have n: "1 \<le> ?n" "?n \<le> max_ordinal"
    and v: "v = \<lparr>dt_year = ?y, dt_month = ?mon, dt_day = ?day - days_before_month ?y ?mon,
                   dt_hour = ?r div 3600000000, dt_minute = ?r div 60000000 mod 60, dt_second = ?r div 1000000 mod 60,
                   dt_micro = ?r mod 1000000, dt_offset = offset\<rparr>"
    using assms(1) by (auto simp: of_clock_micros_def Let_def split: if_splits)
  note y = year_of_spec[OF n(1)]
  have day: "1 \<le> ?day" "?day \<le> (if is_leap ?y then 366 else 365)" using y days_before_year_Suc[of ?y] by auto
  note mon = month_of_spec[OF day]
  have r: "0 \<le> ?r" "?r < 86400000000" by simp_all
  then have "?r div 3600000000 < 24" "0 \<le> ?r div 3600000000" by (simp_all add: div_less_iff_less_mult)
  then have "datetime_valid v"
    using y(1) year_of_bound[OF n] mon assms(2) by (auto simp: v datetime_valid_def split: option.split)
  moreover have "clock_micros v = m"
  proof -
    have "?n * 86400000000 + ?r = m" by (rule div_mult_mod_eq)
    note clock_sum2[OF clock_split this]
    moreover have "ymd2ord ?y ?mon (?day - days_before_month ?y ?mon) = ?n" by (simp add: ymd2ord_def)
    ultimately show ?thesis unfolding v clock_micros_def datetime.simps by (simp only:)
  qed
  ultimately show ?thesis by (simp add: v)
qed

text \<open>The point in time a datetime denotes, in microseconds; a naive one is in UTC.\<close>

definition instant :: "datetime \<Rightarrow> int" where
  "instant v = clock_micros v - (case dt_offset v of None \<Rightarrow> 0 | Some w \<Rightarrow> w)"

definition representable :: "int \<Rightarrow> bool" where
  "representable m = (1 \<le> m div 86400000000 \<and> m div 86400000000 \<le> max_ordinal)"

lemma astimezone_utc_spec:
  "(\<exists>u. astimezone_utc v w = Inr u \<and> datetime_valid u \<and> clock_micros u = clock_micros v - w \<and> dt_offset u = Some 0)
     \<or> \<not> representable (clock_micros v - w) \<and> astimezone_utc v w = Inl (OverflowError (asc ''date value out of range''))"
proof (cases "astimezone_utc v w")
  case (Inr u)
  from of_clock_micros_spec[OF this[unfolded astimezone_utc_def]] Inr show ?thesis by simp
next
  case (Inl e)
  then show ?thesis by (auto simp: astimezone_utc_def of_clock_micros_def representable_def Let_def split: if_splits)
qed

lemma valid_representable:
  assumes "datetime_valid u"
  shows "representable (clock_micros u)"
proof -
  let ?n = "ymd2ord (dt_year u) (dt_month u) (dt_day u)"
  let ?r = "(dt_hour u * 60 + dt_minute u) * 60000000 + dt_second u * 1000000 + dt_micro u"
  have v: "1 \<le> dt_year u" "dt_year u \<le> 9999" "1 \<le> dt_month u" "dt_month u \<le> 12" "1 \<le> dt_day u"
    "dt_day u \<le> days_in_month (dt_year u) (dt_month u)" "0 \<le> ?r" "?r < 86400000000"
    using assms by (auto simp: datetime_valid_def)
  have "0 \<le> days_before_month (dt_year u) (dt_month u)
      \<and> days_before_month (dt_year u) (dt_month u) + days_in_month (dt_year u) (dt_month u) \<le> (if is_leap (dt_year u) then 366 else 365)"
    using v(3,4) by (rule month_within)
  moreover have "days_before_year 1 \<le> days_before_year (dt_year u)" "days_before_year (dt_year u + 1) \<le> days_before_year 10000"
    using v(1,2) by (auto intro: days_before_year_mono)
  moreover have "days_before_year 1 = 0" "days_before_year 10000 = max_ordinal" by (simp_all add: days_before_year_def max_ordinal_def)
  ultimately have n: "1 \<le> ?n" "?n \<le> max_ordinal" using v days_before_year_Suc[of "dt_year u"] by (auto simp: ymd2ord_def)
  have "clock_micros u = ?n * 86400000000 + ?r" by (simp add: clock_micros_def distrib_right)
  then have "clock_micros u div 86400000000 = ?n" using v(7,8) by (simp add: int_div_pos_eq)
  with n show ?thesis by (simp add: representable_def)
qed

text \<open>What a client reads from a time text: the milliseconds.\<close>

definition digit_value :: "char \<Rightarrow> int" where
  "digit_value c = int (of_char c) - 48"

definition number_at :: "string \<Rightarrow> nat \<Rightarrow> nat \<Rightarrow> int" where
  "number_at t i k = foldl (\<lambda>a c. 10 * a + digit_value c) 0 (take k (drop i t))"

definition read_millis :: "string \<Rightarrow> int" where
  "read_millis t =
     ((ymd2ord (number_at t 0 4) (number_at t 5 2) (number_at t 8 2) * 24 + number_at t 11 2) * 60 + number_at t 14 2) * 60000
     + number_at t 17 2 * 1000 + number_at t 20 3"

lemma digit_value_digit: "0 \<le> d \<Longrightarrow> d < 10 \<Longrightarrow> digit_value (digit_char d) = d"
  by (simp add: digit_value_def digit_char_def of_char_of)

lemma pad_values:
  "0 \<le> n \<Longrightarrow> n < 100 \<Longrightarrow> foldl (\<lambda>a c. 10 * a + digit_value c) k (pad2 n) = 100 * k + n"
  "0 \<le> n \<Longrightarrow> n < 1000 \<Longrightarrow> foldl (\<lambda>a c. 10 * a + digit_value c) k (pad3 n) = 1000 * k + n"
  "0 \<le> n \<Longrightarrow> n < 10000 \<Longrightarrow> foldl (\<lambda>a c. 10 * a + digit_value c) k (pad4 n) = 10000 * k + n"
proof -
  have two: "foldl (\<lambda>a c. 10 * a + digit_value c) k (pad2 n) = 100 * k + n" if "0 \<le> n" "n < 100" for n k
  proof -
    have "n div 10 < 10" "n = 10 * (n div 10) + n mod 10" using that by auto
    then show ?thesis using that by (simp add: pad2_def digit_value_digit)
  qed
  have three: "foldl (\<lambda>a c. 10 * a + digit_value c) k (pad3 n) = 1000 * k + n" if "0 \<le> n" "n < 1000" for n k
  proof -
    have "n div 100 < 10" "n = 100 * (n div 100) + n mod 100" using that by auto
    then show ?thesis using that by (simp add: pad3_def digit_value_digit two)
  qed
  have four: "foldl (\<lambda>a c. 10 * a + digit_value c) k (pad4 n) = 10000 * k + n" if "0 \<le> n" "n < 10000" for n k
  proof -
    have "n div 1000 < 10" "n = 1000 * (n div 1000) + n mod 1000" using that by auto
    then show ?thesis using that by (simp add: pad4_def digit_value_digit three)
  qed
  show "0 \<le> n \<Longrightarrow> n < 100 \<Longrightarrow> foldl (\<lambda>a c. 10 * a + digit_value c) k (pad2 n) = 100 * k + n"
    "0 \<le> n \<Longrightarrow> n < 1000 \<Longrightarrow> foldl (\<lambda>a c. 10 * a + digit_value c) k (pad3 n) = 1000 * k + n"
    "0 \<le> n \<Longrightarrow> n < 10000 \<Longrightarrow> foldl (\<lambda>a c. 10 * a + digit_value c) k (pad4 n) = 10000 * k + n"
    using two three four by blast+
qed

lemma pad_shape: "length (pad2 n) = 2" "length (pad3 n) = 3" "length (pad4 n) = 4"
  by (simp_all add: pad2_def pad3_def pad4_def)

lemma number_at_skip: "length a = k \<Longrightarrow> number_at (a @ t) (k + i) w = number_at t i w"
  by (simp add: number_at_def)

lemma number_at_head: "length a = w \<Longrightarrow> number_at (a @ t) 0 w = foldl (\<lambda>x c. 10 * x + digit_value c) 0 a"
  by (simp add: number_at_def)

lemma millis_sums:
  fixes m :: int
  assumes "((n * 24 + h) * 60 + i) * 60000000 + s * 1000000 + u = m"
  shows "((n * 24 + h) * 60 + i) * 60000 + s * 1000 + u div 1000 = m div 1000"
proof -
  have "m = u + (((n * 24 + h) * 60 + i) * 60000 + s * 1000) * 1000"
    unfolding assms[symmetric] by (simp add: distrib_right)
  then show ?thesis by simp
qed

lemma read_isoformat:
  assumes "datetime_valid u"
  shows "read_millis (isoformat_millis u @ ''Z'') = clock_micros u div 1000" "length (isoformat_millis u @ ''Z'') = 24"
proof -
  define t where "t = isoformat_millis u @ ''Z''"
  have f: "t = pad4 (dt_year u) @ ''-'' @ pad2 (dt_month u) @ ''-'' @ pad2 (dt_day u) @ ''T'' @ pad2 (dt_hour u) @ '':''
     @ pad2 (dt_minute u) @ '':'' @ pad2 (dt_second u) @ ''.'' @ pad3 (dt_micro u div 1000) @ ''Z''"
    by (simp add: t_def isoformat_millis_def)
  have "days_in_month (dt_year u) (dt_month u) \<le> 31" by (simp add: days_in_month_def)
  then have r: "0 \<le> dt_year u" "dt_year u < 10000" "0 \<le> dt_month u" "dt_month u < 100" "0 \<le> dt_day u" "dt_day u < 100"
    "0 \<le> dt_hour u" "dt_hour u < 100" "0 \<le> dt_minute u" "dt_minute u < 100" "0 \<le> dt_second u" "dt_second u < 100"
    "0 \<le> dt_micro u div 1000" "dt_micro u div 1000 < 1000"
    using assms by (auto simp: datetime_valid_def)
  have n: "number_at t 0 4 = dt_year u" "number_at t 5 2 = dt_month u" "number_at t 8 2 = dt_day u" "number_at t 11 2 = dt_hour u"
    "number_at t 14 2 = dt_minute u" "number_at t 17 2 = dt_second u" "number_at t 20 3 = dt_micro u div 1000"
    by (simp_all add: f number_at_def pad_shape pad_values r)
  show "read_millis (isoformat_millis u @ ''Z'') = clock_micros u div 1000"
    unfolding t_def[symmetric] read_millis_def n by (rule millis_sums) (simp add: clock_micros_def)
  show "length (isoformat_millis u @ ''Z'') = 24" unfolding t_def[symmetric] by (simp add: f pad_shape)
qed

text \<open>C33: The text of a time in a response is 24 characters that end in Z and reads back to the point in time it denotes, to
  the millisecond, whatever the time zone; a naive time counts as UTC. Formatting fails exactly when the point in time is
  outside the years 1 to 9999 in UTC.\<close>

theorem time_text_roundtrip:
  assumes "datetime_valid v"
  shows "(\<exists>t. format_utc_iso8601 v = Inr t \<and> representable (instant v) \<and> length t = 24 \<and> last t = CHR ''Z'' \<and> read_millis t = instant v div 1000)
     \<or> (\<not> representable (instant v) \<and> format_utc_iso8601 v = Inl (OverflowError (asc ''date value out of range'')))"
proof -
  let ?ok = "\<lambda>u. datetime_valid u \<and> clock_micros u = instant v"
  have iso: "length (isoformat_millis u @ ''Z'') = 24 \<and> last (isoformat_millis u @ ''Z'') = CHR ''Z''
      \<and> read_millis (isoformat_millis u @ ''Z'') = instant v div 1000" if "?ok u" for u
    using read_isoformat[of u] that by simp
  show ?thesis
  proof (cases "dt_offset v")
    case None
    let ?u = "v\<lparr>dt_offset := Some 0\<rparr>"
    have u: "?ok ?u" using assms None by (auto simp: datetime_valid_def clock_micros_def instant_def)
    have "representable (instant v)" using valid_representable[of ?u] u by simp
    with iso[OF u] None show ?thesis by (simp add: format_utc_iso8601_def)
  next
    case (Some w)
    then have i: "clock_micros v - w = instant v" by (simp add: instant_def)
    from astimezone_utc_spec[of v w] show ?thesis
    proof (elim disjE exE conjE)
      fix u
      assume u: "astimezone_utc v w = Inr u" "datetime_valid u" "clock_micros u = clock_micros v - w"
      then have "representable (instant v)" using valid_representable[of u] i by simp
      with iso[of u] u i Some show ?thesis by (simp add: format_utc_iso8601_def)
    qed (use Some i in \<open>simp add: format_utc_iso8601_def\<close>)
  qed
qed

definition leap_evening :: datetime where
  "leap_evening = \<lparr>dt_year = 2024, dt_month = 2, dt_day = 29, dt_hour = 23, dt_minute = 30, dt_second = 5, dt_micro = 7999,
     dt_offset = Some 28800000000\<rparr>"

theorem time_text_roundtrip_witness:
  "\<exists>t. format_utc_iso8601 leap_evening = Inr t \<and> last t = CHR ''Z'' \<and> read_millis t = 63844903805007"
proof -
  have v: "datetime_valid leap_evening" by (simp add: datetime_valid_def leap_evening_def days_in_month_def is_leap_def)
  have m: "instant leap_evening = 63844903805007999"
    by (simp add: instant_def clock_micros_def leap_evening_def ymd2ord_def days_before_year_def days_before_month_def)
  then have "representable (instant leap_evening)" by (simp add: representable_def max_ordinal_def)
  with time_text_roundtrip[OF v] m show ?thesis by auto
qed

subsection \<open>Schemas\<close>

text \<open>A value of a field after the validator: nothing, or a time in UTC.\<close>

fun utc_or_none :: "'a pyvalue \<Rightarrow> bool" where
  "utc_or_none V_none = True"
| "utc_or_none (V_datetime d) = (dt_offset d = Some 0)"
| "utc_or_none _ = False"

lemma ensure_utc_value_utc:
  assumes "ensure_utc_value v = Inr v'"
  shows "utc_or_none v'"
proof (cases v)
  case (V_datetime d)
  with assms obtain w u where "astimezone_utc d w = Inr u" "v' = V_datetime u"
    by (auto simp: rbind_eq_Inr ensure_utc_datetime_def split: option.splits)
  with astimezone_utc_spec[of d w] show ?thesis by auto
qed (use assms in simp_all)

lemma normalize_datetimes_Cons:
  "normalize_datetimes ((g, ann) # fs) attrs =
     (if \<not> is_datetime_annotation ann \<or> attrs g = None \<or> attrs g = Some V_none then normalize_datetimes fs attrs
      else rbind (ensure_utc_value (the (attrs g))) (\<lambda>v. normalize_datetimes fs (attrs(g \<mapsto> v))))"
  by (auto split: option.split pyvalue.split)

lemma normalize_datetimes_spec:
  "normalize_datetimes fs attrs = Inr attrs' \<Longrightarrow>
     (attrs' f = attrs f \<or> (\<exists>v. attrs' f = Some v \<and> utc_or_none v))
     \<and> ((f, ann) \<in> set fs \<and> is_datetime_annotation ann \<longrightarrow> (attrs' f = None \<or> utc_or_none (the (attrs' f))))"
proof (induction fs arbitrary: attrs)
  case (Cons x fs)
  obtain g b where x: "x = (g, b)" by fastforce
  show ?case
  proof (cases "\<not> is_datetime_annotation b \<or> attrs g = None \<or> attrs g = Some V_none")
    case True
    then have "normalize_datetimes fs attrs = Inr attrs'" using Cons.prems unfolding x normalize_datetimes_Cons by simp
    from Cons.IH[OF this] True show ?thesis by (auto simp: x)
  next
    case False
    then obtain v where v: "ensure_utc_value (the (attrs g)) = Inr v" "normalize_datetimes fs (attrs(g \<mapsto> v)) = Inr attrs'"
      using Cons.prems unfolding x normalize_datetimes_Cons by (auto simp: rbind_eq_Inr)
    from Cons.IH[OF v(2)] ensure_utc_value_utc[OF v(1)] show ?thesis by (auto simp: x split: if_splits)
  qed
qed simp

text \<open>After validation every field declared as a time holds nothing or a time in UTC.\<close>

lemma schema_times_utc:
  assumes "to_schema validate fs item = Inr attrs" "(f, ann) \<in> set fs" "is_datetime_annotation ann" "attrs f = Some v"
  shows "utc_or_none v"
proof -
  obtain attrs0 where "normalize_datetimes fs attrs0 = Inr attrs" using assms(1) by (auto simp: to_schema_def rbind_eq_Inr)
  from normalize_datetimes_spec[OF this, of f ann] assms(2-4) show ?thesis by auto
qed

text \<open>A field declared as a list of times passes the check of the annotation, and validating any list for it fails.\<close>

lemma list_of_times_fails:
  "is_datetime_annotation (Ann_generic ''list'' [Ann_datetime])
   \<and> normalize_datetimes [(''times'', Ann_generic ''list'' [Ann_datetime])] [''times'' \<mapsto> V_list vs] = Inl (AttributeError (asc ''tzinfo''))"
  by (simp add: rbind_def)

end
