(* ===== verification/Openapi.thy ===== *)
theory Openapi
  imports Json
begin

text \<open>
  The error responses of the API description: \<^verbatim>\<open>customize_openapi_error_responses\<close> of \<^verbatim>\<open>app/core/exceptions/handlers.py\<close>.

  A description is the dictionary FastAPI's \<^verbatim>\<open>get_openapi\<close> builds, an argument: its paths, their operations by method, and
  the parts the function does not look at as JSON. Dictionaries are association lists in insertion order.
\<close>

section \<open>Dictionaries\<close>

definition put_key :: "string \<Rightarrow> 'v \<Rightarrow> (string \<times> 'v) list \<Rightarrow> (string \<times> 'v) list" where
  "put_key k v d = (if k \<in> fst ` set d then map (\<lambda>(k', v'). (k', if k' = k then v else v')) d else d @ [(k, v)])"

definition set_default :: "string \<Rightarrow> 'v \<Rightarrow> (string \<times> 'v) list \<Rightarrow> (string \<times> 'v) list" where
  "set_default k v d = (if k \<in> fst ` set d then d else d @ [(k, v)])"

section \<open>The description\<close>

text \<open>The names of the parameters are absent or null where a parameter has none.\<close>

record operation =
  op_rest :: "(string \<times> json) list"
  op_parameters :: "string option list"
  op_responses :: "(string \<times> json) list option"

record openapi =
  oa_rest :: "(string \<times> json) list"
  oa_paths :: "(string \<times> (string \<times> operation) list) list"
  oa_components :: "(string \<times> (string \<times> json) list) list"

datatype app_route = Api_route string "string list" | Other_route

record openapi_app =
  ap_openapi_schema :: "openapi option"
  ap_routes :: "app_route list"

definition json_dict :: "(string \<times> json) list \<Rightarrow> json" where
  "json_dict d = J_dict (map (\<lambda>(k, v). (asc k, v)) d)"

definition error_response_entry :: "string \<Rightarrow> json" where
  "error_response_entry description =
     json_dict [(''description'', J_str (asc description)),
       (''content'', json_dict [(''application/json'', json_dict [(''schema'',
          json_dict [(''$ref'', J_str (asc ''#/components/schemas/ApiErrorResponse''))])])])]"

definition operation_present :: "operation \<Rightarrow> bool" where
  "operation_present op = (op_rest op \<noteq> [] \<or> op_parameters op \<noteq> [] \<or> op_responses op \<noteq> None)"

definition patch_responses :: "string option list \<Rightarrow> (string \<times> json) list \<Rightarrow> (string \<times> json) list" where
  "patch_responses parameters responses =
     (let r1 = (if ''422'' \<in> fst ` set responses then put_key ''422'' (error_response_entry ''Validation Error'') responses else responses);
          r2 = set_default ''500'' (error_response_entry ''Internal Server Error'') r1
      in if Some ''Authorization'' \<in> set parameters
         then set_default ''403'' (error_response_entry ''Forbidden'') (set_default ''401'' (error_response_entry ''Unauthorized'') r2)
         else r2)"

definition patch_operation :: "operation \<Rightarrow> operation" where
  "patch_operation op =
     op\<lparr>op_responses := Some (patch_responses (op_parameters op) (case op_responses op of None \<Rightarrow> [] | Some r \<Rightarrow> r))\<rparr>"

text \<open>One method of a route, on the operations of its path.\<close>

definition patch_method :: "(string \<times> operation) list \<Rightarrow> string \<Rightarrow> (string \<times> operation) list" where
  "patch_method path_item meth =
     (case map_of path_item (py_lower meth) of
        None \<Rightarrow> path_item
      | Some op \<Rightarrow> if operation_present op then put_key (py_lower meth) (patch_operation op) path_item else path_item)"

fun patch_route :: "app_route \<Rightarrow> (string \<times> (string \<times> operation) list) list \<Rightarrow> (string \<times> (string \<times> operation) list) list" where
  "patch_route Other_route paths = paths"
| "patch_route (Api_route path methods) paths =
     (case map_of paths path of
        None \<Rightarrow> paths
      | Some path_item \<Rightarrow> if path_item = [] then paths else put_key path (foldl patch_method path_item methods) paths)"

definition custom_openapi :: "(app_route list \<Rightarrow> openapi) \<Rightarrow> (string \<times> json) list \<Rightarrow> openapi_app \<Rightarrow> openapi \<times> openapi_app" where
  "custom_openapi get_openapi error_schema app =
     (case ap_openapi_schema app of
        Some schema \<Rightarrow> (schema, app)
      | None \<Rightarrow>
          let schema = get_openapi (ap_routes app);
              schemas = (case map_of (oa_components schema) ''schemas'' of None \<Rightarrow> [] | Some d \<Rightarrow> d);
              components = put_key ''schemas'' (put_key ''ApiErrorResponse'' (json_dict error_schema) schemas) (oa_components schema);
              patched = schema\<lparr>oa_components := components, oa_paths := foldl (\<lambda>paths r. patch_route r paths) (oa_paths schema) (ap_routes app)\<rparr>
          in (patched, app\<lparr>ap_openapi_schema := Some patched\<rparr>))"

section \<open>Facts\<close>

lemma key_iff: "k \<in> fst ` set d \<longleftrightarrow> map_of d k \<noteq> None"
  by (simp add: map_of_eq_None_iff)

lemma map_of_replace:
  "map_of (map (\<lambda>(k', v'). (k', if k' = k then v else v')) d) x = (if x = k \<and> map_of d k \<noteq> None then Some v else map_of d x)"
  by (induction d) auto

lemma map_of_put_key: "map_of (put_key k v d) x = (if x = k then Some v else map_of d x)"
  by (simp add: put_key_def key_iff map_of_replace map_add_def split: option.split)

lemma map_of_set_default: "map_of (set_default k v d) x = (if x = k \<and> map_of d k = None then Some v else map_of d x)"
  by (simp add: set_default_def key_iff map_add_def split: option.split)

lemma put_key_same:
  assumes "k \<in> fst ` set d" "\<And>w. (k, w) \<in> set d \<Longrightarrow> w = v"
  shows "put_key k v d = d"
proof -
  have "map (\<lambda>(k', v'). (k', if k' = k then v else v')) d = d"
    by (rule map_idI) (use assms(2) in \<open>auto split: prod.splits\<close>)
  with assms(1) show ?thesis by (simp add: put_key_def)
qed

lemma put_key_set: "(x, w) \<in> set (put_key k v d) \<Longrightarrow> x = k \<Longrightarrow> w = v"
  by (auto simp: put_key_def image_iff split: if_splits)

text \<open>The responses of a patched operation, by status.\<close>

lemma patch_responses_spec:
  "map_of (patch_responses ps r) status =
     (if status = ''422'' \<and> map_of r ''422'' \<noteq> None then Some (error_response_entry ''Validation Error'')
      else if map_of r status \<noteq> None then map_of r status
      else if status = ''500'' then Some (error_response_entry ''Internal Server Error'')
      else if Some ''Authorization'' \<in> set ps \<and> status = ''401'' then Some (error_response_entry ''Unauthorized'')
      else if Some ''Authorization'' \<in> set ps \<and> status = ''403'' then Some (error_response_entry ''Forbidden'')
      else None)"
  unfolding patch_responses_def Let_def key_iff
  by (cases "status = ''422''"; cases "status = ''500''"; cases "status = ''401''"; cases "status = ''403''")
     (simp_all add: map_of_put_key map_of_set_default)

lemma set_default_noop: "k \<in> fst ` set d \<Longrightarrow> set_default k v d = d"
  by (simp add: set_default_def)

lemma set_default_keys: "fst ` set (set_default k v d) = insert k (fst ` set d)"
  by (auto simp: set_default_def)

lemma put_key_keys: "fst ` set (put_key k v d) = insert k (fst ` set d)"
  by (auto simp: put_key_def image_iff split: prod.splits) force+

lemma set_default_other: "(x, w) \<in> set (set_default k v d) \<Longrightarrow> x \<noteq> k \<Longrightarrow> (x, w) \<in> set d"
  by (auto simp: set_default_def split: if_splits)

lemma patch_responses_idem: "patch_responses ps (patch_responses ps r) = patch_responses ps r"
proof -
  let ?e = "error_response_entry ''Validation Error''"
  let ?r' = "patch_responses ps r"
  have keys: "''500'' \<in> fst ` set ?r'" "Some ''Authorization'' \<in> set ps \<Longrightarrow> {''401'', ''403''} \<subseteq> fst ` set ?r'"
    by (auto simp: patch_responses_def Let_def set_default_keys)
  have "put_key ''422'' ?e ?r' = ?r'" if k: "''422'' \<in> fst ` set ?r'"
  proof (rule put_key_same[OF k])
    fix w
    assume w: "(''422'', w) \<in> set ?r'"
    have "''422'' \<in> fst ` set r" using k by (auto simp: key_iff patch_responses_spec split: if_splits)
    with w have "(''422'', w) \<in> set (put_key ''422'' ?e r)"
      by (auto simp: patch_responses_def Let_def split: if_splits dest!: set_default_other)
    then show "w = ?e" by (rule put_key_set) simp
  qed
  with keys show ?thesis
    by (subst patch_responses_def) (simp add: Let_def set_default_noop)
qed

lemma patch_operation_idem: "patch_operation (patch_operation op) = patch_operation op"
  by (simp add: patch_operation_def patch_responses_idem)

lemma operation_present_patch: "operation_present (patch_operation op)"
  by (simp add: operation_present_def patch_operation_def)

definition patched_if :: "bool \<Rightarrow> operation \<Rightarrow> operation" where
  "patched_if b op = (if b \<and> operation_present op then patch_operation op else op)"

lemma patched_if_twice: "patched_if b (patched_if c op) = patched_if (b \<or> c) op"
  by (auto simp: patched_if_def operation_present_patch patch_operation_idem)

lemma patched_if_False [simp]: "patched_if False = id"
  by (simp add: patched_if_def fun_eq_iff)

lemma map_of_patch_method:
  "map_of (patch_method item meth) m = map_option (patched_if (m = py_lower meth)) (map_of item m)"
proof (cases "m = py_lower meth")
  case True
  then show ?thesis by (auto simp: patch_method_def patched_if_def map_of_put_key split: option.split)
next
  case False
  then show ?thesis by (auto simp: patch_method_def map_of_put_key option.map_id split: option.split)
qed

lemma map_of_patch_methods:
  "map_of (foldl patch_method item methods) m = map_option (patched_if (m \<in> py_lower ` set methods)) (map_of item m)"
proof (induction methods arbitrary: item)
  case (Cons meth methods)
  then show ?case
    by (cases "map_of item m") (auto simp: map_of_patch_method patched_if_twice intro: arg_cong[where f = "\<lambda>b. patched_if b _"])
qed (simp add: option.map_id)

text \<open>The operation of a path and method, and whether a route serves it.\<close>

definition operation_at :: "(string \<times> (string \<times> operation) list) list \<Rightarrow> string \<Rightarrow> string \<Rightarrow> operation option" where
  "operation_at paths p m = (case map_of paths p of None \<Rightarrow> None | Some item \<Rightarrow> map_of item m)"

fun route_serves :: "string \<Rightarrow> string \<Rightarrow> app_route \<Rightarrow> bool" where
  "route_serves p m Other_route = False"
| "route_serves p m (Api_route path methods) = (path = p \<and> m \<in> py_lower ` set methods)"

lemma operation_at_patch_route:
  "operation_at (patch_route r paths) p m = map_option (patched_if (route_serves p m r)) (operation_at paths p m)"
proof (cases r)
  case (Api_route path methods)
  show ?thesis
  proof (cases "map_of paths path")
    case None
    then show ?thesis by (cases "path = p") (auto simp: Api_route operation_at_def option.map_id split: option.split)
  next
    case (Some item)
    then show ?thesis
      by (cases "item = []"; cases "path = p") (auto simp: Api_route operation_at_def option.map_id map_of_put_key map_of_patch_methods split: option.split)
  qed
qed (simp add: option.map_id)

lemma operation_at_patch_routes:
  "operation_at (foldl (\<lambda>paths r. patch_route r paths) paths routes) p m
     = map_option (patched_if (list_ex (route_serves p m) routes)) (operation_at paths p m)"
proof (induction routes arbitrary: paths)
  case (Cons r routes)
  then show ?case
    by (cases "operation_at paths p m") (simp_all add: operation_at_patch_route patched_if_twice disj_commute)
qed (simp add: option.map_id)

text \<open>The first call patches every operation a route of the application serves and no other, adds the error model, and
  stores the description; every later call returns the same description and changes nothing.\<close>

lemma openapi_errors:
  assumes "ap_openapi_schema app = None" "custom_openapi get_openapi error_schema app = (schema, app')"
  shows "operation_at (oa_paths schema) p m
        = map_option (patched_if (list_ex (route_serves p m) (ap_routes app))) (operation_at (oa_paths (get_openapi (ap_routes app))) p m)
     \<and> (\<exists>schemas. map_of (oa_components schema) ''schemas'' = Some schemas \<and> map_of schemas ''ApiErrorResponse'' = Some (json_dict error_schema))
     \<and> custom_openapi g e app' = (schema, app')"
  using assms by (auto simp: custom_openapi_def Let_def operation_at_patch_routes map_of_put_key)

end
