(* ===== verification/CacheKeys.thy ===== *)
theory CacheKeys
  imports Session Transport PermissionRegistry
begin

text \<open>
  Keys in Redis and session tokens: what \<^verbatim>\<open>app/platform/cache/keys.py\<close> has besides the keys of the session, transport and
  permission components, and \<^verbatim>\<open>app/core/security/token.py\<close>.
\<close>

section \<open>keys.py\<close>

definition login_failure_account_key :: "string \<Rightarrow> string \<Rightarrow> string" where
  "login_failure_account_key account_type account = ''login:failure:account:'' @ account_type @ '':'' @ account"

definition login_failure_ip_key :: "string \<Rightarrow> string \<Rightarrow> string" where
  "login_failure_ip_key account_type ip = ''login:failure:ip:'' @ account_type @ '':'' @ ip"

definition login_lock_account_key :: "string \<Rightarrow> string \<Rightarrow> string" where
  "login_lock_account_key account_type account = ''login:lock:account:'' @ account_type @ '':'' @ account"

definition login_lock_ip_key :: "string \<Rightarrow> string \<Rightarrow> string" where
  "login_lock_ip_key account_type ip = ''login:lock:ip:'' @ account_type @ '':'' @ ip"

definition password_reset_token_key :: "string \<Rightarrow> string" where
  "password_reset_token_key token = ''password:reset:'' @ token"

definition banner_interaction_delta_key :: string where
  "banner_interaction_delta_key = ''banner:interaction:deltas''"

section \<open>token.py\<close>

text \<open>\<^verbatim>\<open>secrets.token_urlsafe(32)\<close> for 32 random bytes: base64 with - and _ for + and /, without padding.\<close>

definition urlsafe_char :: "char \<Rightarrow> char" where
  "urlsafe_char c = (if c = CHR ''+'' then CHR ''-'' else if c = CHR ''/'' then CHR ''_'' else c)"

definition generate_token :: "bytes \<Rightarrow> string" where
  "generate_token random = rstrip_by (\<lambda>c. c = CHR ''='') (map urlsafe_char (b64encode random))"

section \<open>Facts\<close>

lemma b64encode_two_over:
  "length bs mod 3 = 2 \<Longrightarrow> \<forall>b\<in>set bs. b < 256 \<Longrightarrow>
     \<exists>core. b64encode bs = core @ ''='' \<and> set core \<subseteq> set b64_alphabet \<and> length core = 4 * (length bs div 3) + 3"
proof (induction bs rule: b64encode.induct)
  case (3 a b)
  then have "{a div 4, a mod 4 * 16 + b div 16, b mod 16 * 4} \<subseteq> {..<64}" using sextets[of a b] sextets(3)[of b b] by auto
  then show ?case by (auto simp: b64_char_def b64_alphabet_facts intro!: nth_mem)
next
  case (4 a b c rest)
  then obtain core where core: "b64encode rest = core @ ''=''" "set core \<subseteq> set b64_alphabet" "length core = 4 * (length rest div 3) + 3"
    by auto
  have "{a div 4, a mod 4 * 16 + b div 16, b mod 16 * 4 + c div 64, c mod 64} \<subseteq> {..<64}"
    using 4(3) sextets[of a b] sextets(5)[of b c] by auto
  then have "set [b64_char (a div 4), b64_char (a mod 4 * 16 + b div 16), b64_char (b mod 16 * 4 + c div 64), b64_char (c mod 64)]
      \<subseteq> set b64_alphabet"
    by (auto simp: b64_char_def b64_alphabet_facts intro!: nth_mem)
  with core show ?case
    by (intro exI[of _ "[b64_char (a div 4), b64_char (a mod 4 * 16 + b div 16), b64_char (b mod 16 * 4 + c div 64), b64_char (c mod 64)] @ core"])
       auto
qed simp_all

lemma urlsafe_inj: "inj_on urlsafe_char (set b64_alphabet)"
  by (simp add: b64_alphabet_def urlsafe_char_def inj_on_def)

lemma urlsafe_not_pad: "c \<in> set b64_alphabet \<Longrightarrow> urlsafe_char c \<noteq> CHR ''='' \<and> urlsafe_char c \<noteq> CHR '':''"
  by (auto simp: b64_alphabet_def urlsafe_char_def)

text \<open>A token of 32 bytes: the characters, and different bytes give different tokens.\<close>

lemma generate_token_core:
  assumes "length bs = 32" "\<forall>b\<in>set bs. b < 256"
  shows "\<exists>core. b64encode bs = core @ ''='' \<and> generate_token bs = map urlsafe_char core \<and> set core \<subseteq> set b64_alphabet \<and> length core = 43"
proof -
  obtain core where c: "b64encode bs = core @ ''=''" "set core \<subseteq> set b64_alphabet" "length core = 43"
    using b64encode_two_over[of bs] assms by auto
  have "rstrip_by (\<lambda>c. c = CHR ''='') (map urlsafe_char core @ ''='') = map urlsafe_char core"
  proof -
    have ne: "core \<noteq> []" using c(3) by auto
    then have "last core \<in> set b64_alphabet" using c(2) by (metis last_in_set subsetD)
    then have "urlsafe_char (last core) \<noteq> CHR ''=''" using urlsafe_not_pad by blast
    then have "map urlsafe_char core = map urlsafe_char (butlast core) @ [urlsafe_char (last core)]"
      using ne by (metis append_butlast_last_id list.simps(8) list.simps(9) map_append)
    with \<open>urlsafe_char (last core) \<noteq> CHR ''=''\<close> show ?thesis by (simp add: rstrip_by_snoc) (simp add: rstrip_by_def)
  qed
  moreover have "urlsafe_char CHR ''='' = CHR ''=''" by (simp add: urlsafe_char_def)
  ultimately show ?thesis using c by (auto simp: generate_token_def)
qed

lemma generate_token_distinct:
  assumes "length a = 32" "length b = 32" "\<forall>x\<in>set a. x < 256" "\<forall>x\<in>set b. x < 256" "generate_token a = generate_token b"
  shows "a = b"
proof -
  obtain ca cb where c: "b64encode a = ca @ ''=''" "generate_token a = map urlsafe_char ca" "set ca \<subseteq> set b64_alphabet"
    "b64encode b = cb @ ''=''" "generate_token b = map urlsafe_char cb" "set cb \<subseteq> set b64_alphabet"
    using generate_token_core[OF assms(1,3)] generate_token_core[OF assms(2,4)] by blast
  have "inj_on urlsafe_char (set ca \<union> set cb)" using urlsafe_inj c(3,6) by (meson Un_least inj_on_subset)
  then have "ca = cb" using assms(5) c(2,5) by (metis map_inj_on)
  then have "b64decode (b64encode a) = b64decode (b64encode b)" using c(1,4) by simp
  then show ?thesis using b64decode_encode assms(3,4) by simp
qed

text \<open>The families of keys do not overlap: a token is never an account's index, a failure counter or a lock, and so on.\<close>

lemma key_families_disjoint:
  "login_token_key t \<noteq> login_account_tokens_key a i" "login_token_key t \<noteq> login_tokens_key"
  "login_token_key t \<noteq> login_failure_account_key a x" "login_token_key t \<noteq> login_failure_ip_key a x"
  "login_token_key t \<noteq> login_lock_account_key a x" "login_token_key t \<noteq> login_lock_ip_key a x"
  "login_failure_account_key a x \<noteq> login_failure_ip_key b y" "login_lock_account_key a x \<noteq> login_lock_ip_key b y"
  "login_failure_account_key a x \<noteq> login_lock_account_key b y" "login_failure_ip_key a x \<noteq> login_lock_ip_key b y"
  "captcha_key c \<noteq> password_crypto_key k" "password_crypto_key k \<noteq> password_reset_token_key r"
  "login_token_key t \<noteq> captcha_key c" "permission_resource_cache_key \<noteq> permission_resource_method_cache_key"
  by (simp_all add: login_token_key_def login_account_tokens_key_def login_tokens_key_def login_failure_account_key_def
      login_failure_ip_key_def login_lock_account_key_def login_lock_ip_key_def captcha_key_def password_crypto_key_def
      password_reset_token_key_def permission_resource_cache_key_def permission_resource_method_cache_key_def)

text \<open>Within a family of two parts the key determines both, as long as the account type has no colon.\<close>

lemma failure_key_parts:
  assumes "CHR '':'' \<notin> set a" "CHR '':'' \<notin> set b" "login_failure_account_key a x = login_failure_account_key b y"
  shows "a = b \<and> x = y"
proof -
  have eq: "a @ CHR '':'' # x = b @ CHR '':'' # y" using assms(3) by (simp add: login_failure_account_key_def)
  have tw: "takeWhile (\<lambda>c. c \<noteq> CHR '':'') (p @ CHR '':'' # q) = p" if "CHR '':'' \<notin> set p" for p q
    using that by (subst takeWhile_append2) auto
  have "a = b" using arg_cong[OF eq, of "takeWhile (\<lambda>c. c \<noteq> CHR '':'')"] tw[OF assms(1)] tw[OF assms(2)] by simp
  with eq show ?thesis by simp
qed

end
