(* ===== verification/Mail.thy ===== *)
theory Mail
  imports Errors
begin

text \<open>
  Sending mail: \<^verbatim>\<open>app/platform/email/sender.py\<close>. The SMTP server is an argument, which answers every call depending on all
  calls so far; \<open>header_error\<close> is the rest of what the header parser of \<^verbatim>\<open>email\<close> refuses, besides line breaks.
\<close>

record mail_message =
  mm_from :: string
  mm_to :: string
  mm_subject :: string
  mm_body :: string

datatype smtp_call =
    Smtp_connect string int rat
  | Smtp_starttls
  | Smtp_login string string
  | Smtp_send mail_message
  | Smtp_quit

text \<open>What a call raises: an \<^verbatim>\<open>OSError\<close>, an \<^verbatim>\<open>SMTPException\<close>, or something else.\<close>

datatype smtp_error = Smtp_os_error | Smtp_exception | Smtp_other exn

type_synonym smtp_server = "smtp_call list \<Rightarrow> smtp_error option"

definition smtp :: "smtp_server \<Rightarrow> smtp_call \<Rightarrow> smtp_call list \<Rightarrow> smtp_error option \<times> smtp_call list" where
  "smtp server call sent = (server (sent @ [call]), sent @ [call])"

text \<open>Calls one after the other, up to the first that raises.\<close>

fun smtp_calls :: "smtp_server \<Rightarrow> smtp_call list \<Rightarrow> smtp_call list \<Rightarrow> smtp_error option \<times> smtp_call list" where
  "smtp_calls server [] sent = (None, sent)"
| "smtp_calls server (c # cs) sent =
     (case smtp server c sent of
        (Some e, sent') \<Rightarrow> (Some e, sent')
      | (None, sent') \<Rightarrow> smtp_calls server cs sent')"

text \<open>\<^verbatim>\<open>_login\<close>: nothing without a user name.\<close>

definition login_calls :: "mail_settings \<Rightarrow> smtp_call list" where
  "login_calls mail = (if ma_username mail \<noteq> [] then [Smtp_login (ma_username mail) (ma_password mail)] else [])"

text \<open>The body of the \<^verbatim>\<open>with\<close> statement, and its end, which says QUIT; an error of the end replaces that of the body.\<close>

definition send_calls :: "mail_settings \<Rightarrow> mail_message \<Rightarrow> smtp_call list" where
  "send_calls mail message = (if ma_use_tls mail then [Smtp_starttls] else []) @ login_calls mail @ [Smtp_send message]"

definition send_sync :: "smtp_server \<Rightarrow> mail_settings \<Rightarrow> mail_message \<Rightarrow> smtp_call list \<Rightarrow> unit web \<times> smtp_call list" where
  "send_sync server mail message sent =
     (case smtp server (Smtp_connect (ma_host mail) (ma_port mail) (ma_timeout_seconds mail)) sent of
        (outcome, sent2) \<Rightarrow>
      case (case outcome of
              Some e \<Rightarrow> (Some e, sent2)
            | None \<Rightarrow>
                (case smtp_calls server (send_calls mail message) sent2 of
                   (raised, sent3) \<Rightarrow>
                 case smtp server Smtp_quit sent3 of
                   (Some e, sent4) \<Rightarrow> (Some e, sent4)
                 | (None, sent4) \<Rightarrow> (raised, sent4))) of
        (None, sent5) \<Rightarrow> (Inr (), sent5)
      | (Some (Smtp_other e), sent5) \<Rightarrow> (Inl (Unexpected e), sent5)
      | (Some Smtp_os_error, sent5) \<Rightarrow> (Inl (App (BusinessError (asc ''Failed to send email''))), sent5)
      | (Some Smtp_exception, sent5) \<Rightarrow> (Inl (App (BusinessError (asc ''Failed to send email''))), sent5))"

definition check_header :: "(string \<Rightarrow> string \<Rightarrow> exn option) \<Rightarrow> string \<Rightarrow> string \<Rightarrow> unit web" where
  "check_header header_error name val =
     (if CHR 0x0A \<in> set val \<or> CHR 0x0D \<in> set val
      then Inl (Unexpected (ValueError (asc ''Header values may not contain linefeed or carriage return characters'')))
      else case header_error name val of None \<Rightarrow> Inr () | Some e \<Rightarrow> Inl (Unexpected e))"

definition send_mail ::
  "smtp_server \<Rightarrow> (string \<Rightarrow> string \<Rightarrow> exn option) \<Rightarrow> mail_settings \<Rightarrow> string \<Rightarrow> string \<Rightarrow> string \<Rightarrow> smtp_call list
     \<Rightarrow> unit web \<times> smtp_call list" where
  "send_mail server header_error mail to_email subject body sent =
     (if ma_host mail = [] \<or> ma_from_email mail = [] then (Inl (App (BusinessError (asc ''Mail service is not configured''))), sent)
      else
        let from_value = ma_from_name mail @ '' <'' @ ma_from_email mail @ ''>''
        in case check_header header_error ''From'' from_value of
             Inl e \<Rightarrow> (Inl e, sent)
           | Inr _ \<Rightarrow>
          (case check_header header_error ''To'' to_email of
             Inl e \<Rightarrow> (Inl e, sent)
           | Inr _ \<Rightarrow>
          (case check_header header_error ''Subject'' subject of
             Inl e \<Rightarrow> (Inl e, sent)
           | Inr _ \<Rightarrow>
               send_sync server mail \<lparr>mm_from = from_value, mm_to = to_email, mm_subject = subject, mm_body = body\<rparr> sent)))"

section \<open>Facts\<close>

lemma smtp_calls_log:
  "\<exists>done. prefix done cs \<and> snd (smtp_calls server cs sent) = sent @ done
     \<and> (fst (smtp_calls server cs sent) = None \<longrightarrow> done = cs)
     \<and> (\<forall>k<length done. Suc k < length done \<or> fst (smtp_calls server cs sent) = None \<longrightarrow> server (sent @ take (Suc k) done) = None)"
proof (induction cs arbitrary: sent)
  case (Cons c cs)
  show ?case
  proof (cases "server (sent @ [c])")
    case None
    from Cons[of "sent @ [c]"] obtain d where d: "prefix d cs" "snd (smtp_calls server cs (sent @ [c])) = sent @ c # d"
      "fst (smtp_calls server cs (sent @ [c])) = None \<longrightarrow> d = cs"
      "\<forall>k<length d. Suc k < length d \<or> fst (smtp_calls server cs (sent @ [c])) = None \<longrightarrow> server (sent @ c # take (Suc k) d) = None"
      by auto
    have "server (sent @ take (Suc k) (c # d)) = None"
      if "k < length (c # d)" "Suc k < length (c # d) \<or> fst (smtp_calls server cs (sent @ [c])) = None" for k
      using that None d(4) by (cases k) auto
    with None d show ?thesis by (intro exI[of _ "c # d"]) (simp add: smtp_def)
  next
    case (Some e)
    then show ?thesis by (intro exI[of _ "[c]"]) (simp add: smtp_def)
  qed
qed simp

text \<open>With TLS switched on, credentials and messages go out only after the server has accepted STARTTLS; every
  connection that was opened is ended with QUIT; and a failure of the network or the protocol is a business error.\<close>

lemma mail_after_tls:
  assumes "ma_use_tls mail" "snd (send_sync server mail message []) = pre @ c # post"
    and "c \<in> {Smtp_login (ma_username mail) (ma_password mail), Smtp_send message}"
  shows "\<exists>conn. conn @ [Smtp_starttls] = take 2 pre \<and> server (conn @ [Smtp_starttls]) = None"
proof -
  let ?conn = "Smtp_connect (ma_host mail) (ma_port mail) (ma_timeout_seconds mail)"
  obtain d where d: "prefix d (send_calls mail message)"
      "snd (smtp_calls server (send_calls mail message) [?conn]) = ?conn # d"
      "\<forall>k<length d. Suc k < length d \<or> fst (smtp_calls server (send_calls mail message) [?conn]) = None \<longrightarrow> server (?conn # take (Suc k) d) = None"
    using smtp_calls_log[of "send_calls mail message" server "[?conn]"] by auto
  have sent: "snd (send_sync server mail message []) = (if server [?conn] = None then ?conn # d @ [Smtp_quit] else [?conn])"
    using d(2) by (auto simp: send_sync_def smtp_def split: option.splits prod.splits smtp_error.splits)
  have "server [?conn] = None" using sent assms(2,3) by (auto simp: Cons_eq_append_conv append_eq_Cons_conv split: if_splits)
  with sent assms(2) have l: "?conn # d @ [Smtp_quit] = pre @ c # post" by simp
  have c: "c \<noteq> ?conn" "c \<noteq> Smtp_quit" "c \<noteq> Smtp_starttls" using assms(3) by auto
  from l c(1) obtain pre' where p: "pre = ?conn # pre'" "d @ [Smtp_quit] = pre' @ c # post" by (auto simp: Cons_eq_append_conv)
  have "\<exists>post'. d = pre' @ c # post'"
  proof -
    have "post \<noteq> []" using p(2) c(2) by (auto dest: arg_cong[where f = last])
    then have "d = pre' @ c # butlast post" using p(2) by (metis append_butlast_last_id append_Cons append_assoc butlast_append butlast_snoc list.simps(3) butlast.simps(2))
    then show ?thesis by blast
  qed
  then obtain post' where d': "d = pre' @ c # post'" by blast
  have "send_calls mail message = Smtp_starttls # login_calls mail @ [Smtp_send message]" using assms(1) by (simp add: send_calls_def)
  with d(1) d' c(3) obtain pre'' where "pre' = Smtp_starttls # pre''" by (cases pre') auto
  with d(3) d' p(1) show ?thesis by (intro exI[of _ "[?conn]"]) force
qed

lemma send_sync_errors:
  "fst (send_sync server mail message sent) \<in> {Inr (), Inl (App (BusinessError (asc ''Failed to send email'')))} \<union> range (\<lambda>e. Inl (Unexpected e))"
  by (auto simp: send_sync_def split: prod.splits option.splits smtp_error.splits)

lemma mail_not_configured:
  "ma_host mail = [] \<or> ma_from_email mail = [] \<Longrightarrow>
     send_mail server he mail to_email subject body sent = (Inl (App (BusinessError (asc ''Mail service is not configured''))), sent)"
  by (auto simp: send_mail_def)

end
