(* ===== verification/AppFactory.thy ===== *)
theory AppFactory
  imports HttpPipeline Logging Openapi ModuleSystem
begin

text \<open>
  The construction of the application: \<^verbatim>\<open>create_app\<close> of \<^verbatim>\<open>app/factory.py\<close>, \<^verbatim>\<open>app/middleware/cors.py\<close>, the router of
  \<^verbatim>\<open>app/api/router.py\<close> and the root endpoint. The FastAPI object is the record of what it is given; what it does with it is
  in theory HttpPipeline.
\<close>

datatype middleware_kind =
    Trace_middleware
  | Security_headers_middleware
  | Access_log_middleware
  | Operation_audit_middleware
  | Rate_limit_middleware
  | Auth_context_middleware
  | Cors_middleware "string list" bool "string list" "string list"

record 'v fastapi_app =
  fa_title :: string
  fa_debug :: bool
  fa_docs_url :: "string option"
  fa_redoc_url :: "string option"
  fa_openapi_url :: "string option"
  fa_middleware :: "middleware_kind list"
  fa_error_handlers :: bool
  fa_custom_openapi :: bool
  fa_tracing :: "trace_action list"
  fa_paths :: "string list"
  fa_routers :: "('v \<times> string \<times> string list) list"

definition add_cors :: "cors_settings \<Rightarrow> 'v fastapi_app \<Rightarrow> 'v fastapi_app" where
  "add_cors cors app =
     app\<lparr>fa_middleware := fa_middleware app @
       [Cors_middleware (co_allow_origins cors) (co_allow_credentials cors) (co_allow_methods cors) (co_allow_headers cors)]\<rparr>"

text \<open>What importing \<^verbatim>\<open>app.api.router\<close> builds; the module keeps the router, and \<^verbatim>\<open>load_module_specs\<close> its cache.\<close>

definition get_api_router ::
  "importer \<Rightarrow> (string \<Rightarrow> string option) \<Rightarrow> (string \<Rightarrow> 'v res) \<Rightarrow> ('v \<Rightarrow> bool) \<Rightarrow> (string list \<rightharpoonup> module_spec list)
     \<Rightarrow> ('v \<times> string \<times> string list) list res \<times> (string list \<rightharpoonup> module_spec list)" where
  "get_api_router im environ import_path as_router cache =
     (case load_module_specs im environ ''app.modules'' cache of
        (Inl e, cache') \<Rightarrow> (Inl e, cache')
      | (Inr specs, cache') \<Rightarrow> (build_api_router import_path as_router specs, cache'))"

text \<open>The state of the process the construction touches.\<close>

record 'v process =
  pc_logger :: root_logger
  pc_specs :: "string list \<rightharpoonup> module_spec list"
  pc_services :: "'v registry"
  pc_tracing_initialized :: bool

definition new_fastapi :: "settings \<Rightarrow> 'v fastapi_app" where
  "new_fastapi st =
     (let on = sw_enabled (st_swagger st)
      in \<lparr>fa_title = app_name (st_app st), fa_debug = False,
          fa_docs_url = (if on then Some ''/docs'' else None), fa_redoc_url = (if on then Some ''/redoc'' else None),
          fa_openapi_url = (if on then Some ''/openapi.json'' else None), fa_middleware = [], fa_error_handlers = False,
          fa_custom_openapi = False, fa_tracing = [], fa_paths = [], fa_routers = []\<rparr>)"

definition create_app ::
  "settings \<Rightarrow> string \<Rightarrow> bool \<Rightarrow> importer \<Rightarrow> (string \<Rightarrow> string option) \<Rightarrow> (string \<Rightarrow> 'v res) \<Rightarrow> ('v \<Rightarrow> bool) \<Rightarrow> 'v process
     \<Rightarrow> 'v fastapi_app res \<times> 'v process" where
  "create_app st cwd has_packages im environ import_path as_router p =
     (let p1 = p\<lparr>pc_logger := setup_logging (st_observability st) cwd (pc_logger p)\<rparr>
      in case get_api_router im environ import_path as_router (pc_specs p1) of
           (Inl e, cache) \<Rightarrow> (Inl e, p1\<lparr>pc_specs := cache\<rparr>)
         | (Inr routers, cache) \<Rightarrow>
       (case load_module_specs im environ ''app.modules'' cache of
           (Inl e, cache2) \<Rightarrow> (Inl e, p1\<lparr>pc_specs := cache2\<rparr>)
         | (Inr specs, cache2) \<Rightarrow>
       (case register_services import_path specs (pc_services p1) of
           (Inl e, reg) \<Rightarrow> (Inl e, p1\<lparr>pc_specs := cache2, pc_services := reg\<rparr>)
         | (Inr _, reg) \<Rightarrow>
             let app1 = add_cors (st_cors st) ((new_fastapi st)\<lparr>fa_middleware :=
                   [Trace_middleware, Security_headers_middleware, Access_log_middleware, Operation_audit_middleware,
                    Rate_limit_middleware, Auth_context_middleware]\<rparr>);
                 app2 = app1\<lparr>fa_error_handlers := True, fa_custom_openapi := True\<rparr>
             in case setup_observability (st_observability st) has_packages (pc_tracing_initialized p1) of
                  (initialized, actions, paths) \<Rightarrow>
                    (Inr (app2\<lparr>fa_tracing := actions, fa_paths := paths @ [''/''], fa_routers := routers\<rparr>),
                     p1\<lparr>pc_specs := cache2, pc_services := reg, pc_tracing_initialized := initialized\<rparr>))))"

record health_response =
  hl_status :: string
  hl_service :: string

definition root_endpoint :: "settings \<Rightarrow> health_response" where
  "root_endpoint st = \<lparr>hl_status = ''ok'', hl_service = app_name (st_app st)\<rparr>"

section \<open>Facts\<close>

text \<open>The middleware a created application has is that of the pipeline, in the same order.\<close>

fun middleware_of :: "'a http_env \<Rightarrow> (string list \<Rightarrow> bool \<Rightarrow> string list \<Rightarrow> string list \<Rightarrow> http_app \<Rightarrow> http_app) \<Rightarrow> middleware_kind \<Rightarrow> http_app \<Rightarrow> http_app" where
  "middleware_of env cors Trace_middleware = trace_dispatch env"
| "middleware_of env cors Security_headers_middleware = security_headers_dispatch env"
| "middleware_of env cors Access_log_middleware = access_log_dispatch env"
| "middleware_of env cors Operation_audit_middleware = operation_audit_dispatch env"
| "middleware_of env cors Rate_limit_middleware = rate_limit_middleware env"
| "middleware_of env cors Auth_context_middleware = auth_context_dispatch env"
| "middleware_of env cors (Cors_middleware origins creds methods headers) = cors origins creds methods headers"

lemma created_app:
  assumes "create_app st cwd hp im environ import_path as_router p = (Inr app, p')"
  shows "map (middleware_of env cors) (fa_middleware app)
        = app_middleware env (cors (co_allow_origins (st_cors st)) (co_allow_credentials (st_cors st))
            (co_allow_methods (st_cors st)) (co_allow_headers (st_cors st)))"
    "fa_error_handlers app" "fa_custom_openapi app" "''/'' \<in> set (fa_paths app)"
    "sw_enabled (st_swagger st) \<longleftrightarrow> fa_docs_url app = Some ''/docs''"
    "\<not> sw_enabled (st_swagger st) \<longleftrightarrow> {fa_docs_url app, fa_redoc_url app, fa_openapi_url app} = {None}"
  using assms
  by (auto simp: create_app_def Let_def add_cors_def new_fastapi_def app_middleware_def split: prod.splits sum.splits if_splits)

text \<open>The second call of \<^verbatim>\<open>load_module_specs\<close> is answered by the cache: the services that are registered are those of the modules
  whose routers were included.\<close>

lemma load_module_specs_cached:
  assumes "load_module_specs im environ pkg cache = (Inr specs, cache')"
  shows "load_module_specs im environ pkg cache' = (Inr specs, cache')"
  using assms by (auto simp: load_module_specs_def Let_def split: option.splits sum.splits)

lemma created_app_consistent:
  assumes "create_app st cwd hp im environ import_path as_router p = (Inr app, p')"
  shows "\<exists>specs. build_api_router import_path as_router specs = Inr (fa_routers app)
     \<and> register_services import_path specs (pc_services p) = (Inr (), pc_services p')"
proof -
  obtain specs cache routers where s: "load_module_specs im environ ''app.modules'' (pc_specs p) = (Inr specs, cache)"
      "build_api_router import_path as_router specs = Inr routers"
    and a: "create_app st cwd hp im environ import_path as_router p = (Inr app, p')"
    using assms by (auto simp: create_app_def get_api_router_def Let_def split: prod.splits sum.splits)
  with load_module_specs_cached[OF s(1)] show ?thesis
    by (auto simp: create_app_def get_api_router_def Let_def add_cors_def split: prod.splits sum.splits)
qed

end
