(* ===== verification/CacheLocks.thy ===== *)
theory CacheLocks
  imports FileCache
begin

text \<open>
  The locks of the test data cache: \<^verbatim>\<open>_key_lock\<close>, \<^verbatim>\<open>_try_key_lock\<close> and where the operations of
  \<^verbatim>\<open>app/modules/judge/file_cache.py\<close> take them, for threads that run operations at the same time.

  An operation is the sequence of its steps that matter here: looking up the lock of a key, taking it, working on the
  entry, trying the lock of an entry to remove, and releasing. Each step is atomic: the table of the locks has a lock of its own. An
  exception leaves the \<^verbatim>\<open>with\<close> blocks, which release what they hold, innermost first. What the work does is in theory FileCache.
\<close>

section \<open>Operations\<close>

type_synonym ckey = string

datatype lock_step =
    Acquire_lock nat ckey
  | Work ckey
  | Try_remove ckey
  | Remove ckey
  | Release nat ckey

text \<open>
  \<open>Resolve k None\<close> answers without storing; \<open>Resolve k (Some es)\<close> stores the entry, and the eviction that follows looks at
  the entries \<open>es\<close>, after storing but still under the lock of \<open>k\<close>. Storing takes the lock again.
\<close>

datatype cache_call = Resolve ckey "ckey list option" | Invalidate ckey | Purge "ckey list"

text \<open>\<open>With k\<close> is the block of \<^verbatim>\<open>with _key_lock(k)\<close>.\<close>

datatype block = Step lock_step | With ckey "block list"

fun call_blocks :: "cache_call \<Rightarrow> block list" where
  "call_blocks (Resolve k None) = [With k [Step (Work k)]]"
| "call_blocks (Resolve k (Some es)) =
     [With k (Step (Work k) # With k [Step (Work k)] # map (\<lambda>e. Step (Try_remove e)) es)]"
| "call_blocks (Invalidate k) = [With k [Step (Remove k)]]"
| "call_blocks (Purge ks) = map (\<lambda>k. Step (Try_remove k)) ks"

section \<open>The machine\<close>

text \<open>A reentrant lock has an owner and a count. What a thread has left to do ends the blocks it is in with their release;
  \<open>Open k\<close> is the beginning of a block.\<close>

datatype todo = Do lock_step | Open ckey "block list"

fun todo_of :: "block \<Rightarrow> todo" where
  "todo_of (Step s) = Do s"
| "todo_of (With k bs) = Open k bs"

record lock_table =
  lt_ids :: "ckey \<rightharpoonup> nat"
  lt_next :: nat
  lt_owner :: "nat \<Rightarrow> (nat \<times> nat) option"
  lt_todo :: "nat \<Rightarrow> todo list"
  lt_held :: "nat \<Rightarrow> (nat \<times> ckey) list"

definition lock_init :: lock_table where
  "lock_init = \<lparr>lt_ids = Map.empty, lt_next = 0, lt_owner = (\<lambda>_. None), lt_todo = (\<lambda>_. []), lt_held = (\<lambda>_. [])\<rparr>"

definition set_todo :: "nat \<Rightarrow> todo list \<Rightarrow> lock_table \<Rightarrow> lock_table" where
  "set_todo t p s = s\<lparr>lt_todo := (lt_todo s)(t := p)\<rparr>"

text \<open>\<^verbatim>\<open>_key_lock\<close>: the lock of the key, made when there is none.\<close>

definition key_lock :: "ckey \<Rightarrow> lock_table \<Rightarrow> nat \<times> lock_table" where
  "key_lock k s =
     (case lt_ids s k of
        Some l \<Rightarrow> (l, s)
      | None \<Rightarrow> (lt_next s, s\<lparr>lt_ids := (lt_ids s)(k \<mapsto> lt_next s), lt_next := Suc (lt_next s)\<rparr>))"

text \<open>Taking a reentrant lock: possible when it is free or the thread's own.\<close>

definition acquire_lock :: "nat \<Rightarrow> nat \<Rightarrow> ckey \<Rightarrow> lock_table \<Rightarrow> lock_table option" where
  "acquire_lock t l k s =
     (case lt_owner s l of
        None \<Rightarrow> Some (s\<lparr>lt_owner := (lt_owner s)(l \<mapsto> (t, 1)), lt_held := (lt_held s)(t := (l, k) # lt_held s t)\<rparr>)
      | Some (u, n) \<Rightarrow>
          if u = t then Some (s\<lparr>lt_owner := (lt_owner s)(l \<mapsto> (t, n + 1)), lt_held := (lt_held s)(t := (l, k) # lt_held s t)\<rparr>) else None)"

definition release_lock :: "nat \<Rightarrow> nat \<Rightarrow> lock_table \<Rightarrow> lock_table" where
  "release_lock t l s =
     (case lt_owner s l of
        None \<Rightarrow> s
      | Some (u, n) \<Rightarrow> s\<lparr>lt_owner := (lt_owner s)(l := if n \<le> 1 then None else Some (u, n - 1)), lt_held := (lt_held s)(t := tl (lt_held s t))\<rparr>)"

datatype cache_action = Begin nat cache_call | Advance nat | Fail nat

fun lock_machine :: "cache_action \<Rightarrow> lock_table \<Rightarrow> lock_table option" where
  "lock_machine (Begin t c) s = (if lt_todo s t = [] then Some (set_todo t (map todo_of (call_blocks c)) s) else None)"
| "lock_machine (Fail t) s =
     (case lt_todo s t of
        Do (Work k) # rest \<Rightarrow> Some (set_todo t (map (\<lambda>(l, k). Do (Release l k)) (lt_held s t)) s)
      | _ \<Rightarrow> None)"
| "lock_machine (Advance t) s =
     (case lt_todo s t of
        [] \<Rightarrow> None
      | Open k bs # rest \<Rightarrow>
          (case key_lock k s of (l, s') \<Rightarrow> Some (set_todo t (Do (Acquire_lock l k) # map todo_of bs @ Do (Release l k) # rest) s'))
      | Do (Acquire_lock l k) # rest \<Rightarrow> map_option (set_todo t rest) (acquire_lock t l k s)
      | Do (Work k) # rest \<Rightarrow> Some (set_todo t rest s)
      | Do (Try_remove k) # rest \<Rightarrow>
          (case key_lock k s of (l, s1) \<Rightarrow>
             (case acquire_lock t l k s1 of
                None \<Rightarrow> Some (set_todo t rest s1)
              | Some s2 \<Rightarrow> Some (set_todo t (Do (Remove k) # Do (Release l k) # rest) s2)))
      | Do (Remove k) # rest \<Rightarrow> Some (set_todo t rest s)
      | Do (Release l k) # rest \<Rightarrow> Some (set_todo t rest (release_lock t l s)))"

inductive lock_reachable :: "lock_table \<Rightarrow> bool" where
  start: "lock_reachable lock_init"
| step: "lock_reachable s \<Longrightarrow> lock_machine a s = Some s' \<Longrightarrow> lock_reachable s'"

section \<open>Invariants\<close>

text \<open>Locks are numbered as they are made, one per key.\<close>

definition ids_inv :: "lock_table \<Rightarrow> bool" where
  "ids_inv s = ((\<forall>k l. lt_ids s k = Some l \<longrightarrow> l < lt_next s)
     \<and> (\<forall>j k l. lt_ids s j = Some l \<longrightarrow> lt_ids s k = Some l \<longrightarrow> j = k))"

text \<open>The owner of a lock is the thread in blocks of it, and the count is their number.\<close>

definition times_held :: "lock_table \<Rightarrow> nat \<Rightarrow> nat \<Rightarrow> nat" where
  "times_held s t l = count_list (map fst (lt_held s t)) l"

definition owner_ok :: "(nat \<times> nat) option \<Rightarrow> (nat \<Rightarrow> nat) \<Rightarrow> bool" where
  "owner_ok own count = (case own of None \<Rightarrow> \<forall>t. count t = 0 | Some (u, n) \<Rightarrow> 0 < n \<and> count u = n \<and> (\<forall>t. t \<noteq> u \<longrightarrow> count t = 0))"

definition owners_inv :: "lock_table \<Rightarrow> bool" where
  "owners_inv s = (\<forall>l. owner_ok (lt_owner s l) (\<lambda>t. times_held s t l))"

definition held_inv :: "lock_table \<Rightarrow> bool" where
  "held_inv s = (\<forall>t. \<forall>(l, k)\<in>set (lt_held s t). lt_ids s k = Some l)"

text \<open>
  What a thread has left to do fits the blocks it is in: it waits for a lock only when it holds no other, it works on an
  entry inside a block of it, and it leaves the blocks in order.
\<close>

fun block_wf :: "ckey option \<Rightarrow> block \<Rightarrow> bool" where
  "block_wf inside (Step (Work k)) = (inside = Some k)"
| "block_wf inside (Step (Remove k)) = (inside = Some k)"
| "block_wf inside (Step (Try_remove k)) = True"
| "block_wf inside (Step (Acquire_lock l k)) = False"
| "block_wf inside (Step (Release l k)) = False"
| "block_wf inside (With k bs) = ((inside = None \<or> inside = Some k) \<and> list_all (block_wf (Some k)) bs)"

fun todo_wf :: "(ckey \<rightharpoonup> nat) \<Rightarrow> (nat \<times> ckey) list \<Rightarrow> todo list \<Rightarrow> bool" where
  "todo_wf ids held [] = (held = [])"
| "todo_wf ids held (Open k bs # p) = (snd ` set held \<subseteq> {k} \<and> list_all (block_wf (Some k)) bs \<and> todo_wf ids held p)"
| "todo_wf ids held (Do (Acquire_lock l k) # p) = (ids k = Some l \<and> snd ` set held \<subseteq> {k} \<and> todo_wf ids ((l, k) # held) p)"
| "todo_wf ids held (Do (Work k) # p) = (k \<in> snd ` set held \<and> todo_wf ids held p)"
| "todo_wf ids held (Do (Remove k) # p) = (k \<in> snd ` set held \<and> todo_wf ids held p)"
| "todo_wf ids held (Do (Try_remove k) # p) = todo_wf ids held p"
| "todo_wf ids held (Do (Release l k) # p) = (held \<noteq> [] \<and> hd held = (l, k) \<and> todo_wf ids (tl held) p)"

definition locks_inv :: "lock_table \<Rightarrow> bool" where
  "locks_inv s = (ids_inv s \<and> owners_inv s \<and> held_inv s \<and> (\<forall>t. todo_wf (lt_ids s) (lt_held s t) (lt_todo s t)))"

lemma todo_wf_mono: "todo_wf ids held p \<Longrightarrow> ids \<subseteq>\<^sub>m ids' \<Longrightarrow> todo_wf ids' held p"
  by (induction ids held p rule: todo_wf.induct) (auto simp: map_le_def dom_def)

lemma todo_wf_blocks:
  "list_all (block_wf (Some k)) bs \<Longrightarrow> snd ` set held \<subseteq> {k} \<Longrightarrow> todo_wf ids held p
     \<Longrightarrow> todo_wf ids ((l, k) # held) (map todo_of bs @ Do (Release l k) # p)"
proof (induction bs)
  case (Cons b bs)
  then show ?case
  proof (cases b)
    case (Step x)
    with Cons show ?thesis by (cases x) auto
  qed auto
qed simp

lemma todo_wf_call: "todo_wf ids [] (map todo_of (call_blocks c))"
proof (cases c)
  case (Resolve k es)
  then show ?thesis by (cases es) (auto simp: list_all_iff)
next
  case (Purge ks)
  have "todo_wf ids [] (map todo_of (map (\<lambda>k. Step (Try_remove k)) ks))" by (induction ks) auto
  with Purge show ?thesis by simp
qed simp

lemma todo_wf_unwind: "todo_wf ids held (map (\<lambda>(l, k). Do (Release l k)) held)"
  by (induction held) auto

text \<open>Looking up a lock, and taking and giving back one.\<close>

lemma key_lock_spec:
  assumes "key_lock k s = (l, s')" "ids_inv s"
  shows "ids_inv s'" "lt_ids s \<subseteq>\<^sub>m lt_ids s'" "lt_ids s' k = Some l"
    "lt_owner s' = lt_owner s" "lt_held s' = lt_held s" "lt_todo s' = lt_todo s"
proof -
  have fresh: "lt_ids s j \<noteq> Some (lt_next s)" for j using assms(2) by (auto simp: ids_inv_def)
  show "ids_inv s'" "lt_ids s \<subseteq>\<^sub>m lt_ids s'" "lt_ids s' k = Some l"
    "lt_owner s' = lt_owner s" "lt_held s' = lt_held s" "lt_todo s' = lt_todo s"
    using assms fresh by (auto simp: key_lock_def ids_inv_def map_le_def less_Suc_eq split: option.splits if_splits)
qed

lemma owner_okD: "owner_ok own c \<Longrightarrow> 0 < c t \<Longrightarrow> own = Some (t, c t)"
proof -
  assume c: "owner_ok own c" "0 < c t"
  then obtain u n where own: "own = Some (u, n)" by (cases own) (auto simp: owner_ok_def)
  have "t = u" by (rule ccontr) (use c own in \<open>auto simp: owner_ok_def\<close>)
  with c own show ?thesis by (simp add: owner_ok_def)
qed

lemma owner_ok_take:
  "owner_ok own c \<Longrightarrow> own = None \<or> (\<exists>n. own = Some (t, n)) \<Longrightarrow> owner_ok (Some (t, c t + 1)) (c(t := c t + 1))"
  by (auto simp: owner_ok_def)

lemma owner_ok_give:
  assumes "owner_ok own c" "0 < c t"
  shows "owner_ok (if c t \<le> 1 then None else Some (t, c t - 1)) (c(t := c t - 1))"
  using owner_okD[OF assms] assms by (auto simp: owner_ok_def)

lemma acquire_lock_spec:
  assumes "acquire_lock t l k s = Some s'" "owners_inv s"
  shows "owners_inv s'" "lt_held s' = (lt_held s)(t := (l, k) # lt_held s t)" "lt_ids s' = lt_ids s" "lt_next s' = lt_next s"
    "lt_todo s' = lt_todo s"
proof -
  show f: "lt_held s' = (lt_held s)(t := (l, k) # lt_held s t)" "lt_ids s' = lt_ids s" "lt_next s' = lt_next s" "lt_todo s' = lt_todo s"
    using assms(1) by (auto simp: acquire_lock_def split: option.splits if_splits)
  have o: "owner_ok (lt_owner s x) (\<lambda>t. times_held s t x)" for x using assms(2) by (simp add: owners_inv_def)
  have free: "lt_owner s l = None \<or> (\<exists>n. lt_owner s l = Some (t, n))"
    using assms(1) by (auto simp: acquire_lock_def split: option.splits if_splits)
  have c: "(\<lambda>u. times_held s' u x) = (if x = l then (\<lambda>u. times_held s u l)(t := times_held s t l + 1) else (\<lambda>u. times_held s u x))" for x
    using f(1) by (auto simp: times_held_def fun_eq_iff)
  have w: "lt_owner s' x = (if x = l then Some (t, times_held s t l + 1) else lt_owner s x)" for x
    using assms(1) o[of l] by (auto simp: acquire_lock_def owner_ok_def split: option.splits if_splits)
  show "owners_inv s'" unfolding owners_inv_def c w using o owner_ok_take[OF o free] by simp
qed

lemma release_lock_spec:
  assumes "lt_held s t = (l, k) # h" "owners_inv s"
  shows "owners_inv (release_lock t l s)" "lt_held (release_lock t l s) = (lt_held s)(t := h)"
    "lt_ids (release_lock t l s) = lt_ids s" "lt_next (release_lock t l s) = lt_next s" "lt_todo (release_lock t l s) = lt_todo s"
proof -
  let ?s = "release_lock t l s"
  have o: "owner_ok (lt_owner s x) (\<lambda>t. times_held s t x)" for x using assms(2) by (simp add: owners_inv_def)
  have pos: "0 < times_held s t l" using assms(1) by (simp add: times_held_def)
  have own: "lt_owner s l = Some (t, times_held s t l)" using owner_okD[OF o pos] .
  then show f: "lt_held ?s = (lt_held s)(t := h)" "lt_ids ?s = lt_ids s" "lt_next ?s = lt_next s" "lt_todo ?s = lt_todo s"
    using assms(1) by (simp_all add: release_lock_def)
  then have c: "(\<lambda>u. times_held ?s u x) = (if x = l then (\<lambda>u. times_held s u l)(t := times_held s t l - 1) else (\<lambda>u. times_held s u x))" for x
    using assms(1) by (auto simp: times_held_def fun_eq_iff)
  have w: "lt_owner ?s x = (if x = l then if times_held s t l \<le> 1 then None else Some (t, times_held s t l - 1) else lt_owner s x)" for x
    using own by (simp add: release_lock_def)
  show "owners_inv ?s" unfolding owners_inv_def c w using o owner_ok_give[OF o pos]
    by (cases "times_held s t l \<le> 1") simp_all
qed

lemma locks_inv_init: "locks_inv lock_init"
  by (simp add: locks_inv_def lock_init_def ids_inv_def owners_inv_def owner_ok_def held_inv_def times_held_def)

lemma set_todo_fields [simp]:
  "lt_ids (set_todo t p s) = lt_ids s" "lt_next (set_todo t p s) = lt_next s" "lt_owner (set_todo t p s) = lt_owner s"
  "lt_held (set_todo t p s) = lt_held s" "lt_todo (set_todo t p s) = (lt_todo s)(t := p)"
  by (simp_all add: set_todo_def)

text \<open>A step of a thread that leaves the tables in order and has a proper rest.\<close>

lemma locks_inv_intro:
  assumes "locks_inv s" "ids_inv s'" "owners_inv s'" "lt_ids s \<subseteq>\<^sub>m lt_ids s'" "lt_todo s' = (lt_todo s)(t := p)"
    and "lt_held s' = (lt_held s)(t := h)" "todo_wf (lt_ids s') h p" "\<forall>(l, k)\<in>set h. lt_ids s' k = Some l"
  shows "locks_inv s'"
proof -
  have "todo_wf (lt_ids s') (lt_held s' u) (lt_todo s' u)" for u
    using assms(1) todo_wf_mono[OF _ assms(4)] assms(5-7) by (auto simp: locks_inv_def)
  moreover have "held_inv s'"
    unfolding held_inv_def
  proof
    fix u
    show "\<forall>(l, k)\<in>set (lt_held s' u). lt_ids s' k = Some l"
    proof (cases "u = t")
      case False
      with assms(1,4,6) show ?thesis by (fastforce simp: locks_inv_def held_inv_def map_le_def dom_def)
    qed (use assms(6,8) in simp)
  qed
  ultimately show ?thesis using assms(2,3) by (simp add: locks_inv_def)
qed

lemma owners_inv_cong: "lt_owner s' = lt_owner s \<Longrightarrow> lt_held s' = lt_held s \<Longrightarrow> owners_inv s \<Longrightarrow> owners_inv s'"
  by (simp add: owners_inv_def times_held_def)

lemma ids_inv_cong: "lt_ids s' = lt_ids s \<Longrightarrow> lt_next s' = lt_next s \<Longrightarrow> ids_inv s \<Longrightarrow> ids_inv s'"
  by (simp add: ids_inv_def)

lemma locks_inv_step:
  assumes "lock_machine a s = Some s'" "locks_inv s"
  shows "locks_inv s'"
proof -
  from assms(2) have i: "ids_inv s" "owners_inv s" "held_inv s" and w: "\<And>t. todo_wf (lt_ids s) (lt_held s t) (lt_todo s t)"
    by (simp_all add: locks_inv_def)
  have held: "\<forall>(l, k)\<in>set (lt_held s t). lt_ids s k = Some l" for t using i(3) by (simp add: held_inv_def)
  have plain: "locks_inv (set_todo t p s)" if "todo_wf (lt_ids s) (lt_held s t) p" for t p
    by (rule locks_inv_intro[OF assms(2), of _ t p "lt_held s t"])
       (use that i held owners_inv_cong[OF _ _ i(2)] ids_inv_cong[OF _ _ i(1)] in auto)
  show ?thesis
  proof (cases a)
    case (Begin t c)
    then have "s' = set_todo t (map todo_of (call_blocks c)) s" "lt_todo s t = []" using assms(1) by (auto split: if_splits)
    with w[of t] plain[of t] todo_wf_call show ?thesis by simp
  next
    case (Fail t)
    then have "s' = set_todo t (map (\<lambda>(l, k). Do (Release l k)) (lt_held s t)) s"
      using assms(1) by (auto split: list.splits todo.splits lock_step.splits)
    with plain[of t] todo_wf_unwind show ?thesis by simp
  next
    case (Advance t)
    then obtain x rest where x: "lt_todo s t = x # rest" using assms(1) by (cases "lt_todo s t") auto
    note todo = assms(1)[unfolded Advance lock_machine.simps x, simplified]
    have p: "todo_wf (lt_ids s) (lt_held s t) (x # rest)" using w[of t] x by simp
    show ?thesis
    proof (cases x)
      case (Open k bs)
      obtain l s1 where l: "key_lock k s = (l, s1)" by fastforce
      note ks = key_lock_spec[OF l i(1)]
      have s': "s' = set_todo t (Do (Acquire_lock l k) # map todo_of bs @ Do (Release l k) # rest) s1" using todo Open l by simp
      show ?thesis
        by (rule locks_inv_intro[OF assms(2), of _ t _ "lt_held s t"])
           (use s' ks p Open todo_wf_blocks[of k bs "lt_held s t" "lt_ids s1" rest l] todo_wf_mono[OF _ ks(2)] held[of t]
              owners_inv_cong[OF _ _ i(2)] ids_inv_cong[OF _ _ ks(1)] in \<open>auto simp: map_le_def dom_def\<close>)
    next
      case (Do y)
      show ?thesis
      proof (cases y)
        case (Acquire_lock l k)
        then obtain s1 where s1: "acquire_lock t l k s = Some s1" "s' = set_todo t rest s1" using todo Do by auto
        note as = acquire_lock_spec[OF s1(1) i(2)]
        show ?thesis
          by (rule locks_inv_intro[OF assms(2), of _ t rest "(l, k) # lt_held s t"])
             (use s1 as p Do Acquire_lock held[of t] i ids_inv_cong[OF _ _ i(1)] owners_inv_cong[OF _ _ as(1)] in auto)
      next
        case (Work k)
        with todo Do p plain[of t rest] show ?thesis by simp
      next
        case (Remove k)
        with todo Do p plain[of t rest] show ?thesis by simp
      next
        case (Release l k)
        then obtain h where h: "lt_held s t = (l, k) # h" "todo_wf (lt_ids s) h rest" using p Do by (cases "lt_held s t") auto
        note rs = release_lock_spec[OF h(1) i(2)]
        show ?thesis
          by (rule locks_inv_intro[OF assms(2), of _ t rest h])
             (use todo Do Release rs h held[of t] ids_inv_cong[OF _ _ i(1)] owners_inv_cong[OF _ _ rs(1)] in auto)
      next
        case (Try_remove k)
        obtain l s1 where l: "key_lock k s = (l, s1)" by fastforce
        note ks = key_lock_spec[OF l i(1)]
        have o1: "owners_inv s1" using owners_inv_cong[OF ks(4,5) i(2)] .
        show ?thesis
        proof (cases "acquire_lock t l k s1")
          case None
          then have "s' = set_todo t rest s1" using todo Do Try_remove l by simp
          with ks p Do Try_remove todo_wf_mono[OF _ ks(2)] held[of t] o1 show ?thesis
            by (intro locks_inv_intro[OF assms(2), of _ t rest "lt_held s t"])
               (auto simp: map_le_def dom_def intro: owners_inv_cong[OF _ _ o1] ids_inv_cong[OF _ _ ks(1)])
        next
          case (Some s2)
          then have s': "s' = set_todo t (Do (Remove k) # Do (Release l k) # rest) s2" using todo Do Try_remove l by simp
          note as = acquire_lock_spec[OF Some o1]
          from s' ks as p Do Try_remove todo_wf_mono[OF _ ks(2)] held[of t] show ?thesis
            by (intro locks_inv_intro[OF assms(2), of _ t "Do (Remove k) # Do (Release l k) # rest" "(l, k) # lt_held s t"])
               (auto simp: map_le_def dom_def intro: owners_inv_cong[OF _ _ as(1)] ids_inv_cong[OF _ _ ks(1)])
        qed
      qed
    qed
  qed
qed

lemma lock_invariant: "lock_reachable s \<Longrightarrow> locks_inv s"
  by (induction rule: lock_reachable.induct) (auto intro: locks_inv_init locks_inv_step)

section \<open>Properties\<close>

text \<open>A thread is about to work on the entry of a key, or to remove it.\<close>

fun working_on :: "ckey \<Rightarrow> todo list \<Rightarrow> bool" where
  "working_on k (Do (Work j) # p) = (j = k)"
| "working_on k (Do (Remove j) # p) = (j = k)"
| "working_on k p = False"

lemma working_holds:
  assumes "locks_inv s" "working_on k (lt_todo s t)"
  shows "\<exists>l n. lt_ids s k = Some l \<and> lt_owner s l = Some (t, n)"
proof -
  have w: "todo_wf (lt_ids s) (lt_held s t) (lt_todo s t)" using assms(1) by (simp add: locks_inv_def)
  with assms(2) have "k \<in> snd ` set (lt_held s t)" by (cases "(k, lt_todo s t)" rule: working_on.cases) auto
  then obtain l where l: "(l, k) \<in> set (lt_held s t)" by auto
  then have "l \<in> set (map fst (lt_held s t))" by (metis fst_conv image_eqI list.set_map)
  then have "times_held s t l \<noteq> 0" by (simp add: times_held_def count_list_0_iff del: list.set_map)
  moreover have "owner_ok (lt_owner s l) (\<lambda>t. times_held s t l)" using assms(1) by (simp add: locks_inv_def owners_inv_def)
  ultimately have "lt_owner s l = Some (t, times_held s t l)" using owner_okD[of _ "\<lambda>t. times_held s t l"] by simp
  moreover have "lt_ids s k = Some l" using l assms(1) by (auto simp: locks_inv_def held_inv_def)
  ultimately show ?thesis by blast
qed

text \<open>A thread with something left to do can go on unless it waits for a lock another thread has; that one has no other
  lock to wait for.\<close>

lemma owner_goes_on:
  assumes "locks_inv s" "lt_todo s t = Do (Acquire_lock l k) # p" "lt_owner s l = Some (u, n)" "u \<noteq> t"
  shows "\<exists>s'. lock_machine (Advance u) s = Some s'"
proof -
  have w: "todo_wf (lt_ids s) (lt_held s v) (lt_todo s v)" for v using assms(1) by (simp add: locks_inv_def)
  have "owner_ok (lt_owner s l) (\<lambda>t. times_held s t l)" using assms(1) by (simp add: locks_inv_def owners_inv_def)
  then have "0 < times_held s u l" using assms(3) by (auto simp: owner_ok_def)
  then have "l \<in> set (map fst (lt_held s u))" by (auto simp: times_held_def intro: ccontr)
  then obtain k' where k': "(l, k') \<in> set (lt_held s u)" by auto
  have ids: "lt_ids s k = Some l" using w[of t] assms(2) by simp
  moreover have "lt_ids s k' = Some l" using k' assms(1) by (auto simp: locks_inv_def held_inv_def)
  ultimately have "k' = k" using assms(1) unfolding locks_inv_def ids_inv_def by blast
  with k' have k: "(l, k) \<in> set (lt_held s u)" by simp
  then obtain x rest where x: "lt_todo s u = x # rest" using w[of u] by (cases "lt_todo s u") auto
  show ?thesis
  proof (cases x)
    case (Do y)
    show ?thesis
    proof (cases y)
      case (Acquire_lock m j)
      have m: "lt_ids s j = Some m" "snd ` set (lt_held s u) \<subseteq> {j}" using w[of u] x Do Acquire_lock by simp_all
      then have "j = k" using k by auto
      then have "m = l" using m(1) ids by simp
      with assms(3) x Do Acquire_lock show ?thesis by (simp add: acquire_lock_def)
    qed (use x Do in \<open>auto split: prod.split option.split\<close>)
  qed (use x in \<open>auto split: prod.split\<close>)
qed

text \<open>C32: Threads that use the cache at the same time, in every interleaving and with exceptions at any point of the work:
  two threads never work on the same entry, so eviction and purging never remove an entry another operation is
  working on; and they never deadlock: as long as some thread has something left to do, some thread can go on.\<close>

theorem cache_locks_safe:
  assumes "lock_reachable s"
  shows "(\<forall>t u k. working_on k (lt_todo s t) \<and> working_on k (lt_todo s u) \<longrightarrow> t = u)
     \<and> ((\<exists>t. lt_todo s t \<noteq> []) \<longrightarrow> (\<exists>t s'. lock_machine (Advance t) s = Some s'))"
proof (intro conjI allI impI)
  note inv = lock_invariant[OF assms]
  fix t u k
  assume "working_on k (lt_todo s t) \<and> working_on k (lt_todo s u)"
  then show "t = u" using working_holds[OF inv, of k t] working_holds[OF inv, of k u] by auto
next
  note inv = lock_invariant[OF assms]
  assume "\<exists>t. lt_todo s t \<noteq> []"
  then obtain t x rest where x: "lt_todo s t = x # rest" by (meson neq_Nil_conv)
  show "\<exists>t s'. lock_machine (Advance t) s = Some s'"
  proof (cases "\<exists>s'. lock_machine (Advance t) s = Some s'")
    case False
    then obtain l k where y: "x = Do (Acquire_lock l k)" "acquire_lock t l k s = None"
      using x by (cases x; cases "case x of Do y \<Rightarrow> y") (auto split: prod.splits option.splits)
    then obtain u n where "lt_owner s l = Some (u, n)" "u \<noteq> t" by (auto simp: acquire_lock_def split: option.splits if_splits)
    with owner_goes_on[OF inv, of t l k rest u n] x y show ?thesis by blast
  qed blast
qed

fun lock_run :: "cache_action list \<Rightarrow> lock_table \<Rightarrow> lock_table option" where
  "lock_run [] s = Some s"
| "lock_run (a # as) s = (case lock_machine a s of None \<Rightarrow> None | Some s' \<Rightarrow> lock_run as s')"

lemma lock_run_reachable: "lock_run as s = Some s' \<Longrightarrow> lock_reachable s \<Longrightarrow> lock_reachable s'"
  by (induction as arbitrary: s) (auto split: option.splits intro: lock_reachable.step)

text \<open>Two threads that ask for the same entry: the second waits, and some thread can go on.\<close>

definition two_resolves :: "cache_action list" where
  "two_resolves = [Begin 0 (Resolve ''a'' (Some [''b''])), Begin 1 (Resolve ''a'' None), Advance 0, Advance 1, Advance 0]"

theorem cache_locks_safe_witness:
  "\<exists>s. lock_run two_resolves lock_init = Some s \<and> working_on ''a'' (lt_todo s 0) \<and> lock_machine (Advance 1) s = None
     \<and> \<not> working_on ''a'' (lt_todo s 1) \<and> (\<exists>t s'. lock_machine (Advance t) s = Some s')"
proof -
  obtain s where s: "lock_run two_resolves lock_init = Some s" "working_on ''a'' (lt_todo s 0)" "lock_machine (Advance 1) s = None"
    by (simp add: two_resolves_def lock_init_def key_lock_def acquire_lock_def set_todo_def)
  note safe = cache_locks_safe[OF lock_run_reachable[OF s(1) lock_reachable.start]]
  have "lt_todo s 0 \<noteq> []" using s(2) by auto
  with safe have "\<exists>t s'. lock_machine (Advance t) s = Some s'" by blast
  moreover have "\<not> working_on ''a'' (lt_todo s 1)" using safe s(2) zero_neq_one by blast
  ultimately show ?thesis using s by blast
qed

end
