(* ===== verification/OnceInit.thy ===== *)
theory OnceInit
  imports Prelude
begin

text \<open>
  Initialisation on first use, by threads at the same time: \<^verbatim>\<open>_ensure_cache_root\<close> of \<^verbatim>\<open>app/modules/judge/file_cache.py\<close> and
  \<^verbatim>\<open>_ensure_storage\<close> of \<^verbatim>\<open>data_loader.py\<close>. Both look at a variable, take a lock, look again and initialise; an exception
  releases the lock and leaves the variable as it was.
\<close>

datatype once_pc = Outside | Wants_lock | Inside | Initialised | Raised exn

record 'v once =
  on_value :: "'v option"
  on_lock :: "nat option"
  on_pc :: "nat \<Rightarrow> once_pc"
  on_attempts :: nat
  on_successes :: nat

definition once_start :: "'v once" where
  "once_start = \<lparr>on_value = None, on_lock = None, on_pc = (\<lambda>_. Outside), on_attempts = 0, on_successes = 0\<rparr>"

datatype once_action = Look nat | Take_lock nat | Initialise nat | Return nat

text \<open>\<open>init\<close> is what the n-th attempt gives.\<close>

definition initialise :: "(nat \<Rightarrow> 'v res) \<Rightarrow> nat \<Rightarrow> 'v once \<Rightarrow> 'v once" where
  "initialise init t s =
     (case on_value s of
        Some v \<Rightarrow> s\<lparr>on_lock := None, on_pc := (on_pc s)(t := Initialised)\<rparr>
      | None \<Rightarrow>
          (case init (on_attempts s) of
             Inl e \<Rightarrow> s\<lparr>on_attempts := on_attempts s + 1, on_lock := None, on_pc := (on_pc s)(t := Raised e)\<rparr>
           | Inr v \<Rightarrow> s\<lparr>on_value := Some v, on_attempts := on_attempts s + 1, on_successes := on_successes s + 1, on_lock := None,
                        on_pc := (on_pc s)(t := Initialised)\<rparr>))"

fun once_step :: "(nat \<Rightarrow> 'v res) \<Rightarrow> once_action \<Rightarrow> 'v once \<Rightarrow> 'v once option" where
  "once_step init (Look t) s =
     (if on_pc s t = Outside
      then Some (s\<lparr>on_pc := (on_pc s)(t := if on_value s = None then Wants_lock else Initialised)\<rparr>) else None)"
| "once_step init (Take_lock t) s =
     (if on_pc s t = Wants_lock \<and> on_lock s = None
      then Some (s\<lparr>on_lock := Some t, on_pc := (on_pc s)(t := Inside)\<rparr>) else None)"
| "once_step init (Initialise t) s = (if on_pc s t = Inside then Some (initialise init t s) else None)"
| "once_step init (Return t) s =
     (case on_pc s t of
        Initialised \<Rightarrow> Some (s\<lparr>on_pc := (on_pc s)(t := Outside)\<rparr>)
      | Raised e \<Rightarrow> Some (s\<lparr>on_pc := (on_pc s)(t := Outside)\<rparr>)
      | _ \<Rightarrow> None)"

inductive once_reachable :: "(nat \<Rightarrow> 'v res) \<Rightarrow> 'v once \<Rightarrow> bool" for init where
  start: "once_reachable init once_start"
| step: "once_reachable init s \<Longrightarrow> once_step init a s = Some s' \<Longrightarrow> once_reachable init s'"

text \<open>The two uses: the root directory is created, the storage client is built.\<close>

definition ensure_cache_root_step :: "(nat \<Rightarrow> unit res) \<Rightarrow> once_action \<Rightarrow> unit once \<Rightarrow> unit once option" where
  "ensure_cache_root_step mkdir = once_step mkdir"

definition ensure_storage_step :: "(nat \<Rightarrow> 'v res) \<Rightarrow> once_action \<Rightarrow> 'v once \<Rightarrow> 'v once option" where
  "ensure_storage_step get_storage = once_step get_storage"

section \<open>Facts\<close>

definition once_inv :: "'v once \<Rightarrow> bool" where
  "once_inv s = ((\<forall>t. on_pc s t = Inside \<longleftrightarrow> on_lock s = Some t) \<and> (\<forall>t. on_pc s t = Initialised \<longrightarrow> on_value s \<noteq> None)
     \<and> on_successes s = (if on_value s = None then 0 else 1))"

lemma once_inv_pc:
  assumes "once_inv s" "on_pc s t \<noteq> Inside" "p \<noteq> Inside" "p = Initialised \<longrightarrow> on_value s \<noteq> None"
  shows "once_inv (s\<lparr>on_pc := (on_pc s)(t := p)\<rparr>)"
proof -
  have "on_lock s \<noteq> Some t" using assms(1,2) by (auto simp: once_inv_def)
  with assms show ?thesis by (auto simp: once_inv_def)
qed

lemma once_inv_step:
  assumes "once_step init a s = Some s'" "once_inv s"
  shows "once_inv s'"
proof (cases a)
  case (Look t)
  with assms once_inv_pc[OF assms(2), of t] show ?thesis by (auto split: if_splits)
next
  case (Return t)
  with assms once_inv_pc[OF assms(2), of t Outside] show ?thesis by (cases "on_pc s t") auto
qed (use assms in \<open>auto simp: once_inv_def initialise_def split: if_splits option.splits sum.splits\<close>)

lemma once_invariant: "once_reachable init s \<Longrightarrow> once_inv s"
proof (induction rule: once_reachable.induct)
  case start
  show ?case by (simp add: once_inv_def once_start_def)
qed (rule once_inv_step)

text \<open>The initialisation succeeds at most once, a caller that returned without an exception finds the value, and the value
  never changes.\<close>

lemma once_value_stays: "once_step init a s = Some s' \<Longrightarrow> on_value s = Some v \<Longrightarrow> on_value s' = Some v"
  by (cases a) (auto simp: initialise_def split: if_splits option.splits once_pc.splits)

lemma initialised_once:
  assumes "once_reachable init s"
  shows "on_successes s \<le> 1" "on_pc s t = Initialised \<Longrightarrow> on_value s \<noteq> None"
    "on_pc s t = Inside \<Longrightarrow> on_pc s u = Inside \<Longrightarrow> t = u"
  using once_invariant[OF assms] by (auto simp: once_inv_def)

end
