(* ===== verification/Spec2Isabelle.thy ===== *)
theory Spec2Isabelle
  imports Orchestrator CacheEviction Transport ModuleSystem PermissionRegistry RequestAuth OperationAudit Policies ProcessGroup
    Logging Lifespan CeleryApp
    ObjectStore AsyncRunner ResponseTimes Openapi CacheKeys Mail AppFactory CacheLocks OnceInit
begin

text \<open>
  Verification of the judge worker \<^verbatim>\<open>acoj-worker\<close>, a Python 3.11 service. A Celery task takes a submission,
  fetches the test data, compiles and runs the program in a sandbox and returns verdicts and a score. Around it stands
  the platform of the service: object storage, modules, sessions, captchas, permissions, rate limits and an audit queue.

  \<^bold>\<open>Conventions.\<close> A Python \<^verbatim>\<open>int\<close> is an \<open>int\<close>, a \<^verbatim>\<open>float\<close> a rational rounded to binary64 after every operation
  (\<open>PyFloat\<close>), a \<^verbatim>\<open>str\<close> whose non-ASCII characters matter a list of code points (\<open>ptext\<close>) and otherwise a \<open>string\<close>, and
  \<^verbatim>\<open>bytes\<close> a list of numbers. A dictionary key of a request is absent, null or has a value (\<open>Schemas\<close>), because the
  code reads the raw dictionary. An exception is an \<open>Inl\<close>; every raise and early return of the source is a branch. State
  is passed explicitly: the cache directory is a finite map from paths to contents, the state of a judge run is the
  record \<open>world\<close> with the log of resources acquired and released, Redis is a state of type \<open>'s\<close> with time-dependent reads.
  Calls of the loggers are left out, except where logging is the subject.

  \<^bold>\<open>Code outside the repository\<close> is an argument: the sandbox package (\<open>sandbox\<close> in \<open>judge_env\<close>, whose answers may
  depend on the whole history of calls), remote storage clients, Redis (\<open>redis\<close>, laws \<open>redis_ok\<close>), bcrypt (\<open>bcrypt_ok\<close>), RSA
  (\<open>rsa_ok\<close>), zlib compression, random draws, the clock, the environment, the import system and address parsing. Theorems
  that need a law of such code have it as a hypothesis, and its witness uses a concrete instance (\<open>redis_impl\<close>,
  \<open>echo_storage\<close>, \<open>demo_env\<close>, \<open>demo_bcrypt\<close>, \<open>demo_rsa\<close>). What the worker uses of the standard library is defined: SHA-256,
  UTF-8 with replacement, shlex, base64, CRC-32, path resolution, white space and newline handling.

  \<^bold>\<open>The judge\<close> (\<^verbatim>\<open>app/modules/judge\<close>), from data to task.
  \<^item> \<open>Schemas\<close>: \<^verbatim>\<open>schemas.py\<close>, the records of the protocol and their validation. \<open>ResultMapper\<close>: \<^verbatim>\<open>result_mapper.py\<close>
    and \<^verbatim>\<open>metrics.py\<close>. \<open>JudgeConfig\<close>: \<^verbatim>\<open>config.py\<close>.
  \<^item> \<open>Scoring\<close>: \<^verbatim>\<open>scoring.py\<close>. The four passes over batches refine a declarative specification, keep the cases and are
    monotone in the results.
  \<^item> \<open>Checker\<close> over \<open>PyText\<close>: \<^verbatim>\<open>checker.py\<close>. Chunked comparison of files equals comparison of stripped texts.
  \<^item> \<open>FileCache\<close>: \<^verbatim>\<open>file_cache.py\<close>, with \<open>Sha256\<close>. \<open>CacheSafety\<close> states the laws of the file store and what an invariant of
    the cache has to satisfy as locales, interpreted on the model for three invariants; \<open>CacheEviction\<close> shows what
    eviction removes. A file served for a digest has that digest.
  \<^item> \<open>LanguageConfig\<close> over \<open>Shlex\<close>: \<^verbatim>\<open>language_config.py\<close>. \<open>SandboxConfig\<close>: \<^verbatim>\<open>sandbox_config.py\<close>, isolation and one-time
    effects. \<open>DataLoader\<close>: \<^verbatim>\<open>data_loader.py\<close> and \<^verbatim>\<open>case_builder.py\<close>, digests checked.
  \<^item> \<open>JudgeMonad\<close>: worlds, exceptions and the sandbox calls. \<open>JudgeContract\<close>: the locale \<open>judge_mode\<close>, what a mode promises
    (a well-formed result with the submission's id, resources given back). \<open>StandardMode\<close>, \<open>SpjMode\<close> and \<open>InteractiveMode\<close> model
    \<^verbatim>\<open>modes/*.py\<close>, interpret the locale and show verdicts, scores and one result per case.
  \<^item> \<open>Orchestrator\<close>: \<^verbatim>\<open>orchestrator.py\<close>, \<^verbatim>\<open>tasks.py\<close> and \<^verbatim>\<open>celery_setup.py\<close>. The judge is total, turns exceptions into results
    and releases what it acquires; the task accepts exactly the valid requests.

  \<^bold>\<open>Concurrency.\<close> Operations of the cache are functions on its file tree, one at a time per entry: \<open>CacheLocks\<close> models the locks of
  \<^verbatim>\<open>file_cache.py\<close> as a machine of threads and shows that no two threads work on one entry and that they never deadlock;
  \<open>OnceInit\<close> is the initialisation on first use. \<open>AsyncRunner\<close>: the event loop of \<^verbatim>\<open>platform/tasks/async_runner.py\<close>, with the
  race that creates two loops. \<open>OperationAudit\<close>, \<open>ConfigSync\<close>, \<open>Metrics\<close> and \<open>LogFile\<close> below are step relations or runs too.

  \<^bold>\<open>The platform\<close>.
  \<^item> \<open>Settings\<close>: the classes of \<^verbatim>\<open>core/config/settings.py\<close> with their defaults.
  \<^item> \<open>Storage\<close>: paths, provider selection and client cache of \<^verbatim>\<open>platform/storage\<close>, and \<^verbatim>\<open>platform/config/reader.py\<close>. \<open>StorageUrl\<close>:
    \<^verbatim>\<open>url.py\<close> over the functions of \<^verbatim>\<open>urllib.parse\<close> it uses; names and URLs round-trip. \<open>ObjectStore\<close>: every method of the local,
    S3 and OSS storages; the locale \<open>object_store\<close> is the contract of a storage, a refinement of a map, and the local storage on a
    tree of files and directories is its interpretation.
  \<^item> \<open>Json\<close>: reading and writing JSON. \<open>Config\<close>: \<^verbatim>\<open>config/coerce.py\<close>, \<^verbatim>\<open>crypto.py\<close>, \<^verbatim>\<open>apply.py\<close> and module settings; a reload gives
    a setting the value its stored text denotes, with its type. \<open>ConfigSync\<close>: \<^verbatim>\<open>config/sync.py\<close> in a cluster of processes,
    where what a process received is what was published while it was subscribed, each once.
  \<^item> \<open>ModuleSystem\<close>: \<^verbatim>\<open>platform/module\<close>, \<^verbatim>\<open>platform/interfaces\<close> and \<^verbatim>\<open>platform/events.py\<close>. The dependency sort is correct and
    hooks run in its order.
  \<^item> \<open>Session\<close>: \<^verbatim>\<open>core/security/session.py\<close>, with the runs of session operations as an inductive predicate and the invariant
    between tokens and indexes. \<open>CacheKeys\<close>: \<^verbatim>\<open>platform/cache/keys.py\<close> and \<^verbatim>\<open>token.py\<close>; keys of different kinds differ.
    \<open>RequestAuth\<close>: \<^verbatim>\<open>deps/auth.py\<close>, \<^verbatim>\<open>client_ip.py\<close> and the permission, account type and data scope checks. Revoked accounts
    are locked out.
  \<^item> \<open>Raster\<close>, \<open>Base64\<close> and \<open>Transport\<close>: \<^verbatim>\<open>core/security/transport.py\<close> and \<^verbatim>\<open>password.py\<close>. Captchas and keys work once; the PNG
    reads back to the drawn glyphs.
  \<^item> \<open>PermissionRegistry\<close>, \<open>RateLimit\<close>, \<open>OperationAudit\<close>, \<open>Policies\<close>: \<^verbatim>\<open>permission_registry.py\<close>, \<^verbatim>\<open>middleware/rate_limit.py\<close>,
    \<^verbatim>\<open>middleware/operation_audit.py\<close> with \<^verbatim>\<open>platform/audit/queue.py\<close> (a step relation whose interleavings conserve
    events), and password policy, masking, pagination and instance numbers.
  \<^item> \<open>HttpPipeline\<close>: the middleware of \<^verbatim>\<open>app/middleware\<close> around a request, over an explicit world of context variables, metrics,
    limiter, audit queue and access log, nested the way \<^verbatim>\<open>app/factory.py\<close> adds it. \<open>AppFactory\<close>: the construction of the
    application. \<open>Lifespan\<close>: \<^verbatim>\<open>app/lifespan.py\<close>, start and shutdown stage by stage.
  \<^item> \<open>Errors\<close> and \<open>Openapi\<close>: \<^verbatim>\<open>core/exceptions\<close>, the responses to exceptions and their place in the API description.
    \<open>ResponseTimes\<close>: \<^verbatim>\<open>core/schema\<close>, times in UTC over the calendar of the standard library; the text of a time reads back.
  \<^item> \<open>Metrics\<close>: \<^verbatim>\<open>observability/metrics.py\<close>, the pool metrics and the tracked task. \<open>LogFile\<close> and \<open>Logging\<close>: \<^verbatim>\<open>core/logger\<close> and tracing;
    rotation loses no line, and a JSON record reads back. \<open>Mail\<close>: \<^verbatim>\<open>platform/email/sender.py\<close>.
  \<^item> \<open>CeleryApp\<close>: the Celery application and its schedules. \<open>ProcessGroup\<close>: \<^verbatim>\<open>platform/runtime/process_group.py\<close>, commands and
    supervision of child processes; none is left running.

  \<^bold>\<open>Further parameters.\<close> How Starlette nests middleware and what \<^verbatim>\<open>call_next\<close> shows of context variables, its CORS middleware,
  Fernet, publish and subscribe of Redis, FastAPI's description of the routes, pydantic's validation, the packages boto3 and oss2,
  httpx, OpenTelemetry, the SMTP server, the checks of host names in \<^verbatim>\<open>urllib\<close> beyond balanced brackets, and what child processes do.

  \<^bold>\<open>Termination and bounds.\<close> Every definition but one is total. The Bresenham loop of the captcha, a \<^verbatim>\<open>while True\<close>, is a
  \<open>partial_function\<close> into options, and \<open>draw_line_correct\<close> proves that it always returns. No fuel is used: the
  dependency sort recurses on the modules not yet on the path, the readers on the text left, the search of a year on the
  days that remain. Pagination is exact below \<open>2 ^ 53\<close>, the range in which integers are floats; the PNG theorem assumes that
  compressed data is shorter than \<open>2 ^ 32\<close> bytes, the range of a chunk length.

  \<^bold>\<open>Not modelled.\<close> Reading the environment into the settings (pydantic-settings), generation of snowflake ids (a package), the
  enumerations nothing reads, response envelopes and protocol classes, which have no behaviour, entry points, and the scripts
  under \<^verbatim>\<open>scripts\<close>, which measure a deployment. Symbolic links in storage and cache directories, and Redis clients without
  pipelines, are outside the models.
\<close>

section \<open>Properties that span components\<close>


definition remote_demo_env :: judge_env where
  "remote_demo_env = demo_env\<lparr>je_storage := Remote_data echo_storage\<rparr>"


end
